(* ===== verification/Zyre_Prelude.thy ===== *)
theory Zyre_Prelude
  imports Main "HOL-Library.Word" "HOL-Library.Multiset" "HOL-Library.List_Lexorder"
    "HOL-Library.Char_ord"
begin

text \<open>
  The vocabulary every component shares: the collections of simplification and
  introduction rules, the outcome of a C function that may abort or misuse memory, C strings and
  octets, and the CZMQ dictionary and list containers as far as their interface is documented.
\<close>

unbundle bit_operations_syntax

section \<open>Collections\<close>

named_theorems zyre_simps "unfolding of the small accessors and setters of the model"
named_theorems keeps "rules that an operation keeps an invariant"

section \<open>Outcomes\<close>

text \<open>
  A C function either returns or does something the language leaves undefined or the
  runtime stops: an \<open>assert\<close> fails, a null pointer is followed, a freed object is used, a
  fixed buffer is overrun, or a number is divided by zero. Each of these is a value.
\<close>

datatype fault = Assertion_failed | Null_deref | Use_after_free | Buffer_overflow | Division_by_zero

type_synonym 'a outcome = "fault + 'a"

definition and_then :: "'a outcome \<Rightarrow> ('a \<Rightarrow> 'b outcome) \<Rightarrow> 'b outcome" where
  "and_then m f = (case m of Inl e \<Rightarrow> Inl e | Inr x \<Rightarrow> f x)"

definition assert_that :: "bool \<Rightarrow> 'a outcome \<Rightarrow> 'a outcome" where
  "assert_that b m = (if b then m else Inl Assertion_failed)"

definition not_null :: "'a option \<Rightarrow> 'a outcome" where
  "not_null p = (case p of None \<Rightarrow> Inl Null_deref | Some x \<Rightarrow> Inr x)"

fun each :: "('a \<Rightarrow> 's \<Rightarrow> 's outcome) \<Rightarrow> 'a list \<Rightarrow> 's \<Rightarrow> 's outcome" where
  "each f [] s = Inr s"
| "each f (x # xs) s = and_then (f x s) (each f xs)"

lemma and_then_simps [simp]:
  "and_then (Inl e) f = Inl e"
  "and_then (Inr x) f = f x"
  by (simp_all add: and_then_def)

lemma and_then_eq_Inr [simp]:
  "and_then m f = Inr y \<longleftrightarrow> (\<exists>x. m = Inr x \<and> f x = Inr y)"
  by (cases m) auto

lemma and_then_assoc: "and_then (and_then m f) g = and_then m (\<lambda>x. and_then (f x) g)"
  by (cases m) auto

lemma and_then_cong [fundef_cong]:
  assumes "m = m'" and "\<And>x. m' = Inr x \<Longrightarrow> f x = f' x"
  shows "and_then m f = and_then m' f'"
  using assms by (cases m') auto

lemma assert_that_simps [simp]:
  "assert_that True m = m"
  "assert_that False m = Inl Assertion_failed"
  "assert_that b m = Inr y \<longleftrightarrow> b \<and> m = Inr y"
  by (auto simp: assert_that_def)

lemma not_null_simps [simp]:
  "not_null None = Inl Null_deref"
  "not_null (Some x) = Inr x"
  "not_null p = Inr y \<longleftrightarrow> p = Some y"
  by (auto simp: not_null_def split: option.splits)

text \<open>
  Two readings of a postcondition. \<open>ensures\<close>: if the call returns, the result satisfies
  it. \<open>yields\<close>: the call returns, and the result satisfies it.
\<close>

definition ensures :: "'a outcome \<Rightarrow> ('a \<Rightarrow> bool) \<Rightarrow> bool" where
  "ensures m Q \<longleftrightarrow> (\<forall>x. m = Inr x \<longrightarrow> Q x)"

definition yields :: "'a outcome \<Rightarrow> ('a \<Rightarrow> bool) \<Rightarrow> bool" where
  "yields m Q \<longleftrightarrow> (\<exists>x. m = Inr x \<and> Q x)"

lemma ensures_simps [simp]:
  "ensures (Inr x) Q = Q x"
  "ensures (Inl e) Q"
  by (simp_all add: ensures_def)

lemma yields_simps [simp]:
  "yields (Inr x) Q = Q x"
  "\<not> yields (Inl e) Q"
  by (simp_all add: yields_def)

lemma yields_ensures: "yields m Q \<Longrightarrow> ensures m Q"
  by (auto simp: yields_def ensures_def)

lemma ensuresD: "ensures m Q \<Longrightarrow> m = Inr x \<Longrightarrow> Q x"
  by (simp add: ensures_def)

lemma ensures_weaken: "ensures m P \<Longrightarrow> (\<And>x. P x \<Longrightarrow> Q x) \<Longrightarrow> ensures m Q"
  by (auto simp: ensures_def)

lemma yields_weaken: "yields m P \<Longrightarrow> (\<And>x. P x \<Longrightarrow> Q x) \<Longrightarrow> yields m Q"
  by (auto simp: yields_def)

lemma ensures_and_then:
  "ensures m P \<Longrightarrow> (\<And>x. P x \<Longrightarrow> ensures (f x) Q) \<Longrightarrow> ensures (and_then m f) Q"
  by (auto simp: ensures_def)

lemma yields_and_then:
  "yields m P \<Longrightarrow> (\<And>x. P x \<Longrightarrow> yields (f x) Q) \<Longrightarrow> yields (and_then m f) Q"
  by (auto simp: yields_def)

lemma ensures_and_then2:
  assumes "ensures m (\<lambda>(a, s). P a s)" and "\<And>a s. P a s \<Longrightarrow> ensures (f a s) Q"
  shows "ensures (and_then m (\<lambda>(a, s). f a s)) Q"
  using assms(1) by (rule ensures_and_then) (auto intro: assms(2))

lemma ensures_assert_that: "(b \<Longrightarrow> ensures m Q) \<Longrightarrow> ensures (assert_that b m) Q"
  by (cases b) auto

lemma ensures_if: "(b \<Longrightarrow> ensures m Q) \<Longrightarrow> (\<not> b \<Longrightarrow> ensures n Q) \<Longrightarrow> ensures (if b then m else n) Q"
  by simp

lemma ensures_not_null: "(\<And>x. p = Some x \<Longrightarrow> Q x) \<Longrightarrow> ensures (not_null p) Q"
  by (auto simp: ensures_def)

text \<open>A loop keeps what its body keeps.\<close>

lemma ensures_each:
  assumes "I s" and "\<And>x s. x \<in> set xs \<Longrightarrow> I s \<Longrightarrow> ensures (f x s) I"
  shows "ensures (each f xs s) I"
  using assms
proof (induction xs arbitrary: s)
  case (Cons x xs)
  have "ensures (f x s) I" using Cons.prems by simp
  then show ?case by (auto intro!: ensures_and_then Cons.IH Cons.prems(2))
qed simp

lemma yields_each:
  assumes "I s" and "\<And>x s. x \<in> set xs \<Longrightarrow> I s \<Longrightarrow> yields (f x s) I"
  shows "yields (each f xs s) I"
  using assms
proof (induction xs arbitrary: s)
  case (Cons x xs)
  have "yields (f x s) I" using Cons.prems by simp
  then show ?case by (auto intro!: yields_and_then Cons.IH Cons.prems(2))
qed simp

lemma each_append: "each f (xs @ ys) s = and_then (each f xs s) (each f ys)"
  by (induction xs arbitrary: s) (simp_all add: and_then_assoc cong: and_then_cong)

lemma each_map: "each f (map g xs) s = each (f \<circ> g) xs s"
  by (induction xs arbitrary: s) (auto simp: and_then_def split: sum.split)

section \<open>Invariants of runs\<close>

text \<open>What holds initially and is kept by every step holds along every run.\<close>

locale invariant_of =
  fixes initial :: "'s \<Rightarrow> bool" and step :: "'s \<Rightarrow> 's \<Rightarrow> bool" and inv :: "'s \<Rightarrow> bool"
  assumes inv_initial: "initial s \<Longrightarrow> inv s"
    and inv_step: "step s t \<Longrightarrow> inv s \<Longrightarrow> inv t"
begin

lemma inv_steps: "step\<^sup>*\<^sup>* s t \<Longrightarrow> inv s \<Longrightarrow> inv t"
  by (induction rule: rtranclp_induct) (auto intro: inv_step)

lemma inv_run: "initial s \<Longrightarrow> step\<^sup>*\<^sup>* s t \<Longrightarrow> inv t"
  using inv_initial inv_steps by blast

end

end
