(* ===== verification/C_Strings.thy ===== *)
theory C_Strings
  imports Zyre_Prelude
begin

text \<open>
  Octets, C strings and the few functions of the C library the program calls on them. A C string
  is its characters before the terminating NUL, so a \<open>string\<close> stands for one exactly when it
  holds no NUL.
\<close>

type_synonym byte = "8 word"

section \<open>Characters and octets\<close>

definition char_byte :: "char \<Rightarrow> byte" where
  "char_byte c = of_nat (of_char c)"

definition byte_char :: "byte \<Rightarrow> char" where
  "byte_char b = char_of (unat b)"

lemma byte_char_inverse [simp]: "byte_char (char_byte c) = c"
  by (simp add: char_byte_def byte_char_def unat_of_nat)

lemma char_byte_inverse [simp]: "char_byte (byte_char b) = b"
proof -
  have "unat b mod 256 = unat b"
    using unsigned_less [of b, where 'a = nat] by simp
  then show ?thesis
    by (simp add: char_byte_def byte_char_def)
qed

lemma char_byte_eq [simp]: "char_byte c = char_byte d \<longleftrightarrow> c = d"
  by (metis byte_char_inverse)

lemma char_byte_zero [simp]: "char_byte c = 0 \<longleftrightarrow> c = CHR 0x00"
proof -
  have "char_byte (CHR 0x00) = 0" by (simp add: char_byte_def)
  then show ?thesis by (metis byte_char_inverse)
qed

section \<open>C strings\<close>

definition c_string :: "string \<Rightarrow> bool" where
  "c_string s \<longleftrightarrow> (\<forall>c \<in> set s. c \<noteq> CHR 0x00)"

definition str_bytes :: "string \<Rightarrow> byte list" where
  "str_bytes s = map char_byte s"

text \<open>The C string that starts at an array of octets (with a NUL written after its end).\<close>

definition cstr :: "byte list \<Rightarrow> string" where
  "cstr bs = map byte_char (takeWhile (\<lambda>b. b \<noteq> 0) bs)"

lemma length_str_bytes [simp]: "length (str_bytes s) = length s"
  by (simp add: str_bytes_def)

lemma str_bytes_Nil [simp]: "str_bytes [] = []"
  by (simp add: str_bytes_def)

lemma str_bytes_inject [simp]: "str_bytes s = str_bytes t \<longleftrightarrow> s = t"
  by (auto simp: str_bytes_def inj_map_eq_map inj_on_def)

lemma c_string_Nil [simp]: "c_string []"
  by (simp add: c_string_def)

lemma c_string_append [simp]: "c_string (s @ t) \<longleftrightarrow> c_string s \<and> c_string t"
  by (auto simp: c_string_def)

lemma c_string_take: "c_string s \<Longrightarrow> c_string (take n s)"
  by (auto simp: c_string_def dest: in_set_takeD)

lemma cstr_str_bytes [simp]:
  assumes "c_string s"
  shows "cstr (str_bytes s) = s"
proof -
  have "takeWhile (\<lambda>b. b \<noteq> 0) (map char_byte s) = map char_byte s"
    using assms by (subst takeWhile_eq_all_conv) (auto simp: c_string_def)
  then have "cstr (str_bytes s) = map (byte_char \<circ> char_byte) s"
    by (simp only: cstr_def str_bytes_def map_map)
  then show ?thesis by (simp add: comp_def)
qed

lemma c_string_cstr [simp]: "c_string (cstr bs)"
proof -
  have "byte_char b \<noteq> CHR 0x00" if "b \<noteq> 0" for b
    using that by (metis char_byte_inverse char_byte_zero)
  then show ?thesis
    by (auto simp: c_string_def cstr_def dest: set_takeWhileD)
qed

lemma length_cstr_le: "length (cstr bs) \<le> length bs"
  by (simp add: cstr_def length_takeWhile_le)

section \<open>strcmp\<close>

text \<open>Octets compare as unsigned; a string that ends first is smaller.\<close>

fun strcmp :: "string \<Rightarrow> string \<Rightarrow> int" where
  "strcmp [] [] = 0"
| "strcmp [] (d # ds) = - int (of_char d)"
| "strcmp (c # cs) [] = int (of_char c)"
| "strcmp (c # cs) (d # ds) =
     (if c = d then strcmp cs ds else int (of_char c) - int (of_char d))"

definition streq :: "string \<Rightarrow> string \<Rightarrow> bool" where
  "streq a b \<longleftrightarrow> strcmp a b = 0"

lemma of_char_nat_pos [simp]: "0 < (of_char c :: nat) \<longleftrightarrow> c \<noteq> CHR 0x00"
proof -
  have "(of_char (CHR 0x00) :: nat) = 0" by simp
  then have "(of_char c :: nat) = 0 \<longleftrightarrow> c = CHR 0x00"
    by (metis of_char_eq_iff)
  then show ?thesis by (simp add: zero_less_iff_neq_zero)
qed

lemma strcmp_zero: "c_string a \<Longrightarrow> c_string b \<Longrightarrow> strcmp a b = 0 \<longleftrightarrow> a = b"
  by (induction a b rule: strcmp.induct) (simp_all add: c_string_def)

lemma strcmp_less: "c_string a \<Longrightarrow> c_string b \<Longrightarrow> strcmp a b < 0 \<longleftrightarrow> a < b"
  by (induction a b rule: strcmp.induct)
    (simp_all add: c_string_def less_char_def del: less_char_simp)

lemma streq_iff: "c_string a \<Longrightarrow> c_string b \<Longrightarrow> streq a b \<longleftrightarrow> a = b"
  by (simp add: streq_def strcmp_zero)

lemma streq_refl [simp]: "streq a a"
proof -
  have "strcmp a a = 0" by (induction a) auto
  then show ?thesis by (simp add: streq_def)
qed

text \<open>A comparison for equality needs no arithmetic on the characters.\<close>

lemma streq_code [code, simp]:
  "streq [] [] \<longleftrightarrow> True"
  "streq [] (d # ds) \<longleftrightarrow> d = CHR 0x00"
  "streq (c # cs) [] \<longleftrightarrow> c = CHR 0x00"
  "streq (c # cs) (d # ds) \<longleftrightarrow> c = d \<and> streq cs ds"
proof -
  have zero: "(of_char c :: nat) = 0 \<longleftrightarrow> c = CHR 0x00" for c
    using of_char_nat_pos [of c] by (metis not_gr_zero)
  show "streq [] [] \<longleftrightarrow> True" "streq [] (d # ds) \<longleftrightarrow> d = CHR 0x00" "streq (c # cs) [] \<longleftrightarrow> c = CHR 0x00"
    by (simp_all add: streq_def zero)
  show "streq (c # cs) (d # ds) \<longleftrightarrow> c = d \<and> streq cs ds"
    by (simp add: streq_def)
qed

section \<open>atoi, %d and strchr\<close>

definition is_space :: "char \<Rightarrow> bool" where
  "is_space c \<longleftrightarrow> c \<in> {CHR '' '', CHR 0x09, CHR 0x0A, CHR 0x0B, CHR 0x0C, CHR 0x0D}"

definition is_digit :: "char \<Rightarrow> bool" where
  "is_digit c \<longleftrightarrow> 48 \<le> (of_char c :: nat) \<and> (of_char c :: nat) \<le> 57"

definition digits_value :: "string \<Rightarrow> int" where
  "digits_value s = foldl (\<lambda>v c. 10 * v + (of_char c - 48)) 0 (takeWhile is_digit s)"

text \<open>The value of a numeral that the result type holds; beyond it C leaves \<open>atoi\<close> undefined.\<close>

definition c_atoi :: "string \<Rightarrow> int" where
  "c_atoi s = (case dropWhile is_space s of
     [] \<Rightarrow> 0
   | c # cs \<Rightarrow> if c = CHR ''-'' then - digits_value cs
              else if c = CHR ''+'' then digits_value cs
              else digits_value (c # cs))"

fun dec_digits :: "nat \<Rightarrow> string" where
  "dec_digits n = (if n < 10 then [char_of (48 + n)]
                   else dec_digits (n div 10) @ [char_of (48 + n mod 10)])"

definition c_dec :: "int \<Rightarrow> string" where
  "c_dec i = (if i < 0 then CHR ''-'' # dec_digits (nat (- i)) else dec_digits (nat i))"

declare dec_digits.simps [simp del]

definition c_strchr :: "string \<Rightarrow> char \<Rightarrow> (string \<times> string) option" where
  "c_strchr s c = (if c \<in> set s
     then Some (takeWhile (\<lambda>d. d \<noteq> c) s, dropWhile (\<lambda>d. d \<noteq> c) s) else None)"

lemma dec_digits_digits: "c \<in> set (dec_digits n) \<Longrightarrow> is_digit c"
proof (induction n rule: dec_digits.induct)
  case (1 n)
  have *: "is_digit (char_of (48 + k))" if "k < 10" for k :: nat
    using that by (simp add: is_digit_def)
  show ?case
  proof (cases "n < 10")
    case True
    then show ?thesis using "1.prems" * by (simp add: dec_digits.simps [of n])
  next
    case False
    then show ?thesis using 1 * by (auto simp: dec_digits.simps [of n])
  qed
qed

lemma digits_value_snoc:
  assumes "\<forall>c \<in> set s. is_digit c" and "is_digit d"
  shows "digits_value (s @ [d]) = 10 * digits_value s + (of_char d - 48)"
proof -
  have "takeWhile is_digit (s @ [d]) = s @ [d]" and "takeWhile is_digit s = s"
    using assms by (simp_all add: takeWhile_eq_all_conv)
  then show ?thesis unfolding digits_value_def by (simp only: foldl_append foldl.simps)
qed

lemma digits_value_dec_digits: "digits_value (dec_digits n) = int n"
proof (induction n rule: dec_digits.induct)
  case (1 n)
  have *: "is_digit (char_of (48 + k))" "of_char (char_of (48 + k)) = (48 + int k)" if "k < 10" for k :: nat
  proof -
    show "is_digit (char_of (48 + k))" using that by (simp add: is_digit_def)
    have "of_char (char_of (48 + k)) = (48 + k)" using that by simp
    then show "of_char (char_of (48 + k)) = (48 + int k)"
      by (metis of_nat_add of_nat_numeral of_nat_of_char)
  qed
  show ?case
  proof (cases "n < 10")
    case True
    have "takeWhile is_digit [char_of (48 + n)] = [char_of (48 + n)]"
      using * True by simp
    then show ?thesis using * True
      by (simp add: dec_digits.simps [of n] digits_value_def)
  next
    case False
    have "digits_value (dec_digits (n div 10) @ [char_of (48 + n mod 10)])
        = 10 * digits_value (dec_digits (n div 10)) + (of_char (char_of (48 + n mod 10)) - 48)"
      by (rule digits_value_snoc) (auto simp: dec_digits_digits *)
    moreover have "10 * int (n div 10) + int (n mod 10) = int n"
      by (metis mult_div_mod_eq of_nat_add of_nat_mult of_nat_numeral)
    ultimately show ?thesis using 1 False *(2) [of "n mod 10"]
      by (simp add: dec_digits.simps [of n])
  qed
qed

text \<open>What \<open>%d\<close> prints, \<open>atoi\<close> reads back.\<close>

lemma c_atoi_c_dec: "c_atoi (c_dec i) = i"
proof -
  have ne: "dec_digits n \<noteq> []" for n by (simp add: dec_digits.simps [of n])
  have hd: "\<not> is_space c \<and> c \<noteq> CHR ''-'' \<and> c \<noteq> CHR ''+''" if "is_digit c" for c
    using that by (auto simp: is_digit_def is_space_def)
  have pos: "c_atoi (dec_digits n) = int n" for n
  proof -
    obtain c cs where c: "dec_digits n = c # cs" using ne by (cases "dec_digits n") auto
    then have "is_digit c" using dec_digits_digits [of c n] by simp
    then show ?thesis using hd [of c] c digits_value_dec_digits [of n]
      by (simp add: c_atoi_def)
  qed
  show ?thesis
  proof (cases "i < 0")
    case True
    then show ?thesis using digits_value_dec_digits [of "nat (- i)"]
      by (simp add: c_dec_def c_atoi_def is_space_def)
  next
    case False
    then show ?thesis using pos [of "nat i"] by (simp add: c_dec_def)
  qed
qed

end
