(* ===== verification/Czmq.thy ===== *)
theory Czmq
  imports C_Strings
begin

text \<open>
  The parts of CZMQ and libzmq the program calls, as far as their interface documents them.
  Nothing of them is under \<open>src/\<close>, so whatever the interface leaves open is a field of the record
  \<open>env\<close>, an argument of every operation that needs it: clock readings, whether a socket can be
  made, connected or written, the order of a hash table, the octets of uninitialised memory.
\<close>

section \<open>Dictionaries: zhash\<close>

text \<open>
  A \<open>zhash\<close> maps strings to items. It is a list of its entries in iteration order
  (\<open>zhash_first\<close>, \<open>zhash_next\<close>, \<open>zhash_keys\<close>). CZMQ does not document that order: inserting may
  put the entries in any order, chosen by the argument \<open>rank\<close>.
\<close>

type_synonym 'v zhash = "(string \<times> 'v) list"

definition wf_zhash :: "'v zhash \<Rightarrow> bool" where
  "wf_zhash h \<longleftrightarrow> distinct (map fst h)"

definition zhash_lookup :: "'v zhash \<Rightarrow> string \<Rightarrow> 'v option" where
  "zhash_lookup h k = map_of h k"

definition zhash_keys :: "'v zhash \<Rightarrow> string list" where
  "zhash_keys h = map fst h"

definition zhash_size :: "'v zhash \<Rightarrow> nat" where
  "zhash_size h = length h"

definition zhash_arrange :: "(string \<Rightarrow> nat) \<Rightarrow> 'v zhash \<Rightarrow> 'v zhash" where
  "zhash_arrange rank h = sort_key (\<lambda>e. rank (fst e)) h"

text \<open>\<open>zhash_insert\<close> leaves an existing item alone; \<open>zhash_update\<close> replaces it.\<close>

definition zhash_insert :: "(string \<Rightarrow> nat) \<Rightarrow> string \<Rightarrow> 'v \<Rightarrow> 'v zhash \<Rightarrow> 'v zhash" where
  "zhash_insert rank k v h = (case zhash_lookup h k of
     Some _ \<Rightarrow> h | None \<Rightarrow> zhash_arrange rank ((k, v) # h))"

definition zhash_alter :: "string \<Rightarrow> 'v \<Rightarrow> 'v zhash \<Rightarrow> 'v zhash" where
  "zhash_alter k v h = map (\<lambda>e. if fst e = k then (k, v) else e) h"

definition zhash_update :: "(string \<Rightarrow> nat) \<Rightarrow> string \<Rightarrow> 'v \<Rightarrow> 'v zhash \<Rightarrow> 'v zhash" where
  "zhash_update rank k v h = (case zhash_lookup h k of
     Some _ \<Rightarrow> zhash_alter k v h | None \<Rightarrow> zhash_arrange rank ((k, v) # h))"

definition zhash_delete :: "string \<Rightarrow> 'v zhash \<Rightarrow> 'v zhash" where
  "zhash_delete k h = filter (\<lambda>e. fst e \<noteq> k) h"

lemma set_zhash_arrange [simp]: "set (zhash_arrange rank h) = set h"
  by (simp add: zhash_arrange_def)

lemma mset_zhash_arrange [simp]: "mset (zhash_arrange rank h) = mset h"
  by (simp add: zhash_arrange_def)

lemma length_zhash_arrange [simp]: "length (zhash_arrange rank h) = length h"
  by (simp add: zhash_arrange_def)

lemma wf_zhash_mset:
  assumes "mset h = mset h'" shows "wf_zhash h \<longleftrightarrow> wf_zhash h'"
proof -
  have "mset (map fst h) = mset (map fst h')" using assms by simp
  then show ?thesis unfolding wf_zhash_def by (rule mset_eq_imp_distinct_iff)
qed

lemma wf_zhash_arrange [simp]: "wf_zhash (zhash_arrange rank h) = wf_zhash h"
  by (rule wf_zhash_mset) simp

lemma zhash_lookup_iff:
  "wf_zhash h \<Longrightarrow> zhash_lookup h k = Some v \<longleftrightarrow> (k, v) \<in> set h"
  by (simp add: wf_zhash_def zhash_lookup_def)

lemma zhash_lookup_None: "zhash_lookup h k = None \<longleftrightarrow> k \<notin> fst ` set h"
  by (simp add: zhash_lookup_def map_of_eq_None_iff)

lemma zhash_lookup_SomeD: "zhash_lookup h k = Some v \<Longrightarrow> (k, v) \<in> set h"
  by (simp add: zhash_lookup_def map_of_SomeD)

lemma zhash_lookup_cong:
  assumes "wf_zhash h" and "wf_zhash h'" and "set h = set h'"
  shows "zhash_lookup h k = zhash_lookup h' k"
proof (cases "zhash_lookup h k")
  case None
  then have "zhash_lookup h' k = None" using assms(3) by (simp add: zhash_lookup_None)
  with None show ?thesis by simp
next
  case (Some v)
  then have "zhash_lookup h' k = Some v"
    using assms by (simp add: zhash_lookup_iff)
  with Some show ?thesis by simp
qed

lemma zhash_lookup_arrange [simp]:
  "wf_zhash h \<Longrightarrow> zhash_lookup (zhash_arrange rank h) k = zhash_lookup h k"
  by (rule zhash_lookup_cong) simp_all

lemma wf_zhash_Cons: "wf_zhash ((k, v) # h) \<longleftrightarrow> zhash_lookup h k = None \<and> wf_zhash h"
  by (simp add: wf_zhash_def zhash_lookup_None)

lemma wf_zhash_Nil [simp]: "wf_zhash []"
  by (simp add: wf_zhash_def)

lemma zhash_lookup_Nil [simp]: "zhash_lookup [] k = None"
  by (simp add: zhash_lookup_def)

lemma set_zhash_insert:
  "set (zhash_insert rank k v h)
     = (if zhash_lookup h k = None then insert (k, v) (set h) else set h)"
  by (auto simp: zhash_insert_def split: option.splits)

lemma wf_zhash_insert: "wf_zhash h \<Longrightarrow> wf_zhash (zhash_insert rank k v h)"
  by (auto simp: zhash_insert_def wf_zhash_Cons split: option.splits)

lemma zhash_lookup_insert:
  assumes "wf_zhash h"
  shows "zhash_lookup (zhash_insert rank k v h) j
     = (if zhash_lookup h k = None \<and> j = k then Some v else zhash_lookup h j)"
proof (cases "zhash_lookup h k")
  case None
  then have "wf_zhash ((k, v) # h)" using assms by (simp add: wf_zhash_Cons)
  then have "zhash_lookup (zhash_arrange rank ((k, v) # h)) j = zhash_lookup ((k, v) # h) j"
    by (rule zhash_lookup_arrange)
  with None show ?thesis
    by (simp add: zhash_insert_def) (simp add: zhash_lookup_def)
next
  case (Some w)
  then show ?thesis by (simp add: zhash_insert_def)
qed

lemma zhash_size_insert:
  "zhash_size (zhash_insert rank k v h)
     = (if zhash_lookup h k = None then Suc (zhash_size h) else zhash_size h)"
  by (auto simp: zhash_insert_def zhash_size_def split: option.splits)

lemma map_fst_zhash_alter [simp]: "map fst (zhash_alter k v h) = map fst h"
  by (induction h) (auto simp: zhash_alter_def)

lemma wf_zhash_alter [simp]: "wf_zhash (zhash_alter k v h) = wf_zhash h"
  by (simp add: wf_zhash_def)

lemma zhash_lookup_alter:
  "zhash_lookup (zhash_alter k v h) j
     = (if j = k \<and> zhash_lookup h k \<noteq> None then Some v else zhash_lookup h j)"
  by (induction h) (auto simp: zhash_alter_def zhash_lookup_def)

lemma set_zhash_alter:
  "e \<in> set (zhash_alter k v h) \<Longrightarrow> (e = (k, v) \<and> k \<in> fst ` set h) \<or> (e \<in> set h \<and> fst e \<noteq> k)"
  by (auto simp: zhash_alter_def split: if_splits)

lemma zhash_size_alter [simp]: "zhash_size (zhash_alter k v h) = zhash_size h"
  by (simp add: zhash_size_def zhash_alter_def)

lemma wf_zhash_update: "wf_zhash h \<Longrightarrow> wf_zhash (zhash_update rank k v h)"
  by (auto simp: zhash_update_def wf_zhash_Cons split: option.splits)

lemma zhash_lookup_update:
  assumes "wf_zhash h"
  shows "zhash_lookup (zhash_update rank k v h) j = (if j = k then Some v else zhash_lookup h j)"
proof (cases "zhash_lookup h k")
  case None
  then have "zhash_update rank k v h = zhash_insert rank k v h"
    by (simp add: zhash_update_def zhash_insert_def)
  with None show ?thesis using assms by (simp add: zhash_lookup_insert)
next
  case (Some w)
  then show ?thesis by (simp add: zhash_update_def zhash_lookup_alter)
qed

lemma set_zhash_delete [simp]: "set (zhash_delete k h) = {e \<in> set h. fst e \<noteq> k}"
  by (simp add: zhash_delete_def)

lemma wf_zhash_delete: "wf_zhash h \<Longrightarrow> wf_zhash (zhash_delete k h)"
  by (simp add: wf_zhash_def zhash_delete_def distinct_map_filter)

lemma zhash_lookup_delete:
  "zhash_lookup (zhash_delete k h) j = (if j = k then None else zhash_lookup h j)"
  by (induction h) (auto simp: zhash_delete_def zhash_lookup_def)

lemmas zhash_wf_rules = wf_zhash_insert wf_zhash_update wf_zhash_delete

text \<open>The contract of a dictionary: what a lookup returns after each operation.\<close>

locale dictionary =
  fixes wf :: "'h \<Rightarrow> bool"
    and lookup :: "'h \<Rightarrow> 'k \<Rightarrow> 'v option"
    and insert_new :: "'k \<Rightarrow> 'v \<Rightarrow> 'h \<Rightarrow> 'h"
    and update :: "'k \<Rightarrow> 'v \<Rightarrow> 'h \<Rightarrow> 'h"
    and delete :: "'k \<Rightarrow> 'h \<Rightarrow> 'h"
  assumes wf_insert: "wf h \<Longrightarrow> wf (insert_new k v h)"
    and wf_update: "wf h \<Longrightarrow> wf (update k v h)"
    and wf_delete: "wf h \<Longrightarrow> wf (delete k h)"
    and lookup_insert: "wf h \<Longrightarrow> lookup (insert_new k v h) j
          = (if lookup h k = None \<and> j = k then Some v else lookup h j)"
    and lookup_update: "wf h \<Longrightarrow> lookup (update k v h) j = (if j = k then Some v else lookup h j)"
    and lookup_delete: "wf h \<Longrightarrow> lookup (delete k h) j = (if j = k then None else lookup h j)"
begin

text \<open>Inserting a list of entries: the first entry of each key is the one kept.\<close>

lemma lookup_insert_list:
  "wf h \<Longrightarrow> wf (fold (\<lambda>e. insert_new (fst e) (snd e)) es h)
     \<and> lookup (fold (\<lambda>e. insert_new (fst e) (snd e)) es h) j
       = (case lookup h j of Some v \<Rightarrow> Some v | None \<Rightarrow> map_of es j)"
proof (induction es arbitrary: h)
  case (Cons e es)
  then have "wf (insert_new (fst e) (snd e) h)" by (simp add: wf_insert)
  then show ?case using Cons.IH [of "insert_new (fst e) (snd e) h"] Cons.prems
    by (auto simp: lookup_insert split: option.splits)
qed (auto split: option.splits)

lemma delete_insert: "wf h \<Longrightarrow> lookup h k = None \<Longrightarrow>
    lookup (delete k (insert_new k v h)) j = lookup h j"
  by (simp add: wf_insert lookup_insert lookup_delete)

end

interpretation zd: dictionary wf_zhash zhash_lookup "zhash_insert rank" "zhash_update rank" zhash_delete
  for rank
  by unfold_locales
    (simp_all add: zhash_wf_rules zhash_lookup_insert zhash_lookup_update zhash_lookup_delete)

section \<open>Frames on a socket\<close>

text \<open>One part of a multipart message, with the flag that says another part follows.\<close>

record zframe =
  fr_data :: "byte list"
  fr_more :: bool

text \<open>
  \<open>zmsg_recv\<close> on the rest of a message: the parts up to the first without the flag, and what
  stays on the socket.
\<close>

fun zmsg_recv_rest :: "zframe list \<Rightarrow> byte list list \<times> zframe list" where
  "zmsg_recv_rest [] = ([], [])"
| "zmsg_recv_rest (f # fs) = (if fr_more f
     then (let (ds, rest) = zmsg_recv_rest fs in (fr_data f # ds, rest))
     else ([fr_data f], fs))"

text \<open>The parts of one message, the flag set on all but the last.\<close>

fun multipart :: "byte list list \<Rightarrow> zframe list" where
  "multipart [] = []"
| "multipart [d] = [\<lparr>fr_data = d, fr_more = False\<rparr>]"
| "multipart (d # e # ds) = \<lparr>fr_data = d, fr_more = True\<rparr> # multipart (e # ds)"

lemma zmsg_recv_rest_multipart [simp]:
  "ds \<noteq> [] \<Longrightarrow> zmsg_recv_rest (multipart ds @ rest) = (ds, rest)"
  by (induction ds rule: multipart.induct) auto

section \<open>UUIDs\<close>

text \<open>A \<open>zuuid\<close> object holds its octets and their printable form.\<close>

record zuuid =
  uu_data :: "byte list"
  uu_str :: string

section \<open>The environment\<close>

record env =
  env_clock :: "nat \<Rightarrow> 64 word"                      \<comment> \<open>k-th \<open>zclock_mono\<close> reading of a handler\<close>
  env_rank :: "string \<Rightarrow> nat"                        \<comment> \<open>order of hash tables\<close>
  env_junk :: "nat \<Rightarrow> byte"                          \<comment> \<open>uninitialised frame octets\<close>
  env_full :: "zframe list \<Rightarrow> bool"                  \<comment> \<open>mailbox refuses another frame\<close>
  env_eagain :: bool                                 \<comment> \<open>\<open>errno\<close> is EAGAIN after a failed send\<close>
  env_dealer :: bool                                 \<comment> \<open>\<open>zsock_new (ZMQ_DEALER)\<close> succeeds\<close>
  env_connect :: "string \<Rightarrow> bool"                    \<comment> \<open>\<open>zsock_connect\<close> accepts the endpoint\<close>
  env_curve :: bool                                  \<comment> \<open>the socket's mechanism is CURVE\<close>
  env_ipv6 :: bool                                   \<comment> \<open>\<open>zsys_ipv6\<close>\<close>
  env_interface :: string                            \<comment> \<open>\<open>zsys_interface\<close>\<close>
  env_link_local :: "string \<Rightarrow> (string \<times> string) option" \<comment> \<open>\<open>zrex\<close> match: host and port\<close>
  env_uuid_of :: "byte list \<Rightarrow> zuuid"                \<comment> \<open>\<open>zuuid_set\<close>\<close>
  env_uuid_of_str :: "string \<Rightarrow> zuuid"               \<comment> \<open>\<open>zuuid_set_str\<close>\<close>
  env_pack :: "string zhash \<Rightarrow> byte list"            \<comment> \<open>\<open>zhash_pack\<close>\<close>
  env_z85_encode :: "byte list \<Rightarrow> string"            \<comment> \<open>\<open>zmq_z85_encode\<close>\<close>
  env_z85_decode :: "string \<Rightarrow> byte list"            \<comment> \<open>\<open>zmq_z85_decode\<close>, \<open>zarmour_decode\<close>\<close>
  env_hostname :: string                             \<comment> \<open>\<open>zsys_hostname\<close>\<close>
  env_ipv6_address :: string                         \<comment> \<open>\<open>zsys_ipv6_address\<close>\<close>
  env_bind :: "string \<Rightarrow> int"                        \<comment> \<open>\<open>zsock_bind\<close>: port, or -1\<close>
  env_bound :: string                                \<comment> \<open>\<open>zsock_endpoint\<close> after a bind\<close>
  env_beacon_ok :: bool                              \<comment> \<open>\<open>zactor_new (zbeacon)\<close> succeeds\<close>
  env_beacon_host :: string                          \<comment> \<open>zbeacon's answer to CONFIGURE\<close>
  env_router :: bool                                 \<comment> \<open>\<open>zsock_new (ZMQ_ROUTER)\<close> succeeds\<close>
  env_gossip_ok :: bool                              \<comment> \<open>\<open>zactor_new (zgossip)\<close> succeeds\<close>
  env_skips :: "string \<Rightarrow> string \<Rightarrow> bool"           \<comment> \<open>a traversal misses the second key once the first is deleted\<close>
  env_draft :: bool                                  \<comment> \<open>built with ZYRE_BUILD_DRAFT_API\<close>

end
