(* ===== verification/Zre_Msg.thy ===== *)
theory Zre_Msg
  imports Czmq
begin

text \<open>
  A ZRE message object (\<open>src/zre_msg.c\<close>): its fields, its setters with the 255-octet limit of
  the fixed character arrays, duplication, and the printable command. An absent list, hash table
  or multipart content is a null pointer, \<open>None\<close>.
\<close>

section \<open>The message object\<close>

record zre_msg =
  m_routing_id :: "byte list option"
  m_id :: int
  m_sequence :: "16 word"
  m_endpoint :: string
  m_groups :: "string list option"
  m_status :: byte
  m_name :: string
  m_headers :: "string zhash option"
  m_headers_bytes :: nat
  m_content :: "byte list list option"
  m_group :: string
  m_challenger_id :: string
  m_leader_id :: string

abbreviation (input) ZRE_MSG_HELLO :: int where "ZRE_MSG_HELLO \<equiv> 1"
abbreviation (input) ZRE_MSG_WHISPER :: int where "ZRE_MSG_WHISPER \<equiv> 2"
abbreviation (input) ZRE_MSG_SHOUT :: int where "ZRE_MSG_SHOUT \<equiv> 3"
abbreviation (input) ZRE_MSG_JOIN :: int where "ZRE_MSG_JOIN \<equiv> 4"
abbreviation (input) ZRE_MSG_LEAVE :: int where "ZRE_MSG_LEAVE \<equiv> 5"
abbreviation (input) ZRE_MSG_PING :: int where "ZRE_MSG_PING \<equiv> 6"
abbreviation (input) ZRE_MSG_PING_OK :: int where "ZRE_MSG_PING_OK \<equiv> 7"
abbreviation (input) ZRE_MSG_ELECT :: int where "ZRE_MSG_ELECT \<equiv> 8"
abbreviation (input) ZRE_MSG_LEADER :: int where "ZRE_MSG_LEADER \<equiv> 9"
abbreviation (input) ZRE_MSG_GOODBYE :: int where "ZRE_MSG_GOODBYE \<equiv> 10"

text \<open>\<open>zmalloc\<close> zeroes the object.\<close>

definition zre_msg_new :: zre_msg where
  "zre_msg_new = \<lparr>m_routing_id = None, m_id = 0, m_sequence = 0, m_endpoint = [],
     m_groups = None, m_status = 0, m_name = [], m_headers = None, m_headers_bytes = 0,
     m_content = None, m_group = [], m_challenger_id = [], m_leader_id = []\<rparr>"

section \<open>Setters\<close>

text \<open>\<open>strncpy (field, value, 255); field [255] = 0\<close>\<close>

definition field256 :: "string \<Rightarrow> string" where
  "field256 value = take 255 value"

definition zre_msg_set_routing_id :: "zre_msg \<Rightarrow> byte list option \<Rightarrow> zre_msg" where
  [zyre_simps]: "zre_msg_set_routing_id self routing_id = self\<lparr>m_routing_id := routing_id\<rparr>"

definition zre_msg_set_id :: "zre_msg \<Rightarrow> int \<Rightarrow> zre_msg" where
  [zyre_simps]: "zre_msg_set_id self i = self\<lparr>m_id := i\<rparr>"

definition zre_msg_set_sequence :: "zre_msg \<Rightarrow> 16 word \<Rightarrow> zre_msg" where
  [zyre_simps]: "zre_msg_set_sequence self sequence = self\<lparr>m_sequence := sequence\<rparr>"

definition zre_msg_set_endpoint :: "zre_msg \<Rightarrow> string \<Rightarrow> zre_msg" where
  [zyre_simps]: "zre_msg_set_endpoint self value = self\<lparr>m_endpoint := field256 value\<rparr>"

definition zre_msg_set_groups :: "zre_msg \<Rightarrow> string list option \<Rightarrow> zre_msg" where
  [zyre_simps]: "zre_msg_set_groups self groups = self\<lparr>m_groups := groups\<rparr>"

definition zre_msg_get_groups :: "zre_msg \<Rightarrow> string list option \<times> zre_msg" where
  [zyre_simps]: "zre_msg_get_groups self = (m_groups self, self\<lparr>m_groups := None\<rparr>)"

definition zre_msg_set_status :: "zre_msg \<Rightarrow> byte \<Rightarrow> zre_msg" where
  [zyre_simps]: "zre_msg_set_status self status = self\<lparr>m_status := status\<rparr>"

definition zre_msg_set_name :: "zre_msg \<Rightarrow> string \<Rightarrow> zre_msg" where
  [zyre_simps]: "zre_msg_set_name self value = self\<lparr>m_name := field256 value\<rparr>"

definition zre_msg_set_headers :: "zre_msg \<Rightarrow> string zhash option \<Rightarrow> zre_msg" where
  [zyre_simps]: "zre_msg_set_headers self headers = self\<lparr>m_headers := headers\<rparr>"

definition zre_msg_get_headers :: "zre_msg \<Rightarrow> string zhash option \<times> zre_msg" where
  [zyre_simps]: "zre_msg_get_headers self = (m_headers self, self\<lparr>m_headers := None\<rparr>)"

definition zre_msg_set_content :: "zre_msg \<Rightarrow> byte list list option \<Rightarrow> zre_msg" where
  [zyre_simps]: "zre_msg_set_content self content = self\<lparr>m_content := content\<rparr>"

definition zre_msg_get_content :: "zre_msg \<Rightarrow> byte list list option \<times> zre_msg" where
  [zyre_simps]: "zre_msg_get_content self = (m_content self, self\<lparr>m_content := None\<rparr>)"

definition zre_msg_set_group :: "zre_msg \<Rightarrow> string \<Rightarrow> zre_msg" where
  [zyre_simps]: "zre_msg_set_group self value = self\<lparr>m_group := field256 value\<rparr>"

definition zre_msg_set_challenger_id :: "zre_msg \<Rightarrow> string \<Rightarrow> zre_msg" where
  [zyre_simps]: "zre_msg_set_challenger_id self value = self\<lparr>m_challenger_id := field256 value\<rparr>"

definition zre_msg_set_leader_id :: "zre_msg \<Rightarrow> string \<Rightarrow> zre_msg" where
  [zyre_simps]: "zre_msg_set_leader_id self value = self\<lparr>m_leader_id := field256 value\<rparr>"

section \<open>Duplicate, command\<close>

text \<open>
  The copy's hash table is filled anew, so its order is again the environment's; the byte count of
  the headers is not copied.
\<close>

definition zre_msg_dup :: "(string \<Rightarrow> nat) \<Rightarrow> zre_msg \<Rightarrow> zre_msg" where
  "zre_msg_dup rank other =
     (let copy = zre_msg_new;
          copy = zre_msg_set_routing_id copy (m_routing_id other);
          copy = zre_msg_set_id copy (m_id other);
          copy = zre_msg_set_sequence copy (m_sequence other);
          copy = zre_msg_set_endpoint copy (m_endpoint other);
          copy = zre_msg_set_groups copy (m_groups other);
          copy = zre_msg_set_status copy (m_status other);
          copy = zre_msg_set_name copy (m_name other);
          copy = zre_msg_set_headers copy (map_option (zhash_arrange rank) (m_headers other));
          copy = zre_msg_set_content copy (m_content other);
          copy = zre_msg_set_group copy (m_group other);
          copy = zre_msg_set_challenger_id copy (m_challenger_id other);
          copy = zre_msg_set_leader_id copy (m_leader_id other)
      in copy)"

definition zre_msg_command :: "zre_msg \<Rightarrow> string" where
  "zre_msg_command self =
     (if m_id self = ZRE_MSG_HELLO then ''HELLO''
      else if m_id self = ZRE_MSG_WHISPER then ''WHISPER''
      else if m_id self = ZRE_MSG_SHOUT then ''SHOUT''
      else if m_id self = ZRE_MSG_JOIN then ''JOIN''
      else if m_id self = ZRE_MSG_LEAVE then ''LEAVE''
      else if m_id self = ZRE_MSG_PING then ''PING''
      else if m_id self = ZRE_MSG_PING_OK then ''PING_OK''
      else if m_id self = ZRE_MSG_ELECT then ''ELECT''
      else if m_id self = ZRE_MSG_LEADER then ''LEADER''
      else if m_id self = ZRE_MSG_GOODBYE then ''GOODBYE''
      else ''?'')"

section \<open>The bound of the character arrays\<close>

text \<open>Every text field fits its 256-octet array, its NUL included, and holds no other NUL.\<close>

definition field_ok :: "string \<Rightarrow> bool" where
  "field_ok s \<longleftrightarrow> c_string s \<and> length s \<le> 255"

definition fields_ok :: "zre_msg \<Rightarrow> bool" where
  "fields_ok m \<longleftrightarrow> field_ok (m_endpoint m) \<and> field_ok (m_name m) \<and> field_ok (m_group m)
     \<and> field_ok (m_challenger_id m) \<and> field_ok (m_leader_id m)"

lemma field_ok_field256 [simp, intro]: "c_string s \<Longrightarrow> field_ok (field256 s)"
  by (simp add: field_ok_def field256_def c_string_take)

lemma field256_id [simp]: "field_ok s \<Longrightarrow> field256 s = s"
  by (simp add: field_ok_def field256_def)

lemma field_ok_Nil [simp]: "field_ok []"
  by (simp add: field_ok_def)

lemma fields_ok_new [simp]: "fields_ok zre_msg_new"
  by (simp add: fields_ok_def zre_msg_new_def)

lemma fields_ok_setters [keeps]:
  "fields_ok m \<Longrightarrow> c_string v \<Longrightarrow> fields_ok (zre_msg_set_endpoint m v)"
  "fields_ok m \<Longrightarrow> c_string v \<Longrightarrow> fields_ok (zre_msg_set_name m v)"
  "fields_ok m \<Longrightarrow> c_string v \<Longrightarrow> fields_ok (zre_msg_set_group m v)"
  "fields_ok m \<Longrightarrow> c_string v \<Longrightarrow> fields_ok (zre_msg_set_challenger_id m v)"
  "fields_ok m \<Longrightarrow> c_string v \<Longrightarrow> fields_ok (zre_msg_set_leader_id m v)"
  by (simp_all add: fields_ok_def zyre_simps)

lemma zre_msg_dup_sel [simp]:
  "m_routing_id (zre_msg_dup rank m) = m_routing_id m"
  "m_id (zre_msg_dup rank m) = m_id m"
  "m_sequence (zre_msg_dup rank m) = m_sequence m"
  "m_groups (zre_msg_dup rank m) = m_groups m"
  "m_status (zre_msg_dup rank m) = m_status m"
  "m_headers (zre_msg_dup rank m) = map_option (zhash_arrange rank) (m_headers m)"
  "m_headers_bytes (zre_msg_dup rank m) = 0"
  "m_content (zre_msg_dup rank m) = m_content m"
  by (simp_all add: zre_msg_dup_def zyre_simps zre_msg_new_def)

lemma zre_msg_dup_fields:
  assumes "fields_ok m"
  shows "m_endpoint (zre_msg_dup rank m) = m_endpoint m"
    "m_name (zre_msg_dup rank m) = m_name m"
    "m_group (zre_msg_dup rank m) = m_group m"
    "m_challenger_id (zre_msg_dup rank m) = m_challenger_id m"
    "m_leader_id (zre_msg_dup rank m) = m_leader_id m"
  using assms by (simp_all add: zre_msg_dup_def zyre_simps zre_msg_new_def fields_ok_def)

lemma fields_ok_dup [keeps]: "fields_ok m \<Longrightarrow> fields_ok (zre_msg_dup rank m)"
  by (simp add: fields_ok_def zre_msg_dup_fields)

end
