(* ===== verification/Zre_Wire.thy ===== *)
theory Zre_Wire
  imports Czmq
begin

text \<open>
  The wire fields of \<open>src/zre_msg.c\<close>: the macros that put a number or a string at the needle and
  those that get one back, checked against the ceiling. A getter returns the value and the octets
  after it, or \<open>None\<close> where the macro jumps to the label \<open>malformed\<close>. What a put and a get promise each
  other is the locale \<open>wire_field\<close>; every macro pair is an interpretation of it.
\<close>

section \<open>The macros\<close>

definition put_number1 :: "int \<Rightarrow> byte list" where
  "put_number1 host = [word_of_int host]"

definition put_number2 :: "int \<Rightarrow> byte list" where
  "put_number2 host = [word_of_int (drop_bit 8 host AND 255), word_of_int (host AND 255)]"

definition put_number4 :: "int \<Rightarrow> byte list" where
  "put_number4 host = [word_of_int (drop_bit 24 host AND 255), word_of_int (drop_bit 16 host AND 255),
     word_of_int (drop_bit 8 host AND 255), word_of_int (host AND 255)]"

fun get_number1 :: "byte list \<Rightarrow> (byte \<times> byte list) option" where
  "get_number1 (b # needle) = Some (b, needle)"
| "get_number1 _ = None"

fun get_number2 :: "byte list \<Rightarrow> (16 word \<times> byte list) option" where
  "get_number2 (a # b # needle) = Some (push_bit 8 (ucast a) + ucast b, needle)"
| "get_number2 _ = None"

fun get_number4 :: "byte list \<Rightarrow> (32 word \<times> byte list) option" where
  "get_number4 (a # b # c # d # needle) =
     Some (push_bit 24 (ucast a) + push_bit 16 (ucast b) + push_bit 8 (ucast c) + ucast d, needle)"
| "get_number4 _ = None"

definition put_string :: "string \<Rightarrow> byte list" where
  "put_string host = put_number1 (int (length host)) @ str_bytes host"

definition get_string :: "byte list \<Rightarrow> (string \<times> byte list) option" where
  "get_string needle = (case get_number1 needle of None \<Rightarrow> None
     | Some (string_size, needle) \<Rightarrow>
         if length needle < unat string_size then None
         else Some (cstr (take (unat string_size) needle), drop (unat string_size) needle))"

definition put_longstr :: "string \<Rightarrow> byte list" where
  "put_longstr host = put_number4 (int (length host)) @ str_bytes host"

definition get_longstr :: "byte list \<Rightarrow> (string \<times> byte list) option" where
  "get_longstr needle = (case get_number4 needle of None \<Rightarrow> None
     | Some (string_size, needle) \<Rightarrow>
         if length needle < unat string_size then None
         else Some (cstr (take (unat string_size) needle), drop (unat string_size) needle))"

text \<open>A counted loop of gets: what was got before the loop ended or jumped out.\<close>

fun get_many :: "(byte list \<Rightarrow> ('b \<times> byte list) option) \<Rightarrow> nat \<Rightarrow> byte list
    \<Rightarrow> 'b list \<times> byte list option" where
  "get_many get n needle = (if n = 0 then ([], Some needle)
     else (case get needle of None \<Rightarrow> ([], None)
       | Some (x, needle) \<Rightarrow>
           (case get_many get (n - 1) needle of (xs, r) \<Rightarrow> (x # xs, r))))"

declare get_many.simps [simp del]

definition put_entry :: "string \<times> string \<Rightarrow> byte list" where
  "put_entry e = put_string (fst e) @ put_longstr (snd e)"

definition get_entry :: "byte list \<Rightarrow> ((string \<times> string) \<times> byte list) option" where
  "get_entry needle = (case get_string needle of None \<Rightarrow> None
     | Some (key, needle) \<Rightarrow> (case get_longstr needle of None \<Rightarrow> None
       | Some (value, needle) \<Rightarrow> Some ((key, value), needle)))"

section \<open>The contract of a field\<close>

locale wire_field =
  fixes put :: "'a \<Rightarrow> byte list"
    and get :: "byte list \<Rightarrow> ('b \<times> byte list) option"
    and view :: "'a \<Rightarrow> 'b"
    and ok :: "'a \<Rightarrow> bool"
  assumes get_put: "ok x \<Longrightarrow> get (put x @ rest) = Some (view x, rest)"
    and get_short: "ok x \<Longrightarrow> n < length (put x) \<Longrightarrow> get (take n (put x)) = None"
    and get_shrinks: "get bs = Some (v, rest) \<Longrightarrow> length rest < length bs"
begin

text \<open>Getting from a frame cut off anywhere.\<close>

lemma get_cut:
  assumes "ok x"
  shows "get (take n (put x @ rest))
    = (if n < length (put x) then None else Some (view x, take (n - length (put x)) rest))"
  using assms by (auto simp: get_put get_short)

lemma get_cut_last:
  assumes "ok x"
  shows "get (take n (put x)) = (if n < length (put x) then None else Some (view x, []))"
  using get_cut [OF assms, of n "[]"] by simp

lemma get_many_0 [simp]: "get_many get 0 bs = ([], Some bs)"
  by (simp add: get_many.simps)

lemma get_many_Suc: "get_many get (Suc n) bs = (case get bs of None \<Rightarrow> ([], None)
    | Some (x, rest) \<Rightarrow> (case get_many get n rest of (xs, r) \<Rightarrow> (x # xs, r)))"
  by (simp add: get_many.simps [of get "Suc n"] split: option.split)

lemma get_many_put:
  "\<forall>x \<in> set xs. ok x \<Longrightarrow>
     get_many get (length xs) (concat (map put xs) @ rest) = (map view xs, Some rest)"
  by (induction xs) (simp_all add: get_many_Suc get_put)

lemma get_many_short:
  "\<forall>x \<in> set xs. ok x \<Longrightarrow> n < length (concat (map put xs)) \<Longrightarrow>
     snd (get_many get (length xs) (take n (concat (map put xs)))) = None"
proof (induction xs arbitrary: n)
  case (Cons x xs)
  show ?case
  proof (cases "n < length (put x)")
    case True
    then show ?thesis using Cons.prems by (simp add: get_many_Suc get_short)
  next
    case False
    then have "snd (get_many get (length xs) (take (n - length (put x)) (concat (map put xs)))) = None"
      using Cons by simp
    with False show ?thesis using Cons.prems
      by (cases "get_many get (length xs) (take (n - length (put x)) (concat (map put xs)))")
        (simp add: get_many_Suc get_put)
  qed
qed simp

lemma get_many_cut:
  assumes "\<forall>x \<in> set xs. ok x"
  shows "get_many get (length xs) (take n (concat (map put xs) @ rest))
    = (if n < length (concat (map put xs))
       then (fst (get_many get (length xs) (take n (concat (map put xs)))), None)
       else (map view xs, Some (take (n - length (concat (map put xs))) rest)))"
  using assms get_many_short [OF assms, of n] by (auto simp: get_many_put prod_eq_iff)

text \<open>A loop of gets takes at least one octet a round.\<close>

lemma get_many_bound: "snd (get_many get n bs) = Some rest \<Longrightarrow> length rest + n \<le> length bs"
proof (induction n arbitrary: bs)
  case (Suc n)
  then obtain x bs' where g: "get bs = Some (x, bs')"
    and r: "snd (get_many get n bs') = Some rest"
    by (auto simp: get_many_Suc split: option.splits prod.splits)
  from Suc.IH [OF r] get_shrinks [OF g] show ?case by simp
qed simp

end

section \<open>The macro pairs\<close>

lemma drop_bit_and_255: "word_of_int (k AND 255) = (word_of_int k :: byte)"
proof -
  have "k AND 255 = take_bit 8 k"
    by (simp add: take_bit_eq_mask mask_numeral)
  then show ?thesis
    by (simp add: word_of_int_eq_iff)
qed

lemma join2: "push_bit 8 (ucast (word_of_int (drop_bit 8 k) :: byte)) + ucast (word_of_int k :: byte)
    = (word_of_int k :: 16 word)"
proof -
  have "push_bit 8 (ucast (word_of_int (drop_bit 8 k) :: byte) :: 16 word)
      + ucast (word_of_int k :: byte)
    = push_bit 8 (ucast (word_of_int (drop_bit 8 k) :: byte)) OR ucast (word_of_int k :: byte)"
    by (rule disjunctive_add) (auto simp: bit_simps)
  also have "\<dots> = word_of_int k"
    by (rule bit_word_eqI) (auto simp: bit_simps)
  finally show ?thesis .
qed

lemma join4: "push_bit 24 (ucast (word_of_int (drop_bit 24 k) :: byte))
    + push_bit 16 (ucast (word_of_int (drop_bit 16 k) :: byte))
    + push_bit 8 (ucast (word_of_int (drop_bit 8 k) :: byte)) + ucast (word_of_int k :: byte)
    = (word_of_int k :: 32 word)"
proof -
  let ?a = "push_bit 24 (ucast (word_of_int (drop_bit 24 k) :: byte)) :: 32 word"
  let ?b = "push_bit 16 (ucast (word_of_int (drop_bit 16 k) :: byte)) :: 32 word"
  let ?c = "push_bit 8 (ucast (word_of_int (drop_bit 8 k) :: byte)) :: 32 word"
  let ?d = "ucast (word_of_int k :: byte) :: 32 word"
  have "?a + ?b = ?a OR ?b" by (rule disjunctive_add) (auto simp: bit_simps)
  moreover have "(?a OR ?b) + ?c = ?a OR ?b OR ?c" by (subst disjunctive_add) (auto simp: bit_simps or.assoc)
  moreover have "(?a OR ?b OR ?c) + ?d = ?a OR ?b OR ?c OR ?d"
    by (subst disjunctive_add) (auto simp: bit_simps or.assoc)
  moreover have "?a OR ?b OR ?c OR ?d = word_of_int k"
  proof (rule bit_word_eqI)
    fix n
    assume n: "n < LENGTH(32)"
    consider "n < 8" | "8 \<le> n" "n < 16" | "16 \<le> n" "n < 24" | "24 \<le> n" by linarith
    then show "bit (?a OR ?b OR ?c OR ?d) n \<longleftrightarrow> bit (word_of_int k :: 32 word) n"
      using n by cases (auto simp: bit_simps)
  qed
  ultimately show ?thesis by simp
qed

lemma length_put [simp]:
  "length (put_number1 k) = 1" "length (put_number2 k) = 2" "length (put_number4 k) = 4"
  "length (put_string s) = 1 + length s" "length (put_longstr s) = 4 + length s"
  by (simp_all add: put_number1_def put_number2_def put_number4_def put_string_def put_longstr_def)

lemma length_put_entry [simp]: "length (put_entry (k, v)) = 1 + length k + (4 + length v)"
  by (simp add: put_entry_def)

lemma get_number1_None: "get_number1 bs = None \<longleftrightarrow> length bs < 1"
  by (cases bs rule: get_number1.cases) simp_all

lemma get_number2_None: "get_number2 bs = None \<longleftrightarrow> length bs < 2"
  by (cases bs rule: get_number2.cases) simp_all

lemma get_number4_None: "get_number4 bs = None \<longleftrightarrow> length bs < 4"
  by (cases bs rule: get_number4.cases) simp_all

interpretation wn1: wire_field put_number1 get_number1 word_of_int "\<lambda>_. True"
  by unfold_locales
    (auto simp: put_number1_def get_number1_None less_Suc_eq elim!: get_number1.elims)

interpretation wn2: wire_field put_number2 get_number2 word_of_int "\<lambda>_. True"
  by unfold_locales
    (auto simp: put_number2_def drop_bit_and_255 join2 get_number2_None less_Suc_eq
      elim!: get_number2.elims)

interpretation wn4: wire_field put_number4 get_number4 word_of_int "\<lambda>_. True"
  by unfold_locales
    (auto simp: put_number4_def drop_bit_and_255 join4 get_number4_None less_Suc_eq
      elim!: get_number4.elims)

lemma unat_length_byte: "length s \<le> 255 \<Longrightarrow> unat (word_of_int (int (length s)) :: byte) = length s"
  by (simp add: unat_of_nat)

lemma unat_length_word32: "length s < 2 ^ 32 \<Longrightarrow> unat (word_of_int (int (length s)) :: 32 word) = length s"
  by (simp add: unat_of_nat)

definition short_ok :: "string \<Rightarrow> bool" where
  "short_ok s \<longleftrightarrow> c_string s \<and> length s \<le> 255"

definition long_ok :: "string \<Rightarrow> bool" where
  "long_ok s \<longleftrightarrow> c_string s \<and> length s < 2 ^ 32"

interpretation ws: wire_field put_string get_string "\<lambda>s. s" short_ok
proof
  fix s rest
  assume "short_ok s"
  then show "get_string (put_string s @ rest) = Some (s, rest)"
    by (simp add: get_string_def put_string_def wn1.get_put short_ok_def unat_length_byte
        del: of_int_of_nat_eq)
next
  fix s n
  assume "short_ok s" and "n < length (put_string s)"
  then show "get_string (take n (put_string s)) = None"
    by (auto simp: get_string_def put_string_def wn1.get_cut short_ok_def unat_length_byte
        simp del: of_int_of_nat_eq take_append split: if_splits)
next
  fix bs v rest
  assume "get_string bs = Some (v, rest)"
  then show "length rest < length bs"
    by (auto simp: get_string_def split: option.splits if_splits
        intro!: less_imp_diff_less dest!: wn1.get_shrinks)
qed

interpretation wl: wire_field put_longstr get_longstr "\<lambda>s. s" long_ok
proof
  fix s rest
  assume "long_ok s"
  then show "get_longstr (put_longstr s @ rest) = Some (s, rest)"
    by (simp add: get_longstr_def put_longstr_def wn4.get_put long_ok_def unat_length_word32
        del: of_int_of_nat_eq)
next
  fix s n
  assume "long_ok s" and "n < length (put_longstr s)"
  then show "get_longstr (take n (put_longstr s)) = None"
    by (auto simp: get_longstr_def put_longstr_def wn4.get_cut long_ok_def unat_length_word32
        simp del: of_int_of_nat_eq take_append split: if_splits)
next
  fix bs v rest
  assume "get_longstr bs = Some (v, rest)"
  then show "length rest < length bs"
    by (auto simp: get_longstr_def split: option.splits if_splits
        intro!: less_imp_diff_less dest!: wn4.get_shrinks)
qed

definition entry_ok :: "string \<times> string \<Rightarrow> bool" where
  "entry_ok e \<longleftrightarrow> short_ok (fst e) \<and> long_ok (snd e)"

interpretation we: wire_field put_entry get_entry "\<lambda>e. e" entry_ok
proof
  fix e rest
  assume "entry_ok e"
  then show "get_entry (put_entry e @ rest) = Some (e, rest)"
    by (simp add: get_entry_def put_entry_def ws.get_put wl.get_put entry_ok_def)
next
  fix e n
  assume "entry_ok e" and "n < length (put_entry e)"
  then show "get_entry (take n (put_entry e)) = None"
    by (cases e) (simp add: get_entry_def put_entry_def ws.get_cut wl.get_short entry_ok_def
        del: take_append)
next
  fix bs v rest
  assume "get_entry bs = Some (v, rest)"
  then show "length rest < length bs"
    by (auto simp: get_entry_def split: option.splits dest!: ws.get_shrinks wl.get_shrinks)
qed

end
