(* ===== verification/Zre_Msg_Codec.thy ===== *)
theory Zre_Msg_Codec
  imports Zre_Msg Zre_Wire
begin

text \<open>
  The codec of \<open>src/zre_msg.c\<close>: \<open>zre_msg_send\<close> and \<open>zre_msg_encode\<close> measure the frame, allocate
  it and write the fields into it; \<open>zre_msg_recv\<close> reads a routing id, a data frame and the content
  frames from a socket and parses the data frame into the message object, field by field.
\<close>

section \<open>Measuring and writing a frame\<close>

definition headers_size :: "string zhash \<Rightarrow> nat" where
  "headers_size h = sum_list (map (\<lambda>e. (1 + length (fst e)) + (4 + length (snd e))) h)"

text \<open>\<open>headers_bytes\<close> is recomputed only where there is a table to count.\<close>

definition zre_msg_count_headers :: "zre_msg \<Rightarrow> zre_msg" where
  "zre_msg_count_headers self =
     (if m_id self = ZRE_MSG_HELLO
      then (case m_headers self of Some h \<Rightarrow> self\<lparr>m_headers_bytes := headers_size h\<rparr> | None \<Rightarrow> self)
      else self)"

definition zre_msg_frame_size :: "zre_msg \<Rightarrow> nat" where
  "zre_msg_frame_size self = 2 + 1 +
     (if m_id self = ZRE_MSG_HELLO then
        1 + 2 + (1 + length (m_endpoint self)) + 4
          + (case m_groups self of Some gs \<Rightarrow> sum_list (map (\<lambda>g. 4 + length g) gs) | None \<Rightarrow> 0)
          + 1 + (1 + length (m_name self)) + 4 + m_headers_bytes self
      else if m_id self = ZRE_MSG_WHISPER then 1 + 2
      else if m_id self = ZRE_MSG_SHOUT then 1 + 2 + (1 + length (m_group self))
      else if m_id self = ZRE_MSG_JOIN then 1 + 2 + (1 + length (m_group self)) + 1
      else if m_id self = ZRE_MSG_LEAVE then 1 + 2 + (1 + length (m_group self)) + 1
      else if m_id self = ZRE_MSG_PING then 1 + 2
      else if m_id self = ZRE_MSG_PING_OK then 1 + 2
      else if m_id self = ZRE_MSG_ELECT
        then 1 + 2 + (1 + length (m_group self)) + (1 + length (m_challenger_id self))
      else if m_id self = ZRE_MSG_LEADER
        then 1 + 2 + (1 + length (m_group self)) + (1 + length (m_leader_id self))
      else if m_id self = ZRE_MSG_GOODBYE then 1 + 2
      else 0)"

definition put_hello :: "zre_msg \<Rightarrow> byte list" where
  "put_hello self = put_number1 2 @ put_number2 (uint (m_sequence self)) @ put_string (m_endpoint self)
     @ (case m_groups self of
          Some gs \<Rightarrow> put_number4 (int (length gs)) @ concat (map put_longstr gs)
        | None \<Rightarrow> put_number4 0)
     @ put_number1 (uint (m_status self)) @ put_string (m_name self)
     @ (case m_headers self of
          Some h \<Rightarrow> put_number4 (int (zhash_size h)) @ concat (map put_entry h)
        | None \<Rightarrow> put_number4 0)"

definition zre_msg_put :: "zre_msg \<Rightarrow> byte list" where
  "zre_msg_put self = put_number2 0xAAA1 @ put_number1 (m_id self) @
     (if m_id self = ZRE_MSG_HELLO then put_hello self
      else if m_id self = ZRE_MSG_WHISPER
        then put_number1 2 @ put_number2 (uint (m_sequence self))
      else if m_id self = ZRE_MSG_SHOUT
        then put_number1 2 @ put_number2 (uint (m_sequence self)) @ put_string (m_group self)
      else if m_id self = ZRE_MSG_JOIN
        then put_number1 2 @ put_number2 (uint (m_sequence self)) @ put_string (m_group self)
          @ put_number1 (uint (m_status self))
      else if m_id self = ZRE_MSG_LEAVE
        then put_number1 2 @ put_number2 (uint (m_sequence self)) @ put_string (m_group self)
          @ put_number1 (uint (m_status self))
      else if m_id self = ZRE_MSG_PING
        then put_number1 2 @ put_number2 (uint (m_sequence self))
      else if m_id self = ZRE_MSG_PING_OK
        then put_number1 2 @ put_number2 (uint (m_sequence self))
      else if m_id self = ZRE_MSG_ELECT
        then put_number1 2 @ put_number2 (uint (m_sequence self)) @ put_string (m_group self)
          @ put_string (m_challenger_id self)
      else if m_id self = ZRE_MSG_LEADER
        then put_number1 2 @ put_number2 (uint (m_sequence self)) @ put_string (m_group self)
          @ put_string (m_leader_id self)
      else if m_id self = ZRE_MSG_GOODBYE
        then put_number1 2 @ put_number2 (uint (m_sequence self))
      else [])"

text \<open>
  The frame is allocated with its measured size and holds whatever memory held; writing past its
  end would overrun the allocation.
\<close>

definition fill_frame :: "(nat \<Rightarrow> byte) \<Rightarrow> nat \<Rightarrow> byte list \<Rightarrow> byte list outcome" where
  "fill_frame junk frame_size bs =
     (if frame_size < length bs then Inl Buffer_overflow
      else Inr (bs @ map junk [length bs..<frame_size]))"

definition zre_msg_encode :: "(nat \<Rightarrow> byte) \<Rightarrow> zre_msg \<Rightarrow> (byte list \<times> zre_msg) outcome" where
  "zre_msg_encode junk self =
     (let self = zre_msg_count_headers self
      in and_then (fill_frame junk (zre_msg_frame_size self) (zre_msg_put self))
           (\<lambda>frame. Inr (frame, self)))"

section \<open>Sending\<close>

definition have_content :: "zre_msg \<Rightarrow> bool" where
  "have_content self \<longleftrightarrow> m_id self = ZRE_MSG_WHISPER \<or> m_id self = ZRE_MSG_SHOUT"

definition nbr_frames :: "zre_msg \<Rightarrow> nat" where
  "nbr_frames self = (if have_content self
     then 1 + (case m_content self of Some c \<Rightarrow> length c | None \<Rightarrow> 1) else 1)"

text \<open>The frames after the data frame; \<open>n\<close> is the number of frames still to send.\<close>

fun content_frames :: "nat \<Rightarrow> byte list list \<Rightarrow> zframe list" where
  "content_frames n [] = []"
| "content_frames n (d # ds) = \<lparr>fr_data = d, fr_more = n - 1 \<noteq> 0\<rparr> # content_frames (n - 1) ds"

text \<open>A frame the socket refuses is lost; no caller looks at the result of these sends.\<close>

definition send_frame :: "(zframe list \<Rightarrow> bool) \<Rightarrow> zframe list \<Rightarrow> zframe \<Rightarrow> zframe list" where
  "send_frame full output f = (if full output then output else output @ [f])"

definition zre_msg_send :: "(zframe list \<Rightarrow> bool) \<Rightarrow> (nat \<Rightarrow> byte) \<Rightarrow> bool \<Rightarrow> zre_msg \<Rightarrow> zframe list
    \<Rightarrow> (int \<times> zre_msg \<times> zframe list) outcome" where
  "zre_msg_send full junk router self output =
     (let output = (if router
            then (case m_routing_id self of
                    Some r \<Rightarrow> send_frame full output \<lparr>fr_data = r, fr_more = True\<rparr> | None \<Rightarrow> output)
            else output);
          self = zre_msg_count_headers self
      in and_then (fill_frame junk (zre_msg_frame_size self) (zre_msg_put self)) (\<lambda>frame.
         let n = nbr_frames self - 1;
             output = send_frame full output \<lparr>fr_data = frame, fr_more = n \<noteq> 0\<rparr>;
             output = (if have_content self
               then (case m_content self of
                       Some c \<Rightarrow> foldl (send_frame full) output (content_frames n c)
                     | None \<Rightarrow> send_frame full output \<lparr>fr_data = [], fr_more = False\<rparr>)
               else output)
         in Inr (0, self, output)))"

section \<open>Receiving\<close>

text \<open>
  The result of a parse: the return code (0, -1 or -2), the message object with the fields set so
  far, and the frames left on the socket. A getter that fails jumps to \<open>malformed\<close> with the code
  unchanged, that is, 0.
\<close>

type_synonym recv_result = "int \<times> zre_msg \<times> zframe list"

definition get_or :: "('a \<times> byte list) option \<Rightarrow> 'r \<Rightarrow> ('a \<Rightarrow> byte list \<Rightarrow> 'r) \<Rightarrow> 'r" where
  "get_or r malformed k = (case r of None \<Rightarrow> malformed | Some (x, needle) \<Rightarrow> k x needle)"

definition recv_sequence :: "zre_msg \<Rightarrow> zframe list \<Rightarrow> byte list
    \<Rightarrow> (zre_msg \<Rightarrow> byte list \<Rightarrow> recv_result) \<Rightarrow> recv_result" where
  "recv_sequence self input needle k =
     get_or (get_number1 needle) (0, self, input) (\<lambda>version needle.
       if version \<noteq> 2 then (-2, self, input)
       else get_or (get_number2 needle) (0, self, input) (\<lambda>sequence needle.
         k (self\<lparr>m_sequence := sequence\<rparr>) needle))"

definition recv_group :: "zre_msg \<Rightarrow> zframe list \<Rightarrow> byte list
    \<Rightarrow> (zre_msg \<Rightarrow> byte list \<Rightarrow> recv_result) \<Rightarrow> recv_result" where
  "recv_group self input needle k =
     get_or (get_string needle) (0, self, input) (\<lambda>group needle.
       k (self\<lparr>m_group := group\<rparr>) needle)"

text \<open>Get zero or more remaining frames.\<close>

definition recv_content :: "bool \<Rightarrow> zframe list \<Rightarrow> byte list list \<times> zframe list" where
  "recv_content rcvmore input = (if rcvmore then zmsg_recv_rest input else ([], input))"

definition recv_headers :: "(string \<Rightarrow> nat) \<Rightarrow> (string \<times> string) list \<Rightarrow> string zhash" where
  "recv_headers rank es = fold (\<lambda>e. zhash_insert rank (fst e) (snd e)) es []"

definition recv_hello :: "(string \<Rightarrow> nat) \<Rightarrow> zre_msg \<Rightarrow> zframe list \<Rightarrow> byte list \<Rightarrow> recv_result" where
  "recv_hello rank self input needle = recv_sequence self input needle (\<lambda>self needle.
     get_or (get_string needle) (0, self, input) (\<lambda>endpoint needle.
     let self = self\<lparr>m_endpoint := endpoint\<rparr> in
     get_or (get_number4 needle) (0, self, input) (\<lambda>list_size needle.
     case get_many get_longstr (unat list_size) needle of
       (gs, None) \<Rightarrow> (0, self\<lparr>m_groups := Some gs\<rparr>, input)
     | (gs, Some needle) \<Rightarrow>
     let self = self\<lparr>m_groups := Some gs\<rparr> in
     get_or (get_number1 needle) (0, self, input) (\<lambda>status needle.
     let self = self\<lparr>m_status := status\<rparr> in
     get_or (get_string needle) (0, self, input) (\<lambda>name needle.
     let self = self\<lparr>m_name := name\<rparr> in
     get_or (get_number4 needle) (0, self, input) (\<lambda>hash_size needle.
     case get_many get_entry (unat hash_size) needle of
       (es, _) \<Rightarrow> (0, self\<lparr>m_headers := Some (recv_headers rank es)\<rparr>, input)))))))"

definition recv_whisper :: "zre_msg \<Rightarrow> bool \<Rightarrow> zframe list \<Rightarrow> byte list \<Rightarrow> recv_result" where
  "recv_whisper self rcvmore input needle = recv_sequence self input needle (\<lambda>self needle.
     case recv_content rcvmore input of (content, input) \<Rightarrow> (0, self\<lparr>m_content := Some content\<rparr>, input))"

definition recv_shout :: "zre_msg \<Rightarrow> bool \<Rightarrow> zframe list \<Rightarrow> byte list \<Rightarrow> recv_result" where
  "recv_shout self rcvmore input needle = recv_sequence self input needle (\<lambda>self needle.
     recv_group self input needle (\<lambda>self needle.
     case recv_content rcvmore input of (content, input) \<Rightarrow> (0, self\<lparr>m_content := Some content\<rparr>, input)))"

definition recv_join :: "zre_msg \<Rightarrow> zframe list \<Rightarrow> byte list \<Rightarrow> recv_result" where
  "recv_join self input needle = recv_sequence self input needle (\<lambda>self needle.
     recv_group self input needle (\<lambda>self needle.
     get_or (get_number1 needle) (0, self, input) (\<lambda>status needle.
       (0, self\<lparr>m_status := status\<rparr>, input))))"

definition recv_ping :: "zre_msg \<Rightarrow> zframe list \<Rightarrow> byte list \<Rightarrow> recv_result" where
  "recv_ping self input needle = recv_sequence self input needle (\<lambda>self needle. (0, self, input))"

definition recv_elect :: "zre_msg \<Rightarrow> zframe list \<Rightarrow> byte list \<Rightarrow> recv_result" where
  "recv_elect self input needle = recv_sequence self input needle (\<lambda>self needle.
     recv_group self input needle (\<lambda>self needle.
     get_or (get_string needle) (0, self, input) (\<lambda>challenger_id needle.
       (0, self\<lparr>m_challenger_id := challenger_id\<rparr>, input))))"

definition recv_leader :: "zre_msg \<Rightarrow> zframe list \<Rightarrow> byte list \<Rightarrow> recv_result" where
  "recv_leader self input needle = recv_sequence self input needle (\<lambda>self needle.
     recv_group self input needle (\<lambda>self needle.
     get_or (get_string needle) (0, self, input) (\<lambda>leader_id needle.
       (0, self\<lparr>m_leader_id := leader_id\<rparr>, input))))"

definition recv_body :: "(string \<Rightarrow> nat) \<Rightarrow> zre_msg \<Rightarrow> bool \<Rightarrow> zframe list \<Rightarrow> byte list \<Rightarrow> recv_result" where
  "recv_body rank self rcvmore input needle =
     (if m_id self = ZRE_MSG_HELLO then recv_hello rank self input needle
      else if m_id self = ZRE_MSG_WHISPER then recv_whisper self rcvmore input needle
      else if m_id self = ZRE_MSG_SHOUT then recv_shout self rcvmore input needle
      else if m_id self = ZRE_MSG_JOIN then recv_join self input needle
      else if m_id self = ZRE_MSG_LEAVE then recv_join self input needle
      else if m_id self = ZRE_MSG_PING then recv_ping self input needle
      else if m_id self = ZRE_MSG_PING_OK then recv_ping self input needle
      else if m_id self = ZRE_MSG_ELECT then recv_elect self input needle
      else if m_id self = ZRE_MSG_LEADER then recv_leader self input needle
      else if m_id self = ZRE_MSG_GOODBYE then recv_ping self input needle
      else (-2, self, input))"

definition recv_frame :: "(string \<Rightarrow> nat) \<Rightarrow> zre_msg \<Rightarrow> bool \<Rightarrow> zframe list \<Rightarrow> byte list \<Rightarrow> recv_result" where
  "recv_frame rank self rcvmore input needle =
     get_or (get_number2 needle) (0, self, input) (\<lambda>signature needle.
       if signature \<noteq> 0xAAA1 then (-2, self, input)
       else get_or (get_number1 needle) (0, self, input) (\<lambda>i needle.
         recv_body rank (self\<lparr>m_id := uint i\<rparr>) rcvmore input needle))"

text \<open>
  A socket with nothing on it stands for a receive that was interrupted. On a ROUTER socket the
  first frame is the routing id, and a data frame must follow it.
\<close>

definition recv_data :: "(string \<Rightarrow> nat) \<Rightarrow> zre_msg \<Rightarrow> zframe list \<Rightarrow> recv_result" where
  "recv_data rank self input = (case input of
     [] \<Rightarrow> (-1, self, [])
   | frame # input \<Rightarrow> recv_frame rank self (fr_more frame) input (fr_data frame))"

definition zre_msg_recv :: "(string \<Rightarrow> nat) \<Rightarrow> bool \<Rightarrow> zre_msg \<Rightarrow> zframe list \<Rightarrow> recv_result" where
  "zre_msg_recv rank router self input =
     (if router then (case input of
        [] \<Rightarrow> (-1, self\<lparr>m_routing_id := None\<rparr>, [])
      | f # input \<Rightarrow>
          let self = self\<lparr>m_routing_id := Some (fr_data f)\<rparr>
          in if fr_more f then recv_data rank self input else (-1, self, input))
      else recv_data rank self input)"

end
