(* ===== verification/Zre_Msg_Codec_Facts.thy ===== *)
theory Zre_Msg_Codec_Facts
  imports Zre_Msg_Codec
begin

text \<open>
  What the codec promises: the measured frame always holds what is written into it, a well-formed
  message comes back as it was sent, a frame that is cut short is nevertheless accepted, and
  exactly which frames are refused.
\<close>

section \<open>Measuring\<close>

lemma length_put_longstrs: "length (concat (map put_longstr gs)) = sum_list (map (\<lambda>g. 4 + length g) gs)"
  by (induction gs) simp_all

lemma length_put_entries: "length (concat (map put_entry h)) = headers_size h"
  by (induction h) (auto simp: headers_size_def)

lemma zre_msg_count_headers_sel [simp]:
  "m_routing_id (zre_msg_count_headers m) = m_routing_id m"
  "m_id (zre_msg_count_headers m) = m_id m"
  "m_sequence (zre_msg_count_headers m) = m_sequence m"
  "m_endpoint (zre_msg_count_headers m) = m_endpoint m"
  "m_groups (zre_msg_count_headers m) = m_groups m"
  "m_status (zre_msg_count_headers m) = m_status m"
  "m_name (zre_msg_count_headers m) = m_name m"
  "m_headers (zre_msg_count_headers m) = m_headers m"
  "m_content (zre_msg_count_headers m) = m_content m"
  "m_group (zre_msg_count_headers m) = m_group m"
  "m_challenger_id (zre_msg_count_headers m) = m_challenger_id m"
  "m_leader_id (zre_msg_count_headers m) = m_leader_id m"
  by (simp_all add: zre_msg_count_headers_def split: option.split)

lemma zre_msg_put_count_headers [simp]: "zre_msg_put (zre_msg_count_headers m) = zre_msg_put m"
  by (simp add: zre_msg_put_def put_hello_def)

lemma nbr_frames_count_headers [simp]: "nbr_frames (zre_msg_count_headers m) = nbr_frames m"
  by (simp add: nbr_frames_def have_content_def)

lemma have_content_count_headers [simp]:
  "have_content (zre_msg_count_headers m) = have_content m"
  by (simp add: have_content_def)

definition stale_bytes :: "zre_msg \<Rightarrow> nat" where
  "stale_bytes m = (if m_id m = ZRE_MSG_HELLO \<and> m_headers m = None then m_headers_bytes m else 0)"

lemma frame_size_put:
  "zre_msg_frame_size (zre_msg_count_headers m) = length (zre_msg_put m) + stale_bytes m"
proof (cases "m_id m = ZRE_MSG_HELLO")
  case True
  then show ?thesis
    by (cases "m_headers m"; cases "m_groups m")
      (simp_all add: zre_msg_frame_size_def zre_msg_put_def put_hello_def stale_bytes_def
        zre_msg_count_headers_def length_put_longstrs length_put_entries del: length_concat)
next
  case False
  then show ?thesis
    by (simp add: zre_msg_frame_size_def zre_msg_put_def stale_bytes_def)
qed

lemma fill_frame_measured:
  "\<exists>tail. fill_frame junk (zre_msg_frame_size (zre_msg_count_headers m)) (zre_msg_put m)
      = Inr (zre_msg_put m @ tail) \<and> length tail = stale_bytes m"
  by (simp add: fill_frame_def frame_size_put)

section \<open>Sending\<close>

lemma foldl_send_frame [simp]:
  "\<forall>q. \<not> full q \<Longrightarrow> foldl (send_frame full) out fs = out @ fs"
  by (induction fs arbitrary: out) (simp_all add: send_frame_def)

lemma content_frames_multipart:
  "ds \<noteq> [] \<Longrightarrow> content_frames (length ds) ds = multipart ds"
  by (induction ds rule: multipart.induct) auto

text \<open>The content frames a message is sent with: an absent content is one empty frame.\<close>

definition sent_content :: "zre_msg \<Rightarrow> byte list list" where
  "sent_content m = (if have_content m
     then (case m_content m of Some c \<Rightarrow> c | None \<Rightarrow> [[]]) else [])"

lemma zre_msg_send_frames:
  assumes "\<forall>q. \<not> full q"
  obtains tail where "zre_msg_send full junk False m out
     = Inr (0, zre_msg_count_headers m, out @ multipart ((zre_msg_put m @ tail) # sent_content m))"
    and "length tail = stale_bytes m"
proof -
  obtain tail where t: "fill_frame junk (zre_msg_frame_size (zre_msg_count_headers m)) (zre_msg_put m)
      = Inr (zre_msg_put m @ tail)" "length tail = stale_bytes m"
    using fill_frame_measured by blast
  have nil: "multipart [d] = [\<lparr>fr_data = d, fr_more = False\<rparr>]" for d by simp
  have cons: "multipart (d # c) = \<lparr>fr_data = d, fr_more = True\<rparr> # multipart c" if "c \<noteq> []" for d c
    using that by (cases c) simp_all
  have "zre_msg_send full junk False m out
     = Inr (0, zre_msg_count_headers m, out @ multipart ((zre_msg_put m @ tail) # sent_content m))"
  proof (cases "sent_content m = []")
    case True
    then show ?thesis using assms t
      by (auto simp: zre_msg_send_def sent_content_def nbr_frames_def Let_def send_frame_def
          split: option.splits if_splits)
  next
    case False
    then have "multipart ((zre_msg_put m @ tail) # sent_content m)
       = \<lparr>fr_data = zre_msg_put m @ tail, fr_more = True\<rparr> # multipart (sent_content m)"
      by (rule cons)
    with False show ?thesis using assms t
      by (auto simp: zre_msg_send_def sent_content_def nbr_frames_def Let_def send_frame_def
          content_frames_multipart split: option.splits if_splits)
  qed
  then show thesis using t(2) by (rule that)
qed

section \<open>Receiving what was sent\<close>

lemma get_or_simps [simp]:
  "get_or None mal k = mal" "get_or (Some (x, needle)) mal k = k x needle"
  by (simp_all add: get_or_def)

lemmas field_get_put = wn1.get_put wn2.get_put wn4.get_put ws.get_put wl.get_put we.get_put
lemmas field_get_cut = wn1.get_cut wn2.get_cut wn4.get_cut ws.get_cut wl.get_cut we.get_cut

text \<open>
  A message the protocol can carry: a known id, list and table small enough for their counters,
  strings that are C strings, header names that fit their one-octet length.
\<close>

definition sendable :: "zre_msg \<Rightarrow> bool" where
  "sendable m \<longleftrightarrow> fields_ok m \<and> 1 \<le> m_id m \<and> m_id m \<le> 10
     \<and> (\<forall>gs. m_groups m = Some gs \<longrightarrow> length gs < 2 ^ 32 \<and> (\<forall>g \<in> set gs. long_ok g))
     \<and> (\<forall>h. m_headers m = Some h \<longrightarrow> length h < 2 ^ 32 \<and> (\<forall>e \<in> set h. entry_ok e) \<and> wf_zhash h)"

definition msg_list :: "'a list option \<Rightarrow> 'a list" where
  "msg_list xs = (case xs of None \<Rightarrow> [] | Some ys \<Rightarrow> ys)"

text \<open>The fields of the message's kind, stored into a message object.\<close>

definition store_fields :: "(string \<Rightarrow> nat) \<Rightarrow> zre_msg \<Rightarrow> byte list list \<Rightarrow> zre_msg \<Rightarrow> zre_msg" where
  "store_fields rank m content self =
     (let self = self\<lparr>m_id := m_id m, m_sequence := m_sequence m\<rparr> in
      if m_id m = ZRE_MSG_HELLO then
        self\<lparr>m_endpoint := m_endpoint m, m_groups := Some (msg_list (m_groups m)),
          m_status := m_status m, m_name := m_name m,
          m_headers := Some (recv_headers rank (msg_list (m_headers m)))\<rparr>
      else if m_id m = ZRE_MSG_WHISPER then self\<lparr>m_content := Some content\<rparr>
      else if m_id m = ZRE_MSG_SHOUT then self\<lparr>m_group := m_group m, m_content := Some content\<rparr>
      else if m_id m = ZRE_MSG_JOIN \<or> m_id m = ZRE_MSG_LEAVE
        then self\<lparr>m_group := m_group m, m_status := m_status m\<rparr>
      else if m_id m = ZRE_MSG_ELECT
        then self\<lparr>m_group := m_group m, m_challenger_id := m_challenger_id m\<rparr>
      else if m_id m = ZRE_MSG_LEADER
        then self\<lparr>m_group := m_group m, m_leader_id := m_leader_id m\<rparr>
      else self)"

lemma store_fields_no_content:
  "\<not> have_content m \<Longrightarrow> store_fields rank m c self = store_fields rank m [] self"
  by (simp add: store_fields_def have_content_def Let_def)

lemma sendable_short:
  assumes "sendable m"
  shows "short_ok (m_endpoint m)" "short_ok (m_name m)" "short_ok (m_group m)"
    "short_ok (m_challenger_id m)" "short_ok (m_leader_id m)"
  using assms by (simp_all add: sendable_def fields_ok_def field_ok_def short_ok_def)

lemma sendable_groups:
  assumes "sendable m"
  shows "length (msg_list (m_groups m)) < 2 ^ 32" "\<forall>g \<in> set (msg_list (m_groups m)). long_ok g"
  using assms by (cases "m_groups m"; auto simp: sendable_def msg_list_def)+

lemma sendable_headers:
  assumes "sendable m"
  shows "length (msg_list (m_headers m)) < 2 ^ 32" "\<forall>e \<in> set (msg_list (m_headers m)). entry_ok e"
    "wf_zhash (msg_list (m_headers m))"
  using assms by (cases "m_headers m"; auto simp: sendable_def msg_list_def)+

lemma put_hello_lists: "put_hello m = put_number1 2 @ put_number2 (uint (m_sequence m))
     @ put_string (m_endpoint m)
     @ put_number4 (int (length (msg_list (m_groups m)))) @ concat (map put_longstr (msg_list (m_groups m)))
     @ put_number1 (uint (m_status m)) @ put_string (m_name m)
     @ put_number4 (int (length (msg_list (m_headers m)))) @ concat (map put_entry (msg_list (m_headers m)))"
  by (simp add: put_hello_def msg_list_def zhash_size_def split: option.split)

lemma recv_hello_put:
  assumes "sendable m" and "m_id m = ZRE_MSG_HELLO"
  shows "recv_hello rank (self\<lparr>m_id := ZRE_MSG_HELLO\<rparr>) input (put_hello m @ tail)
    = (0, store_fields rank m content self, input)"
  using assms sendable_short [OF assms(1)] sendable_groups [OF assms(1)] sendable_headers [OF assms(1)]
  by (simp add: recv_hello_def recv_sequence_def put_hello_lists field_get_put Let_def
      wl.get_many_put we.get_many_put unat_length_word32 store_fields_def del: of_int_of_nat_eq)

lemma known_id: "(1 \<le> i \<and> i \<le> 10) \<longleftrightarrow> i = 1 \<or> i = 2 \<or> i = 3 \<or> i = 4 \<or> i = 5 \<or> i = 6 \<or> i = 7
    \<or> i = 8 \<or> i = 9 \<or> i = (10 :: int)"
  by arith

lemma recv_frame_put:
  assumes "sendable m"
  shows "recv_frame rank self rcvmore input (zre_msg_put m @ tail)
    = (0, store_fields rank m (fst (recv_content rcvmore input)) self,
       if have_content m then snd (recv_content rcvmore input) else input)"
proof (cases "m_id m = ZRE_MSG_HELLO")
  case True
  then show ?thesis
    using recv_hello_put [OF assms True, of rank self input]
    by (simp add: recv_frame_def zre_msg_put_def field_get_put recv_body_def have_content_def)
next
  case False
  have "m_id m \<in> {1, 2, 3, 4, 5, 6, 7, 8, 9, 10}"
    using assms known_id [of "m_id m"] by (simp add: sendable_def)
  then show ?thesis using False sendable_short [OF assms]
    by (auto simp: recv_frame_def zre_msg_put_def field_get_put recv_body_def have_content_def
        recv_whisper_def recv_shout_def recv_join_def recv_ping_def recv_elect_def recv_leader_def
        recv_sequence_def recv_group_def store_fields_def Let_def split: prod.splits)
qed

section \<open>Which frames are refused\<close>

lemma recv_sequence_code:
  assumes "\<And>self needle. fst (k self needle) = 0"
  shows "fst (recv_sequence self input needle k)
    = (case needle of [] \<Rightarrow> 0 | version # _ \<Rightarrow> if version = 2 then 0 else -2)"
  using assms by (cases needle) (auto simp: recv_sequence_def get_or_def split: option.split)

lemma recv_group_code:
  assumes "\<And>self needle. fst (k self needle) = 0"
  shows "fst (recv_group self input needle k) = 0"
  using assms by (auto simp: recv_group_def get_or_def split: option.split)

lemma get_or_code:
  "fst mal = 0 \<Longrightarrow> (\<And>x needle. fst (k x needle) = 0) \<Longrightarrow> fst (get_or r mal k) = 0"
  by (auto simp: get_or_def split: option.split)

lemma recv_hello_code: "fst (recv_hello rank self input needle)
    = (case needle of [] \<Rightarrow> 0 | version # _ \<Rightarrow> if version = 2 then 0 else -2)"
  unfolding recv_hello_def
  by (rule recv_sequence_code) (auto intro!: get_or_code simp: Let_def split: prod.split option.split)

lemma recv_body_code:
  "fst (recv_body rank self rcvmore input needle)
    = (if 1 \<le> m_id self \<and> m_id self \<le> 10
       then (case needle of [] \<Rightarrow> 0 | version # _ \<Rightarrow> if version = 2 then 0 else -2) else -2)"
  unfolding known_id
  by (auto simp: recv_body_def recv_hello_code recv_whisper_def recv_shout_def recv_join_def
      recv_ping_def recv_elect_def recv_leader_def recv_sequence_code recv_group_code get_or_code
      split: prod.split)

lemma signature_bytes:
  "push_bit 8 (ucast (a :: byte)) + ucast (b :: byte) = (0xAAA1 :: 16 word) \<longleftrightarrow> a = 0xAA \<and> b = 0xA1"
proof
  let ?w = "push_bit 8 (ucast a) + ucast b :: 16 word"
  have or: "?w = push_bit 8 (ucast a) OR ucast b"
    by (rule disjunctive_add) (auto simp: bit_simps dest: bit_imp_le_length)
  have "ucast (drop_bit 8 ?w) = a" and "ucast ?w = b"
    unfolding or by (rule bit_word_eqI, auto simp: bit_simps dest: bit_imp_le_length)+
  moreover assume "?w = 0xAAA1"
  ultimately show "a = 0xAA \<and> b = 0xA1" by auto
qed auto

text \<open>A data frame with a wrong signature, an unknown id or a wrong version.\<close>

definition bad_header :: "byte list \<Rightarrow> bool" where
  "bad_header d \<longleftrightarrow> 2 \<le> length d \<and> (d ! 0 \<noteq> 0xAA \<or> d ! 1 \<noteq> 0xA1
     \<or> 3 \<le> length d \<and> (\<not> (1 \<le> uint (d ! 2) \<and> uint (d ! 2) \<le> 10) \<or> 4 \<le> length d \<and> d ! 3 \<noteq> 2))"

lemma recv_frame_code:
  "fst (recv_frame rank self rcvmore input d) = (if bad_header d then -2 else 0)"
proof (cases d rule: get_number2.cases)
  case (1 a b needle)
  show ?thesis
  proof (cases needle)
    case Nil
    with 1 show ?thesis by (auto simp: recv_frame_def bad_header_def signature_bytes)
  next
    case (Cons i rest)
    with 1 show ?thesis
      by (cases rest)
        (simp_all add: recv_frame_def bad_header_def signature_bytes recv_body_code)
  qed
qed (simp_all add: recv_frame_def bad_header_def)

lemma bad_header_take:
  assumes "\<not> bad_header d" shows "\<not> bad_header (take n d)"
  using assms by (auto simp: bad_header_def)

lemma put_header: "zre_msg_put m = [0xAA, 0xA1, word_of_int (m_id m)] @ drop 3 (zre_msg_put m)"
  by (simp add: zre_msg_put_def put_number2_def put_number1_def)

lemma bad_header_put:
  assumes "sendable m" shows "\<not> bad_header (zre_msg_put m @ tail)"
proof -
  have "fst (recv_frame (\<lambda>_. 0) zre_msg_new False [] (zre_msg_put m @ tail)) = 0"
    by (simp add: recv_frame_put [OF assms])
  then show ?thesis by (simp add: recv_frame_code split: if_splits)
qed

section \<open>Every field a parse sets fits its array\<close>

lemma get_string_field_ok: "get_string bs = Some (s, rest) \<Longrightarrow> field_ok s"
proof -
  assume "get_string bs = Some (s, rest)"
  then obtain k n where "s = cstr (take (unat (k :: byte)) n)"
    by (auto simp: get_string_def split: option.splits if_splits)
  moreover have "unat k \<le> 255" using unsigned_less [of k, where 'a = nat] by simp
  ultimately show ?thesis
    using length_cstr_le [of "take (unat k) n"] by (simp add: field_ok_def)
qed

lemma fields_ok_updates [simp]:
  "fields_ok (m\<lparr>m_id := i\<rparr>) = fields_ok m"
  "fields_ok (m\<lparr>m_sequence := q\<rparr>) = fields_ok m"
  "fields_ok (m\<lparr>m_groups := gs\<rparr>) = fields_ok m"
  "fields_ok (m\<lparr>m_status := st\<rparr>) = fields_ok m"
  "fields_ok (m\<lparr>m_headers := h\<rparr>) = fields_ok m"
  "fields_ok (m\<lparr>m_content := c\<rparr>) = fields_ok m"
  "fields_ok (m\<lparr>m_routing_id := r\<rparr>) = fields_ok m"
  by (simp_all add: fields_ok_def)

lemma fields_ok_string_updates:
  "fields_ok m \<Longrightarrow> field_ok s \<Longrightarrow> fields_ok (m\<lparr>m_endpoint := s\<rparr>)"
  "fields_ok m \<Longrightarrow> field_ok s \<Longrightarrow> fields_ok (m\<lparr>m_name := s\<rparr>)"
  "fields_ok m \<Longrightarrow> field_ok s \<Longrightarrow> fields_ok (m\<lparr>m_group := s\<rparr>)"
  "fields_ok m \<Longrightarrow> field_ok s \<Longrightarrow> fields_ok (m\<lparr>m_challenger_id := s\<rparr>)"
  "fields_ok m \<Longrightarrow> field_ok s \<Longrightarrow> fields_ok (m\<lparr>m_leader_id := s\<rparr>)"
  by (simp_all add: fields_ok_def)

definition recv_ok :: "recv_result \<Rightarrow> bool" where
  "recv_ok r \<longleftrightarrow> fields_ok (fst (snd r))"

lemma recv_ok_triple [simp]: "recv_ok (rc, m, input) = fields_ok m"
  by (simp add: recv_ok_def)

lemma get_or_keeps:
  "recv_ok mal \<Longrightarrow> (\<And>x needle. r = Some (x, needle) \<Longrightarrow> recv_ok (k x needle)) \<Longrightarrow> recv_ok (get_or r mal k)"
  by (auto simp: get_or_def split: option.split)

lemma recv_sequence_keeps:
  "fields_ok self \<Longrightarrow> (\<And>self needle. fields_ok self \<Longrightarrow> recv_ok (k self needle))
    \<Longrightarrow> recv_ok (recv_sequence self input needle k)"
  by (auto simp: recv_sequence_def get_or_def split: option.split)

lemma recv_group_keeps:
  "fields_ok self \<Longrightarrow> (\<And>self needle. fields_ok self \<Longrightarrow> recv_ok (k self needle))
    \<Longrightarrow> recv_ok (recv_group self input needle k)"
  by (auto simp: recv_group_def get_or_def fields_ok_string_updates get_string_field_ok
      split: option.split)

lemma recv_hello_keeps: "fields_ok self \<Longrightarrow> recv_ok (recv_hello rank self input needle)"
  unfolding recv_hello_def
  by (erule recv_sequence_keeps)
    (auto intro!: get_or_keeps fields_ok_string_updates simp: Let_def split: prod.split option.split;
      erule get_string_field_ok)

lemma recv_body_keeps: "fields_ok self \<Longrightarrow> recv_ok (recv_body rank self rcvmore input needle)"
  unfolding recv_body_def recv_whisper_def recv_shout_def recv_join_def
    recv_ping_def recv_elect_def recv_leader_def
  by (auto intro!: recv_hello_keeps recv_sequence_keeps recv_group_keeps get_or_keeps
      fields_ok_string_updates elim: get_string_field_ok split: prod.split)

lemma recv_frame_keeps: "fields_ok self \<Longrightarrow> recv_ok (recv_frame rank self rcvmore input d)"
  unfolding recv_frame_def by (auto intro!: get_or_keeps recv_body_keeps)

lemma zre_msg_recv_keeps [keeps]: "fields_ok self \<Longrightarrow> recv_ok (zre_msg_recv rank router self input)"
  by (auto simp: zre_msg_recv_def recv_data_def recv_frame_keeps Let_def split: list.split)

end
