(* ===== verification/Zre_Msg_Codec_Props.thy ===== *)
theory Zre_Msg_Codec_Props
  imports Zre_Msg_Codec_Facts
begin

text \<open>The properties of the codec, with sample messages their witnesses use.\<close>

section \<open>Sample messages\<close>

definition sample_hello :: zre_msg where
  "sample_hello = zre_msg_new\<lparr>m_id := ZRE_MSG_HELLO, m_sequence := 1,
     m_endpoint := ''tcp://10.0.0.1:4000'', m_groups := Some [''A'', ''B''], m_status := 2,
     m_name := ''n1'', m_headers := Some [(''X-HELLO'', ''World'')]\<rparr>"

definition sample_join :: zre_msg where
  "sample_join = zre_msg_new\<lparr>m_id := ZRE_MSG_JOIN, m_sequence := 2, m_group := ''A'', m_status := 3\<rparr>"

lemma sendable_samples [simp]: "sendable sample_hello" "sendable sample_join"
  by (simp_all add: sendable_def sample_hello_def sample_join_def zre_msg_new_def fields_ok_def
      field_ok_def c_string_def long_ok_def entry_ok_def short_ok_def wf_zhash_def)

lemma sample_sel [simp]:
  "m_id sample_hello = ZRE_MSG_HELLO" "m_id sample_join = ZRE_MSG_JOIN"
  "m_headers sample_hello = Some [(''X-HELLO'', ''World'')]"
  "\<not> have_content sample_join" "\<not> have_content sample_hello"
  by (simp_all add: sample_hello_def sample_join_def have_content_def)

section \<open>Round trip\<close>

text \<open>The message object a node holds after receiving \<open>m\<close> from the peer with identity \<open>rid\<close>.\<close>

definition zre_msg_received :: "(string \<Rightarrow> nat) \<Rightarrow> byte list \<Rightarrow> zre_msg \<Rightarrow> zre_msg" where
  "zre_msg_received rank rid m
     = store_fields rank m (sent_content m) (zre_msg_new\<lparr>m_routing_id := Some rid\<rparr>)"

text \<open>What the ROUTER socket of the receiver delivers: the identity, then the sent frames.\<close>

definition routed :: "byte list \<Rightarrow> zframe list \<Rightarrow> zframe list" where
  "routed rid fs = \<lparr>fr_data = rid, fr_more = True\<rparr> # fs"

lemma recv_content_sent:
  "have_content m \<Longrightarrow> recv_content (sent_content m \<noteq> []) (multipart (sent_content m) @ rest)
     = (sent_content m, rest)"
  by (cases "sent_content m = []") (simp_all add: recv_content_def)

lemma multipart_Cons: "multipart (d # c) = \<lparr>fr_data = d, fr_more = c \<noteq> []\<rparr> # multipart c"
  by (cases c) simp_all

text \<open>Into any object: what the frames do not say stays as it was.\<close>

lemma recv_sent_into:
  assumes "sendable m"
  shows "zre_msg_recv rank True self (routed rid (multipart ((zre_msg_put m @ tail) # sent_content m) @ rest))
    = (0, store_fields rank m (sent_content m) (self\<lparr>m_routing_id := Some rid\<rparr>), rest)"
proof (cases "have_content m")
  case True
  then show ?thesis
    using recv_content_sent [OF True, of rest] recv_frame_put [OF assms]
    by (simp add: zre_msg_recv_def recv_data_def routed_def multipart_Cons Let_def)
next
  case False
  then have "sent_content m = []" by (simp add: sent_content_def)
  then show ?thesis
    using recv_frame_put [OF assms] False
      store_fields_no_content [OF False, of rank "fst (recv_content False rest)"]
    by (simp add: zre_msg_recv_def recv_data_def routed_def Let_def)
qed

lemma recv_sent_frames:
  assumes "sendable m"
  shows "zre_msg_recv rank True zre_msg_new
      (routed rid (multipart ((zre_msg_put m @ tail) # sent_content m) @ rest))
    = (0, zre_msg_received rank rid m, rest)"
  by (simp add: recv_sent_into [OF assms] zre_msg_received_def)

text \<open>C19: sending any well-formed message of any of the ten kinds through a mailbox that accepts
  its frames, and receiving those frames on the peer's ROUTER socket, gives return code 0 and a
  message object with the sender's identity and exactly the fields and content that were sent, and
  leaves the frames of later messages on the socket.\<close>

theorem zre_msg_roundtrip:
  assumes "sendable m" and "\<forall>q. \<not> full q"
  shows "\<exists>fs. zre_msg_send full junk False m [] = Inr (0, zre_msg_count_headers m, fs)
     \<and> zre_msg_recv rank True zre_msg_new (routed rid (fs @ rest))
         = (0, zre_msg_received rank rid m, rest)"
proof -
  obtain tail where "zre_msg_send full junk False m [] = Inr (0, zre_msg_count_headers m,
      [] @ multipart ((zre_msg_put m @ tail) # sent_content m))"
    using assms(2) by (rule zre_msg_send_frames)
  then show ?thesis using recv_sent_frames [OF assms(1), of rank rid tail rest] by auto
qed

theorem zre_msg_roundtrip_witness:
  "\<exists>fs. zre_msg_send (\<lambda>_. False) (\<lambda>_. 0) False sample_hello []
      = Inr (0, zre_msg_count_headers sample_hello, fs)
     \<and> zre_msg_recv length True zre_msg_new (routed [1, 7] (fs @ []))
         = (0, zre_msg_received length [1, 7] sample_hello, [])"
  by (rule zre_msg_roundtrip) simp_all

text \<open>The header table the receiver of a HELLO builds answers every lookup as the sender's
  table does, whatever the order of either table.\<close>

theorem hello_headers_roundtrip:
  assumes "sendable m" and "m_id m = ZRE_MSG_HELLO" and "m_headers m = Some h"
  shows "\<exists>h'. m_headers (zre_msg_received rank rid m) = Some h' \<and> wf_zhash h'
     \<and> (\<forall>k. zhash_lookup h' k = zhash_lookup h k)"
proof -
  have "wf_zhash h" using assms by (simp add: sendable_def)
  then have "wf_zhash (recv_headers rank h) \<and> zhash_lookup (recv_headers rank h) k = zhash_lookup h k" for k
    using zd.lookup_insert_list [of "[]" rank h k] by (simp add: recv_headers_def zhash_lookup_def)
  then show ?thesis using assms
    by (simp add: zre_msg_received_def store_fields_def msg_list_def)
qed

theorem hello_headers_roundtrip_witness:
  "\<exists>h'. m_headers (zre_msg_received length [1] sample_hello) = Some h' \<and> wf_zhash h'
     \<and> (\<forall>k. zhash_lookup h' k = zhash_lookup [(''X-HELLO'', ''World'')] k)"
  by (rule hello_headers_roundtrip) simp_all

section \<open>Memory safety of the writer\<close>

text \<open>C36: measuring and writing agree: encoding any message object never writes past the frame
  it allocated. The frame is exactly the written octets, but for the octets a stale header count
  adds when a HELLO's header table was taken away after an earlier send.\<close>

theorem zre_msg_encode_fits:
  "\<exists>tail. zre_msg_encode junk m = Inr (zre_msg_put m @ tail, zre_msg_count_headers m)
     \<and> length tail = stale_bytes m"
  using fill_frame_measured [of junk m] by (auto simp: zre_msg_encode_def)

section \<open>Refused and accepted frames\<close>

text \<open>On a ROUTER socket a data frame is refused as malformed (-2) exactly when it has a wrong
  signature, an unknown message id or a wrong version; every other data frame, whatever its length,
  is accepted with return code 0.\<close>

theorem zre_msg_recv_refused_iff:
  "fst (zre_msg_recv rank True self (routed rid (\<lparr>fr_data = d, fr_more = rcvmore\<rparr> # rest)))
     = (if bad_header d then -2 else 0)"
  by (simp add: zre_msg_recv_def routed_def recv_data_def recv_frame_code Let_def)

text \<open>A message cut off after any number of its octets is accepted with return code 0, where the
  interface of \<open>zre_msg_recv\<close> announces -2 for a malformed message: the getters jump to
  \<open>malformed\<close> without setting the code.\<close>

theorem truncated_frame_accepted:
  assumes "sendable m"
  shows "fst (zre_msg_recv rank True zre_msg_new
    (routed rid (\<lparr>fr_data = take n (zre_msg_put m), fr_more = rcvmore\<rparr> # rest))) = 0"
proof -
  have "\<not> bad_header (take n (zre_msg_put m))"
    using bad_header_put [OF assms, of "[]"] by (simp add: bad_header_take)
  then show ?thesis
    by (simp add: zre_msg_recv_def routed_def recv_data_def recv_frame_code Let_def)
qed

theorem truncated_frame_accepted_witness:
  "sendable sample_hello \<and> fst (zre_msg_recv length True zre_msg_new
    (routed [1] (\<lparr>fr_data = take 9 (zre_msg_put sample_hello), fr_more = False\<rparr> # []))) = 0"
  using truncated_frame_accepted [of sample_hello length "[1]" 9 False "[]"] by simp

text \<open>C39: the frames after the data frame of a message without content are not read, and the next
  receive takes the first of them for a routing id. So one multipart message makes the receiver see a
  second message under any identity its sender likes.\<close>

theorem extra_frames_forge_identity:
  assumes "sendable m" and "\<not> have_content m" and "sendable m2" and "\<not> have_content m2"
  shows "\<exists>input. zre_msg_recv rank True zre_msg_new
      (routed rid (multipart [zre_msg_put m, forged, zre_msg_put m2] @ rest))
        = (0, zre_msg_received rank rid m, input)
     \<and> zre_msg_recv rank True zre_msg_new input = (0, zre_msg_received rank forged m2, rest)"
proof -
  have nil: "sent_content m = []" "sent_content m2 = []"
    using assms by (simp_all add: sent_content_def)
  let ?input = "routed forged (multipart [zre_msg_put m2] @ rest)"
  have 1: "zre_msg_recv rank True zre_msg_new
      (routed rid (multipart [zre_msg_put m, forged, zre_msg_put m2] @ rest))
    = (0, zre_msg_received rank rid m, ?input)"
    using recv_frame_put [OF assms(1), where tail = "[]"] assms(2) nil
      store_fields_no_content [OF assms(2), of rank "fst (recv_content True ?input)"]
    by (simp add: zre_msg_recv_def recv_data_def routed_def Let_def zre_msg_received_def)
  have "zre_msg_recv rank True zre_msg_new ?input = (0, zre_msg_received rank forged m2, rest)"
    using recv_sent_frames [OF assms(3), of rank forged "[]" rest] nil by simp
  with 1 show ?thesis by blast
qed

theorem extra_frames_forge_identity_witness:
  "\<exists>input. zre_msg_recv length True zre_msg_new
      (routed [1, 5] (multipart [zre_msg_put sample_join, [1, 9], zre_msg_put sample_hello] @ []))
        = (0, zre_msg_received length [1, 5] sample_join, input)
     \<and> zre_msg_recv length True zre_msg_new input = (0, zre_msg_received length [1, 9] sample_hello, [])"
  by (rule extra_frames_forge_identity) simp_all

text \<open>C37: every text field a receive stores fits its 256-octet array with the terminating NUL and
  holds no other NUL, whatever octets the socket delivers.\<close>

theorem zre_msg_recv_fields_fit:
  assumes "fields_ok self"
  shows "fields_ok (fst (snd (zre_msg_recv rank router self input)))"
  using zre_msg_recv_keeps [OF assms, of rank router input] by (simp add: recv_ok_def)

theorem zre_msg_recv_fields_fit_witness:
  "fields_ok (fst (snd (zre_msg_recv length True zre_msg_new
     (routed [1] [\<lparr>fr_data = zre_msg_put sample_hello, fr_more = False\<rparr>]))))"
  by (rule zre_msg_recv_fields_fit) simp

text \<open>A header name of 256 octets or more is written with its length modulo 256: the reader
  takes that many of its octets as the name and reads the value's length from the rest of the name.\<close>

theorem long_header_name_split:
  assumes "c_string k"
  shows "get_string (put_string k @ rest)
    = Some (take (length k mod 256) k, drop (length k mod 256) (str_bytes k) @ rest)"
proof -
  have n: "unat (word_of_int (int (length k)) :: byte) = length k mod 256"
    by (simp add: unat_of_nat)
  have "length k mod 256 \<le> length k" by simp
  then have "take (length k mod 256) (str_bytes k @ rest) = str_bytes (take (length k mod 256) k)"
    by (simp add: str_bytes_def take_map)
  then show ?thesis using assms n \<open>length k mod 256 \<le> length k\<close>
    by (simp add: get_string_def put_string_def wn1.get_put c_string_take not_less
        trans_le_add1 del: of_int_of_nat_eq take_append)
qed

theorem long_header_name_split_witness:
  "c_string (replicate 260 CHR ''a'') \<and>
   get_string (put_string (replicate 260 CHR ''a'') @ [])
    = Some (take (length (replicate 260 CHR ''a'') mod 256) (replicate 260 CHR ''a''),
        drop (length (replicate 260 CHR ''a'') mod 256) (str_bytes (replicate 260 CHR ''a'')) @ [])"
proof -
  have "c_string (replicate 260 CHR ''a'')" by (simp add: c_string_def)
  then show ?thesis using long_header_name_split [of "replicate 260 CHR ''a''" "[]"] by blast
qed

end
