(* ===== verification/Zyre_Peer.thy ===== *)
theory Zyre_Peer
  imports Zre_Msg_Codec_Facts
begin

text \<open>
  A peer object (\<open>src/zyre_peer.c\<close>): its connection through a DEALER mailbox, the outgoing and the
  incoming message counters, its timers and what its HELLO told about it.
\<close>

section \<open>State\<close>

text \<open>The mailbox socket: the options set on it, where it connects, the frames sent through it.\<close>

record mailbox =
  mb_identity :: "byte list"
  mb_sndhwm :: "32 word"
  mb_server_key :: "string option"
  mb_remote :: string
  mb_frames :: "zframe list"

record zyre_peer =
  p_mailbox :: "mailbox option"
  p_uuid :: zuuid
  p_endpoint :: "string option"
  p_name :: "string option"
  p_origin :: "string option"
  p_evasive_at :: "64 word"
  p_expired_at :: "64 word"
  p_connected :: bool
  p_ready :: bool
  p_status :: byte
  p_sent_sequence :: "16 word"
  p_want_sequence :: "16 word"
  p_headers :: "string zhash option"
  p_verbose :: bool
  p_public_key :: "string option"
  p_secret_key :: "string option"
  p_server_key :: "string option"

section \<open>Construction and keys\<close>

text \<open>The object; its entry in the container is made by \<open>zyre_peer_new\<close> of the peer store.\<close>

definition zyre_peer_init :: "zuuid \<Rightarrow> zyre_peer" where
  "zyre_peer_init uuid = \<lparr>p_mailbox = None, p_uuid = uuid, p_endpoint = None, p_name = None,
     p_origin = None, p_evasive_at = 0, p_expired_at = 0, p_connected = False, p_ready = False,
     p_status = 0, p_sent_sequence = 0, p_want_sequence = 0, p_headers = None, p_verbose = False,
     p_public_key = None, p_secret_key = None, p_server_key = None\<rparr>"

definition zyre_peer_set_public_key :: "zyre_peer \<Rightarrow> string \<Rightarrow> zyre_peer" where
  [zyre_simps]: "zyre_peer_set_public_key self key = self\<lparr>p_public_key := Some key\<rparr>"

definition zyre_peer_set_secret_key :: "zyre_peer \<Rightarrow> string \<Rightarrow> zyre_peer" where
  [zyre_simps]: "zyre_peer_set_secret_key self key = self\<lparr>p_secret_key := Some key\<rparr>"

definition zyre_peer_set_server_key :: "zyre_peer \<Rightarrow> string \<Rightarrow> zyre_peer" where
  [zyre_simps]: "zyre_peer_set_server_key self key = self\<lparr>p_server_key := Some key\<rparr>"

section \<open>Connecting\<close>

text \<open>\<open>NI_MAXHOST\<close> octets hold the endpoint and its NUL.\<close>

abbreviation (input) NI_MAXHOST :: nat where "NI_MAXHOST \<equiv> 1025"

text \<open>
  The endpoint to connect to: a link-local IPv6 address without an interface gets the configured
  one. The C code builds it in a buffer of \<open>NI_MAXHOST\<close> octets.
\<close>

definition connect_endpoint :: "env \<Rightarrow> string \<Rightarrow> string" where
  "connect_endpoint env endpoint =
     (if env_ipv6 env \<and> env_interface env \<noteq> [] \<and> \<not> streq (env_interface env) ''*''
      then (case env_link_local env endpoint of
              Some (hostname, port) \<Rightarrow> ''tcp://'' @ hostname @ ''%'' @ env_interface env @ port
            | None \<Rightarrow> endpoint)
      else endpoint)"

text \<open>The result is the return code and the peer.\<close>

definition zyre_peer_connect :: "env \<Rightarrow> zyre_peer \<Rightarrow> zuuid \<Rightarrow> string \<Rightarrow> 64 word
    \<Rightarrow> (int \<times> zyre_peer) outcome" where
  "zyre_peer_connect env self from endpoint expired_timeout =
     assert_that (\<not> p_connected self)
       (if \<not> env_dealer env then Inr (-1, self\<lparr>p_mailbox := None\<rparr>)
        else
          let mb = \<lparr>mb_identity = 1 # uu_data from, mb_sndhwm = ucast (expired_timeout * 100),
                    mb_server_key = None, mb_remote = [], mb_frames = []\<rparr>;
              endpoint_iface = connect_endpoint env endpoint
          in if NI_MAXHOST \<le> length endpoint_iface then Inl Buffer_overflow
             else and_then
               (case p_server_key self of
                  None \<Rightarrow> Inr mb
                | Some key \<Rightarrow>
                    assert_that (p_public_key self \<noteq> None \<and> p_secret_key self \<noteq> None)
                      (assert_that (env_curve env) (Inr (mb\<lparr>mb_server_key := Some key\<rparr>))))
               (\<lambda>mb. if \<not> env_connect env endpoint_iface then Inr (-1, self\<lparr>p_mailbox := None\<rparr>)
                     else Inr (0, self\<lparr>p_mailbox := Some (mb\<lparr>mb_remote := endpoint_iface\<rparr>),
                             p_endpoint := Some endpoint_iface, p_connected := True,
                             p_ready := False\<rparr>)))"

definition zyre_peer_disconnect :: "zyre_peer \<Rightarrow> zyre_peer" where
  "zyre_peer_disconnect self =
     (if p_connected self
      then self\<lparr>p_mailbox := None, p_endpoint := None, p_connected := False, p_ready := False\<rparr>
      else self)"

section \<open>Sending\<close>

definition zyre_peer_send :: "env \<Rightarrow> zyre_peer \<Rightarrow> zre_msg \<Rightarrow> (int \<times> zyre_peer) outcome" where
  "zyre_peer_send env self msg =
     (if p_connected self then
        let self = self\<lparr>p_sent_sequence := p_sent_sequence self + 1\<rparr>;
            msg = zre_msg_set_sequence msg (p_sent_sequence self)
        in and_then (not_null (p_mailbox self)) (\<lambda>mb.
           and_then (zre_msg_send (env_full env) (env_junk env) False msg (mb_frames mb))
             (\<lambda>(rc, msg, frames).
                let self = self\<lparr>p_mailbox := Some (mb\<lparr>mb_frames := frames\<rparr>)\<rparr>
                in if rc \<noteq> 0 then
                     (if env_eagain env then Inr (-1, zyre_peer_disconnect self)
                      else Inl Assertion_failed)
                   else Inr (0, self)))
      else Inr (0, self))"

section \<open>Accessors\<close>

definition zyre_peer_connected :: "zyre_peer \<Rightarrow> bool" where
  [zyre_simps]: "zyre_peer_connected self = p_connected self"

definition zyre_peer_identity :: "zyre_peer \<Rightarrow> string" where
  [zyre_simps]: "zyre_peer_identity self = uu_str (p_uuid self)"

definition zyre_peer_endpoint :: "zyre_peer \<Rightarrow> string outcome" where
  "zyre_peer_endpoint self = (if p_connected self then not_null (p_endpoint self) else Inr [])"

text \<open>The two clock readings of a refresh.\<close>

definition zyre_peer_refresh :: "64 word \<Rightarrow> 64 word \<Rightarrow> zyre_peer \<Rightarrow> 64 word \<Rightarrow> 64 word \<Rightarrow> zyre_peer" where
  "zyre_peer_refresh now1 now2 self evasive_timeout expired_timeout =
     self\<lparr>p_evasive_at := now1 + evasive_timeout, p_expired_at := now2 + expired_timeout\<rparr>"

text \<open>The times are read as signed.\<close>

definition zyre_peer_evasive_at :: "zyre_peer \<Rightarrow> int" where
  [zyre_simps]: "zyre_peer_evasive_at self = sint (p_evasive_at self)"

definition zyre_peer_expired_at :: "zyre_peer \<Rightarrow> int" where
  [zyre_simps]: "zyre_peer_expired_at self = sint (p_expired_at self)"

definition zyre_peer_name :: "zyre_peer \<Rightarrow> string" where
  "zyre_peer_name self = (case p_name self of Some n \<Rightarrow> n | None \<Rightarrow> [])"

definition zyre_peer_set_name :: "zyre_peer \<Rightarrow> string \<Rightarrow> zyre_peer" where
  [zyre_simps]: "zyre_peer_set_name self name = self\<lparr>p_name := Some name\<rparr>"

definition zyre_peer_set_origin :: "zyre_peer \<Rightarrow> string \<Rightarrow> zyre_peer" where
  [zyre_simps]: "zyre_peer_set_origin self origin = self\<lparr>p_origin := Some origin\<rparr>"

definition zyre_peer_set_status :: "zyre_peer \<Rightarrow> byte \<Rightarrow> zyre_peer" where
  [zyre_simps]: "zyre_peer_set_status self status = self\<lparr>p_status := status\<rparr>"

definition zyre_peer_ready :: "zyre_peer \<Rightarrow> bool" where
  [zyre_simps]: "zyre_peer_ready self = p_ready self"

definition zyre_peer_set_ready :: "zyre_peer \<Rightarrow> bool \<Rightarrow> zyre_peer" where
  [zyre_simps]: "zyre_peer_set_ready self ready = self\<lparr>p_ready := ready\<rparr>"

text \<open>The header's value, or the default (a possibly null pointer).\<close>

definition zyre_peer_header :: "zyre_peer \<Rightarrow> string \<Rightarrow> string option \<Rightarrow> string option" where
  "zyre_peer_header self key default_value =
     (let value = (case p_headers self of Some h \<Rightarrow> zhash_lookup h key | None \<Rightarrow> None)
      in case value of None \<Rightarrow> default_value | Some v \<Rightarrow> Some v)"

definition zyre_peer_set_headers :: "(string \<Rightarrow> nat) \<Rightarrow> zyre_peer \<Rightarrow> string zhash option \<Rightarrow> zyre_peer" where
  [zyre_simps]: "zyre_peer_set_headers rank self headers
     = self\<lparr>p_headers := map_option (zhash_arrange rank) headers\<rparr>"

definition zyre_peer_set_verbose :: "zyre_peer \<Rightarrow> bool \<Rightarrow> zyre_peer" where
  [zyre_simps]: "zyre_peer_set_verbose self verbose = self\<lparr>p_verbose := verbose\<rparr>"

section \<open>Message loss\<close>

text \<open>Whether messages were lost, and the peer with its counter moved on.\<close>

definition zyre_peer_messages_lost :: "zyre_peer \<Rightarrow> zre_msg \<Rightarrow> bool \<times> zyre_peer" where
  "zyre_peer_messages_lost self msg =
     (let self = (if m_id msg = ZRE_MSG_HELLO then self\<lparr>p_want_sequence := 1\<rparr>
                  else self\<lparr>p_want_sequence := p_want_sequence self + 1\<rparr>)
      in (p_want_sequence self \<noteq> m_sequence msg, self))"

section \<open>Well-formed peers\<close>

text \<open>A mailbox and an endpoint exist exactly while the peer is connected.\<close>

definition peer_ok :: "zyre_peer \<Rightarrow> bool" where
  "peer_ok p \<longleftrightarrow> (p_connected p \<longleftrightarrow> p_mailbox p \<noteq> None) \<and> (p_connected p \<longleftrightarrow> p_endpoint p \<noteq> None)"

lemma peer_ok_init [keeps, simp]: "peer_ok (zyre_peer_init uuid)"
  by (simp add: peer_ok_def zyre_peer_init_def)

lemma peer_ok_updates [keeps, simp]:
  "peer_ok (p\<lparr>p_name := n\<rparr>) = peer_ok p"
  "peer_ok (p\<lparr>p_origin := n\<rparr>) = peer_ok p"
  "peer_ok (p\<lparr>p_evasive_at := t\<rparr>) = peer_ok p"
  "peer_ok (p\<lparr>p_expired_at := t\<rparr>) = peer_ok p"
  "peer_ok (p\<lparr>p_status := st\<rparr>) = peer_ok p"
  "peer_ok (p\<lparr>p_ready := b\<rparr>) = peer_ok p"
  "peer_ok (p\<lparr>p_verbose := b\<rparr>) = peer_ok p"
  "peer_ok (p\<lparr>p_headers := h\<rparr>) = peer_ok p"
  "peer_ok (p\<lparr>p_want_sequence := q\<rparr>) = peer_ok p"
  "peer_ok (p\<lparr>p_sent_sequence := q\<rparr>) = peer_ok p"
  "peer_ok (p\<lparr>p_public_key := k\<rparr>) = peer_ok p"
  "peer_ok (p\<lparr>p_secret_key := k\<rparr>) = peer_ok p"
  "peer_ok (p\<lparr>p_server_key := k\<rparr>) = peer_ok p"
  by (simp_all add: peer_ok_def)

lemma peer_ok_disconnect [keeps, simp]: "peer_ok p \<Longrightarrow> peer_ok (zyre_peer_disconnect p)"
  by (auto simp: peer_ok_def zyre_peer_disconnect_def)

lemma peer_ok_refresh [keeps, simp]: "peer_ok (zyre_peer_refresh a b p c d) = peer_ok p"
  by (simp add: zyre_peer_refresh_def)

lemma peer_ok_messages_lost [keeps, simp]: "peer_ok (snd (zyre_peer_messages_lost p m)) = peer_ok p"
  by (simp add: zyre_peer_messages_lost_def Let_def)

lemma uuid_frame [simp]:
  "p_uuid (zyre_peer_init u) = u"
  "p_uuid (zyre_peer_disconnect p) = p_uuid p"
  "p_uuid (zyre_peer_refresh a b p c d) = p_uuid p"
  "p_uuid (snd (zyre_peer_messages_lost p m)) = p_uuid p"
  by (simp_all add: zyre_peer_init_def zyre_peer_disconnect_def zyre_peer_refresh_def
      zyre_peer_messages_lost_def Let_def)

definition connected_mailbox :: "env \<Rightarrow> zyre_peer \<Rightarrow> zuuid \<Rightarrow> string \<Rightarrow> 64 word \<Rightarrow> mailbox" where
  "connected_mailbox env p from endpoint t = \<lparr>mb_identity = 1 # uu_data from,
     mb_sndhwm = ucast (t * 100), mb_server_key = p_server_key p,
     mb_remote = connect_endpoint env endpoint, mb_frames = []\<rparr>"

lemma zyre_peer_connect_eq: "zyre_peer_connect env p from endpoint t = Inr (rc, p') \<Longrightarrow>
    \<not> p_connected p \<and> ((rc = -1 \<and> p' = p\<lparr>p_mailbox := None\<rparr>)
     \<or> (rc = 0 \<and> p' = p\<lparr>p_mailbox := Some (connected_mailbox env p from endpoint t),
           p_endpoint := Some (connect_endpoint env endpoint),
           p_connected := True, p_ready := False\<rparr>))"
  by (cases "p_server_key p")
    (simp_all add: zyre_peer_connect_def connected_mailbox_def Let_def split: if_splits)

lemma zyre_peer_connect_ensures:
  assumes "p_mailbox p = None" and "p_endpoint p = None"
  shows "ensures (zyre_peer_connect env p from endpoint t) (\<lambda>(rc, p'). peer_ok p'
    \<and> p_uuid p' = p_uuid p \<and> p_ready p' = (rc \<noteq> 0 \<and> p_ready p) \<and> (rc = 0 \<longleftrightarrow> p_connected p')
    \<and> (rc = 0 \<longrightarrow> p_endpoint p' = Some (connect_endpoint env endpoint)))"
  using assms by (auto simp: ensures_def peer_ok_def dest!: zyre_peer_connect_eq)

lemma zre_msg_send_yields: "yields (zre_msg_send full junk router m out) (\<lambda>(rc, m', out'). rc = 0)"
  using fill_frame_measured [of junk m]
  by (auto simp: zre_msg_send_def Let_def yields_def)

lemma zyre_peer_send_yields:
  assumes "peer_ok p"
  shows "yields (zyre_peer_send env p m) (\<lambda>(rc, p'). rc = 0 \<and> peer_ok p' \<and> p_uuid p' = p_uuid p
    \<and> p_connected p' = p_connected p \<and> p_ready p' = p_ready p \<and> p_status p' = p_status p
    \<and> p_endpoint p' = p_endpoint p \<and> p_want_sequence p' = p_want_sequence p \<and> p_name p' = p_name p
    \<and> p_sent_sequence p' = p_sent_sequence p + (if p_connected p then 1 else 0))"
proof (cases "p_connected p")
  case False
  then show ?thesis using assms by (simp add: zyre_peer_send_def)
next
  case True
  then obtain mb where mb: "p_mailbox p = Some mb" using assms by (auto simp: peer_ok_def)
  show ?thesis
    using zre_msg_send_yields [of "env_full env" "env_junk env" False
        "zre_msg_set_sequence m (p_sent_sequence p + 1)" "mb_frames mb"] True assms mb
    by (auto simp: zyre_peer_send_def Let_def yields_def peer_ok_def)
qed

end
