(* ===== verification/Zyre_Peer_Props.thy ===== *)
theory Zyre_Peer_Props
  imports Zyre_Peer Zre_Msg_Codec_Props
begin

text \<open>
  The message stream between two peers: a sender that numbers what it sends, the ROUTER socket
  that puts the sender's identity before each message, and a receiver that counts along.
\<close>

section \<open>Sessions\<close>

fun peer_send_all :: "env \<Rightarrow> zyre_peer \<Rightarrow> zre_msg list \<Rightarrow> zyre_peer outcome" where
  "peer_send_all env p [] = Inr p"
| "peer_send_all env p (m # ms) =
     and_then (zyre_peer_send env p m) (\<lambda>(rc, p). peer_send_all env p ms)"

text \<open>A ROUTER socket delivers each message behind the identity of the socket that sent it.\<close>

fun router_view :: "byte list \<Rightarrow> bool \<Rightarrow> zframe list \<Rightarrow> zframe list" where
  "router_view rid start [] = []"
| "router_view rid start (f # fs) =
     (if start then [\<lparr>fr_data = rid, fr_more = True\<rparr>] else []) @ f # router_view rid (\<not> fr_more f) fs"

fun recv_all :: "(string \<Rightarrow> nat) \<Rightarrow> nat \<Rightarrow> zframe list \<Rightarrow> zre_msg list \<times> zframe list" where
  "recv_all rank 0 input = ([], input)"
| "recv_all rank (Suc n) input =
     (case zre_msg_recv rank True zre_msg_new input of (rc, m, input) \<Rightarrow>
        case recv_all rank n input of (ms, input) \<Rightarrow> ((if rc = 0 then [m] else []) @ ms, input))"

text \<open>The answers of \<open>zyre_peer_messages_lost\<close> to a stream of messages.\<close>

fun losses :: "zyre_peer \<Rightarrow> zre_msg list \<Rightarrow> bool list" where
  "losses p [] = []"
| "losses p (m # ms) = (case zyre_peer_messages_lost p m of (lost, p) \<Rightarrow> lost # losses p ms)"

text \<open>Messages numbered from \<open>k + 1\<close>.\<close>

fun numbered :: "16 word \<Rightarrow> zre_msg list \<Rightarrow> zre_msg list" where
  "numbered k [] = []"
| "numbered k (m # ms) = zre_msg_set_sequence m (k + 1) # numbered (k + 1) ms"

lemma length_numbered [simp]: "length (numbered k ms) = length ms"
  by (induction ms arbitrary: k) auto

lemma sendable_set_sequence [simp]: "sendable (zre_msg_set_sequence m k) = sendable m"
  by (simp add: sendable_def zyre_simps fields_ok_def)

lemma router_view_multipart:
  "ds \<noteq> [] \<Longrightarrow> router_view rid False (multipart ds @ fs) = multipart ds @ router_view rid True fs"
  by (induction ds rule: multipart.induct) auto

lemma router_view_message:
  "router_view rid True (multipart (d # ds) @ fs) = routed rid (multipart (d # ds) @ router_view rid True fs)"
  by (cases ds) (simp_all add: routed_def router_view_multipart)

lemma peer_send_connected:
  assumes "p_mailbox p = Some mb" and "p_connected p" and "\<forall>q. \<not> env_full env q"
  obtains tail where "zyre_peer_send env p m = Inr (0, p\<lparr>p_sent_sequence := p_sent_sequence p + 1,
      p_mailbox := Some (mb\<lparr>mb_frames := mb_frames mb
        @ multipart ((zre_msg_put (zre_msg_set_sequence m (p_sent_sequence p + 1)) @ tail)
            # sent_content (zre_msg_set_sequence m (p_sent_sequence p + 1)))\<rparr>)\<rparr>)"
proof -
  let ?m = "zre_msg_set_sequence m (p_sent_sequence p + 1)"
  obtain tail where "zre_msg_send (env_full env) (env_junk env) False ?m (mb_frames mb)
     = Inr (0, zre_msg_count_headers ?m,
         mb_frames mb @ multipart ((zre_msg_put ?m @ tail) # sent_content ?m))"
    using assms(3) by (rule zre_msg_send_frames)
  then show thesis using assms by (intro that [of tail]) (simp add: zyre_peer_send_def Let_def)
qed

text \<open>Everything a connected peer sends arrives, in order, with consecutive numbers.\<close>

lemma session_delivers:
  assumes "p_mailbox p = Some mb" and "p_connected p" and "\<forall>q. \<not> env_full env q"
    and "\<forall>m \<in> set ms. sendable m"
  shows "\<exists>fs p'. peer_send_all env p ms = Inr p' \<and> p_connected p'
    \<and> p_mailbox p' = Some (mb\<lparr>mb_frames := mb_frames mb @ fs\<rparr>)
    \<and> p_sent_sequence p' = p_sent_sequence p + of_nat (length ms)
    \<and> recv_all rank (length ms) (router_view rid True fs)
        = (map (zre_msg_received rank rid) (numbered (p_sent_sequence p) ms), [])"
  using assms
proof (induction ms arbitrary: p mb)
  case Nil
  then show ?case by (intro exI [of _ "[]"] exI [of _ p]) auto
next
  case (Cons m ms)
  let ?m = "zre_msg_set_sequence m (p_sent_sequence p + 1)"
  obtain tail where s: "zyre_peer_send env p m = Inr (0, p\<lparr>p_sent_sequence := p_sent_sequence p + 1,
      p_mailbox := Some (mb\<lparr>mb_frames := mb_frames mb
        @ multipart ((zre_msg_put ?m @ tail) # sent_content ?m)\<rparr>)\<rparr>)" (is "_ = Inr (0, ?p)")
    using Cons.prems(1-3) by (rule peer_send_connected)
  obtain fs p' where ih: "peer_send_all env ?p ms = Inr p'" "p_connected p'"
    "p_mailbox p' = Some (mb\<lparr>mb_frames := mb_frames mb
        @ multipart ((zre_msg_put ?m @ tail) # sent_content ?m) @ fs\<rparr>)"
    "p_sent_sequence p' = p_sent_sequence p + 1 + of_nat (length ms)"
    "recv_all rank (length ms) (router_view rid True fs)
        = (map (zre_msg_received rank rid) (numbered (p_sent_sequence p + 1) ms), [])"
    using Cons.IH [of ?p "mb\<lparr>mb_frames := mb_frames mb
        @ multipart ((zre_msg_put ?m @ tail) # sent_content ?m)\<rparr>"] Cons.prems
    by auto
  have "zre_msg_recv rank True zre_msg_new
      (router_view rid True (multipart ((zre_msg_put ?m @ tail) # sent_content ?m) @ fs))
    = (0, zre_msg_received rank rid ?m, router_view rid True fs)"
    unfolding router_view_message by (rule recv_sent_frames) (use Cons.prems in simp)
  then show ?case using s ih
    by (intro exI [of _ "multipart ((zre_msg_put ?m @ tail) # sent_content ?m) @ fs"] exI [of _ p'])
      (simp add: add.assoc)
qed

lemma numbered_received_id:
  "map m_id (map (zre_msg_received rank rid) (numbered k ms)) = map m_id ms"
  by (induction ms arbitrary: k)
    (auto simp: zre_msg_received_def store_fields_def Let_def zyre_simps)

lemma m_sequence_received [simp]: "m_sequence (zre_msg_received rank rid m) = m_sequence m"
  by (simp add: zre_msg_received_def store_fields_def Let_def)

lemma m_id_received [simp]: "m_id (zre_msg_received rank rid m) = m_id m"
  by (simp add: zre_msg_received_def store_fields_def Let_def)

lemma no_losses:
  assumes "\<forall>m \<in> set ms. m_id m \<noteq> ZRE_MSG_HELLO"
  shows "losses p (map (zre_msg_received rank rid) (numbered (p_want_sequence p) ms))
    = replicate (length ms) False"
  using assms
proof (induction ms arbitrary: p)
  case (Cons m ms)
  then show ?case
    using Cons.IH [of "p\<lparr>p_want_sequence := p_want_sequence p + 1\<rparr>"]
    by (simp add: zyre_peer_messages_lost_def zyre_simps)
qed simp

section \<open>Properties\<close>

definition sample_peer :: zyre_peer where
  "sample_peer = (zyre_peer_init \<lparr>uu_data = replicate 16 7, uu_str = ''07''\<rparr>)
     \<lparr>p_connected := True, p_endpoint := Some ''tcp://10.0.0.2:1'',
      p_mailbox := Some \<lparr>mb_identity = 1 # replicate 16 3, mb_sndhwm = 0, mb_server_key = None,
        mb_remote = ''tcp://10.0.0.2:1'', mb_frames = []\<rparr>\<rparr>"

definition sample_env :: env where
  "sample_env = \<lparr>env_clock = (\<lambda>_. 1000), env_rank = length, env_junk = (\<lambda>_. 0),
     env_full = (\<lambda>_. False), env_eagain = True, env_dealer = True, env_connect = (\<lambda>_. True),
     env_curve = True, env_ipv6 = False, env_interface = [], env_link_local = (\<lambda>_. None),
     env_uuid_of = (\<lambda>d. \<lparr>uu_data = d, uu_str = map byte_char d\<rparr>),
     env_uuid_of_str = (\<lambda>s. \<lparr>uu_data = map char_byte s, uu_str = s\<rparr>),
     env_pack = (\<lambda>h. concat (map put_entry h)), env_z85_encode = map byte_char,
     env_z85_decode = map char_byte, env_hostname = ''10.0.0.1'', env_ipv6_address = [],
     env_bind = (\<lambda>_. 4000), env_bound = ''tcp://10.0.0.1:4000'', env_beacon_ok = True,
     env_beacon_host = ''10.0.0.1'', env_router = True, env_gossip_ok = True,
     env_skips = (\<lambda>_ _. False),
     env_draft = False\<rparr>"

text \<open>C20: a node that sends a HELLO and then any number of other messages to a new peer is
  never accused of losing messages: the receiver reads back every message in order, numbered 1, 2,
  3 and so on with wrap-around at 65536, and \<open>zyre_peer_messages_lost\<close> answers false to each.\<close>

theorem session_without_loss:
  assumes "p_mailbox p = Some mb" and "p_connected p" and "mb_frames mb = []"
    and "p_sent_sequence p = 0" and "\<forall>q. \<not> env_full env q"
    and "\<forall>m \<in> set (hello # ms). sendable m"
    and "m_id hello = ZRE_MSG_HELLO" and "\<forall>m \<in> set ms. m_id m \<noteq> ZRE_MSG_HELLO"
  shows "\<exists>p' mb'. peer_send_all env p (hello # ms) = Inr p' \<and> p_mailbox p' = Some mb'
    \<and> recv_all rank (length (hello # ms)) (router_view rid True (mb_frames mb'))
        = (map (zre_msg_received rank rid) (numbered 0 (hello # ms)), [])
    \<and> losses receiver (map (zre_msg_received rank rid) (numbered 0 (hello # ms)))
        = replicate (length (hello # ms)) False"
proof -
  obtain fs p' where d: "peer_send_all env p (hello # ms) = Inr p'"
    "p_mailbox p' = Some (mb\<lparr>mb_frames := mb_frames mb @ fs\<rparr>)"
    "recv_all rank (length (hello # ms)) (router_view rid True fs)
        = (map (zre_msg_received rank rid) (numbered 0 (hello # ms)), [])"
    using session_delivers [OF assms(1,2,5,6), of rank rid] assms(4) by auto
  have "losses receiver (map (zre_msg_received rank rid) (numbered 0 (hello # ms)))
        = replicate (length (hello # ms)) False"
    using no_losses [OF assms(8), of "receiver\<lparr>p_want_sequence := 1\<rparr>"] assms(7)
    by (simp add: zyre_peer_messages_lost_def zyre_simps)
  then show ?thesis using d assms(3)
    by (intro exI [of _ p'] exI [of _ "mb\<lparr>mb_frames := mb_frames mb @ fs\<rparr>"]) (auto simp del: numbered.simps recv_all.simps)
qed

theorem session_without_loss_witness:
  "\<exists>p' mb'. peer_send_all sample_env sample_peer (sample_hello # [sample_join]) = Inr p'
    \<and> p_mailbox p' = Some mb'
    \<and> recv_all length (length (sample_hello # [sample_join])) (router_view [1, 3] True (mb_frames mb'))
        = (map (zre_msg_received length [1, 3]) (numbered 0 (sample_hello # [sample_join])), [])
    \<and> losses sample_peer (map (zre_msg_received length [1, 3]) (numbered 0 (sample_hello # [sample_join])))
        = replicate (length (sample_hello # [sample_join])) False"
  by (rule session_without_loss [where mb = "the (p_mailbox sample_peer)"])
    (simp_all add: sample_peer_def sample_env_def zyre_peer_init_def)

text \<open>When \<open>k\<close> messages in a row are lost, the next message that arrives is reported
  unless \<open>k\<close> is a multiple of 65536.\<close>

theorem loss_detected_iff:
  assumes "m_id m \<noteq> ZRE_MSG_HELLO" and "m_sequence m = p_want_sequence p + 1 + of_nat k"
  shows "fst (zyre_peer_messages_lost p m) \<longleftrightarrow> k mod 65536 \<noteq> 0"
proof -
  have "(of_nat k :: 16 word) = 0 \<longleftrightarrow> k mod 65536 = 0"
    by (simp add: word_of_nat_eq_0_iff take_bit_eq_mod dvd_eq_mod_eq_0)
  then show ?thesis using assms by (auto simp: zyre_peer_messages_lost_def Let_def)
qed

theorem loss_detected_iff_witness:
  "fst (zyre_peer_messages_lost sample_peer
     (zre_msg_set_sequence sample_join (p_want_sequence sample_peer + 1 + of_nat 3))) \<longleftrightarrow> 3 mod 65536 \<noteq> (0 :: nat)"
  by (rule loss_detected_iff) (simp_all add: zyre_simps)

text \<open>\<open>zyre_peer_send\<close> reports success even when the mailbox refuses the message: the message
  is lost, the peer stays connected, and its number is used up all the same. The branch that
  disconnects the peer on EAGAIN is never taken, because \<open>zre_msg_send\<close> returns 0 always.\<close>

theorem refused_send_is_silent:
  assumes "p_mailbox p = Some mb" and "p_connected p" and "\<forall>q. env_full env q"
  shows "zyre_peer_send env p m = Inr (0, p\<lparr>p_sent_sequence := p_sent_sequence p + 1\<rparr>)"
proof -
  let ?m = "zre_msg_set_sequence m (p_sent_sequence p + 1)"
  have f: "foldl (send_frame (env_full env)) out fs = out" for out fs
    using assms(3) by (induction fs) (simp_all add: send_frame_def)
  obtain tail where "fill_frame (env_junk env) (zre_msg_frame_size (zre_msg_count_headers ?m))
      (zre_msg_put ?m) = Inr (zre_msg_put ?m @ tail)"
    using fill_frame_measured by blast
  then have "zre_msg_send (env_full env) (env_junk env) False ?m (mb_frames mb)
      = Inr (0, zre_msg_count_headers ?m, mb_frames mb)"
    using assms(3) f by (simp add: zre_msg_send_def Let_def send_frame_def split: option.split)
  then show ?thesis using assms by (simp add: zyre_peer_send_def Let_def)
qed

theorem refused_send_is_silent_witness:
  "zyre_peer_send (sample_env\<lparr>env_full := \<lambda>_. True\<rparr>) sample_peer sample_join
    = Inr (0, sample_peer\<lparr>p_sent_sequence := p_sent_sequence sample_peer + 1\<rparr>)"
  by (rule refused_send_is_silent [where mb = "the (p_mailbox sample_peer)"])
    (simp_all add: sample_peer_def zyre_peer_init_def)

end
