(* ===== verification/Zyre_Election.thy ===== *)
theory Zyre_Election
  imports Zre_Msg
begin

text \<open>
  One election in a group (\<open>src/zyre_election.c\<close>): the wave a node currently supports, the peer it
  came from, the messages counted so far, and the announced leader. A peer object is known by the
  address of its object. The identities of nodes are compared as C strings: the lowest wins.
\<close>

type_synonym addr = nat

record zyre_election =
  e_caw :: "string option"
  e_father :: "addr option"
  e_erec :: "32 word"
  e_lrec :: "32 word"
  e_isLeader :: bool
  e_leader :: "string option"

definition zyre_election_new :: zyre_election where
  "zyre_election_new = \<lparr>e_caw = None, e_father = None, e_erec = 0, e_lrec = 0,
     e_isLeader = False, e_leader = None\<rparr>"

definition zyre_election_challenger_superior :: "zyre_election \<Rightarrow> string \<Rightarrow> bool" where
  "zyre_election_challenger_superior self r
     = (case e_caw self of None \<Rightarrow> True | Some caw \<Rightarrow> strcmp r caw < 0)"

definition zyre_election_reset :: "zyre_election \<Rightarrow> zyre_election" where
  "zyre_election_reset self
     = self\<lparr>e_caw := None, e_leader := None, e_father := None, e_erec := 0, e_lrec := 0\<rparr>"

definition zyre_election_set_caw :: "zyre_election \<Rightarrow> string \<Rightarrow> zyre_election" where
  [zyre_simps]: "zyre_election_set_caw self caw = self\<lparr>e_caw := Some caw\<rparr>"

definition zyre_election_set_father :: "zyre_election \<Rightarrow> addr \<Rightarrow> zyre_election" where
  [zyre_simps]: "zyre_election_set_father self father = self\<lparr>e_father := Some father\<rparr>"

definition zyre_election_build_elect_msg :: "zyre_election \<Rightarrow> zre_msg outcome" where
  "zyre_election_build_elect_msg self =
     (case e_caw self of None \<Rightarrow> Inl Assertion_failed
      | Some caw \<Rightarrow> Inr (zre_msg_set_challenger_id (zre_msg_set_id zre_msg_new ZRE_MSG_ELECT) caw))"

definition zyre_election_build_leader_msg :: "zyre_election \<Rightarrow> zre_msg outcome" where
  "zyre_election_build_leader_msg self =
     (case e_caw self of None \<Rightarrow> Inl Assertion_failed
      | Some caw \<Rightarrow> Inr (zre_msg_set_leader_id (zre_msg_set_id zre_msg_new ZRE_MSG_LEADER) caw))"

definition zyre_election_supporting_challenger :: "zyre_election \<Rightarrow> string \<Rightarrow> bool outcome" where
  "zyre_election_supporting_challenger self r =
     (case e_caw self of None \<Rightarrow> Inl Assertion_failed | Some caw \<Rightarrow> Inr (strcmp caw r = 0))"

definition zyre_election_increment_erec :: "zyre_election \<Rightarrow> zyre_election" where
  [zyre_simps]: "zyre_election_increment_erec self = self\<lparr>e_erec := e_erec self + 1\<rparr>"

definition zyre_election_increment_lrec :: "zyre_election \<Rightarrow> zyre_election" where
  [zyre_simps]: "zyre_election_increment_lrec self = self\<lparr>e_lrec := e_lrec self + 1\<rparr>"

text \<open>The group enters only through the number of its peers.\<close>

definition zyre_election_erec_complete :: "zyre_election \<Rightarrow> nat \<Rightarrow> bool" where
  [zyre_simps]: "zyre_election_erec_complete self neighbors \<longleftrightarrow> unat (e_erec self) = neighbors"

definition zyre_election_lrec_started :: "zyre_election \<Rightarrow> bool" where
  [zyre_simps]: "zyre_election_lrec_started self \<longleftrightarrow> 0 < e_lrec self"

definition zyre_election_lrec_complete :: "zyre_election \<Rightarrow> nat \<Rightarrow> bool" where
  [zyre_simps]: "zyre_election_lrec_complete self neighbors \<longleftrightarrow> unat (e_lrec self) = neighbors"

definition zyre_election_set_leader :: "zyre_election \<Rightarrow> string \<Rightarrow> zyre_election" where
  [zyre_simps]: "zyre_election_set_leader self leader = self\<lparr>e_leader := Some leader\<rparr>"

definition zyre_election_won :: "zyre_election \<Rightarrow> bool" where
  "zyre_election_won self = (if e_leader self \<noteq> None then e_isLeader self else False)"

definition zyre_election_finished :: "zyre_election \<Rightarrow> bool" where
  "zyre_election_finished self \<longleftrightarrow> e_caw self = None \<and> e_leader self \<noteq> None"

section \<open>The wave an election supports\<close>

text \<open>
  How the node handles an ELECT message, as far as the election object goes: a superior challenger
  restarts the election under its wave, and a challenger of the supported wave is counted.
\<close>

definition election_adopt :: "zyre_election \<Rightarrow> string \<Rightarrow> addr \<Rightarrow> zyre_election" where
  "election_adopt self challenger father =
     zyre_election_set_father (zyre_election_set_caw (zyre_election_reset self) challenger) father"

definition election_hear :: "string \<times> addr \<Rightarrow> zyre_election \<Rightarrow> zyre_election" where
  "election_hear c self = (let self = (if zyre_election_challenger_superior self (fst c)
         then election_adopt self (fst c) (snd c) else self)
     in case e_caw self of
          None \<Rightarrow> self
        | Some caw \<Rightarrow> if strcmp caw (fst c) = 0 then zyre_election_increment_erec self else self)"

lemma election_hear_caw:
  assumes "\<forall>caw. e_caw self = Some caw \<longrightarrow> c_string caw" and "c_string (fst c)"
  shows "e_caw (election_hear c self)
    = Some (case e_caw self of None \<Rightarrow> fst c | Some caw \<Rightarrow> min (fst c) caw)"
  using assms
  by (auto simp: election_hear_def zyre_election_challenger_superior_def election_adopt_def zyre_simps
      strcmp_less strcmp_zero min_def zyre_election_reset_def Let_def split: option.splits)

lemma election_hear_erec:
  assumes "e_caw self = Some caw" and "c_string caw" and "c_string (fst c)"
  shows "e_erec (election_hear c self)
    = (if fst c < caw then 1 else if fst c = caw then e_erec self + 1 else e_erec self)"
  using assms
  by (auto simp: election_hear_def zyre_election_challenger_superior_def election_adopt_def zyre_simps
      strcmp_less strcmp_zero zyre_election_reset_def Let_def)

lemma c_string_Min:
  assumes "finite A" and "A \<noteq> {}" and "\<forall>s \<in> A. c_string s"
  shows "c_string (Min A)"
  using assms Min_in by blast

text \<open>An election supports the lowest identity it has heard of, its own challenge included, and
  \<open>erec\<close> counts exactly the ELECT messages received for that wave (modulo its 32 bits): higher
  challengers leave no trace, whatever the order of arrival.\<close>

theorem election_wave_lowest:
  assumes "e_erec self = 0" and "set_option (e_caw self) \<union> fst ` set cs \<noteq> {}"
    and "\<forall>s \<in> set_option (e_caw self) \<union> fst ` set cs. c_string s"
  shows "e_caw (fold election_hear cs self) = Some (Min (set_option (e_caw self) \<union> fst ` set cs))
    \<and> e_erec (fold election_hear cs self)
        = of_nat (count_list (map fst cs) (Min (set_option (e_caw self) \<union> fst ` set cs)))"
  using assms(2,3)
proof (induction cs rule: rev_induct)
  case Nil
  then show ?case using assms(1) by (cases "e_caw self") auto
next
  case (snoc c cs)
  let ?A = "set_option (e_caw self) \<union> fst ` set cs"
  have B: "set_option (e_caw self) \<union> fst ` set (cs @ [c]) = insert (fst c) ?A" by auto
  have c: "c_string (fst c)" and fin: "finite ?A" using snoc.prems by auto
  show ?case
  proof (cases "?A = {}")
    case True
    then have "cs = []" "e_caw self = None" by auto
    then show ?thesis using assms(1)
      by (simp add: election_hear_def zyre_election_challenger_superior_def election_adopt_def
          zyre_simps zyre_election_reset_def Let_def)
        (metis c strcmp_zero)
  next
    case False
    have ih: "e_caw (fold election_hear cs self) = Some (Min ?A)"
      "e_erec (fold election_hear cs self) = of_nat (count_list (map fst cs) (Min ?A))"
      using snoc False by auto
    have m: "c_string (Min ?A)" using False fin snoc.prems by (intro c_string_Min) auto
    have below: "count_list (map fst cs) (fst c) = 0" if "fst c < Min ?A"
    proof -
      have "fst c \<notin> ?A" using that fin by (meson Min_le leD)
      then show ?thesis by (simp add: count_list_0_iff)
    qed
    define low where "low = Min ?A"
    have low: "Min (insert (fst c) ?A) = min (fst c) low"
      unfolding low_def using fin False by simp
    have ih': "e_caw (fold election_hear cs self) = Some low" "c_string low"
      "e_erec (fold election_hear cs self) = of_nat (count_list (map fst cs) low)"
      "fst c < low \<Longrightarrow> count_list (map fst cs) (fst c) = 0"
      using ih m below by (simp_all add: low_def)
    consider "fst c < low" | "fst c = low" | "low < fst c" by (rule linorder_cases)
    then show ?thesis
      unfolding B low using ih' c
      by cases (auto simp: election_hear_caw election_hear_erec min_def)
  qed
qed

theorem election_wave_lowest_witness:
  "e_caw (fold election_hear [(''B'', 1), (''A'', 2), (''C'', 3), (''A'', 4)] zyre_election_new) = Some ''A''
   \<and> e_erec (fold election_hear [(''B'', 1), (''A'', 2), (''C'', 3), (''A'', 4)] zyre_election_new) = 2"
proof -
  have "Min {''A'', ''B'', ''C''} = ''A''" by simp
  then show ?thesis
    using election_wave_lowest [of zyre_election_new "[(''B'', 1), (''A'', 2), (''C'', 3), (''A'', 4)]"]
    by (simp add: zyre_election_new_def c_string_def)
qed

section \<open>What no election ever reports\<close>

text \<open>The states of an election object under its interface.\<close>

inductive election_reachable :: "zyre_election \<Rightarrow> bool" where
  new: "election_reachable zyre_election_new"
| reset: "election_reachable e \<Longrightarrow> election_reachable (zyre_election_reset e)"
| set_caw: "election_reachable e \<Longrightarrow> election_reachable (zyre_election_set_caw e c)"
| set_father: "election_reachable e \<Longrightarrow> election_reachable (zyre_election_set_father e p)"
| inc_erec: "election_reachable e \<Longrightarrow> election_reachable (zyre_election_increment_erec e)"
| inc_lrec: "election_reachable e \<Longrightarrow> election_reachable (zyre_election_increment_lrec e)"
| set_leader: "election_reachable e \<Longrightarrow> election_reachable (zyre_election_set_leader e l)"

text \<open>\<open>zyre_election_won\<close> is false in every state an election object can reach, also for the
  node whose own identity was announced as leader: nothing ever sets \<open>isLeader\<close>.\<close>

theorem election_never_won:
  assumes "election_reachable e"
  shows "\<not> zyre_election_won e"
proof -
  from assms have "\<not> e_isLeader e"
    by (induction rule: election_reachable.induct)
      (simp_all add: zyre_election_new_def zyre_election_reset_def zyre_simps)
  then show ?thesis by (simp add: zyre_election_won_def)
qed

theorem election_never_won_witness:
  "\<not> zyre_election_won (zyre_election_set_leader (zyre_election_set_caw zyre_election_new ''A'') ''A'')"
  by (rule election_never_won) (intro election_reachable.intros)

end
