(* ===== verification/Peer_Heap.thy ===== *)
theory Peer_Heap
  imports Zyre_Peer Zyre_Election
begin

text \<open>
  Peer objects are shared: the node's table of peers, the groups, the leader of a group and the father
  of an election all point to them. So they live in a heap, known by the address of the object, and
  following a pointer to a freed object is the fault \<open>Use_after_free\<close>. Addresses are not used again, as
  in the abstract machine of C, where a pointer to a freed object stays indeterminate.
\<close>

type_synonym peer_heap = "addr \<Rightarrow> zyre_peer option"

definition deref :: "addr \<Rightarrow> peer_heap \<Rightarrow> zyre_peer outcome" where
  "deref a heap = (case heap a of None \<Rightarrow> Inl Use_after_free | Some p \<Rightarrow> Inr p)"

definition put_peer :: "addr \<Rightarrow> zyre_peer \<Rightarrow> peer_heap \<Rightarrow> peer_heap" where
  "put_peer a p heap = heap(a \<mapsto> p)"

definition on_peer :: "(zyre_peer \<Rightarrow> zyre_peer outcome) \<Rightarrow> addr \<Rightarrow> peer_heap \<Rightarrow> peer_heap outcome" where
  "on_peer f a heap = and_then (deref a heap) (\<lambda>p. and_then (f p) (\<lambda>p. Inr (put_peer a p heap)))"

definition alter_peer :: "(zyre_peer \<Rightarrow> zyre_peer) \<Rightarrow> addr \<Rightarrow> peer_heap \<Rightarrow> peer_heap outcome" where
  "alter_peer f = on_peer (\<lambda>p. Inr (f p))"

lemma deref_Inr [simp]: "deref a heap = Inr p \<longleftrightarrow> heap a = Some p"
  by (simp add: deref_def split: option.split)

lemma deref_Some [simp]: "heap a = Some p \<Longrightarrow> deref a heap = Inr p"
  by simp

section \<open>The contract of an object store\<close>

locale object_store =
  fixes fetch :: "'a \<Rightarrow> 'h \<Rightarrow> 'v outcome"
    and store :: "'a \<Rightarrow> 'v \<Rightarrow> 'h \<Rightarrow> 'h"
  assumes fetch_store: "fetch a (store a v h) = Inr v"
    and fetch_store_other: "b \<noteq> a \<Longrightarrow> fetch b (store a v h) = fetch b h"
begin

text \<open>A loop over distinct objects changes each of them once and no other.\<close>

lemma each_object:
  assumes "distinct os" and "\<forall>a \<in> set os. \<exists>v v'. fetch a h = Inr v \<and> f v = Inr v'"
  shows "\<exists>h'. each (\<lambda>a h. and_then (fetch a h) (\<lambda>v. and_then (f v) (\<lambda>v. Inr (store a v h)))) os h = Inr h'
    \<and> (\<forall>a \<in> set os. fetch a h' = and_then (fetch a h) f) \<and> (\<forall>b. b \<notin> set os \<longrightarrow> fetch b h' = fetch b h)"
  using assms
proof (induction os arbitrary: h)
  case (Cons a os)
  then obtain v v' where v: "fetch a h = Inr v" "f v = Inr v'" by auto
  let ?h = "store a v' h"
  have same: "fetch b ?h = fetch b h" if "b \<in> set os" for b
    using that Cons.prems(1) by (intro fetch_store_other) auto
  have "\<forall>b \<in> set os. \<exists>v v'. fetch b ?h = Inr v \<and> f v = Inr v'"
    using same Cons.prems(2) by simp
  then obtain h' where h': "each (\<lambda>a h. and_then (fetch a h) (\<lambda>v. and_then (f v) (\<lambda>v. Inr (store a v h)))) os ?h = Inr h'"
    "\<forall>b \<in> set os. fetch b h' = and_then (fetch b ?h) f" "\<forall>b. b \<notin> set os \<longrightarrow> fetch b h' = fetch b ?h"
    using Cons.IH [of ?h] Cons.prems(1) by auto
  have "fetch a h' = and_then (fetch a h) f" using h'(3) Cons.prems(1) v by (simp add: fetch_store)
  moreover have "\<forall>b \<in> set os. fetch b h' = and_then (fetch b h) f" using h'(2) same by simp
  moreover have "\<forall>b. b \<notin> set (a # os) \<longrightarrow> fetch b h' = fetch b h"
    using h'(3) by (simp add: fetch_store_other)
  ultimately show ?case using v h'(1) by (intro exI [of _ h']) auto
qed auto

end

interpretation ph: object_store deref put_peer
  by unfold_locales (simp_all add: deref_def put_peer_def)

lemma on_peer_each:
  assumes "distinct os" and "\<forall>a \<in> set os. \<exists>p p'. heap a = Some p \<and> f p = Inr p'"
  obtains heap' where "each (on_peer f) os heap = Inr heap'"
    and "\<And>a p. a \<in> set os \<Longrightarrow> heap a = Some p \<Longrightarrow> f p = and_then (deref a heap') Inr"
    and "\<And>b. b \<notin> set os \<Longrightarrow> heap' b = heap b"
proof -
  have e: "on_peer f = (\<lambda>a h. and_then (deref a h) (\<lambda>v. and_then (f v) (\<lambda>v. Inr (put_peer a v h))))"
    by (simp add: on_peer_def fun_eq_iff)
  have "\<forall>a \<in> set os. \<exists>p p'. deref a heap = Inr p \<and> f p = Inr p'" using assms(2) by simp
  then obtain heap' where h: "each (on_peer f) os heap = Inr heap'"
    "\<forall>a \<in> set os. deref a heap' = and_then (deref a heap) f"
    "\<forall>b. b \<notin> set os \<longrightarrow> deref b heap' = deref b heap"
    using ph.each_object [OF assms(1), of heap f] unfolding e by blast
  have eq: "heap' b = heap b" if "deref b heap' = deref b heap" for b
    using that by (cases "heap b"; cases "heap' b") (simp_all add: deref_def)
  show thesis
  proof (rule that [OF h(1)])
    show "f p = and_then (deref a heap') Inr" if "a \<in> set os" "heap a = Some p" for a p
      using that h(2) by (cases "f p") simp_all
    show "heap' b = heap b" if "b \<notin> set os" for b
      using that h(3) eq by blast
  qed
qed

section \<open>What heap operations keep\<close>

text \<open>
  The heaps \<open>h\<close> and \<open>h'\<close> hold the same objects with the same identities, and every object of \<open>h'\<close>
  is well formed if those of \<open>h\<close> are.
\<close>

definition heap_ok :: "peer_heap \<Rightarrow> bool" where
  "heap_ok h \<longleftrightarrow> (\<forall>a p. h a = Some p \<longrightarrow> peer_ok p)"

definition same_objects :: "peer_heap \<Rightarrow> peer_heap \<Rightarrow> bool" where
  "same_objects h h' \<longleftrightarrow> map_option p_uuid \<circ> h' = map_option p_uuid \<circ> h \<and> (heap_ok h \<longrightarrow> heap_ok h')"

lemma heap_okD: "heap_ok h \<Longrightarrow> h a = Some p \<Longrightarrow> peer_ok p"
  unfolding heap_ok_def by blast

lemma same_objects_refl [simp]: "same_objects h h"
  by (simp add: same_objects_def)

lemma same_objects_trans: "same_objects h h1 \<Longrightarrow> same_objects h1 h2 \<Longrightarrow> same_objects h h2"
  by (simp add: same_objects_def)

lemma same_objects_put:
  assumes "h a = Some p" and "p_uuid p' = p_uuid p" and "peer_ok p \<Longrightarrow> peer_ok p'"
  shows "same_objects h (put_peer a p' h)"
  using assms by (auto simp: same_objects_def heap_ok_def put_peer_def fun_eq_iff)

lemma same_objects_uuid: "same_objects h h' \<Longrightarrow> map_option p_uuid (h' a) = map_option p_uuid (h a)"
  unfolding same_objects_def by (metis comp_apply)

lemma same_objects_live: "same_objects h h' \<Longrightarrow> h' a = None \<longleftrightarrow> h a = None"
  using same_objects_uuid by (metis map_option_is_None)

lemma on_peer_keeps [keeps]:
  assumes "\<And>p. heap a = Some p \<Longrightarrow> ensures (f p) (\<lambda>p'. p_uuid p' = p_uuid p \<and> (peer_ok p \<longrightarrow> peer_ok p'))"
  shows "ensures (on_peer f a heap) (same_objects heap)"
  using assms by (auto simp: on_peer_def ensures_def intro!: same_objects_put)

lemma alter_peer_keeps [keeps]:
  assumes "\<And>p. p_uuid (f p) = p_uuid p" and "\<And>p. peer_ok p \<Longrightarrow> peer_ok (f p)"
  shows "ensures (alter_peer f a heap) (same_objects heap)"
  unfolding alter_peer_def using assms by (intro on_peer_keeps) simp

lemma each_same_objects:
  assumes "\<And>x h. x \<in> set xs \<Longrightarrow> ensures (f x h) (same_objects h)"
  shows "ensures (each f xs heap) (same_objects heap)"
  by (rule ensures_each)
    (auto intro: ensures_weaken [OF assms] same_objects_trans)

section \<open>Sending to a peer\<close>

text \<open>\<open>zyre_peer_send\<close> on an object of the heap; its return code is not looked at anywhere.\<close>

definition heap_peer_send :: "env \<Rightarrow> zre_msg \<Rightarrow> addr \<Rightarrow> peer_heap \<Rightarrow> peer_heap outcome" where
  "heap_peer_send env msg = on_peer (\<lambda>p. and_then (zyre_peer_send env p msg) (\<lambda>(rc, p). Inr p))"

lemma peer_send_cases:
  assumes "zyre_peer_send env p m = Inr (rc, p')"
  shows "p_uuid p' = p_uuid p \<and> (peer_ok p \<longrightarrow> peer_ok p')"
proof (cases "p_connected p")
  case True
  obtain mb where mb: "p_mailbox p = Some mb"
    using assms True by (cases "p_mailbox p") (simp_all add: zyre_peer_send_def Let_def)
  obtain m' out where "zre_msg_send (env_full env) (env_junk env) False
      (zre_msg_set_sequence m (p_sent_sequence p + 1)) (mb_frames mb) = Inr (0, m', out)"
    using zre_msg_send_yields [of "env_full env" "env_junk env" False
        "zre_msg_set_sequence m (p_sent_sequence p + 1)" "mb_frames mb"]
    by (auto simp: yields_def)
  then have "p' = p\<lparr>p_sent_sequence := p_sent_sequence p + 1, p_mailbox := Some (mb\<lparr>mb_frames := out\<rparr>)\<rparr>"
    using assms True mb by (simp add: zyre_peer_send_def Let_def)
  then show ?thesis using mb by (auto simp: peer_ok_def)
qed (use assms in \<open>simp add: zyre_peer_send_def\<close>)

lemma heap_peer_send_keeps [keeps]: "ensures (heap_peer_send env msg a heap) (same_objects heap)"
  unfolding heap_peer_send_def
  by (rule on_peer_keeps) (auto simp: ensures_def split: prod.splits dest!: peer_send_cases)

text \<open>A live, well-formed peer can be sent to.\<close>

lemma heap_peer_send_total:
  assumes "heap a = Some p" and "peer_ok p"
  shows "\<exists>heap'. heap_peer_send env msg a heap = Inr heap'"
  using zyre_peer_send_yields [OF assms(2), of env msg] assms(1)
  by (auto simp: heap_peer_send_def on_peer_def yields_def)

end
