(* ===== verification/Zyre_Group.thy ===== *)
theory Zyre_Group
  imports Peer_Heap
begin

text \<open>
  A group of peers (\<open>src/zyre_group.c\<close>): its members, known by identity, and the state of the leader
  election in it. A group holds pointers to peer objects and owns its election.
\<close>

section \<open>State and operations\<close>

record zyre_group =
  g_name :: string
  g_peers :: "addr zhash"
  g_contest :: bool
  g_leader :: "addr option"
  g_election :: "zyre_election option"

text \<open>The object; the caller puts it into the container.\<close>

definition zyre_group_new :: "string \<Rightarrow> zyre_group" where
  "zyre_group_new name = \<lparr>g_name = name, g_peers = [], g_contest = False, g_leader = None,
     g_election = None\<rparr>"

text \<open>Both change the status of the peer whether or not the membership changes.\<close>

definition zyre_group_join :: "env \<Rightarrow> zyre_group \<Rightarrow> addr \<Rightarrow> peer_heap \<Rightarrow> (zyre_group \<times> peer_heap) outcome" where
  "zyre_group_join env self peer heap =
     and_then (deref peer heap) (\<lambda>p.
       let self = self\<lparr>g_peers := zhash_insert (env_rank env) (zyre_peer_identity p) peer (g_peers self)\<rparr>
       in Inr (self, put_peer peer (zyre_peer_set_status p (p_status p + 1)) heap))"

definition zyre_group_leave :: "zyre_group \<Rightarrow> addr \<Rightarrow> peer_heap \<Rightarrow> (zyre_group \<times> peer_heap) outcome" where
  "zyre_group_leave self peer heap =
     and_then (deref peer heap) (\<lambda>p.
       let self = self\<lparr>g_peers := zhash_delete (zyre_peer_identity p) (g_peers self)\<rparr>
       in Inr (self, put_peer peer (zyre_peer_set_status p (p_status p + 1)) heap))"

text \<open>\<open>s_peer_send\<close>: each member gets a copy of the message.\<close>

definition s_peer_send :: "env \<Rightarrow> zre_msg \<Rightarrow> string \<times> addr \<Rightarrow> peer_heap \<Rightarrow> peer_heap outcome" where
  "s_peer_send env msg item = heap_peer_send env (zre_msg_dup (env_rank env) msg) (snd item)"

definition zyre_group_send :: "env \<Rightarrow> zyre_group \<Rightarrow> zre_msg \<Rightarrow> peer_heap \<Rightarrow> peer_heap outcome" where
  "zyre_group_send env self msg heap = each (s_peer_send env msg) (g_peers self) heap"

definition zyre_group_peers :: "zyre_group \<Rightarrow> string list" where
  [zyre_simps]: "zyre_group_peers self = zhash_keys (g_peers self)"

definition zyre_group_require_election :: "zyre_group \<Rightarrow> zyre_election \<times> zyre_group" where
  "zyre_group_require_election self = (case g_election self of
     Some election \<Rightarrow> (election, self)
   | None \<Rightarrow> (zyre_election_new, self\<lparr>g_election := Some zyre_election_new\<rparr>))"

definition zyre_group_set_contest :: "zyre_group \<Rightarrow> zyre_group" where
  [zyre_simps]: "zyre_group_set_contest self = self\<lparr>g_contest := True\<rparr>"

definition zyre_group_contest :: "zyre_group \<Rightarrow> bool" where
  [zyre_simps]: "zyre_group_contest self = g_contest self"

definition zyre_group_election :: "zyre_group \<Rightarrow> zyre_election option" where
  [zyre_simps]: "zyre_group_election self = g_election self"

definition zyre_group_set_election :: "zyre_group \<Rightarrow> zyre_election option \<Rightarrow> zyre_group" where
  [zyre_simps]: "zyre_group_set_election self election = self\<lparr>g_election := election\<rparr>"

definition zyre_group_leader :: "zyre_group \<Rightarrow> addr option" where
  [zyre_simps]: "zyre_group_leader self = g_leader self"

definition zyre_group_set_leader :: "zyre_group \<Rightarrow> addr option \<Rightarrow> zyre_group" where
  [zyre_simps]: "zyre_group_set_leader self leader = self\<lparr>g_leader := leader\<rparr>"

section \<open>Well-formed groups\<close>

text \<open>The members are live peers, each filed under its own identity.\<close>

definition filed :: "peer_heap \<Rightarrow> addr zhash \<Rightarrow> bool" where
  "filed heap h \<longleftrightarrow> wf_zhash h \<and> (\<forall>(k, a) \<in> set h. \<exists>p. heap a = Some p \<and> uu_str (p_uuid p) = k)"

lemma filedD: "filed heap h \<Longrightarrow> (k, a) \<in> set h \<Longrightarrow> \<exists>p. heap a = Some p \<and> uu_str (p_uuid p) = k"
  unfolding filed_def by blast

lemma filed_wf: "filed heap h \<Longrightarrow> wf_zhash h"
  by (simp add: filed_def)

lemma filed_Nil [simp]: "filed heap []"
  by (simp add: filed_def)

lemma filed_live: "filed heap h \<Longrightarrow> (k, a) \<in> set h \<Longrightarrow> heap a \<noteq> None"
  by (auto dest!: filedD)

text \<open>No object is filed twice.\<close>

lemma filed_addr_unique: "filed heap h \<Longrightarrow> (k, a) \<in> set h \<Longrightarrow> (k', a) \<in> set h \<Longrightarrow> k' = k"
  using filedD [of heap h k a] filedD [of heap h k' a] by auto

lemma filed_distinct:
  assumes "filed heap h" shows "distinct (map snd h)"
proof -
  have "distinct h" using assms by (auto simp: filed_def wf_zhash_def distinct_map)
  moreover have "inj_on snd (set h)"
    using filed_addr_unique [OF assms] filed_wf [OF assms]
    by (auto simp: inj_on_def wf_zhash_def)
  ultimately show ?thesis by (simp add: distinct_map)
qed

lemma filed_same_objects:
  assumes "filed heap h" and "same_objects heap heap'" shows "filed heap' h"
proof -
  have "\<exists>p. heap' a = Some p \<and> uu_str (p_uuid p) = k" if "(k, a) \<in> set h" for k a
    using filedD [OF assms(1) that] same_objects_uuid [OF assms(2), of a] by auto
  then show ?thesis using assms(1) by (auto simp: filed_def)
qed

lemma filed_subset:
  assumes "filed heap h" and "wf_zhash h'" and "set h' \<subseteq> set h" shows "filed heap h'"
  using assms by (auto simp: filed_def)

lemma filed_insert:
  assumes "filed heap h" and "heap a = Some p" and "uu_str (p_uuid p) = k"
  shows "filed heap (zhash_insert rank k a h)"
  using assms by (auto simp: filed_def wf_zhash_insert set_zhash_insert split: if_splits)

section \<open>What the operations keep\<close>

lemma heap_peer_send_live:
  assumes "heap a = Some p" and "peer_ok p"
  obtains p' where "zyre_peer_send env p m = Inr (0, p')" and "heap_peer_send env m a heap = Inr (heap(a \<mapsto> p'))"
  using zyre_peer_send_yields [OF assms(2), of env m] assms(1)
  by (fastforce simp: heap_peer_send_def on_peer_def yields_def put_peer_def deref_def)

lemma zyre_group_send_keeps [keeps]:
  "ensures (zyre_group_send env g msg heap) (same_objects heap)"
  unfolding zyre_group_send_def s_peer_send_def
  by (rule each_same_objects) (rule heap_peer_send_keeps)

lemma zyre_group_join_keeps [keeps]:
  "ensures (zyre_group_join env g a heap) (\<lambda>(g', heap'). same_objects heap heap')"
  by (auto simp: zyre_group_join_def Let_def ensures_def zyre_simps intro!: same_objects_put)

lemma zyre_group_leave_keeps [keeps]:
  "ensures (zyre_group_leave g a heap) (\<lambda>(g', heap'). same_objects heap heap')"
  by (auto simp: zyre_group_leave_def Let_def ensures_def zyre_simps intro!: same_objects_put)

text \<open>
  Sending to a well-formed group always works; each member's object becomes what
  \<open>zyre_peer_send\<close> makes of it, and no other object changes.
\<close>

lemma group_send_result:
  assumes "filed heap (g_peers g)" and "heap_ok heap"
  obtains heap' where "zyre_group_send env g msg heap = Inr heap'"
    and "\<And>k a p. (k, a) \<in> set (g_peers g) \<Longrightarrow> heap a = Some p \<Longrightarrow>
          \<exists>p'. heap' a = Some p' \<and> zyre_peer_send env p (zre_msg_dup (env_rank env) msg) = Inr (0, p')"
    and "\<And>b. b \<notin> snd ` set (g_peers g) \<Longrightarrow> heap' b = heap b"
    and "same_objects heap heap'"
proof -
  let ?m = "zre_msg_dup (env_rank env) msg"
  let ?f = "\<lambda>p. and_then (zyre_peer_send env p ?m) (\<lambda>(rc, p). Inr p)"
  have step1: "s_peer_send env msg = on_peer ?f \<circ> snd"
    by (simp add: fun_eq_iff s_peer_send_def heap_peer_send_def)
  have map: "each (s_peer_send env msg) h = each (on_peer ?f) (map snd h)" for h
    by (rule ext) (simp only: each_map step1)
  have step: "\<exists>p'. zyre_peer_send env p ?m = Inr (0, p')" if "heap a = Some p" for a p
    using zyre_peer_send_yields [of p env ?m] heap_okD [OF assms(2) that] by (auto simp: yields_def)
  have "\<exists>p p'. heap a = Some p \<and> ?f p = Inr p'" if a: "a \<in> set (map snd (g_peers g))" for a
  proof -
    obtain k where "(k, a) \<in> set (g_peers g)" using a by auto
    then obtain p where p: "heap a = Some p" using filedD [OF assms(1)] by blast
    then show ?thesis using step [OF p] by auto
  qed
  then obtain heap' where h: "each (on_peer ?f) (map snd (g_peers g)) heap = Inr heap'"
    "\<And>a p. a \<in> set (map snd (g_peers g)) \<Longrightarrow> heap a = Some p \<Longrightarrow> ?f p = and_then (deref a heap') Inr"
    "\<And>b. b \<notin> set (map snd (g_peers g)) \<Longrightarrow> heap' b = heap b"
    using on_peer_each [OF filed_distinct [OF assms(1)], of heap ?f] by blast
  have send: "zyre_group_send env g msg heap = Inr heap'"
    using h(1) by (simp add: zyre_group_send_def map)
  show thesis
  proof (rule that [OF send])
    fix k a p assume a: "(k, a) \<in> set (g_peers g)" "heap a = Some p"
    then obtain p' where p': "zyre_peer_send env p ?m = Inr (0, p')" using step by blast
    moreover have "?f p = and_then (deref a heap') Inr" using h(2) [of a p] a by force
    ultimately have "heap' a = Some p'" by (cases "heap' a") (simp_all add: deref_def)
    then show "\<exists>p'. heap' a = Some p' \<and> zyre_peer_send env p ?m = Inr (0, p')" using p' by blast
  qed (use h(3) ensuresD [OF zyre_group_send_keeps send] in auto)
qed

end
