(* ===== verification/Zyre_Group_Props.thy ===== *)
theory Zyre_Group_Props
  imports Zyre_Group Zyre_Peer_Props
begin

text \<open>
  What a group promises: a message to the group reaches every member and nobody else, and the
  membership of a peer is what its last join or leave made it.
\<close>

section \<open>Sending\<close>

lemma sendable_dup:
  assumes "sendable m" shows "sendable (zre_msg_dup rank m)"
proof -
  have "fields_ok m" using assms by (simp add: sendable_def)
  then show ?thesis using assms
    by (cases "m_headers m") (auto simp: sendable_def fields_ok_dup)
qed

text \<open>
  The peer's mailbox, if it has one, got frames that its receiver reads as the one message \<open>m\<close>.
\<close>

definition receives :: "(string \<Rightarrow> nat) \<Rightarrow> byte list \<Rightarrow> zyre_peer \<Rightarrow> zyre_peer \<Rightarrow> zre_msg \<Rightarrow> bool" where
  "receives rank rid p p' m \<longleftrightarrow> (\<forall>mb. p_mailbox p = Some mb \<longrightarrow>
     (\<exists>fs. p_mailbox p' = Some (mb\<lparr>mb_frames := mb_frames mb @ fs\<rparr>)
        \<and> recv_all rank 1 (router_view rid True fs) = ([m], [])))"

lemma peer_send_receives:
  assumes "peer_ok p" and "\<forall>q. \<not> env_full env q" and "sendable m" and "zyre_peer_send env p m = Inr (0, p')"
  shows "receives rank rid p p' (zre_msg_received rank rid (zre_msg_set_sequence m (p_sent_sequence p + 1)))"
  unfolding receives_def
proof (intro allI impI)
  fix mb assume mb: "p_mailbox p = Some mb"
  then have "p_connected p" using assms(1) by (simp add: peer_ok_def)
  then show "\<exists>fs. p_mailbox p' = Some (mb\<lparr>mb_frames := mb_frames mb @ fs\<rparr>)
      \<and> recv_all rank 1 (router_view rid True fs)
        = ([zre_msg_received rank rid (zre_msg_set_sequence m (p_sent_sequence p + 1))], [])"
    using session_delivers [OF mb _ assms(2), of "[m]" rank rid] assms(3,4) by auto
qed

text \<open>What arrives of the copy that the code sends is what arrives of the message itself.\<close>

lemma received_dup:
  assumes "fields_ok m" and "m_headers m = None"
  shows "zre_msg_received rank rid (zre_msg_set_sequence (zre_msg_dup r m) k)
    = zre_msg_received rank rid (zre_msg_set_sequence m k)"
  using assms zre_msg_dup_fields [OF assms(1)]
  by (simp add: zre_msg_received_def store_fields_def sent_content_def have_content_def zyre_simps
      msg_list_def Let_def)

text \<open>A message to all the peers of a table.\<close>

lemma send_members:
  assumes "filed heap (g_peers g)" and "heap_ok heap" and "sendable msg" and "\<forall>q. \<not> env_full env q"
  obtains heap' where "zyre_group_send env g msg heap = Inr heap'" and "same_objects heap heap'"
    and "\<forall>(k, a) \<in> set (g_peers g). \<exists>p p'. heap a = Some p \<and> heap' a = Some p'
        \<and> receives rank rid p p' (zre_msg_received rank rid
             (zre_msg_set_sequence (zre_msg_dup (env_rank env) msg) (p_sent_sequence p + 1)))"
    and "\<forall>b. b \<notin> snd ` set (g_peers g) \<longrightarrow> heap' b = heap b"
proof -
  let ?m = "zre_msg_dup (env_rank env) msg"
  have m: "sendable ?m" using assms(3) by (rule sendable_dup)
  obtain heap' where h: "zyre_group_send env g msg heap = Inr heap'" "same_objects heap heap'"
    and sent: "\<And>k a p. (k, a) \<in> set (g_peers g) \<Longrightarrow> heap a = Some p \<Longrightarrow>
          \<exists>p'. heap' a = Some p' \<and> zyre_peer_send env p ?m = Inr (0, p')"
    and others: "\<And>b. b \<notin> snd ` set (g_peers g) \<Longrightarrow> heap' b = heap b"
    using group_send_result [OF assms(1,2)] by metis
  have "\<exists>p p'. heap a = Some p \<and> heap' a = Some p'
        \<and> receives rank rid p p' (zre_msg_received rank rid (zre_msg_set_sequence ?m (p_sent_sequence p + 1)))"
    if a: "(k, a) \<in> set (g_peers g)" for k a
  proof -
    obtain p where p: "heap a = Some p" using filedD [OF assms(1) a] by blast
    obtain p' where "heap' a = Some p'" "zyre_peer_send env p ?m = Inr (0, p')"
      using sent [OF a p] by blast
    then show ?thesis using p peer_send_receives [OF heap_okD [OF assms(2) p] assms(4) m] by blast
  qed
  then show thesis using h others by (intro that [of heap']) blast+
qed

definition sample_members :: "peer_heap" where
  "sample_members = (\<lambda>_. None)(5 \<mapsto> sample_peer)"

definition sample_group :: zyre_group where
  "sample_group = (zyre_group_new ''A'')\<lparr>g_peers := [(''07'', 5)]\<rparr>"

lemma sample_members_ok [simp]: "filed sample_members [(''07'', 5)]" "heap_ok sample_members"
  by (auto simp: filed_def wf_zhash_def sample_members_def sample_peer_def zyre_peer_init_def
      heap_ok_def peer_ok_def)

text \<open>A message sent to a group always goes out, whatever state the members are in; every
  connected member's mailbox gets it once, under that peer's next sequence number and with the fields
  and content given, as the member's receiver reads it back; no peer outside the group is touched.\<close>

theorem group_send_reaches_members:
  assumes "filed heap (g_peers g)" and "heap_ok heap" and "sendable msg" and "\<forall>q. \<not> env_full env q"
  shows "\<exists>heap'. zyre_group_send env g msg heap = Inr heap'
    \<and> (\<forall>(k, a) \<in> set (g_peers g). \<exists>p p'. heap a = Some p \<and> heap' a = Some p'
        \<and> receives rank rid p p' (zre_msg_received rank rid
             (zre_msg_set_sequence (zre_msg_dup (env_rank env) msg) (p_sent_sequence p + 1))))
    \<and> (\<forall>b. b \<notin> snd ` set (g_peers g) \<longrightarrow> heap' b = heap b)"
  by (rule send_members [OF assms, of rank rid]) blast

theorem group_send_reaches_members_witness:
  "\<exists>heap'. zyre_group_send sample_env sample_group sample_join sample_members = Inr heap'
    \<and> (\<forall>(k, a) \<in> set (g_peers sample_group). \<exists>p p'. sample_members a = Some p \<and> heap' a = Some p'
        \<and> receives length [1, 3] p p' (zre_msg_received length [1, 3]
             (zre_msg_set_sequence (zre_msg_dup (env_rank sample_env) sample_join) (p_sent_sequence p + 1))))
    \<and> (\<forall>b. b \<notin> snd ` set (g_peers sample_group) \<longrightarrow> heap' b = sample_members b)"
  by (rule group_send_reaches_members) (simp_all add: sample_group_def sample_env_def)

section \<open>Membership\<close>

text \<open>A history of one peer in one group: \<open>True\<close> is a join, \<open>False\<close> a leave.\<close>

fun group_history :: "env \<Rightarrow> addr \<Rightarrow> bool list \<Rightarrow> zyre_group \<Rightarrow> peer_heap \<Rightarrow> (zyre_group \<times> peer_heap) outcome" where
  "group_history env a [] g heap = Inr (g, heap)"
| "group_history env a (join # ops) g heap =
     and_then (if join then zyre_group_join env g a heap else zyre_group_leave g a heap)
       (\<lambda>(g, heap). group_history env a ops g heap)"

lemma group_history_result:
  assumes "wf_zhash (g_peers g)" and "heap a = Some p"
  shows "\<exists>g' heap'. group_history env a ops g heap = Inr (g', heap')
    \<and> (\<forall>k. (zhash_lookup (g_peers g') k \<noteq> None) = (if k = zyre_peer_identity p \<and> ops \<noteq> [] then last ops
          else zhash_lookup (g_peers g) k \<noteq> None))
    \<and> heap' a = Some (p\<lparr>p_status := p_status p + of_nat (length ops)\<rparr>)
    \<and> (\<forall>b. b \<noteq> a \<longrightarrow> heap' b = heap b)"
  using assms
proof (induction ops arbitrary: g heap p)
  case Nil
  then show ?case by simp
next
  case (Cons join ops)
  let ?id = "zyre_peer_identity p"
  let ?p = "p\<lparr>p_status := p_status p + 1\<rparr>"
  let ?g = "g\<lparr>g_peers := if join then zhash_insert (env_rank env) ?id a (g_peers g)
              else zhash_delete ?id (g_peers g)\<rparr>"
  let ?heap = "put_peer a ?p heap"
  have step: "(if join then zyre_group_join env g a heap else zyre_group_leave g a heap) = Inr (?g, ?heap)"
    using Cons.prems(2)
    by (simp add: zyre_group_join_def zyre_group_leave_def Let_def zyre_peer_set_status_def)
  have id: "zyre_peer_identity ?p = ?id" by (simp add: zyre_peer_identity_def)
  have heap_a: "?heap a = Some ?p" by (simp add: put_peer_def)
  have wf: "wf_zhash (g_peers ?g)" using Cons.prems(1) by (simp add: zhash_wf_rules)
  have look: "(zhash_lookup (g_peers ?g) k \<noteq> None)
      = (if k = ?id then join else zhash_lookup (g_peers g) k \<noteq> None)" for k
    using Cons.prems(1) by (auto simp: zhash_lookup_insert zhash_lookup_delete)
  obtain g' heap' where ih: "group_history env a ops ?g ?heap = Inr (g', heap')"
    "\<forall>k. (zhash_lookup (g_peers g') k \<noteq> None) = (if k = ?id \<and> ops \<noteq> [] then last ops
          else zhash_lookup (g_peers ?g) k \<noteq> None)"
    "heap' a = Some (?p\<lparr>p_status := p_status ?p + of_nat (length ops)\<rparr>)"
    "\<forall>b. b \<noteq> a \<longrightarrow> heap' b = ?heap b"
    using Cons.IH [of ?g ?heap ?p, OF wf heap_a] unfolding id by blast
  have "group_history env a (join # ops) g heap = Inr (g', heap')"
    using step ih(1) by simp
  moreover have "\<forall>k. (zhash_lookup (g_peers g') k \<noteq> None)
      = (if k = ?id \<and> join # ops \<noteq> [] then last (join # ops) else zhash_lookup (g_peers g) k \<noteq> None)"
    using ih(2) look by (cases "ops = []") (auto split: if_splits)
  moreover have "heap' a = Some (p\<lparr>p_status := p_status p + of_nat (length (join # ops))\<rparr>)"
    using ih(3) by (simp add: add.assoc add.commute)
  moreover have "\<forall>b. b \<noteq> a \<longrightarrow> heap' b = heap b" using ih(4) by (simp add: put_peer_def)
  ultimately show ?case by blast
qed

text \<open>After any history of joins and leaves a peer is a member exactly if its last operation was
  a join, the other members are as before, and the status of the peer counts every operation modulo
  256, duplicate joins and leaves of a non-member included.\<close>

theorem group_membership_history:
  assumes "wf_zhash (g_peers g)" and "heap a = Some p" and "ops \<noteq> []"
  shows "\<exists>g' heap'. group_history env a ops g heap = Inr (g', heap')
    \<and> (zyre_peer_identity p \<in> set (zyre_group_peers g') \<longleftrightarrow> last ops)
    \<and> (\<forall>k. k \<noteq> zyre_peer_identity p \<longrightarrow> (k \<in> set (zyre_group_peers g') \<longleftrightarrow> k \<in> set (zyre_group_peers g)))
    \<and> heap' a = Some (zyre_peer_set_status p (p_status p + of_nat (length ops)))"
proof -
  have member: "k \<in> set (zyre_group_peers h) \<longleftrightarrow> zhash_lookup (g_peers h) k \<noteq> None" for k h
    by (simp add: zyre_group_peers_def zhash_keys_def zhash_lookup_None)
  show ?thesis
    using group_history_result [of g heap a p env ops, OF assms(1,2)] assms(3)
    by (auto simp: member zyre_peer_set_status_def)
qed

theorem group_membership_history_witness:
  "\<exists>g' heap'. group_history sample_env 5 [True, True, False, False, True] (zyre_group_new ''B'') sample_members
      = Inr (g', heap')
    \<and> (zyre_peer_identity sample_peer \<in> set (zyre_group_peers g') \<longleftrightarrow> last [True, True, False, False, True])
    \<and> (\<forall>k. k \<noteq> zyre_peer_identity sample_peer \<longrightarrow>
        (k \<in> set (zyre_group_peers g') \<longleftrightarrow> k \<in> set (zyre_group_peers (zyre_group_new ''B''))))
    \<and> heap' 5 = Some (zyre_peer_set_status sample_peer
        (p_status sample_peer + of_nat (length [True, True, False, False, True])))"
  by (rule group_membership_history) (simp_all add: zyre_group_new_def sample_members_def)

end
