(* ===== verification/Zyre_Node.thy ===== *)
theory Zyre_Node
  imports Zyre_Group Zre_Wire
begin

text \<open>
  The node (\<open>src/zyre_node.c\<close>): its state, and its construction, start and stop. What a node sends
  is part of the state: the replies on the pipe to the application, the frames of the events on the
  outbox, the commands to the beacon and to the gossip actor. Peer objects are in the heap.
\<close>

section \<open>State\<close>

datatype pipe_reply = Reply_string string | Reply_signal int | Reply_list "string list option"

datatype beacon_command = Beacon_verbose | Beacon_configure int | Beacon_publish "byte list" "64 word"
  | Beacon_subscribe "byte list"

datatype source = Pipe | Inbox | Beacon | Gossip

record zyre_node =
  n_pipe :: "pipe_reply list"
  n_outbox :: "zframe list"
  n_terminated :: bool
  n_verbose :: bool
  n_beacon_port :: int
  n_ephemeral_port :: "string option"
  n_beacon_version :: byte
  n_evasive_timeout :: "64 word"
  n_expired_timeout :: "64 word"
  n_interval :: "64 word"
  n_poller :: "source list"
  n_beacon :: "beacon_command list option"
  n_uuid :: zuuid
  n_inbox :: "zframe list"
  n_inbox_cert :: "(byte list \<times> byte list \<times> string) option"
  n_name :: string
  n_endpoint :: "string option"
  n_advertised_endpoint :: "string option"
  n_port :: int
  n_status :: byte
  n_peers :: "addr zhash"
  n_peer_groups :: "zyre_group zhash"
  n_own_groups :: "string list"
  n_headers :: "string zhash"
  n_gossip :: "string list list option"
  n_gossip_bind :: "string option"
  n_gossip_connect :: "string option"
  n_public_key :: "string option"
  n_secret_key :: "string option"
  n_zap_domain :: string
  n_heap :: peer_heap
  n_next :: addr
  n_ticks :: nat
  n_last_reaped_at :: "64 word"

abbreviation (input) BEACON_VERSION_V2 :: byte where "BEACON_VERSION_V2 \<equiv> 1"
abbreviation (input) BEACON_VERSION_V3 :: byte where "BEACON_VERSION_V3 \<equiv> 3"
abbreviation (input) ZRE_DISCOVERY_PORT :: int where "ZRE_DISCOVERY_PORT \<equiv> 5670"
abbreviation (input) REAP_INTERVAL :: "64 word" where "REAP_INTERVAL \<equiv> 1000"

text \<open>The three octets \<open>ZRE\<close>.\<close>

definition zre_protocol :: "byte list" where
  "zre_protocol = str_bytes ''ZRE''"

section \<open>Sockets, clock, poller\<close>

text \<open>\<open>zclock_mono\<close>: the next reading.\<close>

definition zclock_mono :: "env \<Rightarrow> zyre_node \<Rightarrow> 64 word \<times> zyre_node" where
  "zclock_mono env self = (env_clock env (n_ticks self), self\<lparr>n_ticks := Suc (n_ticks self)\<rparr>)"

text \<open>\<open>zstr_sendm\<close>, \<open>zstr_send\<close>, \<open>zframe_send\<close> and \<open>zmsg_send\<close> on the outbox.\<close>

definition outbox_sendm :: "string \<Rightarrow> zyre_node \<Rightarrow> zyre_node" where
  "outbox_sendm s self = self\<lparr>n_outbox := n_outbox self @ [\<lparr>fr_data = str_bytes s, fr_more = True\<rparr>]\<rparr>"

definition outbox_send :: "string \<Rightarrow> zyre_node \<Rightarrow> zyre_node" where
  "outbox_send s self = self\<lparr>n_outbox := n_outbox self @ [\<lparr>fr_data = str_bytes s, fr_more = False\<rparr>]\<rparr>"

definition outbox_frame :: "byte list \<Rightarrow> zyre_node \<Rightarrow> zyre_node" where
  "outbox_frame d self = self\<lparr>n_outbox := n_outbox self @ [\<lparr>fr_data = d, fr_more = True\<rparr>]\<rparr>"

text \<open>A message without frames, or none at all, sends nothing.\<close>

definition outbox_msg :: "byte list list option \<Rightarrow> zyre_node \<Rightarrow> zyre_node" where
  "outbox_msg content self = (case content of None \<Rightarrow> self
     | Some ds \<Rightarrow> self\<lparr>n_outbox := n_outbox self @ multipart ds\<rparr>)"

definition pipe_send :: "pipe_reply \<Rightarrow> zyre_node \<Rightarrow> zyre_node" where
  "pipe_send r self = self\<lparr>n_pipe := n_pipe self @ [r]\<rparr>"

definition zpoller_add :: "source \<Rightarrow> zyre_node \<Rightarrow> zyre_node" where
  "zpoller_add s self = self\<lparr>n_poller := List.insert s (n_poller self)\<rparr>"

definition zpoller_remove :: "source \<Rightarrow> zyre_node \<Rightarrow> zyre_node" where
  "zpoller_remove s self = self\<lparr>n_poller := removeAll s (n_poller self)\<rparr>"

text \<open>\<open>zstr_sendx\<close> stops at the first null argument.\<close>

definition gossip_sendx :: "string option list \<Rightarrow> zyre_node \<Rightarrow> zyre_node outcome" where
  "gossip_sendx strs self = (case n_gossip self of None \<Rightarrow> Inl Assertion_failed
     | Some cmds \<Rightarrow> Inr (self\<lparr>n_gossip := Some (cmds @ [map the (takeWhile (\<lambda>s. s \<noteq> None) strs)])\<rparr>))"

definition beacon_send :: "beacon_command \<Rightarrow> zyre_node \<Rightarrow> zyre_node outcome" where
  "beacon_send cmd self = (case n_beacon self of None \<Rightarrow> Inl Assertion_failed
     | Some cmds \<Rightarrow> Inr (self\<lparr>n_beacon := Some (cmds @ [cmd])\<rparr>))"

text \<open>\<open>zlist_exists\<close> and \<open>zlist_remove\<close> on a list with \<open>s_string_compare\<close>.\<close>

definition zlist_exists :: "string list \<Rightarrow> string \<Rightarrow> bool" where
  "zlist_exists xs item = list_ex (\<lambda>x. streq x item) xs"

fun zlist_remove :: "string list \<Rightarrow> string \<Rightarrow> string list" where
  "zlist_remove [] item = []"
| "zlist_remove (x # xs) item = (if streq x item then xs else x # zlist_remove xs item)"

text \<open>An operation on one peer object of the node.\<close>

definition node_on_heap :: "(peer_heap \<Rightarrow> peer_heap outcome) \<Rightarrow> zyre_node \<Rightarrow> zyre_node outcome" where
  "node_on_heap f self = and_then (f (n_heap self)) (\<lambda>heap. Inr (self\<lparr>n_heap := heap\<rparr>))"

definition node_peer_send :: "env \<Rightarrow> addr \<Rightarrow> zre_msg \<Rightarrow> zyre_node \<Rightarrow> zyre_node outcome" where
  "node_peer_send env peer msg = node_on_heap (heap_peer_send env msg peer)"

definition node_group_send :: "env \<Rightarrow> zyre_group \<Rightarrow> zre_msg \<Rightarrow> zyre_node \<Rightarrow> zyre_node outcome" where
  "node_group_send env g msg = node_on_heap (zyre_group_send env g msg)"

definition node_peer :: "addr \<Rightarrow> zyre_node \<Rightarrow> zyre_peer outcome" where
  "node_peer a self = deref a (n_heap self)"

section \<open>Construction\<close>

definition s_reap_interval :: "zyre_node \<Rightarrow> 64 word" where
  "s_reap_interval self =
     (let interval = n_evasive_timeout self;
          interval = (if n_expired_timeout self < interval then n_expired_timeout self else interval);
          interval = (if interval > REAP_INTERVAL then REAP_INTERVAL else interval)
      in interval)"

definition zyre_node_new :: "env \<Rightarrow> zuuid \<Rightarrow> zyre_node option" where
  "zyre_node_new env uuid =
     (if \<not> env_router env then None
      else Some \<lparr>n_pipe = [], n_outbox = [], n_terminated = False, n_verbose = False,
        n_beacon_port = ZRE_DISCOVERY_PORT, n_ephemeral_port = None,
        n_beacon_version = BEACON_VERSION_V2, n_evasive_timeout = 5000, n_expired_timeout = 30000,
        n_interval = 0, n_poller = [Pipe], n_beacon = None, n_uuid = uuid, n_inbox = [],
        n_inbox_cert = None, n_name = take 6 (uu_str uuid), n_endpoint = None,
        n_advertised_endpoint = None, n_port = 0, n_status = 0, n_peers = [], n_peer_groups = [],
        n_own_groups = [], n_headers = [], n_gossip = None, n_gossip_bind = None,
        n_gossip_connect = None, n_public_key = None, n_secret_key = None,
        n_zap_domain = ''global'', n_heap = (\<lambda>_. None), n_next = 0, n_ticks = 0,
        n_last_reaped_at = 0\<rparr>)"

section \<open>Start and stop\<close>

definition zyre_node_gossip_start :: "env \<Rightarrow> zyre_node \<Rightarrow> zyre_node outcome" where
  "zyre_node_gossip_start env self =
     (if n_gossip self = None then
        let self = self\<lparr>n_beacon_port := 0\<rparr>
        in assert_that (env_gossip_ok env)
          (Inr (self\<lparr>n_gossip := Some (if n_verbose self then [[''VERBOSE'']] else [])\<rparr>))
      else Inr self)"

text \<open>The CURVE certificate made of the two keys is applied to the inbox.\<close>

definition node_apply_cert :: "env \<Rightarrow> zyre_node \<Rightarrow> zyre_node outcome" where
  "node_apply_cert env self = (case n_secret_key self of
     None \<Rightarrow> Inr self
   | Some secret \<Rightarrow> (case n_public_key self of
       None \<Rightarrow> Inl Assertion_failed
     | Some public \<Rightarrow> Inr (self\<lparr>n_inbox_cert
           := Some (env_z85_decode env public, env_z85_decode env secret, n_zap_domain self)\<rparr>)))"

definition node_check_mechanism :: "env \<Rightarrow> zyre_node \<Rightarrow> 'a outcome \<Rightarrow> 'a outcome" where
  "node_check_mechanism env self r = (if n_secret_key self \<noteq> None then assert_that (env_curve env) r else r)"

definition published_endpoint :: "zyre_node \<Rightarrow> string \<Rightarrow> string" where
  "published_endpoint self endpoint =
     (let published = (case n_advertised_endpoint self of Some a \<Rightarrow> a | None \<Rightarrow> endpoint)
      in case n_public_key self of Some key \<Rightarrow> published @ ''|'' @ key | None \<Rightarrow> published)"

definition node_start_beacon :: "env \<Rightarrow> zyre_node \<Rightarrow> (int \<times> zyre_node) outcome" where
  "node_start_beacon env self =
     assert_that (n_beacon self = None)
       (let self = (if n_secret_key self \<noteq> None
                    then self\<lparr>n_beacon_version := BEACON_VERSION_V3\<rparr> else self)
        in if \<not> env_beacon_ok env then Inr (1, self)
           else node_check_mechanism env self
             (Inr (0, self\<lparr>n_beacon := Some (if n_verbose self then [Beacon_verbose] else [])\<rparr>)))"

definition node_start_gossip :: "env \<Rightarrow> zyre_node \<Rightarrow> (int \<times> zyre_node) outcome" where
  "node_start_gossip env self =
     and_then (case n_endpoint self of
         Some endpoint \<Rightarrow> Inr self
       | None \<Rightarrow>
           let iface = (if streq (env_interface env) '''' then ''*'' else env_interface env);
               self = self\<lparr>n_port := env_bind env (''tcp://'' @ iface @ '':*'')\<rparr>
           in assert_that (0 < n_port self)
             (Inr (self\<lparr>n_endpoint := Some (''tcp://'' @ env_hostname env @ '':'' @ c_dec (n_port self))\<rparr>)))
       (\<lambda>self. assert_that (n_gossip self \<noteq> None)
          (and_then (not_null (n_endpoint self)) (\<lambda>endpoint.
           and_then (gossip_sendx [Some ''PUBLISH'', Some (uu_str (n_uuid self)),
                      Some (published_endpoint self endpoint)] self)
             (\<lambda>self. node_check_mechanism env self
                (Inr (0, zpoller_add Inbox (zpoller_add Gossip self)))))))"

definition zyre_node_start :: "env \<Rightarrow> zyre_node \<Rightarrow> (int \<times> zyre_node) outcome" where
  "zyre_node_start env self = and_then (node_apply_cert env self) (\<lambda>self.
     if n_beacon_port self \<noteq> 0 then node_start_beacon env self else node_start_gossip env self)"

text \<open>
  The beacon frame: protocol, version, UUID, port in network order, and for version 3 the key. The
  structure is on the stack; what is not assigned in it is junk.
\<close>

definition beacon_key :: "env \<Rightarrow> zyre_node \<Rightarrow> byte list outcome" where
  "beacon_key env self = (case n_public_key self of
     None \<Rightarrow> Inr (map (env_junk env) [0..<32])
   | Some key \<Rightarrow> let d = env_z85_decode env key in
       if 32 < length d then Inl Buffer_overflow
       else Inr (d @ map (env_junk env) [length d..<32]))"

definition beacon_frame :: "env \<Rightarrow> zyre_node \<Rightarrow> int \<Rightarrow> byte list outcome" where
  "beacon_frame env self port = and_then (beacon_key env self) (\<lambda>key.
     Inr (take (if n_beacon_version self = BEACON_VERSION_V2 then 22 else 54)
       (zre_protocol @ [n_beacon_version self] @ uu_data (n_uuid self) @ put_number2 port @ key)))"

definition zyre_node_stop :: "env \<Rightarrow> zyre_node \<Rightarrow> (int \<times> zyre_node) outcome" where
  "zyre_node_stop env self =
     and_then (if n_gossip self \<noteq> None
               then each (\<lambda>item. node_peer_send env (snd item) (zre_msg_set_id zre_msg_new ZRE_MSG_GOODBYE))
                      (n_peers self) self
               else Inr self) (\<lambda>self.
     and_then (if n_beacon self \<noteq> None
               then and_then (beacon_frame env self 0) (\<lambda>beacon.
                    and_then (beacon_send (Beacon_publish beacon (n_interval self)) self) (\<lambda>self.
                      Inr ((zpoller_remove Beacon self)\<lparr>n_beacon := None\<rparr>)))
               else Inr self) (\<lambda>self.
       let self = zpoller_remove Inbox self;
           self = outbox_sendm ''STOP'' self;
           self = outbox_sendm (uu_str (n_uuid self)) self;
           self = outbox_send (n_name self) self
       in Inr (0, self)))"

text \<open>Send message to one peer; called while looping over the table of peers.\<close>

definition zyre_node_send_peer :: "env \<Rightarrow> zre_msg \<Rightarrow> string \<times> addr \<Rightarrow> zyre_node \<Rightarrow> zyre_node outcome" where
  "zyre_node_send_peer env msg item = node_peer_send env (snd item) (zre_msg_dup (env_rank env) msg)"

end
