(* ===== verification/Zyre_Node_Peers.thy ===== *)
theory Zyre_Node_Peers
  imports Zyre_Node
begin

text \<open>
  The node's peers and groups (\<open>src/zyre_node.c\<close>, \<open>zyre_node_purge_peer\<close> to
  \<open>zyre_node_leave_peer_group\<close>): finding or making a peer and saying HELLO to it, removing a peer, and
  moving a peer into and out of a group.
\<close>

section \<open>Making a peer\<close>

definition zyre_node_purge_peer :: "string \<Rightarrow> string \<times> addr \<Rightarrow> zyre_node \<Rightarrow> zyre_node outcome" where
  "zyre_node_purge_peer endpoint item = node_on_heap (on_peer (\<lambda>p.
     and_then (zyre_peer_endpoint p) (\<lambda>e.
       Inr (if streq e endpoint then zyre_peer_disconnect p else p))) (snd item))"

text \<open>\<open>zyre_peer_new\<close> with the node's table as its container.\<close>

definition zyre_peer_new :: "env \<Rightarrow> zuuid \<Rightarrow> zyre_node \<Rightarrow> (addr \<times> zyre_node) outcome" where
  "zyre_peer_new env uuid self =
     assert_that (zhash_lookup (n_peers self) (uu_str uuid) = None)
       (let a = n_next self
        in Inr (a, self\<lparr>n_next := Suc a, n_heap := put_peer a (zyre_peer_init uuid) (n_heap self),
             n_peers := zhash_insert (env_rank env) (uu_str uuid) a (n_peers self)\<rparr>))"

text \<open>\<open>zhash_delete\<close> on the table of peers destroys the peer object.\<close>

definition node_delete_peer :: "string \<Rightarrow> zyre_node \<Rightarrow> zyre_node" where
  "node_delete_peer key self = (case zhash_lookup (n_peers self) key of
     None \<Rightarrow> self
   | Some a \<Rightarrow> self\<lparr>n_heap := (n_heap self)(a := None), n_peers := zhash_delete key (n_peers self)\<rparr>)"

text \<open>The part of a string from its last such character.\<close>

definition c_strrchr :: "string \<Rightarrow> char \<Rightarrow> string option" where
  "c_strrchr s c = (if c \<in> set s then Some (c # rev (takeWhile (\<lambda>d. d \<noteq> c) (rev s))) else None)"

text \<open>A link-local endpoint without the name of the local interface.\<close>

definition strip_interface :: "string \<Rightarrow> string outcome" where
  "strip_interface endpoint =
     (if NI_MAXHOST \<le> length endpoint then Inl Buffer_overflow
      else and_then (not_null (c_strrchr endpoint (CHR '':''))) (\<lambda>port.
        let endpoint_iface = takeWhile (\<lambda>c. c \<noteq> CHR ''%'') endpoint @ port
        in if NI_MAXHOST \<le> length endpoint_iface then Inl Buffer_overflow else Inr endpoint_iface))"

definition hello_endpoint :: "env \<Rightarrow> zyre_node \<Rightarrow> string outcome" where
  "hello_endpoint env self =
     and_then (if env_ipv6 env then and_then (not_null (n_endpoint self)) (\<lambda>e. Inr (CHR ''%'' \<in> set e))
               else Inr False) (\<lambda>link_local.
       if link_local then and_then (not_null (n_endpoint self)) strip_interface
       else case n_advertised_endpoint self of
              Some a \<Rightarrow> Inr a
            | None \<Rightarrow> (case n_endpoint self of None \<Rightarrow> Inl Assertion_failed | Some e \<Rightarrow> Inr e))"

definition hello_message :: "env \<Rightarrow> zyre_node \<Rightarrow> zre_msg outcome" where
  "hello_message env self = and_then (hello_endpoint env self) (\<lambda>endpoint.
     let msg = zre_msg_set_id zre_msg_new ZRE_MSG_HELLO;
         msg = zre_msg_set_endpoint msg endpoint;
         msg = zre_msg_set_groups msg (Some (n_own_groups self));
         msg = zre_msg_set_status msg (n_status self);
         msg = zre_msg_set_name msg (n_name self);
         msg = zre_msg_set_headers msg (Some (zhash_arrange (env_rank env) (n_headers self)))
     in Inr msg)"

definition node_set_keys :: "addr \<Rightarrow> string option \<Rightarrow> zyre_node \<Rightarrow> zyre_node outcome" where
  "node_set_keys peer public_key self = (case (n_public_key self, n_secret_key self) of
     (Some public, Some secret) \<Rightarrow> (case public_key of
       None \<Rightarrow> Inl Assertion_failed
     | Some server \<Rightarrow> node_on_heap (alter_peer (\<lambda>p. zyre_peer_set_server_key
           (zyre_peer_set_secret_key (zyre_peer_set_public_key p public) secret) server) peer) self)
   | _ \<Rightarrow> Inr self)"

definition node_refresh :: "env \<Rightarrow> addr \<Rightarrow> zyre_node \<Rightarrow> zyre_node outcome" where
  "node_refresh env peer self =
     (case zclock_mono env self of (now1, self) \<Rightarrow> case zclock_mono env self of (now2, self) \<Rightarrow>
        node_on_heap (alter_peer (\<lambda>p. zyre_peer_refresh now1 now2 p (n_evasive_timeout self)
          (n_expired_timeout self)) peer) self)"

text \<open>\<open>zyre_peer_connect\<close> on the node's peer object.\<close>

definition node_connect :: "env \<Rightarrow> addr \<Rightarrow> string \<Rightarrow> zyre_node \<Rightarrow> (int \<times> zyre_node) outcome" where
  "node_connect env peer endpoint self = and_then (node_peer peer self) (\<lambda>p.
     and_then (zyre_peer_connect env p (n_uuid self) endpoint (n_expired_timeout self)) (\<lambda>(rc, p).
       Inr (rc, self\<lparr>n_heap := put_peer peer p (n_heap self)\<rparr>)))"

text \<open>
  The result is the peer, or nothing when the connection failed. A peer that is known already is
  returned as it is, whatever its state.
\<close>

definition zyre_node_require_peer :: "env \<Rightarrow> zyre_node \<Rightarrow> zuuid \<Rightarrow> string \<Rightarrow> string option
    \<Rightarrow> (addr option \<times> zyre_node) outcome" where
  "zyre_node_require_peer env self uuid endpoint public_key =
     (case zhash_lookup (n_peers self) (uu_str uuid) of
        Some peer \<Rightarrow> Inr (Some peer, self)
      | None \<Rightarrow>
          and_then (each (zyre_node_purge_peer endpoint) (n_peers self) self) (\<lambda>self.
          and_then (zyre_peer_new env uuid self) (\<lambda>(peer, self).
          and_then (node_set_keys peer public_key self) (\<lambda>self.
          and_then (node_on_heap (alter_peer (\<lambda>p. zyre_peer_set_verbose
              (zyre_peer_set_origin p (n_name self)) (n_verbose self)) peer) self) (\<lambda>self.
          and_then (node_connect env peer endpoint self) (\<lambda>(rc, self).
            if rc \<noteq> 0 then
              and_then (node_peer peer self) (\<lambda>p. Inr (None, node_delete_peer (zyre_peer_identity p) self))
            else
              and_then (hello_message env self) (\<lambda>msg.
              and_then (node_peer_send env peer msg self) (\<lambda>self.
              and_then (node_refresh env peer self) (\<lambda>self. Inr (Some peer, self))))))))))"

section \<open>Groups\<close>

definition zyre_node_require_peer_group :: "env \<Rightarrow> string \<Rightarrow> zyre_node \<Rightarrow> zyre_group \<times> zyre_node" where
  "zyre_node_require_peer_group env name self = (case zhash_lookup (n_peer_groups self) name of
     Some g \<Rightarrow> (g, self)
   | None \<Rightarrow> (zyre_group_new name, self\<lparr>n_peer_groups
         := zhash_insert (env_rank env) name (zyre_group_new name) (n_peer_groups self)\<rparr>))"

text \<open>The group object of that name is now \<open>g\<close>.\<close>

definition put_group :: "string \<Rightarrow> zyre_group \<Rightarrow> zyre_node \<Rightarrow> zyre_node" where
  "put_group name g self = self\<lparr>n_peer_groups := zhash_alter name g (n_peer_groups self)\<rparr>"

definition zyre_node_leader_peer_group :: "string \<Rightarrow> string \<Rightarrow> string \<Rightarrow> zyre_node \<Rightarrow> zyre_node" where
  "zyre_node_leader_peer_group identity name group_name self =
     outbox_send group_name (outbox_sendm name (outbox_sendm identity (outbox_sendm ''LEADER'' self)))"

text \<open>
  A fresh election in which this node challenges, in place of a running one; the same statements
  stand in the handlers of HELLO, JOIN and LEAVE and in the removal of a peer.
\<close>

definition start_election :: "env \<Rightarrow> zyre_group \<Rightarrow> string \<Rightarrow> zyre_node \<Rightarrow> zyre_node outcome" where
  "start_election env g name self =
     (let election = zyre_election_set_caw zyre_election_new (uu_str (n_uuid self));
          g = zyre_group_set_leader (zyre_group_set_election g (Some election)) None
      in and_then (zyre_election_build_elect_msg election) (\<lambda>msg.
           node_group_send env g (zre_msg_set_group msg name) (put_group name g self)))"

definition zyre_node_join_peer_group :: "env \<Rightarrow> addr \<Rightarrow> string \<Rightarrow> zyre_node
    \<Rightarrow> (zyre_group \<times> zyre_node) outcome" where
  "zyre_node_join_peer_group env peer name self =
     (case zyre_node_require_peer_group env name self of (g, self) \<Rightarrow>
      and_then (zyre_group_join env g peer (n_heap self)) (\<lambda>(g, heap).
      let self = put_group name g (self\<lparr>n_heap := heap\<rparr>)
      in and_then (node_peer peer self) (\<lambda>p.
         Inr (g, outbox_send name (outbox_sendm (zyre_peer_name p)
           (outbox_sendm (zyre_peer_identity p) (outbox_sendm ''JOIN'' self)))))))"

definition zyre_node_leave_peer_group :: "env \<Rightarrow> addr \<Rightarrow> string \<Rightarrow> zyre_node
    \<Rightarrow> (zyre_group \<times> zyre_node) outcome" where
  "zyre_node_leave_peer_group env peer name self =
     (case zyre_node_require_peer_group env name self of (g, self) \<Rightarrow>
      and_then (zyre_group_leave g peer (n_heap self)) (\<lambda>(g, heap).
      let self = put_group name g (self\<lparr>n_heap := heap\<rparr>)
      in and_then (node_peer peer self) (\<lambda>p.
         Inr (g, outbox_send name (outbox_sendm (zyre_peer_name p)
           (outbox_sendm (zyre_peer_identity p) (outbox_sendm ''LEAVE'' self)))))))"

section \<open>Removing a peer\<close>

definition zyre_node_delete_peer :: "addr \<Rightarrow> string \<times> zyre_group \<Rightarrow> zyre_node \<Rightarrow> zyre_node outcome" where
  "zyre_node_delete_peer peer item self =
     and_then (zyre_group_leave (snd item) peer (n_heap self)) (\<lambda>(g, heap).
       Inr (put_group (fst item) g (self\<lparr>n_heap := heap\<rparr>)))"

text \<open>Whether the leader of a group is the peer of that identity.\<close>

definition leader_is :: "string \<Rightarrow> zyre_group \<Rightarrow> zyre_node \<Rightarrow> bool outcome" where
  "leader_is identity g self = (case zyre_group_leader g of
     None \<Rightarrow> Inr False
   | Some l \<Rightarrow> and_then (node_peer l self) (\<lambda>p. Inr (streq (zyre_peer_identity p) identity)))"

text \<open>An announcement of this node as leader when it is alone, else a new election.\<close>

definition elect_again :: "env \<Rightarrow> nat \<Rightarrow> zyre_group \<Rightarrow> string \<Rightarrow> zyre_node \<Rightarrow> zyre_node outcome" where
  "elect_again env alone g name self =
     (let g = zyre_group_set_election g None
      in if length (zyre_group_peers g) = alone then
           Inr (zyre_node_leader_peer_group (uu_str (n_uuid self)) (n_name self) name
             (put_group name (zyre_group_set_leader g None) self))
         else start_election env g name self)"

text \<open>Restart the election in one of this node's groups when the peer that leaves led it.\<close>

definition remove_restart :: "env \<Rightarrow> string \<Rightarrow> string \<Rightarrow> zyre_node \<Rightarrow> zyre_node outcome" where
  "remove_restart env identity name self =
     (case zyre_node_require_peer_group env name self of (g, self) \<Rightarrow>
      if zyre_group_contest g then
        and_then (leader_is identity g self) (\<lambda>leader_left.
          if (case zyre_group_election g of
                Some e \<Rightarrow> \<not> zyre_election_lrec_complete e (zhash_size (g_peers g))
              | None \<Rightarrow> False) \<or> leader_left
          then elect_again env 1 g name self
          else Inr self)
      else Inr self)"

definition zyre_node_remove_peer :: "env \<Rightarrow> addr \<Rightarrow> zyre_node \<Rightarrow> zyre_node outcome" where
  "zyre_node_remove_peer env peer self = and_then (node_peer peer self) (\<lambda>p.
     let identity = zyre_peer_identity p;
         self = outbox_send (zyre_peer_name p) (outbox_sendm identity (outbox_sendm ''EXIT'' self))
     in and_then (if env_draft env \<and> n_gossip self \<noteq> None
                  then gossip_sendx [Some ''UNPUBLISH'', Some identity] self else Inr self) (\<lambda>self.
        and_then (each (remove_restart env identity) (n_own_groups self) self) (\<lambda>self.
        and_then (each (zyre_node_delete_peer peer) (n_peer_groups self) self) (\<lambda>self.
          Inr (node_delete_peer identity self)))))"

end
