(* ===== verification/Zyre_Node_Inv.thy ===== *)
theory Zyre_Node_Inv
  imports Zyre_Node_Peers
begin

text \<open>
  The invariant of the node's tables: which pointers are good. Every operation on peers and groups
  keeps it; a removed peer is in no group any more.
\<close>

section \<open>The invariant\<close>

text \<open>The members of a group are filed peers of the node, under the same identity.\<close>

definition group_ok :: "addr zhash \<Rightarrow> zyre_group \<Rightarrow> bool" where
  "group_ok peers g \<longleftrightarrow> wf_zhash (g_peers g) \<and> set (g_peers g) \<subseteq> set peers"

definition groups_ok :: "addr zhash \<Rightarrow> zyre_group zhash \<Rightarrow> bool" where
  "groups_ok peers groups \<longleftrightarrow> wf_zhash groups \<and> (\<forall>(name, g) \<in> set groups. group_ok peers g)"

text \<open>Every allocated peer object is in the table, and no other object is.\<close>

definition node_ok :: "zyre_node \<Rightarrow> bool" where
  "node_ok self \<longleftrightarrow> filed (n_heap self) (n_peers self) \<and> heap_ok (n_heap self)
     \<and> (\<forall>a. n_heap self a \<noteq> None \<longrightarrow> a < n_next self \<and> a \<in> snd ` set (n_peers self))
     \<and> groups_ok (n_peers self) (n_peer_groups self)"

lemma node_okD:
  assumes "node_ok self"
  shows "filed (n_heap self) (n_peers self)" "heap_ok (n_heap self)"
    "groups_ok (n_peers self) (n_peer_groups self)" "wf_zhash (n_peers self)"
  using assms by (auto simp: node_ok_def filed_def)

lemma node_ok_live: "node_ok self \<Longrightarrow> n_heap self a \<noteq> None \<Longrightarrow> a < n_next self \<and> a \<in> snd ` set (n_peers self)"
  by (simp add: node_ok_def)

lemma groups_okD: "groups_ok peers groups \<Longrightarrow> (name, g) \<in> set groups \<Longrightarrow> group_ok peers g"
  unfolding groups_ok_def by blast

lemma group_ok_new [simp]: "group_ok peers (zyre_group_new name)"
  by (simp add: group_ok_def zyre_group_new_def)

lemma group_ok_updates [simp]:
  "group_ok peers (g\<lparr>g_contest := b\<rparr>) = group_ok peers g"
  "group_ok peers (g\<lparr>g_leader := l\<rparr>) = group_ok peers g"
  "group_ok peers (g\<lparr>g_election := e\<rparr>) = group_ok peers g"
  "group_ok peers (zyre_group_set_leader g l) = group_ok peers g"
  "group_ok peers (zyre_group_set_election g e) = group_ok peers g"
  "group_ok peers (zyre_group_set_contest g) = group_ok peers g"
  by (simp_all add: group_ok_def zyre_simps)

lemma group_ok_filed: "filed heap peers \<Longrightarrow> group_ok peers g \<Longrightarrow> filed heap (g_peers g)"
  by (erule filed_subset) (simp_all add: group_ok_def)

lemma group_ok_lookup: "groups_ok peers groups \<Longrightarrow> zhash_lookup groups name = Some g \<Longrightarrow> group_ok peers g"
  by (meson groups_okD zhash_lookup_SomeD)

lemma groups_ok_alter: "groups_ok peers groups \<Longrightarrow> group_ok peers g \<Longrightarrow> groups_ok peers (zhash_alter name g groups)"
  by (auto simp: groups_ok_def dest!: set_zhash_alter)

lemma groups_ok_insert: "groups_ok peers groups \<Longrightarrow> group_ok peers g
    \<Longrightarrow> groups_ok peers (zhash_insert rank name g groups)"
  by (auto simp: groups_ok_def wf_zhash_insert set_zhash_insert split: if_splits)

text \<open>The object of a member is the one the table files under its identity.\<close>

lemma peer_lookup_iff: "node_ok self \<Longrightarrow> zhash_lookup (n_peers self) k = Some a \<longleftrightarrow> (k, a) \<in> set (n_peers self)"
  by (rule zhash_lookup_iff) (rule node_okD)

lemma filed_peer:
  assumes "node_ok self" and "(k, a) \<in> set (n_peers self)"
  obtains p where "n_heap self a = Some p" and "zyre_peer_identity p = k" and "peer_ok p"
  using filedD [OF node_okD(1) [OF assms(1)] assms(2)] heap_okD [OF node_okD(2) [OF assms(1)]]
  by (auto simp: zyre_simps)

lemma peer_identity_filed:
  assumes "node_ok self" and "n_heap self a = Some p"
  shows "(zyre_peer_identity p, a) \<in> set (n_peers self)"
proof -
  obtain k where "(k, a) \<in> set (n_peers self)"
    using node_ok_live [OF assms(1), of a] assms(2) by auto
  then show ?thesis using filed_peer [OF assms(1)] assms(2) by (metis option.inject)
qed

section \<open>Steady operations\<close>

text \<open>What no message handler changes of the node's own data.\<close>

definition config :: "zyre_node \<Rightarrow> _" where
  "config self = (n_uuid self, n_name self, n_endpoint self, n_advertised_endpoint self, n_status self,
     n_own_groups self, n_headers self, (n_public_key self, n_secret_key self), n_poller self,
     n_inbox self, n_pipe self, n_verbose self, (n_evasive_timeout self, n_expired_timeout self))"

text \<open>A steady operation keeps the table of peers and the identities of the objects.\<close>

definition steady :: "zyre_node \<Rightarrow> zyre_node \<Rightarrow> bool" where
  "steady self self' \<longleftrightarrow> config self' = config self \<and> n_peers self' = n_peers self
     \<and> same_objects (n_heap self) (n_heap self') \<and> (node_ok self \<longrightarrow> node_ok self')"

lemma steady_refl [simp]: "steady self self"
  by (simp add: steady_def)

lemma steady_trans [trans]: "steady a b \<Longrightarrow> steady b c \<Longrightarrow> steady a c"
  by (auto simp: steady_def intro: same_objects_trans)

lemma steadyD:
  assumes "steady self self'"
  shows "n_peers self' = n_peers self" "config self' = config self" "node_ok self \<Longrightarrow> node_ok self'"
  using assms by (simp_all add: steady_def)

lemma steady_bind:
  assumes "ensures m (steady self)" and "\<And>self'. steady self self' \<Longrightarrow> ensures (f self') (steady self')"
  shows "ensures (and_then m f) (steady self)"
  using assms by (auto simp: ensures_def intro: steady_trans)

lemma steady_each:
  assumes "\<And>x self. x \<in> set xs \<Longrightarrow> ensures (f x self) (steady self)"
  shows "ensures (each f xs self) (steady self)"
  by (rule ensures_each) (auto intro: ensures_weaken [OF assms] steady_trans)

lemma steady_outbox [simp]:
  "steady self (outbox_send s self)" "steady self (outbox_sendm s self)"
  "steady self (outbox_frame d self)" "steady self (outbox_msg c self)"
  by (simp_all add: steady_def config_def node_ok_def outbox_send_def outbox_sendm_def outbox_frame_def
      outbox_msg_def split: option.split)

lemma steady_clock [simp]: "steady self (snd (zclock_mono env self))"
  by (simp add: steady_def config_def node_ok_def zclock_mono_def)

lemma steady_gossip: "ensures (gossip_sendx strs self) (steady self)"
  by (cases "n_gossip self") (simp_all add: gossip_sendx_def steady_def config_def node_ok_def)

lemma steady_heap:
  assumes "same_objects (n_heap self) heap"
  shows "steady self (self\<lparr>n_heap := heap\<rparr>)"
  using assms filed_same_objects [OF _ assms] same_objects_live [OF assms]
  by (auto simp: steady_def config_def node_ok_def same_objects_def)

lemma steady_on_heap:
  assumes "ensures (f (n_heap self)) (same_objects (n_heap self))"
  shows "ensures (node_on_heap f self) (steady self)"
  using assms by (auto simp: node_on_heap_def ensures_def intro: steady_heap)

lemma steady_group:
  assumes "node_ok self \<Longrightarrow> group_ok (n_peers self) g"
  shows "steady self (put_group name g self)"
  using assms by (auto simp: steady_def config_def node_ok_def put_group_def groups_ok_alter)

lemma steady_peer_send: "ensures (node_peer_send env a m self) (steady self)"
  unfolding node_peer_send_def by (rule steady_on_heap) (rule heap_peer_send_keeps)

lemma steady_group_send: "ensures (node_group_send env g m self) (steady self)"
  unfolding node_group_send_def by (rule steady_on_heap) (rule zyre_group_send_keeps)

lemma steady_send_peer: "ensures (zyre_node_send_peer env m item self) (steady self)"
  unfolding zyre_node_send_peer_def by (rule steady_peer_send)

lemma steady_alter:
  assumes "\<And>p. p_uuid (f p) = p_uuid p" and "\<And>p. peer_ok p \<Longrightarrow> peer_ok (f p)"
  shows "ensures (node_on_heap (alter_peer f a) self) (steady self)"
  using assms by (intro steady_on_heap alter_peer_keeps)

lemma steady_refresh: "ensures (node_refresh env a self) (steady self)"
proof -
  let ?self = "self\<lparr>n_ticks := Suc (Suc (n_ticks self))\<rparr>"
  let ?f = "\<lambda>p. zyre_peer_refresh (env_clock env (n_ticks self)) (env_clock env (Suc (n_ticks self))) p
    (n_evasive_timeout self) (n_expired_timeout self)"
  have eq: "node_refresh env a self = node_on_heap (alter_peer ?f a) ?self"
    by (simp add: node_refresh_def zclock_mono_def)
  have "steady self ?self" by (simp add: steady_def config_def node_ok_def)
  moreover have "ensures (node_on_heap (alter_peer ?f a) ?self) (steady ?self)"
    by (rule steady_alter) simp_all
  ultimately show ?thesis unfolding eq by (auto simp: ensures_def intro: steady_trans)
qed

lemma require_group_listed:
  assumes "zyre_node_require_peer_group env name self = (g, self')"
  shows "(name, g) \<in> set (n_peer_groups self')"
  using assms by (auto simp: zyre_node_require_peer_group_def set_zhash_insert
      split: option.splits dest: zhash_lookup_SomeD)

lemma steady_require_group:
  assumes "zyre_node_require_peer_group env name self = (g, self')"
  shows "steady self self'" "node_ok self' \<Longrightarrow> group_ok (n_peers self') g"
proof -
  show "steady self self'" using assms
    by (auto simp: zyre_node_require_peer_group_def steady_def config_def node_ok_def groups_ok_insert
        split: option.splits)
  show "group_ok (n_peers self') g" if "node_ok self'"
    by (rule groups_okD [OF node_okD(3) [OF that] require_group_listed [OF assms]])
qed

section \<open>Membership\<close>

text \<open>Joining and leaving keep a group a group of filed peers.\<close>

lemma group_join_ok:
  assumes "zyre_group_join env g peer heap = Inr (g', heap')" and "group_ok peers g"
    and "\<And>p. heap peer = Some p \<Longrightarrow> (zyre_peer_identity p, peer) \<in> set peers"
  shows "group_ok peers g'"
  using assms by (auto simp: zyre_group_join_def Let_def group_ok_def wf_zhash_insert set_zhash_insert
      split: if_splits)

lemma group_leave_ok:
  assumes "zyre_group_leave g peer heap = Inr (g', heap')" and "group_ok peers g"
  shows "group_ok peers g'"
  using assms by (auto simp: zyre_group_leave_def Let_def group_ok_def wf_zhash_delete)

lemma steady_membership:
  assumes "same_objects (n_heap self) heap" and "node_ok self \<Longrightarrow> group_ok (n_peers self) g"
  shows "steady self (put_group name g (self\<lparr>n_heap := heap\<rparr>))"
    "node_ok self \<Longrightarrow> group_ok (n_peers (put_group name g (self\<lparr>n_heap := heap\<rparr>))) g"
proof -
  have "steady self (self\<lparr>n_heap := heap\<rparr>)" using assms(1) by (rule steady_heap)
  moreover have "steady (self\<lparr>n_heap := heap\<rparr>) (put_group name g (self\<lparr>n_heap := heap\<rparr>))"
    if "node_ok self" using assms(2) that by (intro steady_group) simp
  moreover have "steady self (put_group name g (self\<lparr>n_heap := heap\<rparr>))" if "\<not> node_ok self"
    using that assms(1) by (simp add: steady_def config_def put_group_def)
  ultimately show "steady self (put_group name g (self\<lparr>n_heap := heap\<rparr>))"
    using steady_trans by blast
  show "group_ok (n_peers (put_group name g (self\<lparr>n_heap := heap\<rparr>))) g" if "node_ok self"
    using assms(2) [OF that] by (simp add: put_group_def)
qed

lemma steady_outbox_trans [intro]:
  "steady a b \<Longrightarrow> steady a (outbox_send s b)" "steady a b \<Longrightarrow> steady a (outbox_sendm s b)"
  "steady a b \<Longrightarrow> steady a (outbox_frame d b)" "steady a b \<Longrightarrow> steady a (outbox_msg c b)"
  by (metis steady_outbox steady_trans)+

lemma outbox_sel [simp]:
  "n_peers (outbox_send s self) = n_peers self" "n_peers (outbox_sendm s self) = n_peers self"
  "n_peers (outbox_frame d self) = n_peers self" "n_peers (outbox_msg c self) = n_peers self"
  "n_heap (outbox_send s self) = n_heap self" "n_heap (outbox_sendm s self) = n_heap self"
  "n_heap (outbox_frame d self) = n_heap self" "n_heap (outbox_msg c self) = n_heap self"
  "n_peer_groups (outbox_send s self) = n_peer_groups self"
  "n_peer_groups (outbox_sendm s self) = n_peer_groups self"
  "n_peer_groups (outbox_frame d self) = n_peer_groups self"
  "n_peer_groups (outbox_msg c self) = n_peer_groups self"
  "config (outbox_send s self) = config self" "config (outbox_sendm s self) = config self"
  "n_gossip (outbox_send s self) = n_gossip self" "n_gossip (outbox_sendm s self) = n_gossip self"
  "n_own_groups (outbox_send s self) = n_own_groups self"
  "n_own_groups (outbox_sendm s self) = n_own_groups self"
  by (simp_all add: outbox_send_def outbox_sendm_def outbox_frame_def outbox_msg_def config_def
      split: option.split)

lemma node_ok_outbox [simp]:
  "node_ok (outbox_send s self) = node_ok self" "node_ok (outbox_sendm s self) = node_ok self"
  "node_ok (outbox_frame d self) = node_ok self" "node_ok (outbox_msg c self) = node_ok self"
  by (simp_all add: node_ok_def outbox_send_def outbox_sendm_def outbox_frame_def outbox_msg_def
      split: option.split)

lemma steady_join: "ensures (zyre_node_join_peer_group env peer name self)
    (\<lambda>(g, self'). steady self self' \<and> (node_ok self \<longrightarrow> group_ok (n_peers self') g))"
proof -
  obtain g s where gs: "zyre_node_require_peer_group env name self = (g, s)" by (rule prod.exhaust)
  note r = steady_require_group [OF gs]
  have "steady self s' \<and> (node_ok self \<longrightarrow> group_ok (n_peers s') g')"
    if j: "zyre_group_join env g peer (n_heap s) = Inr (g', heap)"
      and s': "s' = put_group name g' (s\<lparr>n_heap := heap\<rparr>)" for g' heap s'
  proof -
    have same: "same_objects (n_heap s) heap"
      using ensuresD [OF zyre_group_join_keeps j] by simp
    have ok: "group_ok (n_peers s) g'" if n: "node_ok s"
      by (rule group_join_ok [OF j r(2) [OF n]]) (rule peer_identity_filed [OF n])
    have "steady self s'" using steady_membership(1) [OF same ok] r(1) unfolding s' by (rule steady_trans [rotated])
    moreover have "group_ok (n_peers s') g'" if "node_ok self"
      using ok steadyD(3) [OF r(1) that] s' by (simp add: put_group_def)
    ultimately show ?thesis by blast
  qed
  then show ?thesis
    by (auto simp: zyre_node_join_peer_group_def gs ensures_def Let_def intro!: steady_outbox_trans)
qed

lemma steady_leave: "ensures (zyre_node_leave_peer_group env peer name self)
    (\<lambda>(g, self'). steady self self' \<and> (node_ok self \<longrightarrow> group_ok (n_peers self') g))"
proof -
  obtain g s where gs: "zyre_node_require_peer_group env name self = (g, s)" by (rule prod.exhaust)
  note r = steady_require_group [OF gs]
  have "steady self s' \<and> (node_ok self \<longrightarrow> group_ok (n_peers s') g')"
    if j: "zyre_group_leave g peer (n_heap s) = Inr (g', heap)"
      and s': "s' = put_group name g' (s\<lparr>n_heap := heap\<rparr>)" for g' heap s'
  proof -
    have same: "same_objects (n_heap s) heap"
      using ensuresD [OF zyre_group_leave_keeps j] by simp
    have ok: "group_ok (n_peers s) g'" if n: "node_ok s"
      by (rule group_leave_ok [OF j r(2) [OF n]])
    have "steady self s'" using steady_membership(1) [OF same ok] r(1) unfolding s' by (rule steady_trans [rotated])
    moreover have "group_ok (n_peers s') g'" if "node_ok self"
      using ok steadyD(3) [OF r(1) that] s' by (simp add: put_group_def)
    ultimately show ?thesis by blast
  qed
  then show ?thesis
    by (auto simp: zyre_node_leave_peer_group_def gs ensures_def Let_def intro!: steady_outbox_trans)
qed

lemma build_elect_msg_set [simp]:
  "zyre_election_build_elect_msg (zyre_election_set_caw e c)
     = Inr (zre_msg_set_challenger_id (zre_msg_set_id zre_msg_new ZRE_MSG_ELECT) c)"
  by (simp add: zyre_election_build_elect_msg_def zyre_election_set_caw_def)

lemma steady_put_then:
  assumes "node_ok self \<Longrightarrow> group_ok (n_peers self) g" and "\<And>s. ensures (f s) (steady s)"
  shows "ensures (f (put_group name g self)) (steady self)"
  by (rule ensures_weaken [OF assms(2)]) (rule steady_trans [OF steady_group [OF assms(1)]])

lemma steady_start_election:
  assumes "node_ok self \<Longrightarrow> group_ok (n_peers self) g"
  shows "ensures (start_election env g name self) (steady self)"
proof -
  have "ensures (node_group_send env g' m (put_group name g' self)) (steady self)"
    if "node_ok self \<Longrightarrow> group_ok (n_peers self) g'" for g' m
    using that steady_group_send by (rule steady_put_then [where f = "node_group_send env g' m"])
  then show ?thesis using assms by (simp add: start_election_def Let_def)
qed

lemma steady_elect_again:
  assumes "node_ok self \<Longrightarrow> group_ok (n_peers self) g"
  shows "ensures (elect_again env alone g name self) (steady self)"
  using assms by (auto simp: elect_again_def Let_def zyre_node_leader_peer_group_def
      intro!: steady_start_election steady_outbox_trans steady_group)

lemma steady_remove_restart: "ensures (remove_restart env identity name self) (steady self)"
proof -
  obtain g s where gs: "zyre_node_require_peer_group env name self = (g, s)" by (rule prod.exhaust)
  note r = steady_require_group [OF gs]
  have "ensures (elect_again env 1 g name s) (steady self)"
    using steady_elect_again [OF r(2)] r(1) by (auto simp: ensures_def intro: steady_trans)
  then show ?thesis using r(1)
    by (auto simp: remove_restart_def gs ensures_def)
qed

section \<open>Removing a peer\<close>

text \<open>No group lists the identity.\<close>

definition unlisted :: "string \<Rightarrow> zyre_group zhash \<Rightarrow> bool" where
  "unlisted k groups \<longleftrightarrow> (\<forall>(name, g) \<in> set groups. k \<notin> fst ` set (g_peers g))"

lemma node_ok_delete_peer:
  assumes "node_ok self" and "unlisted k (n_peer_groups self)"
  shows "node_ok (node_delete_peer k self)"
proof (cases "zhash_lookup (n_peers self) k")
  case None
  then show ?thesis using assms(1) by (simp add: node_delete_peer_def)
next
  case (Some a)
  let ?peers = "zhash_delete k (n_peers self)"
  let ?heap = "(n_heap self)(a := None)"
  have ka: "(k, a) \<in> set (n_peers self)" using Some by (rule zhash_lookup_SomeD)
  note filed = node_okD(1) [OF assms(1)]
  have other: "b \<noteq> a" if "(j, b) \<in> set (n_peers self)" "j \<noteq> k" for j b
    using filed_addr_unique [OF filed ka] that by blast
  have "filed ?heap ?peers"
    unfolding filed_def using filed_wf [OF filed] filedD [OF filed] other by (auto simp: wf_zhash_delete)
  moreover have "heap_ok ?heap"
    using node_okD(2) [OF assms(1)] by (auto simp: heap_ok_def)
  moreover have "b < n_next self \<and> b \<in> snd ` set ?peers" if b: "?heap b \<noteq> None" for b
  proof -
    have ba: "b \<noteq> a" "n_heap self b \<noteq> None" using b by (auto split: if_splits)
    then obtain j where "(j, b) \<in> set (n_peers self)" "b < n_next self"
      using node_ok_live [OF assms(1)] by fastforce
    moreover have "j \<noteq> k"
      using ba(1) calculation(1) ka filed_wf [OF filed] zhash_lookup_iff by (metis option.inject)
    ultimately show ?thesis by force
  qed
  moreover have "groups_ok ?peers (n_peer_groups self)"
    using node_okD(3) [OF assms(1)] assms(2)
    by (fastforce simp: groups_ok_def group_ok_def unlisted_def)
  ultimately show ?thesis using Some by (simp add: node_delete_peer_def node_ok_def)
qed

lemma steady_peer:
  assumes "steady self s" and "n_heap self a = Some p"
  obtains p' where "n_heap s a = Some p'" and "zyre_peer_identity p' = zyre_peer_identity p"
proof -
  have "map_option p_uuid (n_heap s a) = Some (p_uuid p)"
    using same_objects_uuid [of "n_heap self" "n_heap s" a] assms by (simp add: steady_def)
  then show thesis by (auto simp: zyre_simps intro: that)
qed

lemma delete_peer_step:
  assumes "node_ok self" and "group_ok (n_peers self) g" and "n_heap self peer = Some p"
  shows "ensures (zyre_node_delete_peer peer (name, g) self) (\<lambda>s. steady self s
    \<and> (\<exists>g'. n_peer_groups s = zhash_alter name g' (n_peer_groups self)
        \<and> zyre_peer_identity p \<notin> fst ` set (g_peers g')))"
proof -
  let ?g = "g\<lparr>g_peers := zhash_delete (zyre_peer_identity p) (g_peers g)\<rparr>"
  let ?heap = "put_peer peer (zyre_peer_set_status p (p_status p + 1)) (n_heap self)"
  have leave: "zyre_group_leave g peer (n_heap self) = Inr (?g, ?heap)"
    using assms(3) by (simp add: zyre_group_leave_def Let_def)
  have "same_objects (n_heap self) ?heap" using ensuresD [OF zyre_group_leave_keeps leave] by simp
  then have "steady self (put_group name ?g (self\<lparr>n_heap := ?heap\<rparr>))"
    by (rule steady_membership) (rule group_leave_ok [OF leave assms(2)])
  then show ?thesis
    by (auto simp: zyre_node_delete_peer_def leave put_group_def)
qed

text \<open>Leaving all the groups unlists the identity, and changes only the groups walked over.\<close>

lemma delete_peers:
  assumes "node_ok self" and "\<forall>(name, g) \<in> set items. group_ok (n_peers self) g"
    and "n_heap self peer = Some p"
  shows "ensures (each (zyre_node_delete_peer peer) items self) (\<lambda>s. steady self s
    \<and> (\<forall>(name, g) \<in> set (n_peer_groups s). zyre_peer_identity p \<in> fst ` set (g_peers g)
        \<longrightarrow> name \<notin> fst ` set items \<and> (name, g) \<in> set (n_peer_groups self)))"
  using assms
proof (induction items arbitrary: self p)
  case (Cons item items)
  obtain name g where item: "item = (name, g)" by (rule prod.exhaust)
  let ?id = "zyre_peer_identity p"
  have "ensures (zyre_node_delete_peer peer item self) (\<lambda>s. steady self s
    \<and> (\<exists>g'. n_peer_groups s = zhash_alter name g' (n_peer_groups self) \<and> ?id \<notin> fst ` set (g_peers g')))"
    unfolding item by (rule delete_peer_step) (use Cons.prems item in auto)
  then show ?case unfolding each.simps
  proof (rule ensures_and_then, elim conjE exE)
    fix s g' assume s: "steady self s" "n_peer_groups s = zhash_alter name g' (n_peer_groups self)"
      "?id \<notin> fst ` set (g_peers g')"
    obtain p' where p': "n_heap s peer = Some p'" "zyre_peer_identity p' = ?id"
      using steady_peer [OF s(1) Cons.prems(3)] .
    have "ensures (each (zyre_node_delete_peer peer) items s) (\<lambda>t. steady s t
      \<and> (\<forall>(m, h) \<in> set (n_peer_groups t). ?id \<in> fst ` set (g_peers h)
          \<longrightarrow> m \<notin> fst ` set items \<and> (m, h) \<in> set (n_peer_groups s)))"
      using Cons.IH [of s p'] Cons.prems(1,2) steadyD [OF s(1)] p' by auto
    then show "ensures (each (zyre_node_delete_peer peer) items s) (\<lambda>t. steady self t
      \<and> (\<forall>(m, h) \<in> set (n_peer_groups t). ?id \<in> fst ` set (g_peers h)
          \<longrightarrow> m \<notin> fst ` set (item # items) \<and> (m, h) \<in> set (n_peer_groups self)))"
    proof (rule ensures_weaken, elim conjE)
      fix t assume t: "steady s t" "\<forall>(m, h) \<in> set (n_peer_groups t). ?id \<in> fst ` set (g_peers h)
          \<longrightarrow> m \<notin> fst ` set items \<and> (m, h) \<in> set (n_peer_groups s)"
      have "m \<notin> fst ` set (item # items) \<and> (m, h) \<in> set (n_peer_groups self)"
        if m: "(m, h) \<in> set (n_peer_groups t)" "?id \<in> fst ` set (g_peers h)" for m h
      proof -
        have "m \<notin> fst ` set items" "(m, h) \<in> set (zhash_alter name g' (n_peer_groups self))"
          using t(2) m s(2) by auto
        then show ?thesis using s(3) m(2) set_zhash_alter [of "(m, h)" name g'] item by auto
      qed
      then show "steady self t \<and> (\<forall>(m, h) \<in> set (n_peer_groups t). ?id \<in> fst ` set (g_peers h)
          \<longrightarrow> m \<notin> fst ` set (item # items) \<and> (m, h) \<in> set (n_peer_groups self))"
        using steady_trans [OF s(1) t(1)] by blast
    qed
  qed
qed auto

definition removed :: "addr \<Rightarrow> zyre_node \<Rightarrow> zyre_node \<Rightarrow> bool" where
  "removed peer self s \<longleftrightarrow> node_ok s \<and> config s = config self \<and> n_heap s peer = None
     \<and> (\<exists>p. n_heap self peer = Some p \<and> n_peers s = zhash_delete (zyre_peer_identity p) (n_peers self)
          \<and> unlisted (zyre_peer_identity p) (n_peer_groups s))"

lemma remove_peer_keeps:
  assumes "node_ok self"
  shows "ensures (zyre_node_remove_peer env peer self) (removed peer self)"
proof -
  have fin: "ensures (each (zyre_node_delete_peer peer) (n_peer_groups s) s)
      (\<lambda>t. removed peer self (node_delete_peer (zyre_peer_identity p) t))"
    if s: "steady self s" and p: "n_heap self peer = Some p" for s p
  proof -
    obtain p' where p': "n_heap s peer = Some p'" "zyre_peer_identity p' = zyre_peer_identity p"
      using steady_peer [OF s p] .
    have ok: "node_ok s" using steadyD(3) [OF s assms] .
    have "\<forall>(name, g) \<in> set (n_peer_groups s). group_ok (n_peers s) g"
      using groups_okD [OF node_okD(3) [OF ok]] by blast
    from delete_peers [OF ok this p'(1)] show ?thesis
    proof (rule ensures_weaken, elim conjE)
      fix t assume t: "steady s t" and un: "\<forall>(name, g) \<in> set (n_peer_groups t).
        zyre_peer_identity p' \<in> fst ` set (g_peers g) \<longrightarrow>
          name \<notin> fst ` set (n_peer_groups s) \<and> (name, g) \<in> set (n_peer_groups s)"
      have unl: "unlisted (zyre_peer_identity p) (n_peer_groups t)"
        using un unfolding p'(2) unlisted_def by force
      have tok: "node_ok t" using steadyD(3) [OF t ok] .
      have look: "zhash_lookup (n_peers t) (zyre_peer_identity p) = Some peer"
        using peer_identity_filed [OF assms p] peer_lookup_iff [OF tok] steadyD(1) [OF t] steadyD(1) [OF s]
        by simp
      have "config (node_delete_peer (zyre_peer_identity p) t) = config t"
        by (simp add: node_delete_peer_def look config_def)
      then show "removed peer self (node_delete_peer (zyre_peer_identity p) t)"
        using node_ok_delete_peer [OF tok unl] unl p look steadyD(1,2) [OF t] steadyD(1,2) [OF s]
        by (simp add: removed_def node_delete_peer_def)
    qed
  qed
  have restart: "ensures (each (remove_restart env i) gs s) (steady s)" for i gs s
    by (rule steady_each) (rule steady_remove_restart)
  have un: "ensures (if b then gossip_sendx c s else Inr s) (steady s)" for b c s
    by (simp add: steady_gossip)
  show ?thesis
    unfolding zyre_node_remove_peer_def node_peer_def Let_def
  proof (rule ensures_and_then [where P = "\<lambda>p. n_heap self peer = Some p"])
    show "ensures (deref peer (n_heap self)) (\<lambda>p. n_heap self peer = Some p)"
      by (simp add: ensures_def)
    fix p assume p: "n_heap self peer = Some p"
    let ?s = "outbox_send (zyre_peer_name p) (outbox_sendm (zyre_peer_identity p) (outbox_sendm ''EXIT'' self))"
    have "steady self ?s" by (intro steady_outbox_trans) simp
    then show "ensures (and_then (if env_draft env \<and> n_gossip ?s \<noteq> None
         then gossip_sendx [Some ''UNPUBLISH'', Some (zyre_peer_identity p)] ?s else Inr ?s)
       (\<lambda>self. and_then (each (remove_restart env (zyre_peer_identity p)) (n_own_groups self) self)
       (\<lambda>self. and_then (each (zyre_node_delete_peer peer) (n_peer_groups self) self)
       (\<lambda>self. Inr (node_delete_peer (zyre_peer_identity p) self))))) (removed peer self)"
      by (intro ensures_and_then [OF un] ensures_and_then [OF restart] ensures_and_then [OF fin [OF _ p]])
        (auto intro: steady_trans)
  qed
qed

section \<open>Making a peer\<close>

lemma steady_purge: "ensures (zyre_node_purge_peer endpoint item self) (steady self)"
  unfolding zyre_node_purge_peer_def
  by (rule steady_on_heap) (rule on_peer_keeps, auto simp: ensures_def)

lemma steady_set_keys: "ensures (node_set_keys peer key self) (steady self)"
  by (auto simp: node_set_keys_def zyre_simps split: option.split intro!: steady_alter)

lemma steady_connect: "ensures (node_connect env peer endpoint self) (\<lambda>(rc, s). steady self s
    \<and> (rc = 0 \<or> (\<exists>p. n_heap s peer = Some p \<and> \<not> p_connected p)))"
proof -
  have "steady self (self\<lparr>n_heap := put_peer peer p' (n_heap self)\<rparr>) \<and> (rc = 0 \<or> \<not> p_connected p')"
    if p: "n_heap self peer = Some p" and c: "zyre_peer_connect env p u endpoint t = Inr (rc, p')"
    for p u t rc p'
  proof -
    have eq: "\<not> p_connected p \<and> ((rc = -1 \<and> p' = p\<lparr>p_mailbox := None\<rparr>)
     \<or> (rc = 0 \<and> p' = p\<lparr>p_mailbox := Some (connected_mailbox env p u endpoint t),
           p_endpoint := Some (connect_endpoint env endpoint),
           p_connected := True, p_ready := False\<rparr>))"
      using c by (rule zyre_peer_connect_eq)
    then have "p_uuid p' = p_uuid p" and "peer_ok p \<Longrightarrow> peer_ok p'" by (auto simp: peer_ok_def)
    then show ?thesis using eq by (auto intro!: steady_heap same_objects_put [where p = p] p)
  qed
  then show ?thesis
    by (auto simp: node_connect_def node_peer_def ensures_def put_peer_def) blast+
qed

lemma node_on_heap_groups: "ensures (node_on_heap f self) (\<lambda>s. n_peer_groups s = n_peer_groups self)"
  by (auto simp: node_on_heap_def ensures_def)

text \<open>A new peer is filed, and no group lists it yet.\<close>

lemma peer_new_ok:
  assumes "node_ok self"
  shows "ensures (zyre_peer_new env uuid self) (\<lambda>(a, s). node_ok s \<and> config s = config self
    \<and> (uu_str uuid, a) \<in> set (n_peers s) \<and> unlisted (uu_str uuid) (n_peer_groups s)
    \<and> n_heap s a = Some (zyre_peer_init uuid))"
proof -
  let ?k = "uu_str uuid" and ?a = "n_next self"
  let ?peers = "zhash_insert (env_rank env) ?k ?a (n_peers self)"
  let ?heap = "put_peer ?a (zyre_peer_init uuid) (n_heap self)"
  have fresh: "n_heap self ?a = None" using node_ok_live [OF assms, of ?a] by (cases "n_heap self ?a") simp_all
  note filed = node_okD(1) [OF assms]
  have main: "node_ok (self\<lparr>n_next := Suc ?a, n_heap := ?heap, n_peers := ?peers\<rparr>)
      \<and> (?k, ?a) \<in> set ?peers \<and> unlisted ?k (n_peer_groups self)"
    if new: "zhash_lookup (n_peers self) ?k = None"
  proof -
    have set: "set ?peers = insert (?k, ?a) (set (n_peers self))"
      using new by (simp add: set_zhash_insert)
    have "filed ?heap (n_peers self)"
      using filed fresh by (fastforce simp: filed_def put_peer_def)
    then have f: "filed ?heap ?peers" by (rule filed_insert [where p = "zyre_peer_init uuid"]) (simp_all add: put_peer_def)
    have h: "heap_ok ?heap" using node_okD(2) [OF assms] by (simp add: heap_ok_def put_peer_def)
    have l: "b < Suc ?a \<and> b \<in> snd ` set ?peers" if "?heap b \<noteq> None" for b
      using that node_ok_live [OF assms, of b] unfolding set by (cases "b = ?a") (auto simp: put_peer_def)
    have g: "groups_ok ?peers (n_peer_groups self)"
      using node_okD(3) [OF assms] unfolding groups_ok_def group_ok_def set by blast
    have "?k \<notin> fst ` set (g_peers h)" if "(n, h) \<in> set (n_peer_groups self)" for n h
      using groups_okD [OF node_okD(3) [OF assms] that] new by (auto simp: group_ok_def zhash_lookup_None)
    then show ?thesis using f h l g set by (auto simp: node_ok_def unlisted_def)
  qed
  then show ?thesis
    by (auto simp: zyre_peer_new_def ensures_def config_def put_peer_def Let_def)
qed

definition quiet :: "zyre_node \<Rightarrow> zyre_node \<Rightarrow> bool" where
  "quiet self s \<longleftrightarrow> steady self s \<and> n_peer_groups s = n_peer_groups self"

lemma quiet_trans: "quiet a b \<Longrightarrow> quiet b c \<Longrightarrow> quiet a c"
  by (auto simp: quiet_def intro: steady_trans)

lemma quiet_set_keys: "ensures (node_set_keys peer key self) (quiet self)"
  using steady_set_keys [of peer key self] node_on_heap_groups
  by (fastforce simp: quiet_def ensures_def node_set_keys_def split: option.splits)

lemma quiet_alter:
  assumes "\<And>p. p_uuid (f p) = p_uuid p" and "\<And>p. peer_ok p \<Longrightarrow> peer_ok (f p)"
  shows "ensures (node_on_heap (alter_peer f a) self) (quiet self)"
  using steady_alter [of f a self, OF assms] node_on_heap_groups
  by (fastforce simp: quiet_def ensures_def)

lemma quiet_connect: "ensures (node_connect env peer endpoint self) (\<lambda>(rc, s). quiet self s)"
proof -
  have "ensures (node_connect env peer endpoint self) (\<lambda>(rc, s). n_peer_groups s = n_peer_groups self)"
    by (auto simp: node_connect_def ensures_def)
  then show ?thesis using steady_connect [of env peer endpoint self]
    by (auto simp: quiet_def ensures_def)
qed

text \<open>What a call makes of the tables, whether it finds, makes or drops the peer.\<close>

definition required :: "string \<Rightarrow> zyre_node \<Rightarrow> addr option \<Rightarrow> zyre_node \<Rightarrow> bool" where
  "required k self r s \<longleftrightarrow> node_ok s \<and> config s = config self
     \<and> (\<forall>a. r = Some a \<longrightarrow> zhash_lookup (n_peers s) k = Some a)
     \<and> (r = None \<longrightarrow> zhash_lookup (n_peers s) k = None)"

lemma require_peer_keeps:
  assumes "node_ok self"
  shows "ensures (zyre_node_require_peer env self uuid endpoint key) (\<lambda>(r, s). required (uu_str uuid) self r s)"
proof (cases "zhash_lookup (n_peers self) (uu_str uuid)")
  case (Some a)
  then show ?thesis using assms by (simp add: zyre_node_require_peer_def required_def)
next
  case None
  let ?k = "uu_str uuid"
  let ?Q = "\<lambda>(r, s). required ?k self r s"
  have fin: "ensures (and_then (node_connect env peer endpoint s) (\<lambda>(rc, s).
            if rc \<noteq> 0 then
              and_then (node_peer peer s) (\<lambda>p. Inr (None, node_delete_peer (zyre_peer_identity p) s))
            else
              and_then (hello_message env s) (\<lambda>msg.
              and_then (node_peer_send env peer msg s) (\<lambda>s.
              and_then (node_refresh env peer s) (\<lambda>s. Inr (Some peer, s)))))) ?Q"
    if s: "node_ok s" "config s = config self" "(?k, peer) \<in> set (n_peers s)" "unlisted ?k (n_peer_groups s)" for s peer
  proof (rule ensures_and_then [OF quiet_connect], clarify)
    fix rc t assume q: "quiet s t"
    then have t: "steady s t" "n_peer_groups t = n_peer_groups s" by (simp_all add: quiet_def)
    have tok: "node_ok t" using steadyD(3) [OF t(1) s(1)] .
    have kt: "(?k, peer) \<in> set (n_peers t)" using s(3) steadyD(1) [OF t(1)] by simp
    have ct: "config t = config self" using s(2) steadyD(2) [OF t(1)] by simp
    have del: "required ?k self None (node_delete_peer (zyre_peer_identity p) t)"
      if p: "n_heap t peer = Some p" for p
    proof -
      have id: "zyre_peer_identity p = ?k" using filed_peer [OF tok kt] p by (metis option.inject)
      have look: "zhash_lookup (n_peers t) ?k = Some peer" using kt peer_lookup_iff [OF tok] by simp
      have "node_ok (node_delete_peer ?k t)"
        by (rule node_ok_delete_peer [OF tok]) (use s(4) t(2) in simp)
      then show ?thesis using ct look id
        by (simp add: required_def node_delete_peer_def zhash_lookup_delete config_def)
    qed
    have keep: "required ?k self (Some peer) u" if "steady t u" for u
      using steadyD [OF that] tok ct kt peer_lookup_iff [of u] by (auto simp: required_def)
    have send: "ensures (and_then (node_peer_send env peer m t) (\<lambda>s. and_then (node_refresh env peer s) (\<lambda>s. Inr (Some peer, s)))) ?Q" for m
      by (intro ensures_and_then [OF steady_peer_send] ensures_and_then [OF steady_refresh])
        (auto intro!: keep intro: steady_trans)
    show "ensures (if rc \<noteq> 0 then
              and_then (node_peer peer t) (\<lambda>p. Inr (None, node_delete_peer (zyre_peer_identity p) t))
            else
              and_then (hello_message env t) (\<lambda>msg.
              and_then (node_peer_send env peer msg t) (\<lambda>s.
              and_then (node_refresh env peer s) (\<lambda>s. Inr (Some peer, s))))) ?Q"
      using send del by (auto simp: node_peer_def ensures_def)
  qed
  have mid: "ensures (and_then (node_set_keys peer key s) (\<lambda>s.
          and_then (node_on_heap (alter_peer (\<lambda>p. zyre_peer_set_verbose
              (zyre_peer_set_origin p (n_name s)) (n_verbose s)) peer) s) g)) ?Q"
    if s: "node_ok s" "config s = config self" "(?k, peer) \<in> set (n_peers s)" "unlisted ?k (n_peer_groups s)"
      and g: "\<And>s. node_ok s \<Longrightarrow> config s = config self \<Longrightarrow> (?k, peer) \<in> set (n_peers s)
         \<Longrightarrow> unlisted ?k (n_peer_groups s) \<Longrightarrow> ensures (g s) ?Q" for s peer g
  proof (rule ensures_and_then [OF quiet_set_keys])
    fix t assume t: "quiet s t"
    show "ensures (and_then (node_on_heap (alter_peer (\<lambda>p. zyre_peer_set_verbose
              (zyre_peer_set_origin p (n_name t)) (n_verbose t)) peer) t) g) ?Q"
    proof (rule ensures_and_then [OF quiet_alter])
      fix u assume "quiet t u"
      then have u: "quiet s u" using t quiet_trans by blast
      then show "ensures (g u) ?Q" using s by (intro g) (auto simp: quiet_def steady_def)
    qed (simp_all add: zyre_simps)
  qed
  have purge: "ensures (each (zyre_node_purge_peer endpoint) items self) (steady self)" for items
    by (rule steady_each) (rule steady_purge)
  have new: "ensures (zyre_peer_new env uuid s) (\<lambda>(a, t). node_ok t \<and> config t = config self
    \<and> (?k, a) \<in> set (n_peers t) \<and> unlisted ?k (n_peer_groups t))" if "steady self s" for s
    by (rule ensures_weaken [OF peer_new_ok]) (use steadyD [OF that] assms in auto)
  show ?thesis
    unfolding zyre_node_require_peer_def None option.case
    by (rule ensures_and_then [OF purge], rule ensures_and_then [OF new], assumption, clarify)
      (rule mid, simp_all add: fin)
qed

text \<open>The peer a node has under an identity.\<close>

definition known_peer :: "zyre_node \<Rightarrow> string \<Rightarrow> zyre_peer option" where
  "known_peer self k = Option.bind (zhash_lookup (n_peers self) k) (n_heap self)"

end
