(* ===== verification/Zyre_Node_Recv.thy ===== *)
theory Zyre_Node_Recv
  imports Zyre_Node_Inv
begin

text \<open>
  Messages from other peers (\<open>src/zyre_node.c\<close>, \<open>zyre_node_recv_peer\<close>): one definition for the handler
  of each command, one for finding out who the sender is, and the whole function.
\<close>

section \<open>Handlers of the commands\<close>

text \<open>HELLO: the peer joins one of the groups it lists.\<close>

definition hello_join :: "env \<Rightarrow> addr \<Rightarrow> string \<Rightarrow> zyre_node \<Rightarrow> zyre_node outcome" where
  "hello_join env peer name self = and_then (zyre_node_join_peer_group env peer name self) (\<lambda>(g, self).
     case zyre_node_require_peer_group env name self of (g', self) \<Rightarrow>
       if zyre_group_contest g' then start_election env g name self else Inr self)"

text \<open>The ENTER event; the frame with the headers is there only if the message had them.\<close>

definition enter_event :: "env \<Rightarrow> zyre_peer \<Rightarrow> string \<Rightarrow> zyre_node \<Rightarrow> zyre_node" where
  "enter_event env p endpoint self =
     (let self = outbox_sendm (zyre_peer_name p) (outbox_sendm (zyre_peer_identity p)
                   (outbox_sendm ''ENTER'' self));
          self = (case p_headers p of Some h \<Rightarrow> outbox_frame (env_pack env h) self | None \<Rightarrow> self)
      in outbox_send endpoint self)"

definition recv_peer_hello :: "env \<Rightarrow> addr \<Rightarrow> zre_msg \<Rightarrow> zyre_node \<Rightarrow> zyre_node outcome" where
  "recv_peer_hello env peer msg self =
     and_then (node_on_heap (alter_peer (\<lambda>p. zyre_peer_set_headers (env_rank env)
        (zyre_peer_set_name p (m_name msg)) (m_headers msg)) peer) self) (\<lambda>self.
     and_then (node_peer peer self) (\<lambda>p.
     let self = enter_event env p (m_endpoint msg) self
     in case m_groups msg of
          None \<Rightarrow> Inl Assertion_failed
        | Some groups \<Rightarrow>
            and_then (each (hello_join env peer) groups self) (\<lambda>self.
              node_on_heap (alter_peer (\<lambda>p. zyre_peer_set_status p (m_status msg)) peer) self)))"

definition recv_peer_whisper :: "addr \<Rightarrow> zuuid \<Rightarrow> zre_msg \<Rightarrow> zyre_node \<Rightarrow> zyre_node outcome" where
  "recv_peer_whisper peer uuid msg self = and_then (node_peer peer self) (\<lambda>p.
     Inr (outbox_msg (m_content msg) (outbox_sendm (zyre_peer_name p)
       (outbox_sendm (uu_str uuid) (outbox_sendm ''WHISPER'' self)))))"

definition recv_peer_shout :: "addr \<Rightarrow> zuuid \<Rightarrow> zre_msg \<Rightarrow> zyre_node \<Rightarrow> zyre_node outcome" where
  "recv_peer_shout peer uuid msg self = and_then (node_peer peer self) (\<lambda>p.
     Inr (outbox_msg (m_content msg) (outbox_sendm (m_group msg) (outbox_sendm (zyre_peer_name p)
       (outbox_sendm (uu_str uuid) (outbox_sendm ''SHOUT'' self))))))"

definition recv_peer_ping :: "env \<Rightarrow> addr \<Rightarrow> zyre_node \<Rightarrow> zyre_node outcome" where
  "recv_peer_ping env peer self = node_peer_send env peer (zre_msg_set_id zre_msg_new ZRE_MSG_PING_OK) self"

definition recv_peer_join :: "env \<Rightarrow> addr \<Rightarrow> zre_msg \<Rightarrow> zyre_node \<Rightarrow> zyre_node outcome" where
  "recv_peer_join env peer msg self =
     and_then (zyre_node_join_peer_group env peer (m_group msg) self) (\<lambda>(g, self).
     and_then (node_peer peer self) (\<lambda>p.
     assert_that (m_status msg = p_status p)
       (if zlist_exists (n_own_groups self) (m_group msg) then
          (case zyre_node_require_peer_group env (m_group msg) self of (g', self) \<Rightarrow>
             if zyre_group_contest g' then start_election env g (m_group msg) self else Inr self)
        else Inr self)))"

definition recv_peer_leave :: "env \<Rightarrow> addr \<Rightarrow> zre_msg \<Rightarrow> zyre_node \<Rightarrow> zyre_node outcome" where
  "recv_peer_leave env peer msg self =
     and_then (zyre_node_leave_peer_group env peer (m_group msg) self) (\<lambda>(g, self).
     and_then (node_peer peer self) (\<lambda>p.
     assert_that (m_status msg = p_status p)
       (if zlist_exists (n_own_groups self) (m_group msg) \<and> zyre_group_contest g then
          and_then (leader_is (zyre_peer_identity p) g self) (\<lambda>leader_left.
            if leader_left then elect_again env 0 g (m_group msg) self else Inr self)
        else Inr self)))"

text \<open>ELECT: a member of the group other than the sender gets a copy of the challenge.\<close>

definition elect_forward :: "env \<Rightarrow> zre_msg \<Rightarrow> string \<Rightarrow> string \<Rightarrow> zyre_node \<Rightarrow> zyre_node outcome" where
  "elect_forward env msg from group_peer self =
     (if streq group_peer from then Inr self
      else case zhash_lookup (n_peers self) group_peer of
             None \<Rightarrow> Inl Assertion_failed
           | Some receiver \<Rightarrow> node_peer_send env receiver (zre_msg_dup (env_rank env) msg) self)"

text \<open>The first half of the handler: a superior challenger's wave is adopted and spread.\<close>

definition elect_challenge :: "env \<Rightarrow> addr \<Rightarrow> string \<Rightarrow> string \<Rightarrow> zyre_group \<Rightarrow> zyre_election \<Rightarrow> zyre_node
    \<Rightarrow> (zyre_election \<times> zyre_node) outcome" where
  "elect_challenge env peer challenger name g election self =
     (if zyre_election_challenger_superior election challenger then
        let election = election_adopt election challenger peer;
            self = put_group name (zyre_group_set_election g (Some election)) self
        in and_then (zyre_election_build_elect_msg election) (\<lambda>msg.
           and_then (node_peer peer self) (\<lambda>p.
           and_then (each (elect_forward env (zre_msg_set_group msg name) (zyre_peer_identity p))
                       (zyre_group_peers g) self) (\<lambda>self. Inr (election, self))))
      else Inr (election, self))"

text \<open>The wave is complete: decide it or echo it to the father.\<close>

definition elect_complete :: "env \<Rightarrow> string \<Rightarrow> zyre_group \<Rightarrow> zyre_election \<Rightarrow> zyre_node
    \<Rightarrow> zyre_node outcome" where
  "elect_complete env name g election self =
     and_then (not_null (e_caw election)) (\<lambda>caw.
       if streq caw (uu_str (n_uuid self)) then
         and_then (zyre_election_build_leader_msg election) (\<lambda>msg.
           node_group_send env g (zre_msg_set_group msg name) self)
       else
         and_then (zyre_election_build_elect_msg election) (\<lambda>msg.
           case e_father election of
             None \<Rightarrow> Inl Assertion_failed
           | Some father \<Rightarrow> node_peer_send env father (zre_msg_set_group msg name) self))"

definition recv_peer_elect :: "env \<Rightarrow> addr \<Rightarrow> zre_msg \<Rightarrow> zyre_node \<Rightarrow> zyre_node outcome" where
  "recv_peer_elect env peer msg self =
     (let name = m_group msg; challenger = m_challenger_id msg in
      case zyre_node_require_peer_group env name self of (g, self) \<Rightarrow>
      case zyre_group_require_election g of (election, g) \<Rightarrow>
      and_then (elect_challenge env peer challenger name g election (put_group name g self))
        (\<lambda>(election, self).
      and_then (zyre_election_supporting_challenger election challenger) (\<lambda>supporting.
        if supporting then
          let election = zyre_election_increment_erec election;
              g = zyre_group_set_election g (Some election);
              self = put_group name g self
          in if zyre_election_erec_complete election (zhash_size (g_peers g))
             then elect_complete env name g election self else Inr self
        else Inr self)))"

text \<open>The election is over: announce the leader, if it is known here.\<close>

definition leader_decided :: "string \<Rightarrow> zyre_group \<Rightarrow> string \<Rightarrow> zyre_node \<Rightarrow> (zyre_group \<times> zyre_node) outcome" where
  "leader_decided name g leader self =
     (if streq leader (uu_str (n_uuid self)) then
        Inr (g, zyre_node_leader_peer_group (uu_str (n_uuid self)) (n_name self) name self)
      else case zhash_lookup (n_peers self) leader of
          None \<Rightarrow> Inr (g, self)
        | Some l \<Rightarrow> and_then (node_peer l self) (\<lambda>p.
            Inr (zyre_group_set_leader g (Some l),
              zyre_node_leader_peer_group (zyre_peer_identity p) (zyre_peer_name p) name self)))"

definition recv_peer_leader :: "env \<Rightarrow> zre_msg \<Rightarrow> zyre_node \<Rightarrow> zyre_node outcome" where
  "recv_peer_leader env msg self =
     (let name = m_group msg; leader = m_leader_id msg in
      case zyre_node_require_peer_group env name self of (g, self) \<Rightarrow>
      case zyre_group_require_election g of (election, g) \<Rightarrow>
      let self = put_group name g self in
      if e_caw election = None then Inr self
      else
        and_then (if \<not> streq (uu_str (n_uuid self)) leader \<and> \<not> zyre_election_lrec_started election
                  then and_then (zyre_election_build_leader_msg election) (\<lambda>m.
                         node_group_send env g (zre_msg_set_group m name) self)
                  else Inr self) (\<lambda>self.
          let election = zyre_election_set_leader (zyre_election_increment_lrec election) leader in
          if zyre_election_lrec_complete election (zhash_size (g_peers g)) then
            and_then (leader_decided name g leader self) (\<lambda>(g, self).
              Inr (put_group name (zyre_group_set_election g None) self))
          else Inr (put_group name (zyre_group_set_election g (Some election)) self)))"

text \<open>The result names the peer whose timers are still to be refreshed.\<close>

definition recv_peer_command :: "env \<Rightarrow> addr \<Rightarrow> zuuid \<Rightarrow> zre_msg \<Rightarrow> zyre_node
    \<Rightarrow> (addr option \<times> zyre_node) outcome" where
  "recv_peer_command env peer uuid msg self =
     (let kept = (\<lambda>r. and_then r (\<lambda>self. Inr (Some peer, self))) in
      if m_id msg = ZRE_MSG_HELLO then kept (recv_peer_hello env peer msg self)
      else if m_id msg = ZRE_MSG_WHISPER then kept (recv_peer_whisper peer uuid msg self)
      else if m_id msg = ZRE_MSG_SHOUT then kept (recv_peer_shout peer uuid msg self)
      else if m_id msg = ZRE_MSG_PING then kept (recv_peer_ping env peer self)
      else if m_id msg = ZRE_MSG_JOIN then kept (recv_peer_join env peer msg self)
      else if m_id msg = ZRE_MSG_LEAVE then kept (recv_peer_leave env peer msg self)
      else if m_id msg = ZRE_MSG_ELECT then kept (recv_peer_elect env peer msg self)
      else if m_id msg = ZRE_MSG_LEADER then kept (recv_peer_leader env msg self)
      else if m_id msg = ZRE_MSG_GOODBYE \<and> n_gossip self \<noteq> None then
        and_then (zyre_node_remove_peer env peer self) (\<lambda>self. Inr (None, self))
      else kept (Inr self))"

section \<open>The sender\<close>

text \<open>A HELLO from a peer that is known: false means that the message is ignored.\<close>

definition hello_known :: "env \<Rightarrow> addr \<Rightarrow> zuuid \<Rightarrow> zyre_node \<Rightarrow> (bool \<times> zyre_node) outcome" where
  "hello_known env peer uuid self = and_then (node_peer peer self) (\<lambda>p.
     if zyre_peer_ready p then
       and_then (zyre_node_remove_peer env peer self) (\<lambda>self.
         assert_that (zhash_lookup (n_peers self) (uu_str uuid) = None) (Inr (True, self)))
     else
       and_then (zyre_peer_endpoint p) (\<lambda>e.
       and_then (not_null (n_endpoint self)) (\<lambda>endpoint. Inr (\<not> streq e endpoint, self))))"

text \<open>With a secret key set, only a HELLO that carries a public key makes a peer.\<close>

definition hello_require :: "env \<Rightarrow> zuuid \<Rightarrow> zre_msg \<Rightarrow> zyre_node \<Rightarrow> (addr option \<times> zyre_node) outcome" where
  "hello_require env uuid msg self =
     (if n_secret_key self = None then zyre_node_require_peer env self uuid (m_endpoint msg) None
      else case m_headers msg of
          None \<Rightarrow> Inl Assertion_failed
        | Some headers \<Rightarrow> (case zhash_lookup headers ''X-PUBLICKEY'' of
              None \<Rightarrow> Inr (None, self)
            | Some public_key \<Rightarrow> assert_that (public_key \<noteq> [])
                (zyre_node_require_peer env self uuid (m_endpoint msg) (Some public_key))))"

definition hello_sender :: "env \<Rightarrow> zuuid \<Rightarrow> zre_msg \<Rightarrow> addr option \<Rightarrow> zyre_node
    \<Rightarrow> (addr option \<times> zyre_node) outcome" where
  "hello_sender env uuid msg known self =
     and_then (case known of Some peer \<Rightarrow> hello_known env peer uuid self | None \<Rightarrow> Inr (True, self))
       (\<lambda>(go, self).
        if \<not> go then Inr (None, self)
        else and_then (hello_require env uuid msg self) (\<lambda>(peer, self).
          case peer of
            None \<Rightarrow> Inr (None, self)
          | Some a \<Rightarrow> and_then (node_on_heap (alter_peer (\<lambda>p. zyre_peer_set_ready p True) a) self)
              (\<lambda>self. Inr (Some a, self))))"

text \<open>A message from a ready peer.\<close>

definition recv_ready :: "env \<Rightarrow> addr \<Rightarrow> zuuid \<Rightarrow> zre_msg \<Rightarrow> zyre_node \<Rightarrow> zyre_node outcome" where
  "recv_ready env peer uuid msg self = and_then (node_peer peer self) (\<lambda>p.
     case zyre_peer_messages_lost p msg of (lost, p) \<Rightarrow>
     let self = self\<lparr>n_heap := put_peer peer p (n_heap self)\<rparr>
     in if lost then zyre_node_remove_peer env peer self
        else and_then (recv_peer_command env peer uuid msg self) (\<lambda>(peer, self).
          case peer of None \<Rightarrow> Inr self | Some a \<Rightarrow> node_refresh env a self))"

definition recv_from :: "env \<Rightarrow> zuuid \<Rightarrow> zre_msg \<Rightarrow> zyre_node \<Rightarrow> zyre_node outcome" where
  "recv_from env uuid msg self =
     (let known = zhash_lookup (n_peers self) (uu_str uuid)
      in and_then (if m_id msg = ZRE_MSG_HELLO then hello_sender env uuid msg known self
                   else Inr (known, self)) (\<lambda>(peer, self).
           case peer of
             None \<Rightarrow> Inr self
           | Some a \<Rightarrow> and_then (node_peer a self) (\<lambda>p.
               if zyre_peer_ready p then recv_ready env a uuid msg self else Inr self)))"

text \<open>The identity of a ROUTER peer must be an octet followed by 16 of a UUID.\<close>

definition zyre_node_recv_peer :: "env \<Rightarrow> zyre_node \<Rightarrow> zyre_node outcome" where
  "zyre_node_recv_peer env self =
     (case zre_msg_recv (env_rank env) True zre_msg_new (n_inbox self) of (rc, msg, input) \<Rightarrow>
      let self = self\<lparr>n_inbox := input\<rparr>
      in if rc \<noteq> 0 then Inr self
         else case m_routing_id msg of
                None \<Rightarrow> Inl Assertion_failed
              | Some peerid \<Rightarrow> if length peerid \<noteq> 17 then Inr self
                  else recv_from env (env_uuid_of env (drop 1 peerid)) msg self)"

end
