(* ===== verification/Zyre_Node_Recv_Inv.thy ===== *)
theory Zyre_Node_Recv_Inv
  imports Zyre_Node_Recv
begin

text \<open>
  Every handler of a message keeps the invariant of the node's tables, whatever the message is.
\<close>

section \<open>Handlers that keep the table of peers\<close>

lemma steady_node_peer: "(\<And>p. n_heap self a = Some p \<Longrightarrow> ensures (f p) Q) \<Longrightarrow> ensures (and_then (node_peer a self) f) Q"
  by (auto simp: node_peer_def ensures_def)

text \<open>The case where the invariant did not hold before is of no interest.\<close>

definition safe :: "zyre_node \<Rightarrow> zyre_node \<Rightarrow> bool" where
  "safe self s \<longleftrightarrow> steady self s \<and> node_ok s"

lemma safeI: "node_ok self \<Longrightarrow> steady self s \<Longrightarrow> safe self s"
  by (simp add: safe_def steady_def)

lemma safe_trans: "safe a b \<Longrightarrow> safe b c \<Longrightarrow> safe a c"
  by (auto simp: safe_def intro: steady_trans)

lemma safe_refl: "node_ok self \<Longrightarrow> safe self self"
  by (simp add: safe_def)

lemma safeD: "safe self s \<Longrightarrow> steady self s" "safe self s \<Longrightarrow> node_ok s"
  by (simp_all add: safe_def)

lemma safe_ensures: "node_ok self \<Longrightarrow> ensures m (steady self) \<Longrightarrow> ensures m (safe self)"
  by (erule ensures_weaken) (rule safeI)

lemma safe_bind:
  assumes "ensures m (safe self)" and "\<And>s. safe self s \<Longrightarrow> ensures (f s) (safe s)"
  shows "ensures (and_then m f) (safe self)"
  using assms(1)
proof (rule ensures_and_then)
  fix s assume s: "safe self s"
  show "ensures (f s) (safe self)" by (rule ensures_weaken [OF assms(2) [OF s]]) (rule safe_trans [OF s])
qed

lemma safe_bind_group:
  assumes "node_ok self" and "ensures m (\<lambda>(g, s). steady self s \<and> (node_ok self \<longrightarrow> group_ok (n_peers s) g))"
    and "\<And>g s. safe self s \<Longrightarrow> group_ok (n_peers s) g \<Longrightarrow> ensures (f (g, s)) (safe s)"
  shows "ensures (and_then m f) (safe self)"
  using assms(2)
proof (rule ensures_and_then, clarify)
  fix g s assume s: "steady self s" "node_ok self \<longrightarrow> group_ok (n_peers s) g"
  then have s': "safe self s" using assms(1) by (intro safeI)
  show "ensures (f (g, s)) (safe self)"
    using s assms(1) by (intro ensures_weaken [OF assms(3) [OF s']] safe_trans [OF s']) simp
qed

lemma safe_put_then:
  assumes "node_ok self" and "group_ok (n_peers self) g"
    and "\<And>s. safe self s \<Longrightarrow> s = put_group name g self \<Longrightarrow> ensures (f s) (safe s)"
  shows "ensures (f (put_group name g self)) (safe self)"
proof -
  have s: "safe self (put_group name g self)"
    using assms(1,2) by (intro safeI steady_group)
  show ?thesis by (rule ensures_weaken [OF assms(3) [OF s refl]]) (rule safe_trans [OF s])
qed

lemma safe_require_group:
  assumes "node_ok self"
    and "\<And>g s. safe self s \<Longrightarrow> group_ok (n_peers s) g \<Longrightarrow> (name, g) \<in> set (n_peer_groups s)
           \<Longrightarrow> ensures (f g s) (safe s)"
  shows "ensures (case zyre_node_require_peer_group env name self of (g, s) \<Rightarrow> f g s) (safe self)"
proof -
  obtain g s where gs: "zyre_node_require_peer_group env name self = (g, s)" by (rule prod.exhaust)
  have s: "safe self s" using steady_require_group(1) [OF gs] assms(1) by (intro safeI)
  have "ensures (f g s) (safe s)"
    by (rule assms(2) [OF s]) (rule steady_require_group(2) [OF gs safeD(2) [OF s]], rule require_group_listed [OF gs])
  then show ?thesis using safe_trans [OF s] by (simp add: gs) (rule ensures_weaken)
qed

lemma group_ok_put [simp]: "group_ok (n_peers (put_group name g self)) h = group_ok (n_peers self) h"
  by (simp add: put_group_def)

lemma safe_group_send: "node_ok self \<Longrightarrow> ensures (node_group_send env g m self) (safe self)"
  by (rule safe_ensures [OF _ steady_group_send])

lemma safe_peer_send: "node_ok self \<Longrightarrow> ensures (node_peer_send env a m self) (safe self)"
  by (rule safe_ensures [OF _ steady_peer_send])

lemma safe_start_election:
  "node_ok self \<Longrightarrow> group_ok (n_peers self) g \<Longrightarrow> ensures (start_election env g name self) (safe self)"
  by (rule safe_ensures [OF _ steady_start_election])

lemma safe_elect_again:
  "node_ok self \<Longrightarrow> group_ok (n_peers self) g \<Longrightarrow> ensures (elect_again env k g name self) (safe self)"
  by (rule safe_ensures [OF _ steady_elect_again])

lemma safe_alter:
  assumes "node_ok self" and "\<And>p. p_uuid (f p) = p_uuid p" and "\<And>p. peer_ok p \<Longrightarrow> peer_ok (f p)"
  shows "ensures (node_on_heap (alter_peer f a) self) (safe self)"
  using assms(1) steady_alter [of f a self, OF assms(2,3)] by (rule safe_ensures)

lemma safe_each:
  assumes "node_ok self" and "\<And>x s. node_ok s \<Longrightarrow> ensures (f x s) (safe s)"
  shows "ensures (each f xs self) (safe self)"
  using assms(1)
  by (intro ensures_each safe_refl ensures_weaken [OF assms(2)]) (auto intro: safe_trans safeD)

lemma safe_hello_join:
  assumes "node_ok self"
  shows "ensures (hello_join env peer name self) (safe self)"
  unfolding hello_join_def
proof (rule safe_bind_group [OF assms steady_join], clarify)
  fix g s assume s: "safe self s" "group_ok (n_peers s) g"
  show "ensures (case zyre_node_require_peer_group env name s of (g', self) \<Rightarrow>
       if zyre_group_contest g' then start_election env g name self else Inr self) (safe s)"
  proof (rule safe_require_group [OF safeD(2) [OF s(1)]])
    fix h t assume t: "safe s t"
    then have "group_ok (n_peers t) g" using s(2) steadyD(1) [OF safeD(1) [OF t]] by simp
    then show "ensures (if zyre_group_contest h then start_election env g name t else Inr t) (safe t)"
      using safeD [OF t] by (simp add: safe_start_election safe_refl)
  qed
qed

lemma safe_enter_event: "node_ok self \<Longrightarrow> safe self (enter_event env p e self)"
  unfolding enter_event_def Let_def
  by (rule safeI) (auto split: option.split intro!: steady_outbox_trans)

lemma safe_hello:
  assumes "node_ok self"
  shows "ensures (recv_peer_hello env peer msg self) (safe self)"
  unfolding recv_peer_hello_def
proof (rule safe_bind)
  show "ensures (node_on_heap (alter_peer (\<lambda>p. zyre_peer_set_headers (env_rank env)
        (zyre_peer_set_name p (m_name msg)) (m_headers msg)) peer) self) (safe self)"
    by (rule safe_alter [OF assms]) (simp_all add: zyre_simps)
  fix s assume "safe self s"
  note s = safeD(2) [OF this]
  show "ensures (and_then (node_peer peer s) (\<lambda>p. let self = enter_event env p (m_endpoint msg) s
     in case m_groups msg of None \<Rightarrow> Inl Assertion_failed
        | Some groups \<Rightarrow> and_then (each (hello_join env peer) groups self) (\<lambda>self.
              node_on_heap (alter_peer (\<lambda>p. zyre_peer_set_status p (m_status msg)) peer) self))) (safe s)"
  proof (rule steady_node_peer)
    fix p
    let ?t = "enter_event env p (m_endpoint msg) s"
    have t: "safe s ?t" by (rule safe_enter_event [OF s])
    have "ensures (and_then (each (hello_join env peer) groups ?t) (\<lambda>self.
              node_on_heap (alter_peer (\<lambda>p. zyre_peer_set_status p (m_status msg)) peer) self)) (safe ?t)" for groups
      by (intro safe_bind safe_each safe_hello_join safe_alter)
        (simp_all add: zyre_simps safeD(2) [OF t] safeD)
    then show "ensures (let self = ?t in case m_groups msg of None \<Rightarrow> Inl Assertion_failed
        | Some groups \<Rightarrow> and_then (each (hello_join env peer) groups self) (\<lambda>self.
              node_on_heap (alter_peer (\<lambda>p. zyre_peer_set_status p (m_status msg)) peer) self)) (safe s)"
      using safe_trans [OF t] by (auto simp: Let_def split: option.split intro: ensures_weaken)
  qed
qed

lemma safe_whisper: "node_ok self \<Longrightarrow> ensures (recv_peer_whisper peer uuid msg self) (safe self)"
  by (rule safe_ensures) (auto simp: recv_peer_whisper_def ensures_def intro!: steady_outbox_trans)

lemma safe_shout: "node_ok self \<Longrightarrow> ensures (recv_peer_shout peer uuid msg self) (safe self)"
  by (rule safe_ensures) (auto simp: recv_peer_shout_def ensures_def intro!: steady_outbox_trans)

lemma safe_ping: "node_ok self \<Longrightarrow> ensures (recv_peer_ping env peer self) (safe self)"
  unfolding recv_peer_ping_def by (rule safe_peer_send)

lemma safe_join:
  assumes "node_ok self"
  shows "ensures (recv_peer_join env peer msg self) (safe self)"
  unfolding recv_peer_join_def
proof (rule safe_bind_group [OF assms steady_join], clarify, rule steady_node_peer, rule ensures_assert_that)
  fix g s p assume s: "safe self s" "group_ok (n_peers s) g"
  have "ensures (case zyre_node_require_peer_group env (m_group msg) s of (g', self) \<Rightarrow>
       if zyre_group_contest g' then start_election env g (m_group msg) self else Inr self) (safe s)"
  proof (rule safe_require_group [OF safeD(2) [OF s(1)]])
    fix h t assume t: "safe s t"
    then have "group_ok (n_peers t) g" using s(2) steadyD(1) [OF safeD(1) [OF t]] by simp
    then show "ensures (if zyre_group_contest h then start_election env g (m_group msg) t else Inr t) (safe t)"
      using safeD [OF t] by (simp add: safe_start_election safe_refl)
  qed
  then show "ensures (if zlist_exists (n_own_groups s) (m_group msg) then
          (case zyre_node_require_peer_group env (m_group msg) s of (g', self) \<Rightarrow>
             if zyre_group_contest g' then start_election env g (m_group msg) self else Inr self)
        else Inr s) (safe s)" using safeD(2) [OF s(1)] by (simp add: safe_refl)
qed

lemma leader_is_then: "(\<And>b. ensures (f b) Q) \<Longrightarrow> ensures (and_then (leader_is i g self) f) Q"
  by (auto simp: ensures_def)

lemma safe_leave:
  assumes "node_ok self"
  shows "ensures (recv_peer_leave env peer msg self) (safe self)"
  unfolding recv_peer_leave_def
proof (rule safe_bind_group [OF assms steady_leave], clarify, rule steady_node_peer, rule ensures_assert_that)
  fix g s p assume s: "safe self s" "group_ok (n_peers s) g"
  have "ensures (if b then elect_again env 0 g (m_group msg) s else Inr s) (safe s)" for b
    using safe_elect_again [OF safeD(2) [OF s(1)] s(2)] safeD(2) [OF s(1)] by (simp add: safe_refl)
  then show "ensures (if zlist_exists (n_own_groups s) (m_group msg) \<and> zyre_group_contest g then
          and_then (leader_is (zyre_peer_identity p) g s) (\<lambda>leader_left.
            if leader_left then elect_again env 0 g (m_group msg) s else Inr s)
        else Inr s) (safe s)" using safeD(2) [OF s(1)] by (simp add: safe_refl leader_is_then)
qed

lemma require_election_ok:
  assumes "zyre_group_require_election g = (e, g')"
  shows "group_ok peers g' = group_ok peers g"
  using assms by (auto simp: zyre_group_require_election_def split: option.splits)

lemma safe_elect_forward:
  assumes "node_ok self" shows "ensures (elect_forward env m i k self) (safe self)"
  using assms by (auto simp: elect_forward_def safe_refl safe_peer_send split: option.split)

lemma safe_elect_challenge:
  assumes "node_ok self" and "group_ok (n_peers self) g"
  shows "ensures (elect_challenge env peer c name g e self) (\<lambda>(e, s). safe self s)"
proof -
  let ?g = "zyre_group_set_election g (Some (election_adopt e c peer))"
  have s: "safe self (put_group name ?g self)" (is "safe self ?s")
    using assms by (intro safeI steady_group) simp_all
  have fwd: "ensures (each (elect_forward env m i) gs ?s) (safe ?s)" for m i gs
    by (intro safe_each safe_elect_forward safeD(2) [OF s])
  have "safe self t" if "each (elect_forward env m i) gs ?s = Inr t" for m i gs t
    by (rule safe_trans [OF s ensuresD [OF fwd that]])
  then show ?thesis
    using assms(1) by (auto simp: elect_challenge_def Let_def safe_refl ensures_def node_peer_def)
qed

lemma safe_elect_complete:
  assumes "node_ok self" shows "ensures (elect_complete env name g e self) (safe self)"
proof -
  have "ensures (node_group_send env g m self) (safe self)"
    "ensures (node_peer_send env a m self) (safe self)" for m a
    using safe_group_send [OF assms] safe_peer_send [OF assms] by simp_all
  then show ?thesis
    by (auto simp: elect_complete_def ensures_def split: if_splits option.splits)
qed

lemma safe_elect:
  assumes "node_ok self"
  shows "ensures (recv_peer_elect env peer msg self) (safe self)"
  unfolding recv_peer_elect_def Let_def
proof (rule safe_require_group [OF assms])
  fix g s assume "safe self s" and g: "group_ok (n_peers s) g"
  then have s: "node_ok s" by (simp add: safeD)
  obtain e g' where e: "zyre_group_require_election g = (e, g')" by (rule prod.exhaust)
  let ?name = "m_group msg" and ?c = "m_challenger_id msg"
  let ?h = "\<lambda>e. zyre_group_set_election g' (Some (zyre_election_increment_erec e))"
  have ok: "group_ok (n_peers s) g'" using g require_election_ok [OF e] by simp
  have p: "safe s (put_group ?name g' s)" (is "safe s ?p") using s ok by (intro safeI steady_group)
  have fin: "ensures (if zyre_election_erec_complete e' k
       then elect_complete env ?name (?h e) e' (put_group ?name (?h e) t)
       else Inr (put_group ?name (?h e) t)) (safe s)" if t: "safe ?p t" for e e' t k
  proof -
    have st: "safe s t" using safe_trans [OF p t] .
    have "group_ok (n_peers t) g'" using ok steadyD(1) [OF safeD(1) [OF st]] by simp
    then have u: "safe t (put_group ?name (?h e) t)"
      using safeD(2) [OF st] by (intro safeI steady_group) simp_all
    then have "ensures (elect_complete env ?name (?h e) e' (put_group ?name (?h e) t)) (safe s)"
      by (intro ensures_weaken [OF safe_elect_complete] safe_trans [OF st] safe_trans [OF u]) (rule safeD)
    then show ?thesis using safe_trans [OF st u] by simp
  qed
  have chal: "ensures (elect_challenge env peer ?c ?name g' e ?p) (\<lambda>(e, t). safe ?p t)"
    using safeD(2) [OF p] ok by (intro safe_elect_challenge) simp_all
  show "ensures (case zyre_group_require_election g of (election, g) \<Rightarrow>
      and_then (elect_challenge env peer ?c ?name g election (put_group ?name g s))
        (\<lambda>(election, self).
      and_then (zyre_election_supporting_challenger election ?c) (\<lambda>supporting.
        if supporting then
             if zyre_election_erec_complete (zyre_election_increment_erec election)
                 (zhash_size (g_peers (zyre_group_set_election g (Some (zyre_election_increment_erec election)))))
             then elect_complete env ?name (zyre_group_set_election g (Some (zyre_election_increment_erec election)))
               (zyre_election_increment_erec election)
               (put_group ?name (zyre_group_set_election g (Some (zyre_election_increment_erec election))) self)
             else Inr (put_group ?name (zyre_group_set_election g (Some (zyre_election_increment_erec election))) self)
        else Inr self))) (safe s)"
    unfolding e prod.case
  proof (rule ensures_and_then [OF chal], clarify)
    fix e t assume t: "safe ?p t"
    show "ensures (and_then (zyre_election_supporting_challenger e ?c) (\<lambda>supporting.
        if supporting then
             if zyre_election_erec_complete (zyre_election_increment_erec e) (zhash_size (g_peers (?h e)))
             then elect_complete env ?name (?h e) (zyre_election_increment_erec e) (put_group ?name (?h e) t)
             else Inr (put_group ?name (?h e) t)
        else Inr t)) (safe s)"
      using fin [OF t] safe_trans [OF p t]
      by (cases "zyre_election_supporting_challenger e ?c") simp_all
  qed
qed

lemma safe_leader_event: "node_ok self \<Longrightarrow> safe self (zyre_node_leader_peer_group i n g self)"
  by (rule safeI) (auto simp: zyre_node_leader_peer_group_def intro!: steady_outbox_trans)

lemma safe_leader_decided:
  assumes "node_ok self" and "group_ok (n_peers self) g"
  shows "ensures (leader_decided name g leader self) (\<lambda>(g', s). safe self s \<and> group_ok (n_peers s) g')"
proof -
  have "safe self (zyre_node_leader_peer_group i n name self)" for i n
    using assms(1) by (rule safe_leader_event)
  moreover have "n_peers (zyre_node_leader_peer_group i n name self) = n_peers self" for i n
    by (simp add: zyre_node_leader_peer_group_def)
  ultimately show ?thesis using assms
    by (auto simp: leader_decided_def node_peer_def ensures_def safe_refl split: option.splits)
qed

lemma safe_leader:
  assumes "node_ok self"
  shows "ensures (recv_peer_leader env msg self) (safe self)"
  unfolding recv_peer_leader_def Let_def
proof (rule safe_require_group [OF assms])
  fix g s assume "safe self s" and g: "group_ok (n_peers s) g"
  then have s: "node_ok s" by (simp add: safeD)
  obtain e g' where e: "zyre_group_require_election g = (e, g')" by (rule prod.exhaust)
  let ?name = "m_group msg" and ?l = "m_leader_id msg"
  let ?e = "zyre_election_set_leader (zyre_election_increment_lrec e) ?l"
  have ok: "group_ok (n_peers s) g'" using g require_election_ok [OF e] by simp
  have p: "safe s (put_group ?name g' s)" (is "safe s ?p") using s ok by (intro safeI steady_group)
  have spread: "ensures (if b then and_then r (\<lambda>m. node_group_send env g' (f m) ?p) else Inr ?p) (safe ?p)"
    for b f and r :: "zre_msg outcome"
    using safe_group_send [OF safeD(2) [OF p]] safe_refl [OF safeD(2) [OF p]] by (auto simp: ensures_def)
  have fin: "ensures (if zyre_election_lrec_complete ?e k then
            and_then (leader_decided ?name g' ?l t) (\<lambda>(g, self).
              Inr (put_group ?name (zyre_group_set_election g None) self))
          else Inr (put_group ?name (zyre_group_set_election g' (Some ?e)) t)) (safe t)"
    if t: "safe ?p t" for t k
  proof -
    have ok': "node_ok t" "group_ok (n_peers t) g'"
      using safeD(2) [OF t] ok steadyD(1) [OF safeD(1) [OF t]] by simp_all
    have put: "safe u (put_group ?name (zyre_group_set_election h x) u)" if "node_ok u" "group_ok (n_peers u) h" for u h x
      using that by (intro safeI steady_group) simp_all
    have "ensures (and_then (leader_decided ?name g' ?l t) (\<lambda>(g, self).
              Inr (put_group ?name (zyre_group_set_election g None) self))) (safe t)"
      by (rule ensures_and_then2 [OF safe_leader_decided [OF ok']])
        (auto intro!: safe_trans [OF _ put] dest: safeD(2))
    then show ?thesis using put [OF ok'] by simp
  qed
  have body: "ensures (and_then (if b then and_then r (\<lambda>m. node_group_send env g' (f m) ?p) else Inr ?p)
     (\<lambda>self. if zyre_election_lrec_complete ?e k then
            and_then (leader_decided ?name g' ?l self) (\<lambda>(g, self).
              Inr (put_group ?name (zyre_group_set_election g None) self))
          else Inr (put_group ?name (zyre_group_set_election g' (Some ?e)) self))) (safe s)"
    for b f k and r :: "zre_msg outcome"
    by (rule ensures_weaken [OF safe_bind [OF spread]], erule fin) (rule safe_trans [OF p])
  show "ensures (case zyre_group_require_election g of (election, g) \<Rightarrow>
      if e_caw election = None then Inr (put_group ?name g s)
      else
        and_then (if \<not> streq (uu_str (n_uuid (put_group ?name g s))) ?l \<and> \<not> zyre_election_lrec_started election
                  then and_then (zyre_election_build_leader_msg election) (\<lambda>m.
                         node_group_send env g (zre_msg_set_group m ?name) (put_group ?name g s))
                  else Inr (put_group ?name g s)) (\<lambda>self.
          if zyre_election_lrec_complete (zyre_election_set_leader (zyre_election_increment_lrec election) ?l)
               (zhash_size (g_peers g)) then
            and_then (leader_decided ?name g ?l self) (\<lambda>(g, self).
              Inr (put_group ?name (zyre_group_set_election g None) self))
          else Inr (put_group ?name (zyre_group_set_election g
             (Some (zyre_election_set_leader (zyre_election_increment_lrec election) ?l))) self))) (safe s)"
    unfolding e prod.case using body p by simp
qed

section \<open>The whole function\<close>

lemma safe_removed: "safe a b \<Longrightarrow> removed x b c \<Longrightarrow> node_ok c \<and> config c = config a"
  by (simp add: removed_def safe_def steady_def)

text \<open>What any message leaves: good tables and the node's own data as they were.\<close>

definition node_kept :: "zyre_node \<Rightarrow> zyre_node \<Rightarrow> bool" where
  "node_kept self s \<longleftrightarrow> node_ok s \<and> config s = config self"

lemma node_kept_trans: "node_kept a b \<Longrightarrow> node_kept b c \<Longrightarrow> node_kept a c"
  by (simp add: node_kept_def)

lemma node_kept_safe: "safe a b \<Longrightarrow> node_kept a b"
  by (simp add: node_kept_def safe_def steady_def)

lemma node_kept_removed: "removed x a b \<Longrightarrow> node_kept a b"
  by (simp add: node_kept_def removed_def)

lemma ensures_kept_trans: "node_kept a b \<Longrightarrow> ensures m (node_kept b) \<Longrightarrow> ensures m (node_kept a)"
  by (erule ensures_weaken) (rule node_kept_trans)

lemma kept_command:
  assumes "node_ok self"
  shows "ensures (recv_peer_command env peer uuid msg self) (\<lambda>(r, s). node_kept self s)"
proof -
  have kept: "ensures (and_then r (\<lambda>self. Inr (Some peer, self))) (\<lambda>(r, s). node_kept self s)"
    if "ensures r (safe self)" for r
    using that by (auto simp: ensures_def node_kept_safe)
  have gone: "ensures (and_then (zyre_node_remove_peer env peer self) (\<lambda>self. Inr (None, self)))
      (\<lambda>(r, s). node_kept self s)"
    using remove_peer_keeps [OF assms, of env peer] by (auto simp: ensures_def intro: node_kept_removed)
  have same: "ensures (Inr self) (safe self)" using assms by (simp add: safe_refl)
  show ?thesis unfolding recv_peer_command_def Let_def
    using kept [OF safe_hello [OF assms]] kept [OF safe_whisper [OF assms]] kept [OF safe_shout [OF assms]]
      kept [OF safe_ping [OF assms]] kept [OF safe_join [OF assms]] kept [OF safe_leave [OF assms]]
      kept [OF safe_elect [OF assms]] kept [OF safe_leader [OF assms]] kept [OF same]
    by (simp add: gone [simplified])
qed

lemma kept_ready:
  assumes "node_ok self"
  shows "ensures (recv_ready env peer uuid msg self) (node_kept self)"
  unfolding recv_ready_def
proof (rule steady_node_peer)
  fix p assume p: "n_heap self peer = Some p"
  obtain lost p' where lp: "zyre_peer_messages_lost p msg = (lost, p')" by (rule prod.exhaust)
  let ?s = "self\<lparr>n_heap := put_peer peer p' (n_heap self)\<rparr>"
  have "same_objects (n_heap self) (put_peer peer p' (n_heap self))"
    by (rule same_objects_put [of "n_heap self" peer p p', OF p]) (use lp uuid_frame(4) [of p msg] peer_ok_messages_lost [of p msg] in simp_all)
  then have s: "safe self ?s" using assms by (intro safeI steady_heap)
  have rem: "ensures (zyre_node_remove_peer env peer ?s) (node_kept ?s)"
    by (rule ensures_weaken [OF remove_peer_keeps [OF safeD(2) [OF s]]]) (rule node_kept_removed)
  have fresh: "ensures (node_refresh env a t) (node_kept t)" if "node_ok t" for a t
    by (rule ensures_weaken [OF safe_ensures [OF that steady_refresh]]) (rule node_kept_safe)
  have "ensures (and_then (recv_peer_command env peer uuid msg ?s) (\<lambda>(peer, self).
          case peer of None \<Rightarrow> Inr self | Some a \<Rightarrow> node_refresh env a self)) (node_kept ?s)"
    using kept_command [OF safeD(2) [OF s], of env peer uuid msg]
    by (rule ensures_and_then)
      (auto split: option.split intro!: ensures_kept_trans [OF _ fresh] simp: node_kept_def)
  then show "ensures (case zyre_peer_messages_lost p msg of (lost, p) \<Rightarrow>
     let self = self\<lparr>n_heap := put_peer peer p (n_heap self)\<rparr>
     in if lost then zyre_node_remove_peer env peer self
        else and_then (recv_peer_command env peer uuid msg self) (\<lambda>(peer, self).
          case peer of None \<Rightarrow> Inr self | Some a \<Rightarrow> node_refresh env a self)) (node_kept self)"
    using rem ensures_kept_trans [OF node_kept_safe [OF s]] by (simp add: lp Let_def)
qed

lemma kept_hello_known:
  assumes "node_ok self"
  shows "ensures (hello_known env peer uuid self) (\<lambda>(b, s). node_kept self s)"
proof -
  have rem: "node_kept self s" if "zyre_node_remove_peer env peer self = Inr s" for s
    by (rule node_kept_removed [OF ensuresD [OF remove_peer_keeps [OF assms] that]])
  have "node_kept self self" using assms by (simp add: node_kept_def)
  then show ?thesis using rem by (auto simp: hello_known_def ensures_def split: if_splits)
qed

lemma kept_require:
  assumes "node_ok self"
  shows "ensures (hello_require env uuid msg self) (\<lambda>(r, s). node_kept self s)"
proof -
  have "ensures (zyre_node_require_peer env self uuid e key) (\<lambda>(r, s). node_kept self s)" for e key
    by (rule ensures_weaken [OF require_peer_keeps [OF assms]]) (auto simp: required_def node_kept_def)
  then show ?thesis using assms
    by (auto simp: hello_require_def node_kept_def intro!: ensures_assert_that split: option.split)
qed

lemma kept_sender:
  assumes "node_ok self"
  shows "ensures (hello_sender env uuid msg known self) (\<lambda>(r, s). node_kept self s)"
proof -
  have ready: "ensures (and_then (node_on_heap (alter_peer (\<lambda>p. zyre_peer_set_ready p True) a) s)
      (\<lambda>s. Inr (Some a, s))) (\<lambda>(r, s). node_kept self s)" if "node_kept self s" for a s
    by (rule ensures_and_then [OF safe_alter])
      (use that in \<open>auto simp: zyre_simps node_kept_def safe_def steady_def\<close>)
  have req: "ensures (and_then (hello_require env uuid msg s) (\<lambda>(peer, self). case peer of
            None \<Rightarrow> Inr (None, self)
          | Some a \<Rightarrow> and_then (node_on_heap (alter_peer (\<lambda>p. zyre_peer_set_ready p True) a) self)
              (\<lambda>self. Inr (Some a, self)))) (\<lambda>(r, s). node_kept self s)" if s: "node_kept self s" for s
  proof (rule ensures_and_then2 [OF kept_require])
    show "node_ok s" using s by (simp add: node_kept_def)
    fix r t assume "node_kept s t"
    then have "node_kept self t" using s node_kept_trans by blast
    then show "ensures (case r of None \<Rightarrow> Inr (None, t)
          | Some a \<Rightarrow> and_then (node_on_heap (alter_peer (\<lambda>p. zyre_peer_set_ready p True) a) t)
              (\<lambda>self. Inr (Some a, self))) (\<lambda>(r, s). node_kept self s)"
      using ready by (simp split: option.split)
  qed
  have first: "ensures (case known of Some peer \<Rightarrow> hello_known env peer uuid self | None \<Rightarrow> Inr (True, self))
      (\<lambda>(b, s). node_kept self s)"
    using kept_hello_known [OF assms] assms by (auto simp: node_kept_def split: option.split)
  show ?thesis unfolding hello_sender_def
    by (rule ensures_and_then [OF first]) (auto intro!: req)
qed

lemma kept_from:
  assumes "node_ok self"
  shows "ensures (recv_from env uuid msg self) (node_kept self)"
proof -
  let ?known = "zhash_lookup (n_peers self) (uu_str uuid)"
  have first: "ensures (if m_id msg = ZRE_MSG_HELLO then hello_sender env uuid msg ?known self
       else Inr (?known, self)) (\<lambda>(r, s). node_kept self s)"
    using kept_sender [OF assms] assms by (auto simp: node_kept_def)
  have ready: "ensures (recv_ready env a uuid msg s) (node_kept self)" if "node_kept self s" for a s
    using that by (intro ensures_kept_trans [OF that] kept_ready) (simp add: node_kept_def)
  show ?thesis unfolding recv_from_def Let_def
  proof (rule ensures_and_then [OF first], clarify)
    fix r s assume s: "node_kept self s"
    show "ensures (case r of None \<Rightarrow> Inr s
       | Some a \<Rightarrow> and_then (node_peer a s) (\<lambda>p.
               if zyre_peer_ready p then recv_ready env a uuid msg s else Inr s)) (node_kept self)"
      using ready [OF s] s by (auto split: option.split intro!: steady_node_peer)
  qed
qed

end
