(* ===== verification/Zyre_Node_Api.thy ===== *)
theory Zyre_Node_Api
  imports Zyre_Node_Recv_Inv
begin

text \<open>
  Commands from the application (\<open>src/zyre_node.c\<close>, \<open>zyre_node_recv_api\<close>). A request is the list of
  the frames on the pipe; its first frame names the command. The chain of comparisons of the C
  function is cut into groups; each takes what the rest of the chain does.
\<close>

section \<open>Requests\<close>

text \<open>\<open>zmsg_popstr\<close>: null when there is no frame.\<close>

definition zmsg_popstr :: "byte list list \<Rightarrow> string option \<times> byte list list" where
  "zmsg_popstr request = (case request of [] \<Rightarrow> (None, []) | f # fs \<Rightarrow> (Some (cstr f), fs))"

text \<open>A string argument the code uses without a check.\<close>

definition pop_string :: "byte list list \<Rightarrow> (string \<Rightarrow> byte list list \<Rightarrow> 'a outcome) \<Rightarrow> 'a outcome" where
  "pop_string request k = (case zmsg_popstr request of (s, request) \<Rightarrow>
     and_then (not_null s) (\<lambda>s. k s request))"

section \<open>Settings\<close>

definition api_settings :: "env \<Rightarrow> string \<Rightarrow> byte list list \<Rightarrow> zyre_node \<Rightarrow> zyre_node outcome \<Rightarrow> zyre_node outcome" where
  "api_settings env command request self otherwise =
     (if streq command ''UUID'' then Inr (pipe_send (Reply_string (uu_str (n_uuid self))) self)
      else if streq command ''NAME'' then Inr (pipe_send (Reply_string (n_name self)) self)
      else if streq command ''SET NAME'' then
        pop_string request (\<lambda>name _. Inr (self\<lparr>n_name := name\<rparr>))
      else if streq command ''SET HEADER'' then
        pop_string request (\<lambda>name request. pop_string request (\<lambda>value _.
          Inr (self\<lparr>n_headers := zhash_update (env_rank env) name value (n_headers self)\<rparr>)))
      else if streq command ''SET VERBOSE'' then Inr (self\<lparr>n_verbose := True\<rparr>)
      else if streq command ''SET PORT'' then
        pop_string request (\<lambda>value _. Inr (self\<lparr>n_beacon_port := c_atoi value\<rparr>))
      else if streq command ''SET EPHEMERAL PORT'' then
        Inr (self\<lparr>n_ephemeral_port := fst (zmsg_popstr request)\<rparr>)
      else if streq command ''SET EVASIVE TIMEOUT'' then
        pop_string request (\<lambda>value _. Inr (self\<lparr>n_evasive_timeout := of_int (c_atoi value)\<rparr>))
      else if streq command ''SET SILENT TIMEOUT'' then
        pop_string request (\<lambda>value _. Inr (self\<lparr>n_evasive_timeout := of_int (c_atoi value)\<rparr>))
      else if streq command ''SET EXPIRED TIMEOUT'' then
        pop_string request (\<lambda>value _. Inr (self\<lparr>n_expired_timeout := of_int (c_atoi value)\<rparr>))
      else if streq command ''SET INTERVAL'' then
        pop_string request (\<lambda>value _. Inr (self\<lparr>n_interval := of_int (c_atoi value)\<rparr>))
      else if streq command ''SET CONTEST'' then
        pop_string request (\<lambda>groupname _.
          case zyre_node_require_peer_group env groupname self of (g, self) \<Rightarrow>
            Inr (put_group groupname (zyre_group_set_contest g) self))
      else if streq command ''SET ADVERTISED ENDPOINT'' then
        Inr (self\<lparr>n_advertised_endpoint := fst (zmsg_popstr request)\<rparr>)
      else otherwise)"

text \<open>The inbox is bound to the endpoint given; what it is bound to becomes the endpoint.\<close>

definition api_set_endpoint :: "env \<Rightarrow> byte list list \<Rightarrow> zyre_node \<Rightarrow> zyre_node outcome" where
  "api_set_endpoint env request self =
     and_then (zyre_node_gossip_start env self) (\<lambda>self.
     pop_string request (\<lambda>endpoint _.
     and_then (node_apply_cert env self) (\<lambda>self.
       if env_bind env endpoint \<noteq> -1 then
         node_check_mechanism env self
           (Inr (pipe_send (Reply_signal 0) (self\<lparr>n_endpoint := Some (env_bound env)\<rparr>)))
       else Inr (pipe_send (Reply_signal 1) self))))"

text \<open>The gossip actor gets the node's keys before it binds or connects.\<close>

definition gossip_keys :: "zyre_node \<Rightarrow> zyre_node outcome" where
  "gossip_keys self = (case n_secret_key self of
     None \<Rightarrow> Inr self
   | Some secret \<Rightarrow> and_then (gossip_sendx [Some ''SET SECRETKEY'', Some secret] self) (\<lambda>self.
       gossip_sendx [Some ''SET PUBLICKEY'', n_public_key self] self))"

definition api_network :: "env \<Rightarrow> string \<Rightarrow> byte list list \<Rightarrow> zyre_node \<Rightarrow> zyre_node outcome \<Rightarrow> zyre_node outcome" where
  "api_network env command request self otherwise =
     (if streq command ''SET ENDPOINT'' then api_set_endpoint env request self
      else if streq command ''SET PUBLICKEY'' then
        pop_string request (\<lambda>key _. Inr (self\<lparr>n_public_key := Some key,
          n_headers := zhash_update (env_rank env) ''X-PUBLICKEY'' key (n_headers self)\<rparr>))
      else if streq command ''SET SECRETKEY'' then
        pop_string request (\<lambda>key _. Inr (self\<lparr>n_secret_key := Some key\<rparr>))
      else if streq command ''ZAP DOMAIN'' then
        pop_string request (\<lambda>domain _. Inr (self\<lparr>n_zap_domain := domain\<rparr>))
      else if streq command ''GOSSIP BIND'' then
        and_then (zyre_node_gossip_start env self) (\<lambda>self.
        let self = self\<lparr>n_gossip_bind := fst (zmsg_popstr request)\<rparr>
        in and_then (gossip_keys self) (\<lambda>self.
             gossip_sendx [Some ''BIND'', n_gossip_bind self] self))
      else if streq command ''GOSSIP CONNECT'' then
        and_then (zyre_node_gossip_start env self) (\<lambda>self.
        case zmsg_popstr request of (connect, request) \<Rightarrow>
        let self = self\<lparr>n_gossip_connect := connect\<rparr>
        in and_then (gossip_keys self) (\<lambda>self.
             gossip_sendx [Some ''CONNECT'', n_gossip_connect self, fst (zmsg_popstr request)] self))
      else if env_draft env \<and> streq command ''GOSSIP UNPUBLISH'' then
        gossip_sendx [Some ''UNPUBLISH'', fst (zmsg_popstr request)] self
      else if streq command ''START'' then
        and_then (zyre_node_start env self) (\<lambda>(rc, self). Inr (pipe_send (Reply_signal rc) self))
      else if streq command ''STOP'' then
        and_then (zyre_node_stop env self) (\<lambda>(rc, self). Inr (pipe_send (Reply_signal rc) self))
      else otherwise)"

section \<open>Messages\<close>

definition api_whisper :: "env \<Rightarrow> byte list list \<Rightarrow> zyre_node \<Rightarrow> zyre_node outcome" where
  "api_whisper env request self = pop_string request (\<lambda>identity request.
     case zhash_lookup (n_peers self) identity of
       None \<Rightarrow> Inr self
     | Some peer \<Rightarrow>
         let msg = zre_msg_set_id zre_msg_new ZRE_MSG_WHISPER;
             msg = zre_msg_set_content msg (Some request)
         in node_peer_send env peer msg self)"

definition api_shout :: "env \<Rightarrow> byte list list \<Rightarrow> zyre_node \<Rightarrow> zyre_node outcome" where
  "api_shout env request self = pop_string request (\<lambda>name request.
     case zhash_lookup (n_peer_groups self) name of
       None \<Rightarrow> Inr self
     | Some g \<Rightarrow>
         let msg = zre_msg_set_id zre_msg_new ZRE_MSG_SHOUT;
             msg = zre_msg_set_group msg name;
             msg = zre_msg_set_content msg (Some request)
         in node_group_send env g msg self)"

text \<open>A JOIN or LEAVE with the status counter after its increment.\<close>

definition status_message :: "int \<Rightarrow> string \<Rightarrow> zyre_node \<Rightarrow> zre_msg" where
  "status_message i name self
     = zre_msg_set_status (zre_msg_set_group (zre_msg_set_id zre_msg_new i) name) (n_status self)"

definition api_join :: "env \<Rightarrow> byte list list \<Rightarrow> zyre_node \<Rightarrow> zyre_node outcome" where
  "api_join env request self = pop_string request (\<lambda>name _.
     if \<not> zlist_exists (n_own_groups self) name then
       let self = self\<lparr>n_own_groups := n_own_groups self @ [name]\<rparr>;
           self = self\<lparr>n_status := n_status self + 1\<rparr>;
           msg = status_message ZRE_MSG_JOIN name self
       in each (zyre_node_send_peer env msg) (n_peers self) self
     else Inr self)"

definition api_leave :: "env \<Rightarrow> byte list list \<Rightarrow> zyre_node \<Rightarrow> zyre_node outcome" where
  "api_leave env request self = pop_string request (\<lambda>name _.
     if zlist_exists (n_own_groups self) name then
       let self = self\<lparr>n_status := n_status self + 1\<rparr>;
           msg = status_message ZRE_MSG_LEAVE name self
       in and_then (each (zyre_node_send_peer env msg) (n_peers self) self) (\<lambda>self.
            Inr (self\<lparr>n_own_groups := zlist_remove (n_own_groups self) name\<rparr>))
     else Inr self)"

section \<open>Queries\<close>

definition api_require_peer :: "env \<Rightarrow> byte list list \<Rightarrow> zyre_node \<Rightarrow> zyre_node outcome" where
  "api_require_peer env request self =
     (case zmsg_popstr request of (uuidstr, request) \<Rightarrow> case zmsg_popstr request of (endpoint, request) \<Rightarrow>
      case zmsg_popstr request of (public_key, request) \<Rightarrow>
      and_then (not_null endpoint) (\<lambda>endpoint.
      and_then (not_null (n_endpoint self)) (\<lambda>own.
        if \<not> streq endpoint own then
          and_then (not_null uuidstr) (\<lambda>uuidstr.
          and_then (zyre_node_require_peer env self (env_uuid_of_str env uuidstr) endpoint public_key)
            (\<lambda>(peer, self). Inr self))
        else Inr self)))"

text \<open>A null string is sent as an empty one.\<close>

definition api_peer_header :: "byte list list \<Rightarrow> zyre_node \<Rightarrow> zyre_node outcome" where
  "api_peer_header request self = pop_string request (\<lambda>uuid request. pop_string request (\<lambda>key _.
     case zhash_lookup (n_peers self) uuid of
       None \<Rightarrow> Inr (pipe_send (Reply_string '''') self)
     | Some peer \<Rightarrow> and_then (node_peer peer self) (\<lambda>p.
         Inr (pipe_send (Reply_string (case zyre_peer_header p key None of Some v \<Rightarrow> v | None \<Rightarrow> '''')) self))))"

definition api_query :: "env \<Rightarrow> string \<Rightarrow> byte list list \<Rightarrow> zyre_node \<Rightarrow> zyre_node outcome \<Rightarrow> zyre_node outcome" where
  "api_query env command request self otherwise =
     (if streq command ''PEERS'' then Inr (pipe_send (Reply_list (Some (zhash_keys (n_peers self)))) self)
      else if streq command ''REQUIRE PEER'' then api_require_peer env request self
      else if streq command ''GROUP PEERS'' then
        pop_string request (\<lambda>name _. Inr (pipe_send (Reply_list
          (map_option zyre_group_peers (zhash_lookup (n_peer_groups self) name))) self))
      else if streq command ''PEER ENDPOINT'' then
        pop_string request (\<lambda>uuid _. case zhash_lookup (n_peers self) uuid of
          None \<Rightarrow> Inr (pipe_send (Reply_string '''') self)
        | Some peer \<Rightarrow> and_then (node_peer peer self) (\<lambda>p. and_then (zyre_peer_endpoint p) (\<lambda>e.
            Inr (pipe_send (Reply_string e) self))))
      else if streq command ''PEER NAME'' then
        pop_string request (\<lambda>uuid _. case zhash_lookup (n_peers self) uuid of
          None \<Rightarrow> Inl Assertion_failed
        | Some peer \<Rightarrow> and_then (node_peer peer self) (\<lambda>p.
            Inr (pipe_send (Reply_string (zyre_peer_name p)) self)))
      else if streq command ''PEER HEADER'' then api_peer_header request self
      else if streq command ''PEER GROUPS'' then
        Inr (pipe_send (Reply_list (Some (zhash_keys (n_peer_groups self)))) self)
      else if streq command ''OWN GROUPS'' then Inr (pipe_send (Reply_list (Some (n_own_groups self))) self)
      else if streq command ''DUMP'' then Inr self
      else if streq command ''$TERM'' then Inr (self\<lparr>n_terminated := True\<rparr>)
      else otherwise)"

definition api_message :: "env \<Rightarrow> string \<Rightarrow> byte list list \<Rightarrow> zyre_node \<Rightarrow> zyre_node outcome \<Rightarrow> zyre_node outcome" where
  "api_message env command request self otherwise =
     (if streq command ''WHISPER'' then api_whisper env request self
      else if streq command ''SHOUT'' then api_shout env request self
      else if streq command ''JOIN'' then api_join env request self
      else if streq command ''LEAVE'' then api_leave env request self
      else otherwise)"

definition zyre_node_recv_api :: "env \<Rightarrow> byte list list \<Rightarrow> zyre_node \<Rightarrow> zyre_node outcome" where
  "zyre_node_recv_api env request self = pop_string request (\<lambda>command request.
     api_settings env command request self
       (api_network env command request self
         (api_message env command request self
           (api_query env command request self (Inl Assertion_failed)))))"

end
