(* ===== verification/Zyre_Event.thy ===== *)
theory Zyre_Event
  imports Zyre_Node_Api
begin

text \<open>
  The application's side: the requests of the public class (\<open>src/zyre.c\<close>) as the frames they write to
  the pipe of the node's actor, and the event class (\<open>src/zyre_event.c\<close>) that takes apart the messages
  the node writes to its outbox. Null strings are \<open>None\<close>.
\<close>

section \<open>Requests\<close>

definition pipe_sendm :: "string \<Rightarrow> zframe list" where
  "pipe_sendm s = [\<lparr>fr_data = str_bytes s, fr_more = True\<rparr>]"

definition pipe_str :: "string \<Rightarrow> zframe list" where
  "pipe_str s = [\<lparr>fr_data = str_bytes s, fr_more = False\<rparr>]"

text \<open>\<open>zstr_sendx\<close>: all strings before the first null one, as one message.\<close>

definition pipe_sendx :: "string option list \<Rightarrow> zframe list" where
  "pipe_sendx strs = multipart (map (str_bytes \<circ> the) (takeWhile (\<lambda>s. s \<noteq> None) strs))"

text \<open>\<open>zmsg_send\<close>: a message without frames sends nothing.\<close>

definition pipe_msg :: "byte list list \<Rightarrow> zframe list" where
  "pipe_msg content = multipart content"

definition zyre_new :: "string option \<Rightarrow> zframe list" where
  "zyre_new name = (case name of None \<Rightarrow> [] | Some n \<Rightarrow> pipe_sendx [Some ''SET NAME'', Some n, None])"

definition zyre_uuid :: "zframe list" where
  "zyre_uuid = pipe_sendx [Some ''UUID'', None]"

definition zyre_name :: "zframe list" where
  "zyre_name = pipe_sendx [Some ''NAME'', None]"

definition zyre_set_name :: "string \<Rightarrow> zframe list" where
  "zyre_set_name name = pipe_sendx [Some ''SET NAME'', Some name, None]"

text \<open>The format is expanded by the caller.\<close>

definition zyre_set_header :: "string \<Rightarrow> string \<Rightarrow> zframe list" where
  "zyre_set_header name value = pipe_sendx [Some ''SET HEADER'', Some name, Some value, None]"

definition zyre_set_verbose :: "zframe list" where
  "zyre_set_verbose = pipe_sendx [Some ''SET VERBOSE'', Some ''1'', None]"

definition zyre_set_port :: "int \<Rightarrow> zframe list" where
  "zyre_set_port port_nbr = pipe_sendm ''SET PORT'' @ pipe_str (c_dec port_nbr)"

definition zyre_set_beacon_peer_port :: "int \<Rightarrow> zframe list" where
  "zyre_set_beacon_peer_port port = pipe_sendm ''SET EPHEMERAL PORT'' @ pipe_str (c_dec port)"

definition zyre_set_evasive_timeout :: "int \<Rightarrow> zframe list" where
  "zyre_set_evasive_timeout interval = pipe_sendm ''SET EVASIVE TIMEOUT'' @ pipe_str (c_dec interval)"

definition zyre_set_silent_timeout :: "int \<Rightarrow> zframe list" where
  "zyre_set_silent_timeout interval = pipe_sendm ''SET SILENT TIMEOUT'' @ pipe_str (c_dec interval)"

definition zyre_set_expired_timeout :: "int \<Rightarrow> zframe list" where
  "zyre_set_expired_timeout interval = pipe_sendm ''SET EXPIRED TIMEOUT'' @ pipe_str (c_dec interval)"

definition zyre_set_interval :: "int \<Rightarrow> zframe list" where
  "zyre_set_interval interval = pipe_sendm ''SET INTERVAL'' @ pipe_str (c_dec interval)"

definition zyre_set_endpoint :: "string \<Rightarrow> zframe list" where
  "zyre_set_endpoint endpoint = pipe_sendx [Some ''SET ENDPOINT'', Some endpoint, None]"

definition zyre_set_contest_in_group :: "string \<Rightarrow> zframe list" where
  "zyre_set_contest_in_group name = pipe_sendx [Some ''SET CONTEST'', Some name, None]"

definition zyre_set_advertised_endpoint :: "string \<Rightarrow> zframe list" where
  "zyre_set_advertised_endpoint endpoint
     = pipe_sendx [Some ''SET ADVERTISED ENDPOINT'', Some endpoint, None]"

definition zyre_set_zcert :: "string \<Rightarrow> string \<Rightarrow> zframe list" where
  "zyre_set_zcert public secret = pipe_sendx [Some ''SET PUBLICKEY'', Some public, None]
     @ pipe_sendx [Some ''SET SECRETKEY'', Some secret, None]"

definition zyre_set_zap_domain :: "string \<Rightarrow> zframe list" where
  "zyre_set_zap_domain domain = pipe_sendx [Some ''ZAP DOMAIN'', Some domain, None]"

definition zyre_require_peer :: "string \<Rightarrow> string \<Rightarrow> string \<Rightarrow> zframe list" where
  "zyre_require_peer uuid endpoint public_key
     = pipe_sendx [Some ''REQUIRE PEER'', Some uuid, Some endpoint, Some public_key, None]"

definition zyre_gossip_bind :: "string \<Rightarrow> zframe list" where
  "zyre_gossip_bind endpoint = pipe_sendx [Some ''GOSSIP BIND'', Some endpoint, None]"

definition zyre_gossip_connect :: "string \<Rightarrow> zframe list" where
  "zyre_gossip_connect endpoint = pipe_sendx [Some ''GOSSIP CONNECT'', Some endpoint, None]"

definition zyre_gossip_connect_curve :: "string \<Rightarrow> string \<Rightarrow> zframe list" where
  "zyre_gossip_connect_curve public_key endpoint
     = pipe_sendx [Some ''GOSSIP CONNECT'', Some endpoint, Some public_key, None]"

definition zyre_gossip_unpublish :: "string \<Rightarrow> zframe list" where
  "zyre_gossip_unpublish node = pipe_sendx [Some ''GOSSIP UNPUBLISH'', Some node, None]"

definition zyre_start :: "zframe list" where
  "zyre_start = pipe_sendx [Some ''START'', None]"

definition zyre_stop :: "zframe list" where
  "zyre_stop = pipe_sendx [Some ''STOP'', None]"

text \<open>\<open>zsock_wait\<close> on the reply to \<open>zyre_start\<close> and \<open>zyre_set_endpoint\<close>.\<close>

definition wait_result :: "int \<Rightarrow> int" where
  "wait_result signal = (if signal = 0 then 0 else -1)"

definition zyre_join :: "string \<Rightarrow> zframe list" where
  "zyre_join name = pipe_sendx [Some ''JOIN'', Some name, None]"

definition zyre_leave :: "string \<Rightarrow> zframe list" where
  "zyre_leave name = pipe_sendx [Some ''LEAVE'', Some name, None]"

definition zyre_whisper :: "string \<Rightarrow> byte list list \<Rightarrow> zframe list" where
  "zyre_whisper peer content = pipe_sendm ''WHISPER'' @ pipe_sendm peer @ pipe_msg content"

definition zyre_shout :: "string \<Rightarrow> byte list list \<Rightarrow> zframe list" where
  "zyre_shout name content = pipe_sendm ''SHOUT'' @ pipe_sendm name @ pipe_msg content"

definition zyre_whispers :: "string \<Rightarrow> string \<Rightarrow> zframe list" where
  "zyre_whispers peer text = pipe_sendm ''WHISPER'' @ pipe_sendm peer @ pipe_str text"

definition zyre_shouts :: "string \<Rightarrow> string \<Rightarrow> zframe list" where
  "zyre_shouts name text = pipe_sendm ''SHOUT'' @ pipe_sendm name @ pipe_str text"

definition zyre_peers :: "zframe list" where
  "zyre_peers = pipe_str ''PEERS''"

definition zyre_peers_by_group :: "string \<Rightarrow> zframe list" where
  "zyre_peers_by_group name = pipe_sendm ''GROUP PEERS'' @ pipe_str name"

definition zyre_peer_address :: "string \<Rightarrow> zframe list" where
  "zyre_peer_address peer = pipe_sendm ''PEER ENDPOINT'' @ pipe_str peer"

definition zyre_peer_header_value :: "string \<Rightarrow> string \<Rightarrow> zframe list" where
  "zyre_peer_header_value peer name = pipe_sendm ''PEER HEADER'' @ pipe_sendm peer @ pipe_str name"

definition zyre_own_groups :: "zframe list" where
  "zyre_own_groups = pipe_str ''OWN GROUPS''"

definition zyre_peer_groups :: "zframe list" where
  "zyre_peer_groups = pipe_str ''PEER GROUPS''"

section \<open>Events\<close>

record zyre_event =
  ev_type :: "string option"
  ev_peer_uuid :: "string option"
  ev_peer_name :: "string option"
  ev_peer_addr :: "string option"
  ev_headers :: "string zhash option"
  ev_group :: "string option"
  ev_msg :: "byte list list option"

text \<open>
  \<open>zyre_recv\<close> reads one message; \<open>unpack\<close> is \<open>zhash_unpack\<close>. Comparing the type of an event without
  frames follows a null pointer.
\<close>

definition zyre_event_parse :: "(byte list \<Rightarrow> string zhash option) \<Rightarrow> byte list list \<Rightarrow> zyre_event outcome" where
  "zyre_event_parse unpack msg =
     (case zmsg_popstr msg of (type, msg) \<Rightarrow> case zmsg_popstr msg of (uuid, msg) \<Rightarrow>
      case zmsg_popstr msg of (name, msg) \<Rightarrow>
      let self = \<lparr>ev_type = type, ev_peer_uuid = uuid, ev_peer_name = name, ev_peer_addr = None,
                  ev_headers = None, ev_group = None, ev_msg = None\<rparr>
      in and_then (not_null type) (\<lambda>type.
        if streq type ''ENTER'' then
          (case msg of
             [] \<Rightarrow> Inr (self\<lparr>ev_peer_addr := None\<rparr>)
           | headers # msg \<Rightarrow> Inr (self\<lparr>ev_headers := unpack headers, ev_peer_addr := fst (zmsg_popstr msg)\<rparr>))
        else if streq type ''JOIN'' then Inr (self\<lparr>ev_group := fst (zmsg_popstr msg)\<rparr>)
        else if streq type ''LEAVE'' then Inr (self\<lparr>ev_group := fst (zmsg_popstr msg)\<rparr>)
        else if streq type ''WHISPER'' then Inr (self\<lparr>ev_msg := Some msg\<rparr>)
        else if streq type ''SHOUT'' then
          (case zmsg_popstr msg of (name, msg) \<Rightarrow> Inr (self\<lparr>ev_group := name, ev_msg := Some msg\<rparr>))
        else if streq type ''LEADER'' then Inr (self\<lparr>ev_group := fst (zmsg_popstr msg)\<rparr>)
        else Inr self))"

definition zyre_event_new :: "(byte list \<Rightarrow> string zhash option) \<Rightarrow> zframe list
    \<Rightarrow> (zyre_event \<times> zframe list) outcome" where
  "zyre_event_new unpack inbox = (case zmsg_recv_rest inbox of (msg, inbox) \<Rightarrow>
     and_then (zyre_event_parse unpack msg) (\<lambda>event. Inr (event, inbox)))"

definition zyre_event_header :: "zyre_event \<Rightarrow> string \<Rightarrow> string option" where
  "zyre_event_header self name = (case ev_headers self of
     None \<Rightarrow> None | Some headers \<Rightarrow> zhash_lookup headers name)"

section \<open>What the two sides make of each other\<close>

lemma zmsg_recv_sendm [simp]: "zmsg_recv_rest (pipe_sendm s @ fs)
    = (case zmsg_recv_rest fs of (ds, rest) \<Rightarrow> (str_bytes s # ds, rest))"
  by (simp add: pipe_sendm_def split: prod.split)

lemma zmsg_recv_str [simp]: "zmsg_recv_rest (pipe_str s @ fs) = ([str_bytes s], fs)"
  by (simp add: pipe_str_def)

lemma zmsg_recv_sendx [simp]:
  "zmsg_recv_rest (pipe_sendx (Some s # strs) @ fs)
     = (map (str_bytes \<circ> the) (takeWhile (\<lambda>s. s \<noteq> None) (Some s # strs)), fs)"
  by (simp add: pipe_sendx_def)

lemma zmsg_recv_msg [simp]: "ds \<noteq> [] \<Longrightarrow> zmsg_recv_rest (pipe_msg ds @ fs) = (ds, fs)"
  by (simp add: pipe_msg_def)

lemma pipe_msg_Nil [simp]: "pipe_msg [] = []"
  by (simp add: pipe_msg_def)

lemma zmsg_popstr_simps [simp]:
  "zmsg_popstr [] = (None, [])"
  "zmsg_popstr (f # fs) = (Some (cstr f), fs)"
  by (simp_all add: zmsg_popstr_def)

end
