(* ===== verification/Zyre_Node_Actor.thy ===== *)
theory Zyre_Node_Actor
  imports Zyre_Node_Api
begin

text \<open>
  Discovery, the once-a-second check of all peers, and the loop of the node's actor
  (\<open>src/zyre_node.c\<close>, \<open>zyre_node_recv_beacon\<close> to \<open>zyre_node_actor\<close>).
\<close>

section \<open>Beacons\<close>

text \<open>The beacon structure: zeroed, then overwritten by a frame of one of the two sizes.\<close>

definition beacon_of :: "byte list \<Rightarrow> byte list" where
  "beacon_of frame = (if length frame = 22 \<or> length frame = 54
     then frame @ replicate (54 - length frame) 0 else replicate 54 0)"

definition beacon_port :: "byte list \<Rightarrow> int" where
  "beacon_port beacon = 256 * uint (beacon ! 20) + uint (beacon ! 21)"

definition zyre_node_recv_beacon :: "env \<Rightarrow> string \<Rightarrow> byte list \<Rightarrow> zyre_node \<Rightarrow> zyre_node outcome" where
  "zyre_node_recv_beacon env ipaddress frame self =
     (let beacon = beacon_of frame; version = beacon ! 3; key = drop 22 beacon in
      if version \<noteq> n_beacon_version self then Inr self
      else if n_secret_key self \<noteq> None \<and> hd key = 0 then Inr self
      else
        let uuid = env_uuid_of env (take 16 (drop 4 beacon)) in
        if beacon_port beacon \<noteq> 0 then
          let endpoint = ''tcp://'' @ ipaddress @ '':'' @ c_dec (beacon_port beacon);
              public_key = (if version = BEACON_VERSION_V3 then Some (env_z85_encode env key) else None)
          in if NI_MAXHOST \<le> length endpoint then Inl Buffer_overflow
             else and_then (zyre_node_require_peer env self uuid endpoint public_key) (\<lambda>(peer, self). Inr self)
        else case zhash_lookup (n_peers self) (uu_str uuid) of
            None \<Rightarrow> Inr self
          | Some peer \<Rightarrow> zyre_node_remove_peer env peer self)"

section \<open>Gossip\<close>

text \<open>The endpoint before a bar, and the key behind it.\<close>

definition split_key :: "string \<Rightarrow> string \<times> string option" where
  "split_key endpoint = (case c_strchr endpoint (CHR ''|'') of
     None \<Rightarrow> (endpoint, None) | Some (e, key) \<Rightarrow> (e, Some (tl key)))"

definition zyre_node_recv_gossip :: "env \<Rightarrow> string \<Rightarrow> string \<Rightarrow> string \<Rightarrow> zyre_node \<Rightarrow> zyre_node outcome" where
  "zyre_node_recv_gossip env command uuidstr endpoint self =
     assert_that (streq command ''DELIVER'')
       (case split_key endpoint of (endpoint, public_key) \<Rightarrow>
        and_then (not_null (n_endpoint self)) (\<lambda>own.
          if \<not> streq endpoint own
             \<and> (case n_advertised_endpoint self of None \<Rightarrow> True | Some a \<Rightarrow> \<not> streq endpoint a)
          then and_then (zyre_node_require_peer env self (env_uuid_of_str env uuidstr) endpoint public_key)
                 (\<lambda>(peer, self). Inr self)
          else Inr self))"

section \<open>Quiet peers\<close>

definition peer_event :: "string \<Rightarrow> zyre_peer \<Rightarrow> zyre_node \<Rightarrow> zyre_node" where
  "peer_event event p self = outbox_send (zyre_peer_name p)
     (outbox_sendm (zyre_peer_identity p) (outbox_sendm event self))"

text \<open>The result tells whether the peer was removed.\<close>

definition zyre_node_ping_peer :: "env \<Rightarrow> string \<times> addr \<Rightarrow> zyre_node \<Rightarrow> (bool \<times> zyre_node) outcome" where
  "zyre_node_ping_peer env item self = and_then (node_peer (snd item) self) (\<lambda>p.
     case zclock_mono env self of (now, self) \<Rightarrow>
     if zyre_peer_expired_at p \<le> sint now then
       and_then (zyre_node_remove_peer env (snd item) self) (\<lambda>self. Inr (True, self))
     else case zclock_mono env self of (now, self) \<Rightarrow>
     if zyre_peer_evasive_at p \<le> sint now then
       and_then (node_peer_send env (snd item) (zre_msg_set_id zre_msg_new ZRE_MSG_PING) self) (\<lambda>self.
       case zclock_mono env (peer_event ''EVASIVE'' p self) of (now, self) \<Rightarrow>
       if zyre_peer_evasive_at p + uint (s_reap_interval self) \<le> sint now
       then Inr (False, peer_event ''SILENT'' p self)
       else Inr (False, self))
     else Inr (False, self))"

text \<open>The walk over the table; removing a peer may make it miss others, as \<open>env_skips\<close> says.\<close>

fun reap_peers :: "env \<Rightarrow> (string \<times> addr) list \<Rightarrow> zyre_node \<Rightarrow> zyre_node outcome" where
  "reap_peers env [] self = Inr self"
| "reap_peers env (item # items) self =
     and_then (zyre_node_ping_peer env item self) (\<lambda>(gone, self).
       reap_peers env (if gone then filter (\<lambda>e. \<not> env_skips env (fst item) (fst e)) items else items) self)"

section \<open>The actor\<close>

text \<open>Start the beacon as soon as the node has one and no port yet.\<close>

definition actor_beacon :: "env \<Rightarrow> zyre_node \<Rightarrow> zyre_node outcome" where
  "actor_beacon env self =
     (if n_beacon self \<noteq> None \<and> n_port self \<le> 0 then
        and_then (beacon_send (Beacon_configure (n_beacon_port self)) self) (\<lambda>self.
        if env_beacon_host env = [] then Inr self
        else
          let iface = env_interface env;
              host = (if env_ipv6 env \<and> iface \<noteq> [] \<and> \<not> streq iface ''*'' \<and> env_ipv6_address env \<noteq> []
                      then env_ipv6_address env @ ''%'' @ iface else env_beacon_host env);
              ephemeral = (case n_ephemeral_port self of Some e \<Rightarrow> e | None \<Rightarrow> ''*'');
              self = self\<lparr>n_port := env_bind env (''tcp://'' @ host @ '':'' @ ephemeral)\<rparr>
          in if 0 < n_port self then
               assert_that (n_endpoint self = None)
                 (let endpoint = (if streq iface ''*''
                        then ''tcp://'' @ env_hostname env @ '':'' @ c_dec (n_port self) else env_bound env);
                      self = self\<lparr>n_endpoint := Some endpoint\<rparr>
                  in and_then (beacon_frame env self (n_port self)) (\<lambda>beacon.
                     and_then (beacon_send (Beacon_publish beacon (n_interval self)) self) (\<lambda>self.
                     and_then (beacon_send (Beacon_subscribe zre_protocol) self) (\<lambda>self.
                       Inr (zpoller_add Inbox (zpoller_add Beacon self))))))
             else Inr self)
      else Inr self)"

text \<open>The poller's timer has run out.\<close>

definition actor_reap :: "env \<Rightarrow> zyre_node \<Rightarrow> zyre_node outcome" where
  "actor_reap env self = (case zclock_mono env self of (now, self) \<Rightarrow>
     if sint (n_last_reaped_at self) + uint (s_reap_interval self) \<le> sint now then
       (case zclock_mono env self of (now, self) \<Rightarrow>
        let self = self\<lparr>n_last_reaped_at := now\<rparr> in reap_peers env (n_peers self) self)
     else Inr self)"

text \<open>What makes the actor's poller return, with the data read from the socket.\<close>

datatype wake = Wake_api "byte list list" | Wake_inbox | Wake_beacon string "byte list"
  | Wake_gossip string string string | Wake_timer

definition actor_handle :: "env \<Rightarrow> wake \<Rightarrow> zyre_node \<Rightarrow> zyre_node outcome" where
  "actor_handle env w self = (case w of
     Wake_api request \<Rightarrow> zyre_node_recv_api env request self
   | Wake_inbox \<Rightarrow> zyre_node_recv_peer env self
   | Wake_beacon ip frame \<Rightarrow> zyre_node_recv_beacon env ip frame self
   | Wake_gossip command uuid endpoint \<Rightarrow> zyre_node_recv_gossip env command uuid endpoint self
   | Wake_timer \<Rightarrow> actor_reap env self)"

text \<open>The sockets the poller watches.\<close>

definition wake_enabled :: "wake \<Rightarrow> zyre_node \<Rightarrow> bool" where
  "wake_enabled w self = (case w of
     Wake_api request \<Rightarrow> List.member (n_poller self) Pipe
   | Wake_inbox \<Rightarrow> List.member (n_poller self) Inbox \<and> n_inbox self \<noteq> []
   | Wake_beacon ip frame \<Rightarrow> List.member (n_poller self) Beacon
   | Wake_gossip command uuid endpoint \<Rightarrow> List.member (n_poller self) Gossip
   | Wake_timer \<Rightarrow> True)"

text \<open>One turn of the loop of \<open>zyre_node_actor\<close>.\<close>

definition zyre_node_actor :: "env \<Rightarrow> wake \<Rightarrow> zyre_node \<Rightarrow> zyre_node outcome" where
  "zyre_node_actor env w self = and_then (actor_beacon env self) (\<lambda>self.
     if wake_enabled w self then actor_handle env w self else Inr self)"

text \<open>The node's states: turns of the loop, and frames that arrive on the inbox in between.\<close>

inductive actor_step :: "zyre_node \<Rightarrow> zyre_node \<Rightarrow> bool" where
  turn: "\<not> n_terminated self \<Longrightarrow> zyre_node_actor env w self = Inr s \<Longrightarrow> actor_step self s"
| arrive: "actor_step self (self\<lparr>n_inbox := n_inbox self @ frames\<rparr>)"

inductive_cases actor_stepE: "actor_step self s"

text \<open>What the actor does before its loop: the node, the signal to the caller, the first reading.\<close>

definition actor_start :: "env \<Rightarrow> zuuid \<Rightarrow> zyre_node option" where
  "actor_start env uuid = (case zyre_node_new env uuid of
     None \<Rightarrow> None
   | Some self \<Rightarrow> (case zclock_mono env (pipe_send (Reply_signal 0) self) of
       (now, self) \<Rightarrow> Some (self\<lparr>n_last_reaped_at := now\<rparr>)))"

definition actor_initial :: "zyre_node \<Rightarrow> bool" where
  "actor_initial self \<longleftrightarrow> (\<exists>env uuid. actor_start env uuid = Some self)"

inductive actor_reachable :: "zyre_node \<Rightarrow> bool" where
  initial: "actor_initial self \<Longrightarrow> actor_reachable self"
| step: "actor_reachable self \<Longrightarrow> actor_step self s \<Longrightarrow> actor_reachable s"

end
