(* ===== verification/Zyre_Node_Actor_Inv.thy ===== *)
theory Zyre_Node_Actor_Inv
  imports Zyre_Node_Actor
begin

text \<open>
  The invariant of the node's tables over the whole life of the actor: construction gives it, and
  every command, message, beacon, gossip delivery and timer keeps it.
\<close>

section \<open>Operations that leave the tables alone\<close>

text \<open>The tables, the objects and the node's own groups are those of another state.\<close>

definition same_tables :: "zyre_node \<Rightarrow> zyre_node \<Rightarrow> bool" where
  "same_tables self s \<longleftrightarrow> n_heap s = n_heap self \<and> n_next s = n_next self \<and> n_peers s = n_peers self
     \<and> n_peer_groups s = n_peer_groups self \<and> n_own_groups s = n_own_groups self \<and> n_status s = n_status self"

lemma same_tables_ok: "same_tables self s \<Longrightarrow> node_ok s = node_ok self"
  by (simp add: same_tables_def node_ok_def)

lemma same_tables_refl [simp]: "same_tables self self"
  by (simp add: same_tables_def)

lemma same_tables_trans: "same_tables a b \<Longrightarrow> same_tables b c \<Longrightarrow> same_tables a c"
  by (simp add: same_tables_def)

lemma same_tables_updates [simp]:
  "same_tables a (pipe_send r b) = same_tables a b"
  "same_tables a (outbox_send s b) = same_tables a b"
  "same_tables a (outbox_sendm s b) = same_tables a b"
  "same_tables a (zpoller_add x b) = same_tables a b"
  "same_tables a (zpoller_remove x b) = same_tables a b"
  "same_tables a (snd (zclock_mono env b)) = same_tables a b"
  by (simp_all add: same_tables_def pipe_send_def outbox_send_def outbox_sendm_def zpoller_add_def
      zpoller_remove_def zclock_mono_def)

lemma node_ok_updates [simp]:
  "node_ok (pipe_send r b) = node_ok b"
  "node_ok (zpoller_add x b) = node_ok b"
  "node_ok (zpoller_remove x b) = node_ok b"
  "node_ok (b\<lparr>n_ticks := t\<rparr>) = node_ok b"
  "node_ok (b\<lparr>n_inbox := i\<rparr>) = node_ok b"
  "node_ok (b\<lparr>n_beacon := bc\<rparr>) = node_ok b"
  "node_ok (b\<lparr>n_own_groups := gs\<rparr>) = node_ok b"
  "node_ok (b\<lparr>n_status := st\<rparr>) = node_ok b"
  "node_ok (b\<lparr>n_terminated := tm\<rparr>) = node_ok b"
  "node_ok (b\<lparr>n_last_reaped_at := r'\<rparr>) = node_ok b"
  "node_ok (snd (zclock_mono env b)) = node_ok b"
  by (simp_all add: node_ok_def pipe_send_def zpoller_add_def zpoller_remove_def zclock_mono_def)

lemma tables_gossip: "ensures (gossip_sendx strs self) (same_tables self)"
  by (cases "n_gossip self") (simp_all add: gossip_sendx_def same_tables_def)

lemma tables_beacon: "ensures (beacon_send cmd self) (same_tables self)"
  by (cases "n_beacon self") (simp_all add: beacon_send_def same_tables_def)

lemma tables_gossip_start: "ensures (zyre_node_gossip_start env self) (same_tables self)"
  by (simp add: zyre_node_gossip_start_def Let_def same_tables_def ensures_assert_that)

lemma tables_cert: "ensures (node_apply_cert env self) (same_tables self)"
  by (simp add: node_apply_cert_def same_tables_def split: option.split)

lemma tables_bind:
  assumes "ensures m (same_tables self)" and "\<And>s. same_tables self s \<Longrightarrow> ensures (f s) (same_tables self)"
  shows "ensures (and_then m f) (same_tables self)"
  using assms by (rule ensures_and_then)

lemma tables_gossip_keys: "ensures (gossip_keys self) (same_tables self)"
proof -
  have "ensures (gossip_sendx x s) (same_tables self)" if "same_tables self s" for x s
    by (rule ensures_weaken [OF tables_gossip]) (rule same_tables_trans [OF that])
  then show ?thesis
    by (auto simp: gossip_keys_def split: option.split intro!: tables_bind [OF tables_gossip])
qed

lemma ensures_mechanism: "ensures r Q \<Longrightarrow> ensures (node_check_mechanism env s r) Q"
  by (simp add: node_check_mechanism_def ensures_assert_that)

lemma tables_start_gossip: "ensures (node_start_gossip env self) (\<lambda>(rc, s). same_tables self s)"
proof -
  have send: "ensures (gossip_sendx x s) (same_tables self)" if "same_tables self s" for x s
    by (rule ensures_weaken [OF tables_gossip]) (rule same_tables_trans [OF that])
  have first: "ensures (case n_endpoint self of
         Some endpoint \<Rightarrow> Inr self
       | None \<Rightarrow>
           let iface = (if streq (env_interface env) '''' then ''*'' else env_interface env);
               self = self\<lparr>n_port := env_bind env (''tcp://'' @ iface @ '':*'')\<rparr>
           in assert_that (0 < n_port self)
             (Inr (self\<lparr>n_endpoint := Some (''tcp://'' @ env_hostname env @ '':'' @ c_dec (n_port self))\<rparr>)))
      (same_tables self)"
    by (auto simp: Let_def same_tables_def intro!: ensures_assert_that split: option.split)
  have rest: "ensures (assert_that (n_gossip s \<noteq> None)
          (and_then (not_null (n_endpoint s)) (\<lambda>endpoint.
           and_then (gossip_sendx [Some ''PUBLISH'', Some (uu_str (n_uuid s)),
                      Some (published_endpoint s endpoint)] s)
             (\<lambda>s. node_check_mechanism env s
                (Inr (0, zpoller_add Inbox (zpoller_add Gossip s)))))))
      (\<lambda>(rc, s). same_tables self s)" if "same_tables self s" for s
    by (intro ensures_assert_that ensures_and_then [OF ensures_not_null] ensures_and_then [OF send [OF that]]
        ensures_mechanism) simp_all
  show ?thesis
    unfolding node_start_gossip_def using first rest by (rule ensures_and_then)
qed

lemma tables_start: "ensures (zyre_node_start env self) (\<lambda>(rc, s). same_tables self s)"
proof -
  have "ensures (node_start_beacon env s) (\<lambda>(rc, t). same_tables s t)" for s
    by (auto simp: node_start_beacon_def Let_def same_tables_def intro!: ensures_assert_that ensures_mechanism)
  then have "ensures (if b then node_start_beacon env s else node_start_gossip env s) (\<lambda>(rc, t). same_tables self t)"
    if "same_tables self s" for b s
    using tables_start_gossip [of env s] same_tables_trans [OF that]
    by (auto intro: ensures_weaken)
  then show ?thesis unfolding zyre_node_start_def
    by (intro ensures_and_then [OF tables_cert])
qed

section \<open>Commands\<close>

lemma safe_stop:
  assumes "node_ok self"
  shows "ensures (zyre_node_stop env self) (\<lambda>(rc, s). node_ok s)"
proof -
  have goodbye: "ensures (if b then each (\<lambda>item. node_peer_send env (snd item) m) items self else Inr self) node_ok"
    for b m items
    using ensures_weaken [OF safe_each [OF assms, of "\<lambda>item. node_peer_send env (snd item) m" items]] safe_peer_send safeD
      assms by simp
  have beacon: "ensures (if b then and_then (beacon_frame env s 0) (\<lambda>beacon.
                    and_then (beacon_send (Beacon_publish beacon (n_interval s)) s) (\<lambda>self.
                      Inr ((zpoller_remove Beacon self)\<lparr>n_beacon := None\<rparr>)))
               else Inr s) node_ok" if s: "node_ok s" for b s
  proof -
    have "ensures (beacon_send c s) node_ok" for c
      by (rule ensures_weaken [OF tables_beacon]) (use s same_tables_ok in blast)
    then show ?thesis using s by (auto simp: ensures_def)
  qed
  show ?thesis unfolding zyre_node_stop_def Let_def
    by (intro ensures_and_then [OF goodbye] ensures_and_then [OF beacon]) simp_all
qed

lemma ensures_pop: "(\<And>s rest. ensures (k s rest) Q) \<Longrightarrow> ensures (pop_string request k) Q"
  by (auto simp: pop_string_def ensures_def split: prod.splits)

lemma node_ok_settings:
  assumes "node_ok self" and "ensures otherwise node_ok"
  shows "ensures (api_settings env command request self otherwise) node_ok"
proof -
  have contest: "ensures (case zyre_node_require_peer_group env name self of (g, s) \<Rightarrow>
      Inr (put_group name (zyre_group_set_contest g) s)) (safe self)" for name
    by (rule safe_require_group [OF assms(1)]) (auto intro!: safeI steady_group dest: safeD)
  have own: "node_ok s" if "n_heap s = n_heap self" "n_next s = n_next self" "n_peers s = n_peers self"
    "n_peer_groups s = n_peer_groups self" for s
    using assms(1) that by (simp add: node_ok_def)
  show ?thesis unfolding api_settings_def
    by (intro ensures_if ensures_pop assms(2) ensures_weaken [OF contest safeD(2)])
      (simp_all add: own pipe_send_def)
qed

text \<open>Of the commands about the network only STOP does more than leave the tables alone.\<close>

lemma network_ensures:
  assumes "\<And>s. same_tables self s \<Longrightarrow> Q s" and "ensures otherwise Q"
    and "ensures (zyre_node_stop env self) (\<lambda>(rc, s). Q (pipe_send (Reply_signal rc) s))"
  shows "ensures (api_network env command request self otherwise) Q"
proof -
  have ok: "ensures m Q" if "ensures m (same_tables self)" for m
    using that by (rule ensures_weaken) (rule assms(1))
  have send: "ensures (gossip_sendx x s) (same_tables self)" if "same_tables self s" for x s
    by (rule ensures_weaken [OF tables_gossip]) (rule same_tables_trans [OF that])
  have keys: "ensures (and_then (gossip_keys s) (\<lambda>s. gossip_sendx (x s) s)) (same_tables self)"
    if "same_tables self s" for x s
    by (rule tables_bind [OF ensures_weaken [OF tables_gossip_keys]]) (auto intro: same_tables_trans [OF that] send)
  have endpoint: "ensures (api_set_endpoint env request self) (same_tables self)"
  proof -
    have cert: "ensures (node_apply_cert env s) (same_tables self)" if "same_tables self s" for s
      by (rule ensures_weaken [OF tables_cert]) (rule same_tables_trans [OF that])
    show ?thesis unfolding api_set_endpoint_def
      by (intro tables_bind [OF tables_gossip_start] ensures_pop tables_bind [OF cert])
        (auto intro!: ensures_mechanism simp: same_tables_def pipe_send_def)
  qed
  have bind: "ensures (and_then (zyre_node_gossip_start env self) (\<lambda>self.
        let self = self\<lparr>n_gossip_bind := fst (zmsg_popstr request)\<rparr>
        in and_then (gossip_keys self) (\<lambda>self. gossip_sendx [Some ''BIND'', n_gossip_bind self] self)))
      (same_tables self)"
    unfolding Let_def by (intro tables_bind [OF tables_gossip_start] keys) (simp add: same_tables_def)
  have conn: "ensures (and_then (zyre_node_gossip_start env self) (\<lambda>self.
        case zmsg_popstr request of (connect, request) \<Rightarrow>
        let self = self\<lparr>n_gossip_connect := connect\<rparr>
        in and_then (gossip_keys self) (\<lambda>self.
             gossip_sendx [Some ''CONNECT'', n_gossip_connect self, fst (zmsg_popstr request)] self)))
      (same_tables self)"
    unfolding Let_def prod.case_distrib
    by (intro tables_bind [OF tables_gossip_start])
      (auto split: prod.split intro!: keys simp: same_tables_def)
  have start: "ensures (and_then (zyre_node_start env self) (\<lambda>(rc, s). Inr (pipe_send (Reply_signal rc) s))) (same_tables self)"
    by (rule ensures_and_then2 [OF tables_start]) simp
  have stop: "ensures (and_then (zyre_node_stop env self) (\<lambda>(rc, s). Inr (pipe_send (Reply_signal rc) s))) Q"
    by (rule ensures_and_then2 [OF assms(3)]) simp
  have pops: "ensures (pop_string request (\<lambda>key _. Inr (self\<lparr>n_public_key := Some key, n_headers := h key\<rparr>))) Q"
    "ensures (pop_string request (\<lambda>key _. Inr (self\<lparr>n_secret_key := Some key\<rparr>))) Q"
    "ensures (pop_string request (\<lambda>key _. Inr (self\<lparr>n_zap_domain := key\<rparr>))) Q" for h
    by (intro ok ensures_pop, simp add: same_tables_def)+
  show ?thesis unfolding api_network_def
    by (intro ensures_if ok [OF endpoint] ok [OF bind] ok [OF conn] ok [OF start] stop pops
        ok [OF tables_gossip] assms(2))
qed

lemma node_ok_network:
  assumes "node_ok self" and "ensures otherwise node_ok"
  shows "ensures (api_network env command request self otherwise) node_ok"
proof (rule network_ensures)
  show "node_ok s" if "same_tables self s" for s using same_tables_ok [OF that] assms(1) by simp
  show "ensures (zyre_node_stop env self) (\<lambda>(rc, s). node_ok (pipe_send (Reply_signal rc) s))"
    using safe_stop [OF assms(1)] by simp
qed (rule assms(2))

lemma safe_send_peers: "node_ok self \<Longrightarrow> ensures (each (zyre_node_send_peer env msg) items self) (safe self)"
  by (rule safe_each) (auto intro: safe_ensures steady_send_peer)

lemma node_ok_message:
  assumes "node_ok self" and "ensures otherwise node_ok"
  shows "ensures (api_message env command request self otherwise) node_ok"
proof -
  have whisper: "ensures (api_whisper env request self) node_ok"
    unfolding api_whisper_def
    using ensures_weaken [OF safe_peer_send [OF assms(1)] safeD(2)] assms(1)
    by (auto intro!: ensures_pop simp: Let_def split: option.split)
  have shout: "ensures (api_shout env request self) node_ok"
    unfolding api_shout_def
    using ensures_weaken [OF safe_group_send [OF assms(1)] safeD(2)] assms(1)
    by (auto intro!: ensures_pop simp: Let_def split: option.split)
  have sends: "ensures (each (zyre_node_send_peer env msg) items s) node_ok" if "node_ok s" for msg items s
    by (rule ensures_weaken [OF safe_send_peers [OF that] safeD(2)])
  have join: "ensures (api_join env request self) node_ok"
    unfolding api_join_def Let_def by (intro ensures_pop ensures_if sends) (simp_all add: assms(1))
  have leave: "ensures (api_leave env request self) node_ok"
    unfolding api_leave_def Let_def
    by (intro ensures_pop ensures_if ensures_and_then [OF sends]) (simp_all add: assms(1))
  show ?thesis unfolding api_message_def
    by (intro ensures_if whisper shout join leave assms(2))
qed

lemma node_ok_require:
  assumes "node_ok self"
  shows "ensures (and_then (zyre_node_require_peer env self uuid e key) (\<lambda>(peer, s). Inr s)) node_ok"
  by (rule ensures_and_then2 [OF require_peer_keeps [OF assms]]) (simp add: required_def)

lemma node_ok_query:
  assumes "node_ok self" and "ensures otherwise node_ok"
  shows "ensures (api_query env command request self otherwise) node_ok"
proof -
  have "node_ok s" if "zyre_node_require_peer env self uuid e key = Inr (r, s)" for uuid e key r s
    using ensuresD [OF require_peer_keeps [OF assms(1)] that] by (simp add: required_def)
  then have req: "ensures (api_require_peer env request self) node_ok"
    using assms(1) by (auto simp: api_require_peer_def ensures_def split: prod.splits if_splits)
  have header: "ensures (api_peer_header request self) node_ok"
    unfolding api_peer_header_def
    using assms(1) by (auto intro!: ensures_pop steady_node_peer split: option.split)
  have ep: "ensures (and_then (node_peer a self) (\<lambda>p. and_then (r p) (\<lambda>e. Inr (pipe_send (f e) self)))) node_ok" for a r f
    using assms(1) by (auto intro!: steady_node_peer simp: ensures_def)
  have nm: "ensures (and_then (node_peer a self) (\<lambda>p. Inr (pipe_send (f p) self))) node_ok" for a f
    using assms(1) by (auto intro!: steady_node_peer)
  have o: "ensures (case x of None \<Rightarrow> m | Some a \<Rightarrow> f a) node_ok" if "ensures m node_ok" "\<And>a. ensures (f a) node_ok"
    for x :: "addr option" and m f
    using that by (simp split: option.split)
  show ?thesis unfolding api_query_def
    by (intro ensures_if req header ensures_pop o ep nm assms(2))
      (simp_all add: assms(1))
qed

lemma node_ok_api: "node_ok self \<Longrightarrow> ensures (zyre_node_recv_api env request self) node_ok"
  unfolding zyre_node_recv_api_def
  by (intro ensures_pop node_ok_settings node_ok_network node_ok_message node_ok_query) simp_all

section \<open>Messages, discovery and the timer\<close>

lemma node_ok_recv_peer:
  assumes "node_ok self"
  shows "ensures (zyre_node_recv_peer env self) node_ok"
proof -
  obtain rc msg input where r: "zre_msg_recv (env_rank env) True zre_msg_new (n_inbox self) = (rc, msg, input)"
    by (rule prod_cases3)
  have "ensures (recv_from env u msg (self\<lparr>n_inbox := input\<rparr>)) node_ok" for u
    by (rule ensures_weaken [OF kept_from]) (simp_all add: assms node_kept_def)
  then show ?thesis using assms
    by (auto simp: zyre_node_recv_peer_def r Let_def split: option.split)
qed

lemma node_ok_remove: "node_ok self \<Longrightarrow> ensures (zyre_node_remove_peer env a self) node_ok"
  by (rule ensures_weaken [OF remove_peer_keeps]) (simp_all add: removed_def)

lemma node_ok_recv_beacon: "node_ok self \<Longrightarrow> ensures (zyre_node_recv_beacon env ip frame self) node_ok"
  unfolding zyre_node_recv_beacon_def Let_def
  by (intro ensures_if node_ok_require) (auto split: option.split intro: node_ok_remove)

lemma node_ok_recv_gossip: "node_ok self \<Longrightarrow> ensures (zyre_node_recv_gossip env c u e self) node_ok"
  unfolding zyre_node_recv_gossip_def
  by (intro ensures_assert_that)
    (auto split: prod.split option.split intro!: ensures_and_then [OF ensures_not_null] ensures_if node_ok_require)

lemma node_ok_clock: "node_ok self \<Longrightarrow> zclock_mono env self = (now, s) \<Longrightarrow> node_ok s"
  by (auto simp: zclock_mono_def)

lemma node_ok_ping:
  assumes "node_ok self"
  shows "ensures (zyre_node_ping_peer env item self) (\<lambda>(gone, s). node_ok s)"
proof -
  have send: "ensures (node_peer_send env a m s) node_ok" if "node_ok s" for a m s
    by (rule ensures_weaken [OF safe_peer_send [OF that] safeD(2)])
  have event: "node_ok (peer_event e p s) = node_ok s" for e p s
    by (simp add: peer_event_def)
  have rem: "ensures (and_then (zyre_node_remove_peer env a s) (\<lambda>s. Inr (True, s))) (\<lambda>(gone, s). node_ok s)"
    if "node_ok s" for a s
    by (rule ensures_and_then [OF node_ok_remove [OF that]]) simp
  show ?thesis unfolding zyre_node_ping_peer_def
    by (intro steady_node_peer)
      (auto simp: zclock_mono_def Let_def assms event intro!: rem ensures_and_then [OF send])
qed

lemma node_ok_reap: "node_ok self \<Longrightarrow> ensures (reap_peers env items self) node_ok"
proof (induction items arbitrary: self rule: measure_induct_rule [of length])
  case (less items)
  show ?case
  proof (cases items)
    case (Cons item rest)
    have "ensures (reap_peers env (if gone then filter (\<lambda>e. \<not> env_skips env (fst item) (fst e)) rest else rest) s) node_ok"
      if "node_ok s" for gone s
      using that by (intro less.IH) (auto simp: Cons less_Suc_eq_le)
    then show ?thesis unfolding Cons reap_peers.simps
      by (rule ensures_and_then2 [OF node_ok_ping [OF less.prems]])
  qed (simp add: less.prems)
qed

lemma node_ok_actor_reap: "node_ok self \<Longrightarrow> ensures (actor_reap env self) node_ok"
  by (auto simp: actor_reap_def zclock_mono_def Let_def intro!: node_ok_reap)

lemma tables_actor_beacon: "ensures (actor_beacon env self) (same_tables self)"
proof -
  have send: "ensures (beacon_send c s) (same_tables self)" if "same_tables self s" for c s
    by (rule ensures_weaken [OF tables_beacon]) (rule same_tables_trans [OF that])
  have frame: "ensures (beacon_frame env s x) (\<lambda>_. True)" for s x
    by (simp add: ensures_def)
  show ?thesis unfolding actor_beacon_def Let_def
    by (intro ensures_if tables_bind [OF tables_beacon] ensures_assert_that
        ensures_and_then [OF frame] tables_bind [OF send])
      (simp_all add: same_tables_def zpoller_add_def)
qed

lemma node_ok_actor:
  assumes "node_ok self"
  shows "ensures (zyre_node_actor env w self) node_ok"
proof -
  have "ensures (actor_handle env w s) node_ok" if "node_ok s" for s
    using node_ok_api [OF that] node_ok_recv_peer [OF that] node_ok_recv_beacon [OF that]
      node_ok_recv_gossip [OF that] node_ok_actor_reap [OF that]
    by (cases w) (simp_all add: actor_handle_def)
  then show ?thesis unfolding zyre_node_actor_def
    by (intro ensures_and_then [OF tables_actor_beacon] ensures_if) (simp_all add: same_tables_ok assms)
qed

section \<open>Reachable states\<close>

text \<open>The tables are sound in every state a node can reach.\<close>

lemma node_ok_initial: "actor_initial self \<Longrightarrow> node_ok self"
  by (auto simp: actor_initial_def actor_start_def zyre_node_new_def zclock_mono_def pipe_send_def
      node_ok_def filed_def heap_ok_def groups_ok_def split: if_splits)

interpretation tables: invariant_of actor_initial actor_step node_ok
proof unfold_locales
  show "node_ok t" if "actor_step s t" and "node_ok s" for s t
    using that(1)
    by (rule actor_stepE) (use that(2) ensuresD [OF node_ok_actor [OF that(2)]] in auto)
qed (rule node_ok_initial)

lemma reachable_run: "actor_reachable t \<Longrightarrow> \<exists>s. actor_initial s \<and> actor_step\<^sup>*\<^sup>* s t"
  by (induction rule: actor_reachable.induct) (auto intro: rtranclp.rtrancl_into_rtrancl)

lemma reachable_ok: "actor_reachable self \<Longrightarrow> node_ok self"
  using reachable_run tables.inv_run by blast

end
