(* ===== verification/Zyre_Runs.thy ===== *)
theory Zyre_Runs
  imports Zyre_Event Zyre_Node_Actor_Inv Zyre_Group_Props
begin

text \<open>
  Whole runs of a node on concrete input: the states of the actor along a list of turns and arriving
  frames, and one sample run that ends with a ready peer in a group.
\<close>

fun actor_run :: "env \<Rightarrow> (wake + zframe list) list \<Rightarrow> zyre_node \<Rightarrow> zyre_node outcome" where
  "actor_run env [] self = Inr self"
| "actor_run env (Inl w # es) self =
     (if n_terminated self then Inr self else and_then (zyre_node_actor env w self) (actor_run env es))"
| "actor_run env (Inr frames # es) self = actor_run env es (self\<lparr>n_inbox := n_inbox self @ frames\<rparr>)"

lemma actor_run_reachable: "actor_reachable self \<Longrightarrow> ensures (actor_run env es self) actor_reachable"
proof (induction env es self rule: actor_run.induct)
  case (2 env w es self)
  have "actor_reachable s" if "\<not> n_terminated self" "zyre_node_actor env w self = Inr s" for s
    using actor_reachable.step [OF 2(2) actor_step.turn [OF that]] .
  then show ?case using 2 by (auto simp: ensures_def)
next
  case (3 env frames es self)
  then show ?case using actor_reachable.step [OF 3(2) actor_step.arrive] by simp
qed simp

text \<open>The request an application makes with the next call, as the actor reads it.\<close>

definition request_of :: "zframe list \<Rightarrow> byte list list" where
  "request_of frames = fst (zmsg_recv_rest frames)"

definition run_env :: env where
  "run_env = sample_env\<lparr>env_uuid_of := (\<lambda>d. \<lparr>uu_data = d, uu_str = map byte_char (take 1 d)\<rparr>),
     env_bound := ''e''\<rparr>"

definition sample_start :: zyre_node where
  "sample_start = the (actor_start run_env \<lparr>uu_data = replicate 16 9, uu_str = ''9''\<rparr>)"

text \<open>The identity of the peer with that digit, and a message from it.\<close>

definition peer_identity :: "byte \<Rightarrow> byte list" where
  "peer_identity d = 1 # d # replicate 15 0"

definition peer_hello :: zre_msg where
  "peer_hello = zre_msg_new\<lparr>m_id := ZRE_MSG_HELLO, m_sequence := 1, m_endpoint := ''x'',
     m_groups := Some [''A''], m_status := 1, m_name := ''n'', m_headers := Some []\<rparr>"

definition from_peer :: "byte \<Rightarrow> byte list \<Rightarrow> (wake + zframe list) list" where
  "from_peer d frame = [Inr (routed (peer_identity d) (multipart [frame])), Inl Wake_inbox]"

text \<open>The node binds its endpoint and starts with gossip; then it is told of a peer.\<close>

definition boot_events :: "(wake + zframe list) list" where
  "boot_events = [Inl (Wake_api (request_of (zyre_set_endpoint ''e''))),
     Inl (Wake_api (request_of zyre_start))]"

definition sample_events :: "(wake + zframe list) list" where
  "sample_events = boot_events
     @ Inl (Wake_api (request_of (zyre_require_peer ''7'' ''x'' ''''))) # from_peer 55 (zre_msg_put peer_hello)"

definition sample_node :: zyre_node where
  "sample_node = (case actor_run run_env sample_events sample_start of Inr s \<Rightarrow> s | Inl e \<Rightarrow> sample_start)"

lemma sample_start_reachable: "actor_reachable sample_start"
proof (rule actor_reachable.initial)
  have "actor_start run_env \<lparr>uu_data = replicate 16 9, uu_str = ''9''\<rparr> = Some sample_start"
    by (simp add: sample_start_def actor_start_def zyre_node_new_def run_env_def sample_env_def zclock_mono_def)
  then show "actor_initial sample_start" unfolding actor_initial_def by blast
qed

lemma sample_node_reachable: "actor_reachable sample_node"
  using sample_start_reachable actor_run_reachable [OF sample_start_reachable, of run_env sample_events]
  by (auto simp: sample_node_def ensures_def split: sum.split)

text \<open>The node after its start alone: it has an endpoint and knows nobody.\<close>

definition boot_node :: zyre_node where
  "boot_node = (case actor_run run_env boot_events sample_start of Inr s \<Rightarrow> s | Inl e \<Rightarrow> sample_start)"

lemma boot_run:
  "case actor_run run_env boot_events sample_start of
     Inl e \<Rightarrow> False
   | Inr s \<Rightarrow> n_peers s = [] \<and> n_peer_groups s = [] \<and> n_own_groups s = [] \<and> n_status s = 0
       \<and> n_inbox s = [] \<and> n_endpoint s = Some ''e'' \<and> n_advertised_endpoint s = None
       \<and> n_name s = ''9'' \<and> n_headers s = [] \<and> n_secret_key s = None \<and> n_public_key s = None"
  by code_simp

lemma boot_node_sel:
  "n_peers boot_node = []" "n_peer_groups boot_node = []" "n_own_groups boot_node = []" "n_status boot_node = 0"
  "n_inbox boot_node = []" "n_endpoint boot_node = Some ''e''" "n_advertised_endpoint boot_node = None"
  "n_name boot_node = ''9''" "n_headers boot_node = []" "n_secret_key boot_node = None" "n_public_key boot_node = None"
  using boot_run by (auto simp: boot_node_def split: sum.splits)

lemma boot_node_reachable: "actor_reachable boot_node"
  using sample_start_reachable actor_run_reachable [OF sample_start_reachable, of run_env boot_events]
  by (auto simp: boot_node_def ensures_def split: sum.split)

text \<open>The run does not fail; the peer is in the table, connected, ready, and in the group.\<close>

lemma sample_run:
  "case actor_run run_env sample_events sample_start of
     Inl e \<Rightarrow> False
   | Inr s \<Rightarrow> n_peers s = [(''7'', 0)] \<and> map (\<lambda>(name, g). (name, g_peers g)) (n_peer_groups s) = [(''A'', [(''7'', 0)])]
       \<and> n_own_groups s = [] \<and> n_status s = 0 \<and> n_inbox s = []
       \<and> list_all (\<lambda>(name, g). \<not> g_contest g) (n_peer_groups s)
       \<and> sint (n_last_reaped_at s) + uint (s_reap_interval s) \<le> 100000
       \<and> (case n_heap s 0 of Some p \<Rightarrow> zyre_peer_expired_at p \<le> 100000 \<and> p_ready p \<and> p_connected p \<and> p_want_sequence p = 1 \<and> p_status p = 1
              \<and> p_sent_sequence p = 1 | None \<Rightarrow> False)"
  by code_simp

lemma sample_node_sel:
  "n_peers sample_node = [(''7'', 0)]" "n_own_groups sample_node = []" "n_status sample_node = 0"
  "n_inbox sample_node = []" "list_all (\<lambda>(name, g). \<not> g_contest g) (n_peer_groups sample_node)"
  "map (\<lambda>(name, g). (name, g_peers g)) (n_peer_groups sample_node) = [(''A'', [(''7'', 0)])]"
  "sint (n_last_reaped_at sample_node) + uint (s_reap_interval sample_node) \<le> 100000"
  using sample_run by (auto simp: sample_node_def split: sum.splits)

lemma sample_node_peer:
  obtains p where "n_heap sample_node 0 = Some p" and "p_ready p" and "p_connected p" and "p_want_sequence p = 1"
    and "p_status p = 1" and "p_sent_sequence p = 1" and "zyre_peer_expired_at p \<le> 100000"
  using sample_run by (auto simp: sample_node_def split: sum.splits option.splits)

lemma sample_node_group:
  obtains g where "n_peer_groups sample_node = [(''A'', g)]" and "g_peers g = [(''7'', 0)]"
  using sample_node_sel(6) by auto

end
