(* ===== verification/Zyre_Node_Props.thy ===== *)
theory Zyre_Node_Props
  imports Zyre_Runs
begin

text \<open>
  What the node promises its application: the tables are always sound, and the requests of the public
  class do to the peers' mailboxes exactly what they are documented to do.
\<close>

section \<open>Sound tables\<close>

text \<open>C1: in every state the actor of a node can reach, whatever commands, messages, beacons and gossip
  deliveries it got and whatever its sockets, clocks and hash tables did, each entry of the table of
  peers points to a live object of that identity whose mailbox and endpoint exist exactly while it is
  connected, no live object is missing from the table or in it twice, and every member of a group is
  the peer the table has under that identity.\<close>

theorem tables_always_sound:
  assumes "actor_reachable self"
  shows "distinct (zhash_keys (n_peers self)) \<and> distinct (map snd (n_peers self))
    \<and> (\<forall>(k, a) \<in> set (n_peers self). \<exists>p. n_heap self a = Some p \<and> zyre_peer_identity p = k
         \<and> (p_connected p \<longleftrightarrow> p_mailbox p \<noteq> None) \<and> (p_connected p \<longleftrightarrow> p_endpoint p \<noteq> None))
    \<and> (\<forall>a. n_heap self a \<noteq> None \<longrightarrow> a \<in> snd ` set (n_peers self))
    \<and> (\<forall>(name, g) \<in> set (n_peer_groups self). \<forall>(k, a) \<in> set (g_peers g).
         zhash_lookup (n_peers self) k = Some a)"
proof -
  have ok: "node_ok self" using assms by (rule reachable_ok)
  have "\<exists>p. n_heap self a = Some p \<and> zyre_peer_identity p = k
         \<and> (p_connected p \<longleftrightarrow> p_mailbox p \<noteq> None) \<and> (p_connected p \<longleftrightarrow> p_endpoint p \<noteq> None)"
    if "(k, a) \<in> set (n_peers self)" for k a
    using filed_peer [OF ok that] by (metis peer_ok_def)
  moreover have "zhash_lookup (n_peers self) k = Some a"
    if "(name, g) \<in> set (n_peer_groups self)" "(k, a) \<in> set (g_peers g)" for name g k a
    using groups_okD [OF node_okD(3) [OF ok] that(1)] that(2) peer_lookup_iff [OF ok]
    by (auto simp: group_ok_def)
  ultimately show ?thesis
    using node_okD(4) [OF ok] filed_distinct [OF node_okD(1) [OF ok]] node_ok_live [OF ok]
    by (auto simp: wf_zhash_def zhash_keys_def)
qed

theorem tables_always_sound_witness:
  "n_peers sample_node = [(''7'', 0)]
    \<and> (\<exists>p. n_heap sample_node 0 = Some p \<and> zyre_peer_identity p = ''7''
         \<and> (p_connected p \<longleftrightarrow> p_mailbox p \<noteq> None) \<and> (p_connected p \<longleftrightarrow> p_endpoint p \<noteq> None))
    \<and> (\<exists>g. n_peer_groups sample_node = [(''A'', g)] \<and> g_peers g = [(''7'', 0)]
         \<and> zhash_lookup (n_peers sample_node) ''7'' = Some 0)"
  using tables_always_sound [OF sample_node_reachable] sample_node_sel(1)
  by - (rule sample_node_group, auto)

section \<open>Sending\<close>

lemma each_node_on_heap: "each (\<lambda>x. node_on_heap (f x)) xs self = node_on_heap (each f xs) self"
  by (induction xs arbitrary: self) (auto simp: node_on_heap_def and_then_def split: sum.split)

text \<open>A message for all peers goes out like one for a group of all peers.\<close>

lemma send_all_peers: "each (zyre_node_send_peer env msg) peers self
    = node_on_heap (zyre_group_send env (zyre_group_new []\<lparr>g_peers := peers\<rparr>) msg) self"
proof -
  have "zyre_node_send_peer env msg = (\<lambda>x. node_on_heap (s_peer_send env msg x))"
    by (simp add: fun_eq_iff zyre_node_send_peer_def node_peer_send_def s_peer_send_def)
  moreover have "zyre_group_send env (zyre_group_new []\<lparr>g_peers := peers\<rparr>) msg = each (s_peer_send env msg) peers"
    by (simp add: fun_eq_iff zyre_group_send_def)
  ultimately show ?thesis by (simp only: each_node_on_heap)
qed

text \<open>The peers in a table all get the message \<open>msg\<close>, each under its own next number.\<close>

definition all_receive :: "(string \<Rightarrow> nat) \<Rightarrow> byte list \<Rightarrow> addr zhash \<Rightarrow> zre_msg \<Rightarrow> zyre_node \<Rightarrow> zyre_node \<Rightarrow> bool" where
  "all_receive rank rid peers msg self s \<longleftrightarrow>
     (\<forall>(k, a) \<in> set peers. \<exists>p p'. n_heap self a = Some p \<and> n_heap s a = Some p'
        \<and> receives rank rid p p' (zre_msg_received rank rid (zre_msg_set_sequence msg (p_sent_sequence p + 1))))
     \<and> (\<forall>b. b \<notin> snd ` set peers \<longrightarrow> n_heap s b = n_heap self b)"

lemma node_send_members:
  assumes "filed (n_heap self) (g_peers g)" and "heap_ok (n_heap self)" and "sendable msg"
    and "m_headers msg = None" and "\<forall>q. \<not> env_full env q"
  obtains s where "node_on_heap (zyre_group_send env g msg) self = Inr s"
    and "s = self\<lparr>n_heap := n_heap s\<rparr>" and "all_receive rank rid (g_peers g) msg self s"
proof -
  have f: "fields_ok msg" using assms(3) by (simp add: sendable_def)
  show thesis
    by (rule send_members [OF assms(1-3,5), of rank rid])
      (rule that, auto simp: node_on_heap_def all_receive_def received_dup [OF f assms(4)])
qed

lemma api_dispatch [simp]:
  "zyre_node_recv_api env (str_bytes ''WHISPER'' # req) self = api_whisper env req self"
  "zyre_node_recv_api env (str_bytes ''SHOUT'' # req) self = api_shout env req self"
  "zyre_node_recv_api env (str_bytes ''JOIN'' # req) self = api_join env req self"
  "zyre_node_recv_api env (str_bytes ''LEAVE'' # req) self = api_leave env req self"
  by (simp_all add: zyre_node_recv_api_def pop_string_def c_string_def api_settings_def api_network_def
      api_message_def streq_def)

lemma pop_string_str [simp]: "c_string s \<Longrightarrow> pop_string (str_bytes s # req) k = k s req"
  by (simp add: pop_string_def)

definition shout_message :: "string \<Rightarrow> byte list list \<Rightarrow> zre_msg" where
  "shout_message name content = zre_msg_new\<lparr>m_id := ZRE_MSG_SHOUT, m_group := name, m_content := Some content\<rparr>"

definition whisper_message :: "byte list list \<Rightarrow> zre_msg" where
  "whisper_message content = zre_msg_new\<lparr>m_id := ZRE_MSG_WHISPER, m_content := Some content\<rparr>"

lemma messages_sendable:
  "field_ok name \<Longrightarrow> sendable (shout_message name content)" "sendable (whisper_message content)"
  "m_headers (shout_message name content) = None" "m_headers (whisper_message content) = None"
  by (simp_all add: shout_message_def whisper_message_def sendable_def zre_msg_new_def fields_ok_def)

text \<open>C22: a call of \<open>zyre_shout\<close> with a message of at least one frame, read from the pipe by a node in any
  reachable state while the mailboxes accept what is sent, never fails: every connected member of the group receives exactly that SHOUT, with
  the group's name, the content and its own next sequence number, nobody else receives anything, and
  nothing else of the node changes. For a group the node does not know, nothing happens at all.\<close>

theorem shout_reaches_group:
  assumes "actor_reachable self" and "field_ok name" and "content \<noteq> []" and "\<forall>q. \<not> env_full env q"
  shows "\<exists>s. zyre_node_recv_api env (request_of (zyre_shout name content @ later)) self = Inr s
    \<and> s = self\<lparr>n_heap := n_heap s\<rparr>
    \<and> (case zhash_lookup (n_peer_groups self) name of
         None \<Rightarrow> s = self
       | Some g \<Rightarrow> all_receive rank rid (g_peers g) (shout_message name content) self s)"
proof -
  have ok: "node_ok self" using assms(1) by (rule reachable_ok)
  have c: "c_string name" and f: "field256 name = name" using assms(2) by (simp_all add: field_ok_def)
  have req: "request_of (zyre_shout name content @ later) = str_bytes ''SHOUT'' # str_bytes name # content"
    using assms(3) by (simp add: request_of_def zyre_shout_def)
  show ?thesis
  proof (cases "zhash_lookup (n_peer_groups self) name")
    case None
    then show ?thesis by (simp add: req c api_shout_def)
  next
    case (Some g)
    have "filed (n_heap self) (g_peers g)"
      by (rule group_ok_filed [OF node_okD(1) [OF ok] group_ok_lookup [OF node_okD(3) [OF ok] Some]])
    then obtain s where s: "node_on_heap (zyre_group_send env g (shout_message name content)) self = Inr s"
      "s = self\<lparr>n_heap := n_heap s\<rparr>" "all_receive rank rid (g_peers g) (shout_message name content) self s"
      using node_send_members [OF _ node_okD(2) [OF ok] messages_sendable(1) [OF assms(2)] messages_sendable(3) assms(4)]
      by metis
    have "zyre_node_recv_api env (request_of (zyre_shout name content @ later)) self = Inr s"
      using s(1) Some by (simp add: req c api_shout_def node_group_send_def shout_message_def zyre_simps f)
    then show ?thesis using s(2,3) Some by auto
  qed
qed

theorem shout_reaches_group_witness:
  "\<exists>s. zyre_node_recv_api run_env (request_of (zyre_shout ''A'' [[1, 2]] @ [])) sample_node = Inr s
    \<and> s = sample_node\<lparr>n_heap := n_heap s\<rparr>
    \<and> (case zhash_lookup (n_peer_groups sample_node) ''A'' of
         None \<Rightarrow> s = sample_node
       | Some g \<Rightarrow> all_receive length [1, 3] (g_peers g) (shout_message ''A'' [[1, 2]]) sample_node s)"
  by (rule shout_reaches_group)
    (simp_all add: sample_node_reachable field_ok_def c_string_def run_env_def sample_env_def)

text \<open>A call of \<open>zyre_whisper\<close> with a message of at least one frame never fails and reaches
  exactly the peer of that identity, if the node knows it; the rest of the node does not change.\<close>

theorem whisper_reaches_peer:
  assumes "actor_reachable self" and "c_string identity" and "content \<noteq> []" and "\<forall>q. \<not> env_full env q"
  shows "\<exists>s. zyre_node_recv_api env (request_of (zyre_whisper identity content @ later)) self = Inr s
    \<and> (case zhash_lookup (n_peers self) identity of
         None \<Rightarrow> s = self
       | Some a \<Rightarrow> \<exists>p p'. n_heap self a = Some p \<and> s = self\<lparr>n_heap := (n_heap self)(a \<mapsto> p')\<rparr>
           \<and> receives rank rid p p' (zre_msg_received rank rid
                (zre_msg_set_sequence (whisper_message content) (p_sent_sequence p + 1))))"
proof -
  have ok: "node_ok self" using assms(1) by (rule reachable_ok)
  have req: "request_of (zyre_whisper identity content @ later)
      = str_bytes ''WHISPER'' # str_bytes identity # content"
    using assms(3) by (simp add: request_of_def zyre_whisper_def)
  show ?thesis
  proof (cases "zhash_lookup (n_peers self) identity")
    case None
    then show ?thesis by (simp add: req assms(2) api_whisper_def)
  next
    case (Some a)
    then obtain p where p: "n_heap self a = Some p" "peer_ok p"
      using filed_peer [OF ok] zhash_lookup_SomeD by metis
    obtain p' where p': "zyre_peer_send env p (whisper_message content) = Inr (0, p')"
      "heap_peer_send env (whisper_message content) a (n_heap self) = Inr ((n_heap self)(a \<mapsto> p'))"
      using heap_peer_send_live [of "n_heap self" a p, OF p] by metis
    have "zyre_node_recv_api env (request_of (zyre_whisper identity content @ later)) self
        = Inr (self\<lparr>n_heap := (n_heap self)(a \<mapsto> p')\<rparr>)"
      using p'(2) Some
      by (simp add: req assms(2) api_whisper_def node_peer_send_def node_on_heap_def whisper_message_def zyre_simps)
    then show ?thesis using Some p peer_send_receives [OF p(2) assms(4) messages_sendable(2) p'(1)] by auto
  qed
qed

theorem whisper_reaches_peer_witness:
  "\<exists>s. zyre_node_recv_api run_env (request_of (zyre_whisper ''7'' [[1, 2]] @ [])) sample_node = Inr s
    \<and> (case zhash_lookup (n_peers sample_node) ''7'' of
         None \<Rightarrow> s = sample_node
       | Some a \<Rightarrow> \<exists>p p'. n_heap sample_node a = Some p \<and> s = sample_node\<lparr>n_heap := (n_heap sample_node)(a \<mapsto> p')\<rparr>
           \<and> receives length [1, 3] p p' (zre_msg_received length [1, 3]
                (zre_msg_set_sequence (whisper_message [[1, 2]]) (p_sent_sequence p + 1))))"
  by (rule whisper_reaches_peer)
    (simp_all add: sample_node_reachable c_string_def run_env_def sample_env_def)

text \<open>C40: a call of \<open>zyre_whisper\<close> with a message of no frames leaves its request open on the pipe. The application's
  next call, whatever it is, is not executed: the node reads both as one request, sends the peer, if it knows
  it, one WHISPER whose content is exactly the frames of that call, and changes nothing else; what comes after
  on the pipe is read as usual. The peer's mailbox accepts what is sent.\<close>

theorem empty_whisper_swallows_next_call:
  assumes "actor_reachable self" and "c_string identity" and "\<forall>q. \<not> env_full env q"
    and "zmsg_recv_rest next_call = (frames, later)" and "frames \<noteq> []"
  shows "snd (zmsg_recv_rest (zyre_whisper identity [] @ next_call)) = later
    \<and> (\<exists>s. zyre_node_recv_api env (request_of (zyre_whisper identity [] @ next_call)) self = Inr s
      \<and> (case zhash_lookup (n_peers self) identity of
           None \<Rightarrow> s = self
         | Some a \<Rightarrow> \<exists>p p'. n_heap self a = Some p \<and> s = self\<lparr>n_heap := (n_heap self)(a \<mapsto> p')\<rparr>
             \<and> receives rank rid p p' (zre_msg_received rank rid
                  (zre_msg_set_sequence (whisper_message frames) (p_sent_sequence p + 1)))))"
proof -
  have req: "request_of (zyre_whisper identity [] @ next_call) = request_of (zyre_whisper identity frames @ [])"
    using assms(4,5) zmsg_recv_msg [of frames "[]"] by (simp add: request_of_def zyre_whisper_def)
  have "snd (zmsg_recv_rest (zyre_whisper identity [] @ next_call)) = later"
    using assms(4) by (simp add: zyre_whisper_def)
  then show ?thesis unfolding req using whisper_reaches_peer [OF assms(1,2,5,3)] by blast
qed

theorem empty_whisper_swallows_next_call_witness:
  "snd (zmsg_recv_rest (zyre_whisper ''7'' [] @ zyre_leave ''A'')) = []
    \<and> (\<exists>s. zyre_node_recv_api run_env (request_of (zyre_whisper ''7'' [] @ zyre_leave ''A'')) sample_node = Inr s
      \<and> (case zhash_lookup (n_peers sample_node) ''7'' of
           None \<Rightarrow> s = sample_node
         | Some a \<Rightarrow> \<exists>p p'. n_heap sample_node a = Some p \<and> s = sample_node\<lparr>n_heap := (n_heap sample_node)(a \<mapsto> p')\<rparr>
             \<and> receives length [1, 3] p p' (zre_msg_received length [1, 3]
                  (zre_msg_set_sequence (whisper_message [str_bytes ''LEAVE'', str_bytes ''A'']) (p_sent_sequence p + 1)))))"
  by (rule empty_whisper_swallows_next_call)
    (simp_all add: sample_node_reachable c_string_def run_env_def sample_env_def zyre_leave_def pipe_sendx_def)

section \<open>Groups of this node\<close>

definition status_msg :: "int \<Rightarrow> string \<Rightarrow> byte \<Rightarrow> zre_msg" where
  "status_msg i name status = zre_msg_new\<lparr>m_id := i, m_group := name, m_status := status\<rparr>"

lemma status_msg_sendable: "field_ok name \<Longrightarrow> i = ZRE_MSG_JOIN \<or> i = ZRE_MSG_LEAVE \<Longrightarrow> sendable (status_msg i name st)"
  "m_headers (status_msg i name st) = None"
  by (auto simp: status_msg_def sendable_def zre_msg_new_def fields_ok_def)

lemma status_message_eq: "field_ok name \<Longrightarrow> status_message i name self = status_msg i name (n_status self)"
  by (simp add: status_message_def status_msg_def zyre_simps zre_msg_new_def)

lemma send_status:
  assumes "node_ok self" and "field_ok name" and "i = ZRE_MSG_JOIN \<or> i = ZRE_MSG_LEAVE" and "\<forall>q. \<not> env_full env q"
  obtains s where "each (zyre_node_send_peer env (status_msg i name st)) (n_peers self) self = Inr s"
    and "s = self\<lparr>n_heap := n_heap s\<rparr>" and "all_receive rank rid (n_peers self) (status_msg i name st) self s"
proof -
  let ?g = "zyre_group_new []\<lparr>g_peers := n_peers self\<rparr>"
  have g: "filed (n_heap self) (g_peers ?g)" using node_okD(1) [OF assms(1)] by simp
  show thesis
    by (rule node_send_members [OF g node_okD(2) [OF assms(1)] status_msg_sendable(1) [OF assms(2,3)]
          status_msg_sendable(2) assms(4), of st rank rid]) (rule that, simp_all add: send_all_peers)
qed

text \<open>A call of \<open>zyre_join\<close> never fails. If the node is not in the group, the group is appended to its
  list, the status counter goes up by one modulo 256, and every connected peer gets one JOIN with that
  name and the new status; if it is, nothing happens.\<close>

theorem join_announced:
  assumes "actor_reachable self" and "field_ok name" and "\<forall>q. \<not> env_full env q"
  shows "\<exists>s. zyre_node_recv_api env (request_of (zyre_join name @ later)) self = Inr s
    \<and> (if zlist_exists (n_own_groups self) name then s = self
       else s = self\<lparr>n_own_groups := n_own_groups self @ [name], n_status := n_status self + 1, n_heap := n_heap s\<rparr>
         \<and> all_receive rank rid (n_peers self) (status_msg ZRE_MSG_JOIN name (n_status self + 1)) self s)"
proof -
  have ok: "node_ok self" using assms(1) by (rule reachable_ok)
  have c: "c_string name" using assms(2) by (simp add: field_ok_def)
  have req: "request_of (zyre_join name @ later) = [str_bytes ''JOIN'', str_bytes name]"
    by (simp add: request_of_def zyre_join_def)
  let ?t = "self\<lparr>n_own_groups := n_own_groups self @ [name], n_status := n_status self + 1\<rparr>"
  have "node_ok ?t" using ok by simp
  then obtain s where s: "each (zyre_node_send_peer env (status_msg ZRE_MSG_JOIN name (n_status self + 1))) (n_peers ?t) ?t = Inr s"
    "s = ?t\<lparr>n_heap := n_heap s\<rparr>"
    "all_receive rank rid (n_peers ?t) (status_msg ZRE_MSG_JOIN name (n_status self + 1)) ?t s"
    by (rule send_status [OF _ assms(2) _ assms(3)]) (rule disjI1 [OF refl])
  show ?thesis
  proof (cases "zlist_exists (n_own_groups self) name")
    case False
    have "zyre_node_recv_api env (request_of (zyre_join name @ later)) self = Inr s"
      using s(1) False by (simp add: req c api_join_def Let_def status_message_eq [OF assms(2)])
    then show ?thesis using s(2,3) False by (auto simp: all_receive_def)
  qed (simp add: req c api_join_def)
qed

theorem join_announced_witness:
  "\<exists>s. zyre_node_recv_api run_env (request_of (zyre_join ''B'' @ [])) sample_node = Inr s
    \<and> (if zlist_exists (n_own_groups sample_node) ''B'' then s = sample_node
       else s = sample_node\<lparr>n_own_groups := n_own_groups sample_node @ [''B''], n_status := n_status sample_node + 1,
              n_heap := n_heap s\<rparr>
         \<and> all_receive length [1, 3] (n_peers sample_node)
             (status_msg ZRE_MSG_JOIN ''B'' (n_status sample_node + 1)) sample_node s)"
  by (rule join_announced)
    (simp_all add: sample_node_reachable field_ok_def c_string_def run_env_def sample_env_def)

text \<open>A call of \<open>zyre_leave\<close> never fails. If the node is in the group, the group is taken from its
  list, the status counter goes up by one modulo 256, and every connected peer gets one LEAVE with that
  name and the new status; if it is not, nothing happens.\<close>

theorem leave_announced:
  assumes "actor_reachable self" and "field_ok name" and "\<forall>q. \<not> env_full env q"
  shows "\<exists>s. zyre_node_recv_api env (request_of (zyre_leave name @ later)) self = Inr s
    \<and> (if zlist_exists (n_own_groups self) name then
         s = self\<lparr>n_own_groups := zlist_remove (n_own_groups self) name, n_status := n_status self + 1, n_heap := n_heap s\<rparr>
         \<and> all_receive rank rid (n_peers self) (status_msg ZRE_MSG_LEAVE name (n_status self + 1)) self s
       else s = self)"
proof -
  have ok: "node_ok self" using assms(1) by (rule reachable_ok)
  have c: "c_string name" using assms(2) by (simp add: field_ok_def)
  have req: "request_of (zyre_leave name @ later) = [str_bytes ''LEAVE'', str_bytes name]"
    by (simp add: request_of_def zyre_leave_def)
  let ?t = "self\<lparr>n_status := n_status self + 1\<rparr>"
  have "node_ok ?t" using ok by simp
  then obtain s where s: "each (zyre_node_send_peer env (status_msg ZRE_MSG_LEAVE name (n_status self + 1))) (n_peers ?t) ?t = Inr s"
    "s = ?t\<lparr>n_heap := n_heap s\<rparr>"
    "all_receive rank rid (n_peers ?t) (status_msg ZRE_MSG_LEAVE name (n_status self + 1)) ?t s"
    by (rule send_status [OF _ assms(2) _ assms(3)]) (rule disjI2 [OF refl])
  show ?thesis
  proof (cases "zlist_exists (n_own_groups self) name")
    case True
    let ?s = "s\<lparr>n_own_groups := zlist_remove (n_own_groups s) name\<rparr>"
    have "n_own_groups s = n_own_groups self" by (subst s(2)) simp
    then have eq: "?s = self\<lparr>n_own_groups := zlist_remove (n_own_groups self) name, n_status := n_status self + 1, n_heap := n_heap ?s\<rparr>"
      by (subst (1) s(2)) simp
    have "zyre_node_recv_api env (request_of (zyre_leave name @ later)) self = Inr ?s"
      using s(1) True by (simp add: req c api_leave_def Let_def status_message_eq [OF assms(2)])
    moreover have "all_receive rank rid (n_peers self) (status_msg ZRE_MSG_LEAVE name (n_status self + 1)) self ?s"
      using s(3) by (simp add: all_receive_def)
    ultimately show ?thesis using eq True by auto
  qed (simp add: req c api_leave_def)
qed

theorem leave_announced_witness:
  "\<exists>s. zyre_node_recv_api run_env (request_of (zyre_leave ''B'' @ [])) sample_node = Inr s
    \<and> (if zlist_exists (n_own_groups sample_node) ''B'' then
         s = sample_node\<lparr>n_own_groups := zlist_remove (n_own_groups sample_node) ''B'',
              n_status := n_status sample_node + 1, n_heap := n_heap s\<rparr>
         \<and> all_receive length [1, 3] (n_peers sample_node)
             (status_msg ZRE_MSG_LEAVE ''B'' (n_status sample_node + 1)) sample_node s
       else s = sample_node)"
  by (rule leave_announced)
    (simp_all add: sample_node_reachable field_ok_def c_string_def run_env_def sample_env_def)

end
