(* ===== verification/Zyre_Event_Props.thy ===== *)
theory Zyre_Event_Props
  imports Zyre_Runs
begin

text \<open>
  The two ends of the pipe and of the outbox agree: settings arrive as they were given, and each event
  the node emits is the event the application's event object shows.
\<close>

section \<open>Settings\<close>

lemma settings_dispatch [simp]:
  "zyre_node_recv_api env (str_bytes ''SET PORT'' # req) self
     = pop_string req (\<lambda>value _. Inr (self\<lparr>n_beacon_port := c_atoi value\<rparr>))"
  "zyre_node_recv_api env (str_bytes ''SET EVASIVE TIMEOUT'' # req) self
     = pop_string req (\<lambda>value _. Inr (self\<lparr>n_evasive_timeout := of_int (c_atoi value)\<rparr>))"
  "zyre_node_recv_api env (str_bytes ''SET SILENT TIMEOUT'' # req) self
     = pop_string req (\<lambda>value _. Inr (self\<lparr>n_evasive_timeout := of_int (c_atoi value)\<rparr>))"
  "zyre_node_recv_api env (str_bytes ''SET EXPIRED TIMEOUT'' # req) self
     = pop_string req (\<lambda>value _. Inr (self\<lparr>n_expired_timeout := of_int (c_atoi value)\<rparr>))"
  "zyre_node_recv_api env (str_bytes ''SET INTERVAL'' # req) self
     = pop_string req (\<lambda>value _. Inr (self\<lparr>n_interval := of_int (c_atoi value)\<rparr>))"
  by (simp_all add: zyre_node_recv_api_def pop_string_def c_string_def api_settings_def)

lemma c_string_dec [simp]: "c_string (c_dec i)"
proof -
  have "is_digit c \<Longrightarrow> c \<noteq> CHR 0x00" for c by (auto simp: is_digit_def)
  then have "c_string (dec_digits n)" for n
    using dec_digits_digits [of _ n] by (auto simp: c_string_def)
  then show ?thesis by (simp add: c_dec_def) (simp add: c_string_def)
qed

text \<open>The numeric settings of the public class, printed by the caller and parsed again by the actor,
  set exactly the number given; a negative timeout becomes the unsigned number of its two's complement.\<close>

theorem numeric_settings_arrive:
  "zyre_node_recv_api env (request_of (zyre_set_port n)) self = Inr (self\<lparr>n_beacon_port := n\<rparr>)
  \<and> zyre_node_recv_api env (request_of (zyre_set_evasive_timeout n)) self = Inr (self\<lparr>n_evasive_timeout := of_int n\<rparr>)
  \<and> zyre_node_recv_api env (request_of (zyre_set_silent_timeout n)) self = Inr (self\<lparr>n_evasive_timeout := of_int n\<rparr>)
  \<and> zyre_node_recv_api env (request_of (zyre_set_expired_timeout n)) self = Inr (self\<lparr>n_expired_timeout := of_int n\<rparr>)
  \<and> zyre_node_recv_api env (request_of (zyre_set_interval n)) self = Inr (self\<lparr>n_interval := of_int n\<rparr>)"
proof -
  have "zmsg_recv_rest (pipe_str s) = ([str_bytes s], [])" for s
    using zmsg_recv_str [of s "[]"] by simp
  then show ?thesis
    by (simp add: request_of_def zyre_set_port_def zyre_set_evasive_timeout_def zyre_set_silent_timeout_def
        zyre_set_expired_timeout_def zyre_set_interval_def pop_string_def c_atoi_c_dec)
qed

section \<open>Events\<close>

text \<open>The frames of an event are one message.\<close>

lemma outbox_event3: "outbox_send c (outbox_sendm b (outbox_sendm a self))
    = self\<lparr>n_outbox := n_outbox self @ multipart [str_bytes a, str_bytes b, str_bytes c]\<rparr>"
  by (simp add: outbox_send_def outbox_sendm_def)

lemma outbox_event4: "outbox_send d (outbox_sendm c (outbox_sendm b (outbox_sendm a self)))
    = self\<lparr>n_outbox := n_outbox self @ multipart [str_bytes a, str_bytes b, str_bytes c, str_bytes d]\<rparr>"
  by (simp add: outbox_send_def outbox_sendm_def)

lemma event_new_multipart:
  "msg \<noteq> [] \<Longrightarrow> zyre_event_new unpack (multipart msg @ later)
     = and_then (zyre_event_parse unpack msg) (\<lambda>event. Inr (event, later))"
  by (simp add: zyre_event_new_def)

definition event_of :: "string \<Rightarrow> string \<Rightarrow> string \<Rightarrow> zyre_event" where
  "event_of type uuid name = \<lparr>ev_type = Some type, ev_peer_uuid = Some uuid, ev_peer_name = Some name,
     ev_peer_addr = None, ev_headers = None, ev_group = None, ev_msg = None\<rparr>"

text \<open>The frames of such an event, and what the event class reads from them.\<close>

definition whisper_frames :: "string \<Rightarrow> string \<Rightarrow> byte list list \<Rightarrow> zframe list" where
  "whisper_frames u nm content = multipart (str_bytes ''WHISPER'' # str_bytes u # str_bytes nm # content)"

definition shout_frames :: "string \<Rightarrow> string \<Rightarrow> string \<Rightarrow> byte list list \<Rightarrow> zframe list" where
  "shout_frames u nm gr content = multipart (str_bytes ''SHOUT'' # str_bytes u # str_bytes nm # str_bytes gr # content)"

lemma multipart_open: "content \<noteq> [] \<Longrightarrow> multipart (d # content) = \<lparr>fr_data = d, fr_more = True\<rparr> # multipart content"
  by (cases content) simp_all

lemma talk_written:
  assumes "n_heap self peer = Some p" and "m_content msg = Some content" and "content \<noteq> []"
  shows "recv_peer_whisper peer uuid msg self
      = Inr (self\<lparr>n_outbox := n_outbox self @ whisper_frames (uu_str uuid) (zyre_peer_name p) content\<rparr>)"
    "recv_peer_shout peer uuid msg self
      = Inr (self\<lparr>n_outbox := n_outbox self @ shout_frames (uu_str uuid) (zyre_peer_name p) (m_group msg) content\<rparr>)"
  using assms
  by (simp_all add: recv_peer_whisper_def recv_peer_shout_def node_peer_def outbox_msg_def outbox_sendm_def
      whisper_frames_def shout_frames_def multipart_open)

lemma talk_read:
  assumes "c_string u" and "c_string nm" and "c_string gr"
  shows "zyre_event_new unpack (whisper_frames u nm content @ later)
      = Inr ((event_of ''WHISPER'' u nm)\<lparr>ev_msg := Some content\<rparr>, later)"
    "zyre_event_new unpack (shout_frames u nm gr content @ later)
      = Inr ((event_of ''SHOUT'' u nm)\<lparr>ev_group := Some gr, ev_msg := Some content\<rparr>, later)"
  using assms
  by (simp_all add: whisper_frames_def shout_frames_def event_new_multipart zyre_event_parse_def event_of_def c_string_def
      del: multipart.simps)

text \<open>A WHISPER or SHOUT with at least one frame of content, handled by the node, adds one event to the
  outbox and changes nothing else; the application's event object shows the sender's identity and name,
  the group of a SHOUT, and the content as it was sent, and leaves the next event in place.\<close>

theorem message_events_roundtrip:
  assumes "n_heap self peer = Some p" and "c_string (zyre_peer_name p)" and "c_string (uu_str uuid)"
    and "c_string (m_group msg)" and "m_content msg = Some content" and "content \<noteq> []"
  shows "(\<exists>fs. recv_peer_whisper peer uuid msg self = Inr (self\<lparr>n_outbox := n_outbox self @ fs\<rparr>)
        \<and> zyre_event_new unpack (fs @ later)
          = Inr ((event_of ''WHISPER'' (uu_str uuid) (zyre_peer_name p))\<lparr>ev_msg := Some content\<rparr>, later))
    \<and> (\<exists>fs. recv_peer_shout peer uuid msg self = Inr (self\<lparr>n_outbox := n_outbox self @ fs\<rparr>)
        \<and> zyre_event_new unpack (fs @ later)
          = Inr ((event_of ''SHOUT'' (uu_str uuid) (zyre_peer_name p))
              \<lparr>ev_group := Some (m_group msg), ev_msg := Some content\<rparr>, later))"
  using talk_written [OF assms(1,5,6), of uuid] talk_read [OF assms(3,2,4), of unpack content later] by blast

definition named_node :: zyre_node where
  "named_node = sample_start\<lparr>n_heap := (\<lambda>_. None)(0 \<mapsto> sample_peer\<lparr>p_name := Some ''n''\<rparr>)\<rparr>"

theorem message_events_roundtrip_witness:
  "(\<exists>fs. recv_peer_whisper 0 (p_uuid sample_peer) (zre_msg_new\<lparr>m_group := ''A'', m_content := Some [[1]]\<rparr>) named_node
          = Inr (named_node\<lparr>n_outbox := n_outbox named_node @ fs\<rparr>)
        \<and> zyre_event_new (\<lambda>_. None) (fs @ [])
          = Inr ((event_of ''WHISPER'' (uu_str (p_uuid sample_peer)) (zyre_peer_name (sample_peer\<lparr>p_name := Some ''n''\<rparr>)))
              \<lparr>ev_msg := Some [[1]]\<rparr>, []))
    \<and> (\<exists>fs. recv_peer_shout 0 (p_uuid sample_peer) (zre_msg_new\<lparr>m_group := ''A'', m_content := Some [[1]]\<rparr>) named_node
          = Inr (named_node\<lparr>n_outbox := n_outbox named_node @ fs\<rparr>)
        \<and> zyre_event_new (\<lambda>_. None) (fs @ [])
          = Inr ((event_of ''SHOUT'' (uu_str (p_uuid sample_peer)) (zyre_peer_name (sample_peer\<lparr>p_name := Some ''n''\<rparr>)))
              \<lparr>ev_group := Some (m_group (zre_msg_new\<lparr>m_group := ''A'', m_content := Some [[1]]\<rparr>)), ev_msg := Some [[1]]\<rparr>, []))"
  by (rule message_events_roundtrip)
    (simp_all add: named_node_def zyre_peer_name_def c_string_def sample_peer_def zyre_peer_init_def)

text \<open>A WHISPER or SHOUT that arrives without content frames (or cut short) leaves its event open on the
  outbox, so the application reads the whole next event, whatever it is, as the content.\<close>

theorem empty_message_swallows_next_event:
  assumes "n_heap self peer = Some p" and "m_content msg = None \<or> m_content msg = Some []"
    and "c_string (zyre_peer_name p)" and "c_string (uu_str uuid)"
    and "zmsg_recv_rest next_event = (frames, later)"
  shows "\<exists>fs. recv_peer_whisper peer uuid msg self = Inr (self\<lparr>n_outbox := n_outbox self @ fs\<rparr>)
    \<and> zyre_event_new unpack (fs @ next_event)
      = Inr ((event_of ''WHISPER'' (uu_str uuid) (zyre_peer_name p))\<lparr>ev_msg := Some frames\<rparr>, later)"
proof -
  let ?fs = "pipe_sendm ''WHISPER'' @ pipe_sendm (uu_str uuid) @ pipe_sendm (zyre_peer_name p)"
  have "recv_peer_whisper peer uuid msg self = Inr (self\<lparr>n_outbox := n_outbox self @ ?fs\<rparr>)"
    using assms(1,2) by (auto simp: recv_peer_whisper_def node_peer_def outbox_msg_def outbox_sendm_def pipe_sendm_def)
  moreover have "zyre_event_new unpack (?fs @ next_event)
      = Inr ((event_of ''WHISPER'' (uu_str uuid) (zyre_peer_name p))\<lparr>ev_msg := Some frames\<rparr>, later)"
    using assms(3-5) by (simp add: zyre_event_new_def zyre_event_parse_def event_of_def c_string_def)
  ultimately show ?thesis by blast
qed

theorem empty_message_swallows_next_event_witness:
  "\<exists>fs. recv_peer_whisper 0 (p_uuid sample_peer) zre_msg_new named_node
      = Inr (named_node\<lparr>n_outbox := n_outbox named_node @ fs\<rparr>)
    \<and> zyre_event_new (\<lambda>_. None) (fs @ multipart [str_bytes ''EXIT'', str_bytes ''8'', str_bytes ''m''])
      = Inr ((event_of ''WHISPER'' (uu_str (p_uuid sample_peer)) (zyre_peer_name (sample_peer\<lparr>p_name := Some ''n''\<rparr>)))
          \<lparr>ev_msg := Some [str_bytes ''EXIT'', str_bytes ''8'', str_bytes ''m'']\<rparr>, [])"
  by (rule empty_message_swallows_next_event)
    (simp_all add: named_node_def zyre_peer_name_def c_string_def sample_peer_def zyre_peer_init_def zre_msg_new_def)

text \<open>
  What CZMQ documents of \<open>zhash_pack\<close> and \<open>zhash_unpack\<close>: a table whose names and values fit
  the packed format is unpacked as a table with the same entries. Nothing is said of their order.
\<close>

definition packs_tables :: "(string zhash \<Rightarrow> byte list) \<Rightarrow> (byte list \<Rightarrow> string zhash option) \<Rightarrow> bool" where
  "packs_tables pack unpack \<longleftrightarrow> (\<forall>h. wf_zhash h \<and> length h < 2 ^ 32 \<and> (\<forall>e \<in> set h. entry_ok e)
     \<longrightarrow> (\<exists>h'. unpack (pack h) = Some h' \<and> wf_zhash h' \<and> set h' = set h))"

definition enter_frames :: "env \<Rightarrow> zyre_peer \<Rightarrow> string zhash \<Rightarrow> string \<Rightarrow> zframe list" where
  "enter_frames env p h endpoint = multipart [str_bytes ''ENTER'', str_bytes (zyre_peer_identity p),
     str_bytes (zyre_peer_name p), env_pack env h, str_bytes endpoint]"

lemma enter_written:
  "p_headers p = Some h \<Longrightarrow>
     enter_event env p endpoint self = self\<lparr>n_outbox := n_outbox self @ enter_frames env p h endpoint\<rparr>"
  by (simp add: enter_event_def enter_frames_def outbox_sendm_def outbox_send_def outbox_frame_def Let_def)

lemma enter_read:
  assumes "c_string (zyre_peer_name p)" and "c_string (zyre_peer_identity p)" and "c_string endpoint"
  shows "zyre_event_new unpack (enter_frames env p h endpoint @ later)
    = Inr ((event_of ''ENTER'' (zyre_peer_identity p) (zyre_peer_name p))
        \<lparr>ev_headers := unpack (env_pack env h), ev_peer_addr := Some endpoint\<rparr>, later)"
  using assms
  by (simp add: enter_frames_def event_new_multipart zyre_event_parse_def event_of_def c_string_def del: multipart.simps)

text \<open>C35: the ENTER event of a peer adds one event to the outbox and changes nothing else; the application's
  event object shows the peer's identity and name, the endpoint of its HELLO, and exactly the peer's headers: it
  has an entry for a name if and only if the peer has it, with that value, and \<open>zyre_event_header\<close> answers
  each name with it, or with null; the next event stays in place. Assumed are the documented law of the packed
  format, headers that fit it, which those of a HELLO do, and texts without NUL.\<close>

theorem enter_event_roundtrip:
  assumes "packs_tables (env_pack env) unpack" and "p_headers p = Some h"
    and "wf_zhash h" and "length h < 2 ^ 32" and "\<forall>e \<in> set h. entry_ok e"
    and "c_string (zyre_peer_name p)" and "c_string (zyre_peer_identity p)" and "c_string endpoint"
  shows "\<exists>fs headers event. enter_event env p endpoint self = self\<lparr>n_outbox := n_outbox self @ fs\<rparr>
    \<and> zyre_event_new unpack (fs @ later) = Inr (event, later)
    \<and> event = (event_of ''ENTER'' (zyre_peer_identity p) (zyre_peer_name p))
        \<lparr>ev_headers := Some headers, ev_peer_addr := Some endpoint\<rparr>
    \<and> wf_zhash headers \<and> set headers = set h
    \<and> (\<forall>name. zyre_event_header event name = zhash_lookup h name)"
proof -
  obtain headers where h: "unpack (env_pack env h) = Some headers" "wf_zhash headers" "set headers = set h"
    using assms(1,3-5) unfolding packs_tables_def by blast
  then have "zhash_lookup headers name = zhash_lookup h name" for name
    using assms(3) by (intro zhash_lookup_cong) auto
  moreover note enter_written [OF assms(2), of env endpoint self] enter_read [OF assms(6-8), of unpack env h later] h
  ultimately show ?thesis
    by (intro exI [of _ "enter_frames env p h endpoint"] exI [of _ headers]
        exI [of _ "(event_of ''ENTER'' (zyre_peer_identity p) (zyre_peer_name p))
          \<lparr>ev_headers := Some headers, ev_peer_addr := Some endpoint\<rparr>"] conjI)
      (simp_all add: zyre_event_header_def)
qed

text \<open>The packed format is the one HELLO uses for its headers: a count, then the entries.\<close>

definition dictionary_pack :: "string zhash \<Rightarrow> byte list" where
  "dictionary_pack h = put_number4 (int (length h)) @ concat (map put_entry h)"

definition dictionary_unpack :: "byte list \<Rightarrow> string zhash option" where
  "dictionary_unpack bs = (case get_number4 bs of None \<Rightarrow> None
     | Some (n, bs) \<Rightarrow> (case get_many get_entry (unat n) bs of
         (es, Some _) \<Rightarrow> Some (recv_headers length es) | _ \<Rightarrow> None))"

lemma dictionary_packs: "packs_tables dictionary_pack dictionary_unpack"
proof -
  have "\<exists>h'. dictionary_unpack (dictionary_pack h) = Some h' \<and> wf_zhash h' \<and> set h' = set h"
    if h: "wf_zhash h" "length h < 2 ^ 32" "\<forall>e \<in> set h. entry_ok e" for h
  proof -
    have n: "unat (word_of_int (int (length h)) :: 32 word) = length h" using h(2) by (simp add: unat_of_nat)
    have "get_many get_entry (length h) (concat (map put_entry h)) = (h, Some [])"
      using we.get_many_put [OF h(3), of "[]"] by simp
    then have u: "dictionary_unpack (dictionary_pack h) = Some (recv_headers length h)"
      by (simp add: dictionary_unpack_def dictionary_pack_def wn4.get_put n del: of_int_of_nat_eq)
    have r: "wf_zhash (recv_headers length h) \<and> zhash_lookup (recv_headers length h) k = zhash_lookup h k" for k
      using zd.lookup_insert_list [of "[]" length h k] h(1) by (simp add: recv_headers_def zhash_lookup_def)
    have "set (recv_headers length h) = set h"
    proof (rule set_eqI)
      fix e show "e \<in> set (recv_headers length h) \<longleftrightarrow> e \<in> set h"
        using r [of "fst e"] zhash_lookup_iff [of "recv_headers length h" "fst e" "snd e"]
          zhash_lookup_iff [OF h(1), of "fst e" "snd e"] by simp
    qed
    with u r show ?thesis by blast
  qed
  then show ?thesis by (simp add: packs_tables_def)
qed

definition two_headers :: "string zhash" where
  "two_headers = [(''X-A'', ''1''), (''X-B'', ''2'')]"

definition headed_peer :: zyre_peer where
  "headed_peer = sample_peer\<lparr>p_name := Some ''n'', p_headers := Some two_headers\<rparr>"

theorem enter_event_roundtrip_witness:
  "\<exists>fs headers event. enter_event (run_env\<lparr>env_pack := dictionary_pack\<rparr>) headed_peer ''x'' sample_start
      = sample_start\<lparr>n_outbox := n_outbox sample_start @ fs\<rparr>
    \<and> zyre_event_new dictionary_unpack (fs @ []) = Inr (event, [])
    \<and> event = (event_of ''ENTER'' (zyre_peer_identity headed_peer) (zyre_peer_name headed_peer))
        \<lparr>ev_headers := Some headers, ev_peer_addr := Some ''x''\<rparr>
    \<and> wf_zhash headers \<and> set headers = set two_headers
    \<and> (\<forall>name. zyre_event_header event name = zhash_lookup two_headers name)"
  by (rule enter_event_roundtrip)
    (simp_all add: dictionary_packs headed_peer_def two_headers_def sample_peer_def zyre_peer_init_def
      zyre_peer_name_def zyre_peer_identity_def c_string_def wf_zhash_def entry_ok_def short_ok_def long_ok_def)

text \<open>
  A peer has no header table only after a HELLO that was cut off before its headers. Then the frame is
  missing, and the event object takes the endpoint for the packed headers and has no address.
\<close>

lemma enter_event_without_table:
  assumes "p_headers p = None"
    and "c_string (zyre_peer_name p)" and "c_string (zyre_peer_identity p)" and "c_string endpoint"
  shows "\<exists>fs. enter_event env p endpoint self = self\<lparr>n_outbox := n_outbox self @ fs\<rparr>
    \<and> zyre_event_new unpack (fs @ later) = Inr ((event_of ''ENTER'' (zyre_peer_identity p) (zyre_peer_name p))
        \<lparr>ev_headers := unpack (str_bytes endpoint), ev_peer_addr := None\<rparr>, later)"
proof -
  let ?fs = "multipart [str_bytes ''ENTER'', str_bytes (zyre_peer_identity p), str_bytes (zyre_peer_name p), str_bytes endpoint]"
  have "enter_event env p endpoint self = self\<lparr>n_outbox := n_outbox self @ ?fs\<rparr>"
    using assms(1) by (simp add: enter_event_def outbox_event4 Let_def del: multipart.simps)
  moreover have "zyre_event_new unpack (?fs @ later) = Inr ((event_of ''ENTER'' (zyre_peer_identity p) (zyre_peer_name p))
        \<lparr>ev_headers := unpack (str_bytes endpoint), ev_peer_addr := None\<rparr>, later)"
    using assms(2-4) by (simp add: event_new_multipart zyre_event_parse_def event_of_def c_string_def del: multipart.simps)
  ultimately show ?thesis by blast
qed

end
