(* ===== verification/Zyre_Discovery_Props.thy ===== *)
theory Zyre_Discovery_Props
  imports Zyre_Runs
begin

text \<open>
  The two ways nodes find each other agree at both ends: what a node puts in its beacon or publishes by
  gossip is what another node reads, and the peer it then makes has that identity, endpoint and key.
\<close>

section \<open>Beacons\<close>

text \<open>The octets of a beacon, field by field.\<close>

definition beacon_octets :: "byte \<Rightarrow> byte list \<Rightarrow> int \<Rightarrow> byte list \<Rightarrow> byte list" where
  "beacon_octets version uuid port key = zre_protocol @ [version] @ uuid @ put_number2 port @ key"

lemma beacon_fields:
  assumes "length uuid = 16" and "beacon = beacon_octets version uuid port key" and "0 \<le> port" and "port < 65536"
  shows "beacon ! 3 = version" "take 16 (drop 4 beacon) = uuid" "drop 22 beacon = key"
    "beacon_port beacon = port" "length beacon = 22 + length key"
proof -
  have l: "length zre_protocol = 3" by (simp add: zre_protocol_def)
  obtain p0 p1 where p: "put_number2 port = [p0, p1]" "256 * uint p0 + uint p1 = port"
  proof -
    have "256 * uint (word_of_int (drop_bit 8 port AND 255) :: byte) + uint (word_of_int (port AND 255) :: byte) = port"
      using assms(3,4) by (simp add: drop_bit_and_255 uint_word_of_int drop_bit_eq_div)
    then show thesis by (intro that) (simp_all add: put_number2_def)
  qed
  show "beacon ! 3 = version" "take 16 (drop 4 beacon) = uuid" "drop 22 beacon = key"
    "beacon_port beacon = port" "length beacon = 22 + length key"
    using assms(1,2) l p by (simp_all add: beacon_octets_def nth_append beacon_port_def)
qed

lemma beacon_of_octets:
  assumes "length uuid = 16" and "0 \<le> port" and "port < 65536"
  shows "length key = 32 \<Longrightarrow> beacon_of (beacon_octets v uuid port key) = beacon_octets v uuid port key"
    "beacon_of (beacon_octets v uuid port []) = beacon_octets v uuid port (replicate 32 0)"
  using beacon_fields(5) [OF assms(1) refl assms(2,3), of v key] beacon_fields(5) [OF assms(1) refl assms(2,3), of v "[]"]
  by (simp_all add: beacon_of_def) (simp add: beacon_octets_def)

text \<open>What a node of version 2 has no key to send; a node of version 3 sends its key.\<close>

lemma beacon_frame_octets:
  assumes "length (uu_data (n_uuid self)) = 16"
    and "case key of
           None \<Rightarrow> n_beacon_version self = BEACON_VERSION_V2 \<and> n_public_key self = None
         | Some k \<Rightarrow> n_beacon_version self = BEACON_VERSION_V3 \<and> n_public_key self = Some k
             \<and> length (env_z85_decode env k) = 32"
  shows "beacon_frame env self port = Inr (beacon_octets (n_beacon_version self) (uu_data (n_uuid self)) port
     (case key of None \<Rightarrow> [] | Some k \<Rightarrow> env_z85_decode env k))"
  using assms
  by (auto simp: beacon_frame_def beacon_key_def beacon_octets_def zre_protocol_def put_number2_def split: option.splits)

lemma length_dec_digits: "n < 10 ^ Suc k \<Longrightarrow> length (dec_digits n) \<le> Suc k"
proof (induction k arbitrary: n)
  case (Suc k)
  then have "n div 10 < 10 ^ Suc k" by (simp add: less_mult_imp_div_less)
  then show ?case using Suc.IH [of "n div 10"] by (simp add: dec_digits.simps [of n])
qed (simp add: dec_digits.simps)

lemma length_c_dec: "0 \<le> port \<Longrightarrow> port < 65536 \<Longrightarrow> length (c_dec port) \<le> 5"
  using length_dec_digits [of "nat port" 4] by (simp add: c_dec_def)

text \<open>What a receiver that has a secret key looks at: the first octet of the key in the beacon. A beacon of
  version 2 has no key, which reads as octets of zero.\<close>

definition refuses_key :: "env \<Rightarrow> zyre_node \<Rightarrow> string option \<Rightarrow> bool" where
  "refuses_key env' other key \<longleftrightarrow> n_secret_key other \<noteq> None
     \<and> (case key of None \<Rightarrow> True | Some k \<Rightarrow> hd (env_z85_decode env' k) = 0)"

text \<open>C31: the beacon a node sends is received by another node of the same protocol version. A receiver with a
  secret key ignores the beacon when the sender has no key, and also when the sender's key begins with an
  octet of zero, which it takes for a missing key. In every other case the beacon makes the receiver require a
  peer of the sender's identity at the sender's address and port, with the sender's key for version 3 and
  without one for version 2; the beacon of port zero, sent at the stop, makes it remove the peer of that
  identity, if it has one. Assumed is that the UUID and Z85 functions are inverse on the sender's own identity
  of 16 octets and key of 32 octets, that a node without a key speaks version 2 and one with a key version 3,
  and that the address the beacon came from has less than 1000 characters.\<close>

theorem beacon_roundtrip:
  assumes "length (uu_data (n_uuid self)) = 16"
    and "env_uuid_of env (uu_data (n_uuid self)) = n_uuid self"
    and "n_beacon_version other = n_beacon_version self"
    and "case key of
           None \<Rightarrow> n_beacon_version self = BEACON_VERSION_V2 \<and> n_public_key self = None
         | Some k \<Rightarrow> n_beacon_version self = BEACON_VERSION_V3 \<and> n_public_key self = Some k
             \<and> length (env_z85_decode env' k) = 32 \<and> env_z85_encode env (env_z85_decode env' k) = k"
    and "0 \<le> port" and "port < 65536" and "length ip < 1000"
  shows "\<exists>frame. beacon_frame env' self port = Inr frame
    \<and> zyre_node_recv_beacon env ip frame other
      = (if refuses_key env' other key then Inr other
         else if port = 0 then (case zhash_lookup (n_peers other) (uu_str (n_uuid self)) of
             None \<Rightarrow> Inr other | Some peer \<Rightarrow> zyre_node_remove_peer env peer other)
         else and_then (zyre_node_require_peer env other (n_uuid self) (''tcp://'' @ ip @ '':'' @ c_dec port) key)
                (\<lambda>(peer, s). Inr s))"
proof -
  define d where "d = (case key of None \<Rightarrow> [] | Some k \<Rightarrow> env_z85_decode env' k)"
  define f where "f = beacon_octets (n_beacon_version self) (uu_data (n_uuid self)) port d"
  define g where "g = beacon_octets (n_beacon_version self) (uu_data (n_uuid self)) port
      (case key of None \<Rightarrow> replicate 32 0 | Some k \<Rightarrow> d)"
  have sent: "beacon_frame env' self port = Inr f"
    using beacon_frame_octets [where self = self and key = key and env = env' and port = port] assms(1,4)
    by (auto simp: f_def d_def split: option.splits)
  have got: "beacon_of f = g"
    using beacon_of_octets [OF assms(1,5,6)] assms(4) by (auto simp: f_def g_def d_def split: option.splits)
  note fields = beacon_fields [OF assms(1) g_def assms(5,6)]
  have len: "length (''tcp://'' @ ip @ '':'' @ c_dec port) < 1025"
    using length_c_dec [OF assms(5,6)] assms(7) by simp
  have "zyre_node_recv_beacon env ip f other
      = (if refuses_key env' other key then Inr other
         else if port = 0 then (case zhash_lookup (n_peers other) (uu_str (n_uuid self)) of
             None \<Rightarrow> Inr other | Some peer \<Rightarrow> zyre_node_remove_peer env peer other)
         else and_then (zyre_node_require_peer env other (n_uuid self) (''tcp://'' @ ip @ '':'' @ c_dec port) key)
                (\<lambda>(peer, s). Inr s))"
    using assms(2-4) fields len
    by (auto simp: zyre_node_recv_beacon_def got Let_def d_def refuses_key_def split: option.splits)
  with sent show ?thesis by blast
qed

text \<open>Nodes with a key: its printable form has the octets as characters.\<close>

definition key_env :: env where
  "key_env = run_env\<lparr>env_uuid_of := (\<lambda>d. \<lparr>uu_data = d, uu_str = ''9''\<rparr>),
     env_uuid_of_str := (\<lambda>s. \<lparr>uu_data = replicate 16 9, uu_str = s\<rparr>),
     env_z85_encode := map byte_char, env_z85_decode := map char_byte\<rparr>"

definition keyed_node :: zyre_node where
  "keyed_node = sample_start\<lparr>n_beacon_version := BEACON_VERSION_V3, n_public_key := Some (replicate 32 (CHR ''k'')),
     n_secret_key := Some ''s''\<rparr>"

lemma sample_start_sel:
  "n_uuid sample_start = \<lparr>uu_data = replicate 16 9, uu_str = ''9''\<rparr>" "n_peers sample_start = []"
  "n_endpoint sample_start = None" "n_advertised_endpoint sample_start = None" "n_gossip sample_start = None"
  by (simp_all add: sample_start_def actor_start_def zyre_node_new_def run_env_def sample_env_def zclock_mono_def
      pipe_send_def)

theorem beacon_roundtrip_witness:
  "\<exists>frame. beacon_frame key_env keyed_node 5 = Inr frame
    \<and> zyre_node_recv_beacon key_env ''h'' frame keyed_node
      = (if refuses_key key_env keyed_node (Some (replicate 32 (CHR ''k''))) then Inr keyed_node
         else if (5::int) = 0 then (case zhash_lookup (n_peers keyed_node) (uu_str (n_uuid keyed_node)) of
             None \<Rightarrow> Inr keyed_node | Some peer \<Rightarrow> zyre_node_remove_peer key_env peer keyed_node)
         else and_then (zyre_node_require_peer key_env keyed_node (n_uuid keyed_node)
             (''tcp://'' @ ''h'' @ '':'' @ c_dec 5) (Some (replicate 32 (CHR ''k''))))
                (\<lambda>(peer, s). Inr s))"
  by (rule beacon_roundtrip) (simp_all add: keyed_node_def key_env_def sample_start_sel)

text \<open>A node with a secret key takes a key that begins with a zero octet for a missing one and ignores
  every beacon of its owner, so two nodes with valid keys never find each other when one key starts
  with zero.\<close>

theorem beacon_zero_key_refused:
  assumes "length (uu_data (n_uuid self)) = 16" and "n_beacon_version self = BEACON_VERSION_V3"
    and "n_public_key self = Some k" and "env_z85_decode env' k = 0 # rest" and "length rest = 31"
    and "n_secret_key other \<noteq> None" and "0 \<le> port" and "port < 65536"
  shows "\<exists>frame. beacon_frame env' self port = Inr frame \<and> zyre_node_recv_beacon env ip frame other = Inr other"
proof -
  have l: "length (env_z85_decode env' k) = 32" using assms(4,5) by simp
  let ?f = "beacon_octets (n_beacon_version self) (uu_data (n_uuid self)) port (0 # rest)"
  have sent: "beacon_frame env' self port = Inr ?f"
    using beacon_frame_octets [where self = self and key = "Some k" and env = env' and port = port] assms(1-4) l by simp
  have got: "beacon_of ?f = ?f" using assms(5) by (intro beacon_of_octets assms) simp
  have "zyre_node_recv_beacon env ip ?f other = Inr other"
    using beacon_fields [OF assms(1) refl assms(7,8)] assms(6)
    by (simp add: zyre_node_recv_beacon_def got Let_def)
  with sent show ?thesis by blast
qed

definition zero_key_node :: zyre_node where
  "zero_key_node = keyed_node\<lparr>n_public_key := Some (CHR 0x00 # replicate 31 (CHR ''k''))\<rparr>"

lemma zero_key_octets: "map char_byte (CHR 0x00 # replicate 31 (CHR ''k'')) = 0 # replicate 31 (char_byte (CHR ''k''))"
  using char_byte_zero [of "CHR 0x00"] by (simp add: eval_nat_numeral)

theorem beacon_zero_key_refused_witness:
  "\<exists>frame. beacon_frame key_env zero_key_node 5 = Inr frame
    \<and> zyre_node_recv_beacon key_env ''h'' frame keyed_node = Inr keyed_node"
proof (rule beacon_zero_key_refused [where k = "CHR 0x00 # replicate 31 (CHR ''k'')"
      and rest = "replicate 31 (char_byte (CHR ''k''))"])
  show "env_z85_decode key_env (CHR 0x00 # replicate 31 (CHR ''k'')) = 0 # replicate 31 (char_byte (CHR ''k''))"
    by (simp add: key_env_def zero_key_octets [simplified])
qed (simp_all add: keyed_node_def zero_key_node_def sample_start_sel)

section \<open>Gossip\<close>

lemma split_at_bar:
  "c \<notin> set s \<Longrightarrow> takeWhile (\<lambda>d. d \<noteq> c) (s @ c # t) = s"
  "c \<notin> set s \<Longrightarrow> dropWhile (\<lambda>d. d \<noteq> c) (s @ c # t) = c # t"
  by (induction s) auto

text \<open>The published text is taken apart into the endpoint and the key it was made of.\<close>

lemma split_published:
  assumes "CHR ''|'' \<notin> set endpoint" and "\<forall>a. n_advertised_endpoint self = Some a \<longrightarrow> CHR ''|'' \<notin> set a"
  shows "split_key (published_endpoint self endpoint)
    = (case n_advertised_endpoint self of Some a \<Rightarrow> a | None \<Rightarrow> endpoint, n_public_key self)"
proof -
  have "split_key (s @ ''|'' @ key) = (s, Some key)" if "CHR ''|'' \<notin> set s" for s key
    using that by (simp add: split_key_def c_strchr_def split_at_bar)
  moreover have "split_key s = (s, None)" if "CHR ''|'' \<notin> set s" for s
    using that by (simp add: split_key_def c_strchr_def)
  ultimately show ?thesis using assms
    by (auto simp: published_endpoint_def Let_def split: option.splits)
qed

text \<open>Where a node is reached: the advertised endpoint, if one is set.\<close>

definition reached_at :: "zyre_node \<Rightarrow> string \<Rightarrow> string" where
  "reached_at self endpoint = (case n_advertised_endpoint self of Some a \<Rightarrow> a | None \<Rightarrow> endpoint)"

text \<open>C32: a node that starts with gossip publishes one service under its identity; delivered to another
  node, that service makes it require a peer of that identity at the publisher's advertised endpoint,
  else its bound one, with the publisher's public key, if it has one; a node that reads an endpoint of
  its own does nothing. Endpoints are assumed to have no bar in them.\<close>

theorem gossip_roundtrip:
  assumes "n_gossip self = Some cmds" and "n_endpoint self = Some e" and "n_secret_key self \<noteq> None \<Longrightarrow> env_curve env'"
    and "CHR ''|'' \<notin> set e" and "\<forall>a. n_advertised_endpoint self = Some a \<longrightarrow> CHR ''|'' \<notin> set a"
    and "env_uuid_of_str env (uu_str (n_uuid self)) = n_uuid self" and "n_endpoint other = Some own"
  shows "\<exists>s service. node_start_gossip env' self = Inr (0, s)
    \<and> n_gossip s = Some (cmds @ [[''PUBLISH'', uu_str (n_uuid self), service]])
    \<and> zyre_node_recv_gossip env ''DELIVER'' (uu_str (n_uuid self)) service other
      = (if streq (reached_at self e) own
            \<or> (\<exists>a. n_advertised_endpoint other = Some a \<and> streq (reached_at self e) a)
         then Inr other
         else and_then (zyre_node_require_peer env other (n_uuid self) (reached_at self e) (n_public_key self))
                (\<lambda>(peer, s). Inr s))"
proof -
  let ?service = "published_endpoint self e"
  let ?s = "zpoller_add Inbox (zpoller_add Gossip
      (self\<lparr>n_gossip := Some (cmds @ [[''PUBLISH'', uu_str (n_uuid self), ?service]])\<rparr>))"
  have "node_start_gossip env' self = Inr (0, ?s)"
    using assms(1-3) by (auto simp: node_start_gossip_def gossip_sendx_def node_check_mechanism_def)
  moreover have "n_gossip ?s = Some (cmds @ [[''PUBLISH'', uu_str (n_uuid self), ?service]])"
    by (simp add: zpoller_add_def)
  moreover have "zyre_node_recv_gossip env ''DELIVER'' (uu_str (n_uuid self)) ?service other
      = (if streq (reached_at self e) own
            \<or> (\<exists>a. n_advertised_endpoint other = Some a \<and> streq (reached_at self e) a)
         then Inr other
         else and_then (zyre_node_require_peer env other (n_uuid self) (reached_at self e) (n_public_key self))
                (\<lambda>(peer, s). Inr s))"
    using assms(6,7) split_published [OF assms(4,5)]
    by (auto simp: zyre_node_recv_gossip_def reached_at_def split: option.split)
  ultimately show ?thesis by blast
qed

definition gossip_node :: zyre_node where
  "gossip_node = keyed_node\<lparr>n_gossip := Some [], n_endpoint := Some ''tcp://h:5'', n_secret_key := None\<rparr>"

theorem gossip_roundtrip_witness:
  "\<exists>s service. node_start_gossip key_env gossip_node = Inr (0, s)
    \<and> n_gossip s = Some ([] @ [[''PUBLISH'', uu_str (n_uuid gossip_node), service]])
    \<and> zyre_node_recv_gossip key_env ''DELIVER'' (uu_str (n_uuid gossip_node)) service (gossip_node\<lparr>n_endpoint := Some ''e''\<rparr>)
      = (if streq (reached_at gossip_node ''tcp://h:5'') ''e''
            \<or> (\<exists>a. n_advertised_endpoint (gossip_node\<lparr>n_endpoint := Some ''e''\<rparr>) = Some a
                 \<and> streq (reached_at gossip_node ''tcp://h:5'') a)
         then Inr (gossip_node\<lparr>n_endpoint := Some ''e''\<rparr>)
         else and_then (zyre_node_require_peer key_env (gossip_node\<lparr>n_endpoint := Some ''e''\<rparr>) (n_uuid gossip_node)
             (reached_at gossip_node ''tcp://h:5'') (n_public_key gossip_node))
                (\<lambda>(peer, s). Inr s))"
  by (rule gossip_roundtrip) (simp_all add: gossip_node_def keyed_node_def key_env_def sample_start_sel)

end
