(* ===== verification/Zyre_Node_Total.thy ===== *)
theory Zyre_Node_Total
  imports Zyre_Runs
begin

text \<open>
  When the operations on peers cannot fail: in a node with sound tables that contests no election, peers
  are removed, made, and moved in and out of groups without a fault, and these lemmas say what exactly
  is left behind. Contested groups are left out because a group's leader may point to a freed peer.
\<close>

section \<open>Uncontested nodes\<close>

definition uncontested :: "zyre_node \<Rightarrow> bool" where
  "uncontested self \<longleftrightarrow> (\<forall>(name, g) \<in> set (n_peer_groups self). \<not> g_contest g)"

lemma uncontestedD: "uncontested self \<Longrightarrow> (name, g) \<in> set (n_peer_groups self) \<Longrightarrow> \<not> g_contest g"
  unfolding uncontested_def by blast

lemma uncontested_put: "uncontested self \<Longrightarrow> \<not> g_contest g \<Longrightarrow> uncontested (put_group name g self)"
  by (auto simp: uncontested_def put_group_def dest!: set_zhash_alter)

lemma uncontested_cong: "n_peer_groups s = n_peer_groups t \<Longrightarrow> uncontested s = uncontested t"
  by (simp add: uncontested_def)

lemma uncontested_require:
  assumes "uncontested self" and "zyre_node_require_peer_group env name self = (g, s)"
  shows "\<not> g_contest g \<and> uncontested s \<and> n_outbox s = n_outbox self \<and> n_heap s = n_heap self
    \<and> n_gossip s = n_gossip self"
  using assms by (auto simp: zyre_node_require_peer_group_def uncontested_def set_zhash_insert zyre_group_new_def
      split: option.splits if_splits dest: zhash_lookup_SomeD)

section \<open>Removing a peer\<close>

text \<open>What the loops of the removal keep.\<close>

definition calm :: "zyre_node \<Rightarrow> zyre_node \<Rightarrow> bool" where
  "calm self s \<longleftrightarrow> steady self s \<and> (uncontested self \<longrightarrow> uncontested s) \<and> n_outbox s = n_outbox self"

lemma calm_trans: "calm a b \<Longrightarrow> calm b c \<Longrightarrow> calm a c"
  unfolding calm_def using steady_trans by auto

lemma calm_refl [simp]: "calm a a"
  by (simp add: calm_def)

lemma remove_restart_calm:
  assumes "uncontested self"
  shows "yields (remove_restart env identity name self) (calm self)"
proof -
  obtain g s where gs: "zyre_node_require_peer_group env name self = (g, s)" by (rule prod.exhaust)
  show ?thesis using uncontested_require [OF assms gs] steady_require_group(1) [OF gs] assms
    by (simp add: remove_restart_def gs zyre_simps calm_def)
qed

lemma each_calm:
  assumes "uncontested self" and "\<And>x s. calm self s \<Longrightarrow> yields (f x s) (calm s)"
  shows "yields (each f xs self) (calm self)"
proof (rule yields_each)
  show "yields (f x s) (calm self)" if "calm self s" for x s
    by (rule yields_weaken [OF assms(2) [OF that]]) (rule calm_trans [OF that])
qed simp

lemma delete_peer_calm:
  assumes "n_heap self peer = Some p" and "node_ok self" and "group_ok (n_peers self) g"
    and "uncontested self" and "\<not> g_contest g"
  shows "yields (zyre_node_delete_peer peer (name, g) self) (calm self)"
proof -
  have "ensures (zyre_node_delete_peer peer (name, g) self) (steady self)"
    by (rule ensures_weaken [OF delete_peer_step [OF assms(2,3,1)]]) blast
  moreover obtain s where s: "zyre_node_delete_peer peer (name, g) self = Inr s" "n_outbox s = n_outbox self"
    "n_peer_groups s = zhash_alter name (g\<lparr>g_peers := zhash_delete (zyre_peer_identity p) (g_peers g)\<rparr>) (n_peer_groups self)"
    using assms(1) by (simp add: zyre_node_delete_peer_def zyre_group_leave_def Let_def put_group_def)
  moreover have "uncontested s"
    using assms(4,5) s(3) by (auto simp: uncontested_def dest!: set_zhash_alter)
  ultimately show ?thesis by (simp add: calm_def)
qed

lemma delete_peers_calm:
  assumes "n_heap self peer = Some p" and "node_ok self" and "uncontested self"
  shows "yields (each (zyre_node_delete_peer peer) (n_peer_groups self) self) (calm self)"
proof (rule yields_each [where I = "calm self"])
  fix item s assume item: "item \<in> set (n_peer_groups self)" and s: "calm self s"
  obtain name g where e: "item = (name, g)" by (rule prod.exhaust)
  have st: "steady self s" using s by (simp add: calm_def)
  obtain p' where p': "n_heap s peer = Some p'" using steady_peer [OF st assms(1)] .
  have g: "group_ok (n_peers s) g" "\<not> g_contest g"
    using groups_okD [OF node_okD(3) [OF assms(2)]] item e steadyD(1) [OF st] uncontestedD [OF assms(3)] by simp_all
  have "uncontested s" using s assms(3) by (simp add: calm_def)
  from delete_peer_calm [OF p' steadyD(3) [OF st assms(2)] g(1) this g(2)]
  show "yields (zyre_node_delete_peer peer item s) (calm self)"
    unfolding e by (rule yields_weaken) (rule calm_trans [OF s])
qed simp

lemma calm_outbox [simp]: "uncontested (outbox_send x s) = uncontested s" "uncontested (outbox_sendm x s) = uncontested s"
  by (simp_all add: uncontested_def outbox_send_def outbox_sendm_def)

lemma calm_delete [simp]: "n_outbox (node_delete_peer k s) = n_outbox s"
    "n_peer_groups (node_delete_peer k s) = n_peer_groups s" "uncontested (node_delete_peer k s) = uncontested s"
  by (simp_all add: node_delete_peer_def uncontested_def split: option.split)

text \<open>The frames of an event with an identity and a name.\<close>

definition event_frames :: "string \<Rightarrow> zyre_peer \<Rightarrow> zframe list" where
  "event_frames type p = multipart [str_bytes type, str_bytes (zyre_peer_identity p), str_bytes (zyre_peer_name p)]"

lemma remove_peer_yields:
  assumes "node_ok self" and "uncontested self" and "n_heap self peer = Some p"
  shows "yields (zyre_node_remove_peer env peer self) (\<lambda>s. removed peer self s \<and> uncontested s
    \<and> n_outbox s = n_outbox self @ event_frames ''EXIT'' p)"
proof -
  let ?id = "zyre_peer_identity p"
  let ?s0 = "outbox_send (zyre_peer_name p) (outbox_sendm ?id (outbox_sendm ''EXIT'' self))"
  have s0: "steady self ?s0" by (intro steady_outbox_trans) simp
  have out: "n_outbox ?s0 = n_outbox self @ event_frames ''EXIT'' p"
    by (simp add: event_frames_def outbox_send_def outbox_sendm_def)
  obtain s1 where s1: "(if env_draft env \<and> n_gossip ?s0 \<noteq> None
       then gossip_sendx [Some ''UNPUBLISH'', Some ?id] ?s0 else Inr ?s0) = Inr s1"
    "n_peer_groups s1 = n_peer_groups self" "n_outbox s1 = n_outbox self @ event_frames ''EXIT'' p" "steady self s1"
  proof (cases "env_draft env \<and> n_gossip ?s0 \<noteq> None")
    case True
    then obtain cmds where c: "n_gossip ?s0 = Some cmds" by auto
    let ?s1 = "?s0\<lparr>n_gossip := Some (cmds @ [[''UNPUBLISH'', ?id]])\<rparr>"
    have g: "gossip_sendx [Some ''UNPUBLISH'', Some ?id] ?s0 = Inr ?s1"
      using c by (simp only: gossip_sendx_def) simp
    have "steady self ?s1" by (rule steady_trans [OF s0 ensuresD [OF steady_gossip g]])
    then show thesis using True g by (intro that [of ?s1]) (simp_all add: out)
  next
    case False
    then show thesis by (intro that [of ?s0]) (auto simp: out s0)
  qed
  have u1: "uncontested s1" using assms(2) uncontested_cong [OF s1(2)] by simp
  obtain s2 where s2: "each (remove_restart env ?id) (n_own_groups s1) s1 = Inr s2" "calm s1 s2"
  proof -
    have "yields (each (remove_restart env ?id) (n_own_groups s1) s1) (calm s1)"
      by (rule each_calm [OF u1]) (use u1 in \<open>simp add: calm_def remove_restart_calm\<close>)
    then show thesis using that by (auto simp: yields_def)
  qed
  have ok2: "node_ok s2" "uncontested s2" "steady self s2"
  proof -
    have st: "steady s1 s2" and u: "uncontested s2" using s2(2) u1 by (simp_all add: calm_def)
    show "uncontested s2" by (rule u)
    show "steady self s2" by (rule steady_trans [OF s1(4) st])
    show "node_ok s2" by (rule steadyD(3) [OF st steadyD(3) [OF s1(4) assms(1)]])
  qed
  obtain p2 where "n_heap s2 peer = Some p2" using steady_peer [OF ok2(3) assms(3)] .
  then obtain s3 where s3: "each (zyre_node_delete_peer peer) (n_peer_groups s2) s2 = Inr s3" "calm s2 s3"
    using delete_peers_calm [OF _ ok2(1,2)] by (auto simp: yields_def)
  have eq: "zyre_node_remove_peer env peer self = Inr (node_delete_peer ?id s3)"
    using assms(3) s1(1) s2(1) s3(1) by (simp add: zyre_node_remove_peer_def node_peer_def Let_def)
  have "removed peer self (node_delete_peer ?id s3)"
    by (rule ensuresD [OF remove_peer_keeps [OF assms(1)] eq])
  moreover have "n_outbox s3 = n_outbox self @ event_frames ''EXIT'' p" "uncontested s3"
    using s1(3) s2(2) s3(2) ok2(2) by (simp_all only: calm_def)
  ultimately show ?thesis by (simp add: eq)
qed

section \<open>Making a peer\<close>

text \<open>Operations on a live object.\<close>

lemma node_alter_live: "n_heap s a = Some p \<Longrightarrow>
    node_on_heap (alter_peer f a) s = Inr (s\<lparr>n_heap := (n_heap s)(a \<mapsto> f p)\<rparr>)"
  by (simp add: node_on_heap_def alter_peer_def on_peer_def put_peer_def)

lemma node_send_live:
  assumes "n_heap s a = Some p" and "peer_ok p"
  obtains p' where "zyre_peer_send env p m = Inr (0, p')"
    and "node_peer_send env a m s = Inr (s\<lparr>n_heap := (n_heap s)(a \<mapsto> p')\<rparr>)"
  by (rule heap_peer_send_live [of "n_heap s" a p env m, OF assms])
    (rule that, simp_all add: node_peer_send_def node_on_heap_def)

lemma refresh_live: "n_heap s a = Some p \<Longrightarrow> \<exists>t1 t2 k. node_refresh env a s
    = Inr (s\<lparr>n_ticks := k, n_heap := (n_heap s)(a \<mapsto> p\<lparr>p_evasive_at := t1, p_expired_at := t2\<rparr>)\<rparr>)"
  by (simp add: node_refresh_def zclock_mono_def node_alter_live zyre_peer_refresh_def) blast

lemma node_connect_live:
  assumes "n_heap s a = Some p" and "zyre_peer_connect env p (n_uuid s) endpoint (n_expired_timeout s) = Inr (rc, p')"
  shows "node_connect env a endpoint s = Inr (rc, s\<lparr>n_heap := (n_heap s)(a \<mapsto> p')\<rparr>)"
  using assms by (simp add: node_connect_def node_peer_def put_peer_def)

lemma configD:
  assumes "config s = config self"
  shows "n_uuid s = n_uuid self" "n_name s = n_name self" "n_endpoint s = n_endpoint self"
    "n_advertised_endpoint s = n_advertised_endpoint self" "n_status s = n_status self"
    "n_own_groups s = n_own_groups self" "n_headers s = n_headers self" "n_public_key s = n_public_key self"
    "n_secret_key s = n_secret_key self" "n_inbox s = n_inbox self"
  using assms by (simp_all add: config_def)

lemma hello_message_config:
  assumes "config s = config self" shows "hello_message env s = hello_message env self"
  unfolding hello_message_def hello_endpoint_def configD [OF assms] ..

text \<open>Purging ends connections, and is all that happens to other peers when one is made.\<close>

lemma purge_yields:
  assumes "node_ok self"
  shows "yields (each (zyre_node_purge_peer endpoint) (n_peers self) self)
    (\<lambda>s. \<exists>h. s = self\<lparr>n_heap := h\<rparr> \<and> same_objects (n_heap self) h)"
proof (rule yields_each, goal_cases)
  case 1
  show ?case by (rule exI [of _ "n_heap self"]) simp
next
  case (2 item s)
  then obtain h where s: "s = self\<lparr>n_heap := h\<rparr>" and h: "same_objects (n_heap self) h" by blast
  obtain k a where e: "item = (k, a)" by (rule prod.exhaust)
  obtain p0 where "n_heap self a = Some p0" using filed_peer [OF assms] 2(1) e by metis
  then obtain p where p: "h a = Some p" using same_objects_live [OF h, of a] by auto
  have "heap_ok h" using h node_okD(2) [OF assms] by (simp add: same_objects_def)
  then have "peer_ok p" using p by (rule heap_okD)
  then obtain e where pe: "zyre_peer_endpoint p = Inr e" by (auto simp: zyre_peer_endpoint_def peer_ok_def)
  let ?p = "if streq e endpoint then zyre_peer_disconnect p else p"
  have "zyre_node_purge_peer endpoint item s = Inr (self\<lparr>n_heap := put_peer a ?p h\<rparr>)"
    using p pe by (simp add: s zyre_node_purge_peer_def e node_on_heap_def on_peer_def)
  moreover have "same_objects h (put_peer a ?p h)"
    by (rule same_objects_put [where p = p]) (simp_all add: p)
  moreover have "same_objects (n_heap self) (put_peer a ?p h)"
    by (rule same_objects_trans [OF h]) fact
  ultimately show ?case by (simp only: yields_simps) blast
qed

text \<open>A peer can be connected to: its socket can be made, takes the endpoint, and keys fit together.\<close>

definition reachable_peer :: "env \<Rightarrow> zyre_node \<Rightarrow> string \<Rightarrow> string option \<Rightarrow> bool" where
  "reachable_peer env self endpoint key \<longleftrightarrow> env_dealer env \<and> env_connect env (connect_endpoint env endpoint)
     \<and> length (connect_endpoint env endpoint) < NI_MAXHOST
     \<and> (n_public_key self \<noteq> None \<and> n_secret_key self \<noteq> None \<longrightarrow> key \<noteq> None \<and> env_curve env)"

text \<open>The new object just before it is sent the HELLO.\<close>

definition fresh_peer :: "env \<Rightarrow> zyre_node \<Rightarrow> zuuid \<Rightarrow> string \<Rightarrow> string option \<Rightarrow> zyre_peer" where
  "fresh_peer env self uuid endpoint key =
     (let keyed = n_public_key self \<noteq> None \<and> n_secret_key self \<noteq> None;
          p = (zyre_peer_init uuid)\<lparr>p_public_key := if keyed then n_public_key self else None,
            p_secret_key := if keyed then n_secret_key self else None,
            p_server_key := if keyed then key else None,
            p_origin := Some (n_name self), p_verbose := n_verbose self\<rparr>
      in p\<lparr>p_mailbox := Some (connected_mailbox env p (n_uuid self) endpoint (n_expired_timeout self)),
           p_endpoint := Some (connect_endpoint env endpoint), p_connected := True\<rparr>)"

lemma fresh_peer_sel:
  "p_connected (fresh_peer env self uuid endpoint key)" "peer_ok (fresh_peer env self uuid endpoint key)"
  "\<not> p_ready (fresh_peer env self uuid endpoint key)" "p_uuid (fresh_peer env self uuid endpoint key) = uuid"
  "p_sent_sequence (fresh_peer env self uuid endpoint key) = 0"
  "p_want_sequence (fresh_peer env self uuid endpoint key) = 0"
  "p_status (fresh_peer env self uuid endpoint key) = 0" "p_name (fresh_peer env self uuid endpoint key) = None"
  by (simp_all add: fresh_peer_def Let_def peer_ok_def zyre_peer_init_def)

lemma connect_fresh:
  assumes "reachable_peer env self endpoint key" and "\<not> p_connected p"
    and "p_server_key p \<noteq> None \<Longrightarrow> p_public_key p \<noteq> None \<and> p_secret_key p \<noteq> None \<and> env_curve env"
    and "\<not> p_ready p"
  shows "zyre_peer_connect env p from endpoint t = Inr (0, p\<lparr>p_mailbox := Some (connected_mailbox env p from endpoint t),
     p_endpoint := Some (connect_endpoint env endpoint), p_connected := True\<rparr>)"
proof -
  have "p\<lparr>p_ready := False\<rparr> = p" using assms(4) by simp
  then have r: "p\<lparr>p_mailbox := m, p_endpoint := e, p_connected := c, p_ready := False\<rparr>
      = p\<lparr>p_mailbox := m, p_endpoint := e, p_connected := c\<rparr>" for m e c
    using assms(4) by simp
  show ?thesis using assms(1-3)
    by (cases "p_server_key p") (simp_all add: zyre_peer_connect_def connected_mailbox_def reachable_peer_def Let_def r)
qed

lemma require_peer_new:
  assumes "node_ok self" and "zhash_lookup (n_peers self) (uu_str uuid) = None"
    and "reachable_peer env self endpoint key" and "hello_message env self = Inr hello"
  obtains s p t1 t2 where "zyre_node_require_peer env self uuid endpoint key = Inr (Some (n_next self), s)"
    and "zyre_peer_send env (fresh_peer env self uuid endpoint key) hello = Inr (0, p)"
    and "n_heap s (n_next self) = Some (p\<lparr>p_evasive_at := t1, p_expired_at := t2\<rparr>)"
    and "n_peer_groups s = n_peer_groups self" and "n_outbox s = n_outbox self" and "n_gossip s = n_gossip self"
    and "required (uu_str uuid) self (Some (n_next self)) s"
proof -
  let ?a = "n_next self"
  let ?f = "fresh_peer env self uuid endpoint key"
  obtain h where purge: "each (zyre_node_purge_peer endpoint) (n_peers self) self = Inr (self\<lparr>n_heap := h\<rparr>)"
    and same: "same_objects (n_heap self) h"
    using purge_yields [OF assms(1), of endpoint] by (auto simp: yields_def)
  let ?i = "zyre_peer_init uuid"
  let ?peers = "zhash_insert (env_rank env) (uu_str uuid) ?a (n_peers self)"
  let ?s1 = "\<lambda>p. self\<lparr>n_next := Suc ?a, n_peers := ?peers, n_heap := h(?a \<mapsto> p)\<rparr>"
  have new: "zyre_peer_new env uuid (self\<lparr>n_heap := h\<rparr>) = Inr (?a, ?s1 ?i)"
    using assms(2) by (simp add: zyre_peer_new_def put_peer_def Let_def)
  let ?keyed = "n_public_key self \<noteq> None \<and> n_secret_key self \<noteq> None"
  let ?k = "?i\<lparr>p_public_key := if ?keyed then n_public_key self else None,
            p_secret_key := if ?keyed then n_secret_key self else None,
            p_server_key := if ?keyed then key else None\<rparr>"
  let ?o = "?k\<lparr>p_origin := Some (n_name self), p_verbose := n_verbose self\<rparr>"
  have keys: "node_set_keys ?a key (?s1 ?i) = Inr (?s1 ?k)"
    using assms(3) by (auto simp: node_set_keys_def reachable_peer_def node_alter_live zyre_simps zyre_peer_init_def
        split: option.split)
  have origin: "node_on_heap (alter_peer (\<lambda>p. zyre_peer_set_verbose
      (zyre_peer_set_origin p (n_name (?s1 ?k))) (n_verbose (?s1 ?k))) ?a) (?s1 ?k) = Inr (?s1 ?o)"
    by (simp add: node_alter_live zyre_simps)
  have f: "?f = ?o\<lparr>p_mailbox := Some (connected_mailbox env ?o (n_uuid self) endpoint (n_expired_timeout self)),
      p_endpoint := Some (connect_endpoint env endpoint), p_connected := True\<rparr>"
    by (simp add: fresh_peer_def Let_def)
  have conn: "node_connect env ?a endpoint (?s1 ?o) = Inr (0, ?s1 ?f)"
  proof -
    have "zyre_peer_connect env ?o (n_uuid self) endpoint (n_expired_timeout self) = Inr (0, ?f)"
      unfolding f by (rule connect_fresh [OF assms(3)])
        (use assms(3) in \<open>auto simp: zyre_peer_init_def reachable_peer_def split: if_splits\<close>)
    then have "node_connect env ?a endpoint (?s1 ?o)
        = Inr (0, (?s1 ?o)\<lparr>n_heap := (n_heap (?s1 ?o))(?a \<mapsto> ?f)\<rparr>)"
      by (intro node_connect_live [where p = ?o]) simp_all
    then show ?thesis by simp
  qed
  have hello: "hello_message env (?s1 ?f) = Inr hello"
    using assms(4) by (subst hello_message_config [of _ self]) (simp_all add: config_def)
  obtain p where p: "zyre_peer_send env ?f hello = Inr (0, p)"
    "node_peer_send env ?a hello (?s1 ?f) = Inr (?s1 p)"
    using node_send_live [of "?s1 ?f" ?a ?f env hello] fresh_peer_sel(2) by auto
  let ?p = "zyre_peer_refresh (env_clock env (n_ticks self)) (env_clock env (Suc (n_ticks self))) p
      (n_evasive_timeout self) (n_expired_timeout self)"
  let ?s = "(?s1 ?p)\<lparr>n_ticks := Suc (Suc (n_ticks self))\<rparr>"
  have fresh: "node_refresh env ?a (?s1 p) = Inr ?s"
    by (simp add: node_refresh_def zclock_mono_def node_alter_live)
  have eq: "zyre_node_require_peer env self uuid endpoint key = Inr (Some ?a, ?s)"
    unfolding zyre_node_require_peer_def
    by (simp only: assms(2) option.case purge and_then_simps new prod.case keys origin conn hello p(2) fresh
        simp_thms if_False)
  have req: "required (uu_str uuid) self (Some ?a) ?s"
    using ensuresD [OF require_peer_keeps [OF assms(1)] eq] by simp
  show thesis
    by (rule that [OF eq p(1) _ _ _ _ req]) (simp_all add: zyre_peer_refresh_def)
qed

section \<open>Membership\<close>

text \<open>The node has a peer of that identity in that group.\<close>

definition member :: "zyre_node \<Rightarrow> string \<Rightarrow> string \<Rightarrow> bool" where
  "member self k name = (case zhash_lookup (n_peer_groups self) name of
     None \<Rightarrow> False | Some g \<Rightarrow> zhash_lookup (g_peers g) k \<noteq> None)"

lemma member_unlisted: "unlisted k (n_peer_groups self) \<Longrightarrow> \<not> member self k name"
  by (auto simp: member_def unlisted_def zhash_lookup_None dest!: zhash_lookup_SomeD split: option.split)

lemma member_cong: "n_peer_groups s = n_peer_groups t \<Longrightarrow> member s k name = member t k name"
  by (simp add: member_def)

text \<open>The frames of an event about a peer and a group.\<close>

definition group_event_frames :: "string \<Rightarrow> zyre_peer \<Rightarrow> string \<Rightarrow> zframe list" where
  "group_event_frames type p name = multipart [str_bytes type, str_bytes (zyre_peer_identity p),
     str_bytes (zyre_peer_name p), str_bytes name]"

lemma require_group_lookup:
  assumes "node_ok self" and "zyre_node_require_peer_group env name self = (g, s)"
  shows "zhash_lookup (n_peer_groups s) n = (if n = name then Some g else zhash_lookup (n_peer_groups self) n)"
    "member s k n = member self k n" "member self k name = (zhash_lookup (g_peers g) k \<noteq> None)"
proof -
  have wf: "wf_zhash (n_peer_groups self)" using node_okD(3) [OF assms(1)] by (simp add: groups_ok_def)
  show l: "zhash_lookup (n_peer_groups s) n = (if n = name then Some g else zhash_lookup (n_peer_groups self) n)" for n
    using assms(2) wf by (auto simp: zyre_node_require_peer_group_def zhash_lookup_insert split: option.splits)
  show m: "member self k name = (zhash_lookup (g_peers g) k \<noteq> None)"
    using assms(2) by (auto simp: member_def zyre_node_require_peer_group_def zyre_group_new_def split: option.splits)
  show "member s k n = member self k n"
    using l [of n] m by (auto simp: member_def)
qed

lemma join_peer_group_live:
  assumes "node_ok self" and "uncontested self" and "n_heap self a = Some p"
  obtains g s where "zyre_node_join_peer_group env a name self = Inr (g, s)"
    and "safe self s" and "uncontested s"
    and "zyre_node_require_peer_group env name s = (g, s)" and "\<not> g_contest g"
    and "n_heap s = (n_heap self)(a \<mapsto> p\<lparr>p_status := p_status p + 1\<rparr>)"
    and "n_outbox s = n_outbox self @ group_event_frames ''JOIN'' p name"
    and "\<And>k n. member s k n \<longleftrightarrow> (n = name \<and> k = zyre_peer_identity p) \<or> member self k n"
proof -
  obtain g0 s0 where r: "zyre_node_require_peer_group env name self = (g0, s0)" by (rule prod.exhaust)
  note u = uncontested_require [OF assms(2) r] and l = require_group_lookup [OF assms(1) r]
  let ?p = "p\<lparr>p_status := p_status p + 1\<rparr>"
  let ?g = "g0\<lparr>g_peers := zhash_insert (env_rank env) (zyre_peer_identity p) a (g_peers g0)\<rparr>"
  let ?t = "put_group name ?g (s0\<lparr>n_heap := (n_heap self)(a \<mapsto> ?p)\<rparr>)"
  let ?s = "outbox_send name (outbox_sendm (zyre_peer_name p) (outbox_sendm (zyre_peer_identity p)
     (outbox_sendm ''JOIN'' ?t)))"
  have id: "zyre_peer_identity ?p = zyre_peer_identity p" "zyre_peer_name ?p = zyre_peer_name p"
    by (simp_all add: zyre_peer_identity_def zyre_peer_name_def)
  have e: "zyre_node_join_peer_group env a name self = Inr (?g, ?s)"
    using assms(3) u by (simp add: zyre_node_join_peer_group_def r zyre_group_join_def Let_def node_peer_def
        put_group_def put_peer_def zyre_peer_set_status_def id)
  have st: "safe self ?s" using ensuresD [OF steady_join e] assms(1) by (intro safeI) simp_all
  have look: "zhash_lookup (n_peer_groups ?s) n = (if n = name then Some ?g else zhash_lookup (n_peer_groups self) n)" for n
    using l(1) [of n] l(1) [of name] by (simp add: put_group_def zhash_lookup_alter)
  have req: "zyre_node_require_peer_group env name ?s = (?g, ?s)"
    using look [of name] by (simp add: zyre_node_require_peer_group_def)
  have wf: "wf_zhash (g_peers g0)"
    using steady_require_group(2) [OF r steadyD(3) [OF steady_require_group(1) [OF r] assms(1)]]
    by (simp add: group_ok_def)
  have mem: "member ?s k n \<longleftrightarrow> (n = name \<and> k = zyre_peer_identity p) \<or> member self k n" for k n
    using look [of n] l(3) [of k] wf by (auto simp: member_def [of ?s] zhash_lookup_insert) (auto simp: member_def)
  have unc: "uncontested ?t" using u by (intro uncontested_put) (simp_all add: uncontested_def)
  show thesis
    by (rule that [OF e st _ req _ _ _ mem]) (use u unc in \<open>simp_all add: put_group_def group_event_frames_def
      outbox_send_def outbox_sendm_def uncontested_def\<close>)
qed

lemma leave_peer_group_live:
  assumes "node_ok self" and "uncontested self" and "n_heap self a = Some p"
  obtains g s where "zyre_node_leave_peer_group env a name self = Inr (g, s)"
    and "safe self s" and "uncontested s" and "\<not> g_contest g"
    and "n_heap s = (n_heap self)(a \<mapsto> p\<lparr>p_status := p_status p + 1\<rparr>)"
    and "n_outbox s = n_outbox self @ group_event_frames ''LEAVE'' p name"
    and "\<And>k n. member s k n \<longleftrightarrow> \<not> (n = name \<and> k = zyre_peer_identity p) \<and> member self k n"
proof -
  obtain g0 s0 where r: "zyre_node_require_peer_group env name self = (g0, s0)" by (rule prod.exhaust)
  note u = uncontested_require [OF assms(2) r] and l = require_group_lookup [OF assms(1) r]
  let ?p = "p\<lparr>p_status := p_status p + 1\<rparr>"
  let ?g = "g0\<lparr>g_peers := zhash_delete (zyre_peer_identity p) (g_peers g0)\<rparr>"
  let ?t = "put_group name ?g (s0\<lparr>n_heap := (n_heap self)(a \<mapsto> ?p)\<rparr>)"
  let ?s = "outbox_send name (outbox_sendm (zyre_peer_name p) (outbox_sendm (zyre_peer_identity p)
     (outbox_sendm ''LEAVE'' ?t)))"
  have id: "zyre_peer_identity ?p = zyre_peer_identity p" "zyre_peer_name ?p = zyre_peer_name p"
    by (simp_all add: zyre_peer_identity_def zyre_peer_name_def)
  have e: "zyre_node_leave_peer_group env a name self = Inr (?g, ?s)"
    using assms(3) u by (simp add: zyre_node_leave_peer_group_def r zyre_group_leave_def Let_def node_peer_def
        put_group_def put_peer_def zyre_peer_set_status_def id)
  have st: "safe self ?s" using ensuresD [OF steady_leave e] assms(1) by (intro safeI) simp_all
  have look: "zhash_lookup (n_peer_groups ?s) n = (if n = name then Some ?g else zhash_lookup (n_peer_groups self) n)" for n
    using l(1) [of n] l(1) [of name] by (simp add: put_group_def zhash_lookup_alter)
  have mem: "member ?s k n \<longleftrightarrow> \<not> (n = name \<and> k = zyre_peer_identity p) \<and> member self k n" for k n
    using look [of n] l(3) [of k] by (auto simp: member_def [of ?s] zhash_lookup_delete) (auto simp: member_def)
  have unc: "uncontested ?t" using u by (intro uncontested_put) (simp_all add: uncontested_def)
  show thesis
    by (rule that [OF e st _ _ _ _ mem]) (use u unc in \<open>simp_all add: put_group_def group_event_frames_def
      outbox_send_def outbox_sendm_def uncontested_def\<close>)
qed

lemma event_frames_status [simp]:
  "group_event_frames type (p\<lparr>p_status := st\<rparr>) name = group_event_frames type p name"
  by (simp add: group_event_frames_def zyre_peer_identity_def zyre_peer_name_def)

text \<open>The loop over the groups of a HELLO.\<close>

lemma hello_joins_live:
  assumes "node_ok self" and "uncontested self" and "n_heap self a = Some p"
  shows "\<exists>s st. each (hello_join env a) groups self = Inr s \<and> safe self s \<and> uncontested s
    \<and> n_heap s a = Some (p\<lparr>p_status := st\<rparr>)
    \<and> n_outbox s = n_outbox self @ concat (map (group_event_frames ''JOIN'' p) groups)
    \<and> (\<forall>k n. member s k n \<longleftrightarrow> (n \<in> set groups \<and> k = zyre_peer_identity p) \<or> member self k n)"
  using assms
proof (induction groups arbitrary: self p)
  case Nil
  show ?case by (rule exI [of _ self], rule exI [of _ "p_status p"]) (use Nil in \<open>simp add: safe_refl\<close>)
next
  case (Cons name groups)
  let ?p = "p\<lparr>p_status := p_status p + 1\<rparr>"
  obtain g s where s: "zyre_node_join_peer_group env a name self = Inr (g, s)" "safe self s" "uncontested s"
    "zyre_node_require_peer_group env name s = (g, s)" "\<not> g_contest g"
    "n_heap s = (n_heap self)(a \<mapsto> ?p)" "n_outbox s = n_outbox self @ group_event_frames ''JOIN'' p name"
    "\<And>k n. member s k n \<longleftrightarrow> (n = name \<and> k = zyre_peer_identity p) \<or> member self k n"
    by (rule join_peer_group_live [OF Cons.prems]) blast
  have hj: "hello_join env a name self = Inr s"
    using s(1,4,5) by (simp add: hello_join_def zyre_group_contest_def)
  have id: "zyre_peer_identity ?p = zyre_peer_identity p" by (simp add: zyre_peer_identity_def)
  obtain t st where t: "each (hello_join env a) groups s = Inr t" "safe s t" "uncontested t"
    "n_heap t a = Some (?p\<lparr>p_status := st\<rparr>)"
    "n_outbox t = n_outbox s @ concat (map (group_event_frames ''JOIN'' p) groups)"
    "\<forall>k n. member t k n \<longleftrightarrow> (n \<in> set groups \<and> k = zyre_peer_identity p) \<or> member s k n"
    using Cons.IH [of s ?p] safeD(2) [OF s(2)] s(3,6) unfolding id by auto
  show ?case
  proof (rule exI [of _ t], rule exI [of _ st], intro conjI allI)
    show "safe self t" by (rule safe_trans [OF s(2) t(2)])
  qed (use hj s(7,8) t in auto)
qed

text \<open>A HELLO from a peer of which nothing is filed in the groups yet.\<close>

lemma recv_hello_live:
  assumes "node_ok self" and "uncontested self" and "n_heap self a = Some p0"
    and "p = p0\<lparr>p_name := Some (m_name msg), p_headers := map_option (zhash_arrange (env_rank env)) (m_headers msg)\<rparr>"
    and "m_groups msg = Some groups"
  obtains s where "recv_peer_hello env a msg self = Inr s" and "safe self s" and "uncontested s"
    and "n_heap s a = Some (p\<lparr>p_status := m_status msg\<rparr>)"
    and "n_outbox s = n_outbox (enter_event env p (m_endpoint msg) self) @ concat (map (group_event_frames ''JOIN'' p) groups)"
    and "\<And>k n. member s k n \<longleftrightarrow> (n \<in> set groups \<and> k = zyre_peer_identity p0) \<or> member self k n"
proof -
  let ?self = "self\<lparr>n_heap := (n_heap self)(a \<mapsto> p)\<rparr>"
  let ?e = "enter_event env p (m_endpoint msg) ?self"
  have id: "zyre_peer_identity p = zyre_peer_identity p0" using assms(4) by (simp add: zyre_peer_identity_def)
  have alter: "node_on_heap (alter_peer (\<lambda>p. zyre_peer_set_headers (env_rank env)
        (zyre_peer_set_name p (m_name msg)) (m_headers msg)) a) self = Inr ?self"
    using assms(3,4) by (simp add: node_alter_live zyre_simps)
  have same: "same_objects (n_heap self) ((n_heap self)(a \<mapsto> p))"
    using same_objects_put [of "n_heap self" a p0 p] assms(3,4) by (simp add: put_peer_def)
  have s0: "safe self ?self" by (rule safeI [OF assms(1) steady_heap [OF same]])
  have s1: "safe self ?e" by (rule safe_trans [OF s0 safe_enter_event [OF safeD(2) [OF s0]]])
  have e: "n_heap ?e = (n_heap self)(a \<mapsto> p)" "n_peer_groups ?e = n_peer_groups self"
    "n_outbox ?e = n_outbox (enter_event env p (m_endpoint msg) self)"
    by (simp_all add: enter_event_def Let_def outbox_send_def outbox_sendm_def outbox_frame_def split: option.split)
  have u: "uncontested ?e" using assms(2) uncontested_cong [OF e(2)] by simp
  have pe: "n_heap ?e a = Some p" unfolding e by simp
  obtain s st where s: "each (hello_join env a) groups ?e = Inr s" "safe ?e s" "uncontested s"
    "n_heap s a = Some (p\<lparr>p_status := st\<rparr>)"
    "n_outbox s = n_outbox ?e @ concat (map (group_event_frames ''JOIN'' p) groups)"
    "\<And>k n. member s k n \<longleftrightarrow> (n \<in> set groups \<and> k = zyre_peer_identity p) \<or> member ?e k n"
    using hello_joins_live [OF safeD(2) [OF s1] u pe, of env groups] by blast
  let ?s = "s\<lparr>n_heap := (n_heap s)(a \<mapsto> p\<lparr>p_status := m_status msg\<rparr>)\<rparr>"
  have fin: "node_on_heap (alter_peer (\<lambda>p. zyre_peer_set_status p (m_status msg)) a) s = Inr ?s"
    using s(4) by (simp add: node_alter_live zyre_simps)
  have eq: "recv_peer_hello env a msg self = Inr ?s"
    using assms(5) s(1) fin by (simp add: recv_peer_hello_def alter node_peer_def)
  have "safe self ?s" by (rule ensuresD [OF safe_hello [OF assms(1)] eq])
  moreover have "member ?s k n \<longleftrightarrow> (n \<in> set groups \<and> k = zyre_peer_identity p0) \<or> member self k n" for k n
    using s(6) [of k n] member_cong [OF e(2)] member_cong [of ?s s] id by simp
  ultimately show thesis
    using s(3,5) e(3) by (intro that [OF eq]) (simp_all add: uncontested_def)
qed

end
