(* ===== verification/Zyre_Removal.thy ===== *)
theory Zyre_Removal
  imports Zyre_Node_Total
begin

text \<open>
  The whole effect of the removal of a peer from a node that contests no election: its event, its
  object, its entry in the table of peers and in each group, and nothing else. Another peer's object, the
  rest of each group and every other field of the node stay as they are.
\<close>

section \<open>The two loops\<close>

text \<open>Groups of the node's own that no peer has joined yet get an empty group object.\<close>

lemma restarts_exact:
  assumes "uncontested self" and "wf_zhash (n_peer_groups self)"
  shows "\<exists>groups. each (remove_restart env ident) names self = Inr (self\<lparr>n_peer_groups := groups\<rparr>)
    \<and> wf_zhash groups \<and> uncontested (self\<lparr>n_peer_groups := groups\<rparr>)
    \<and> (\<forall>name. zhash_lookup groups name = (case zhash_lookup (n_peer_groups self) name of
         Some g \<Rightarrow> Some g | None \<Rightarrow> if name \<in> set names then Some (zyre_group_new name) else None))"
  using assms
proof (induction names arbitrary: self)
  case Nil
  then show ?case by (intro exI [of _ "n_peer_groups self"]) (simp split: option.split)
next
  case (Cons n names)
  obtain g s where gs: "zyre_node_require_peer_group env n self = (g, s)" by (rule prod.exhaust)
  note req = uncontested_require [OF Cons.prems(1) gs]
  have step: "remove_restart env ident n self = Inr s"
    using req by (simp add: remove_restart_def gs zyre_simps)
  have s: "s = self\<lparr>n_peer_groups := n_peer_groups s\<rparr>" "wf_zhash (n_peer_groups s)"
    "zhash_lookup (n_peer_groups s) name = (case zhash_lookup (n_peer_groups self) name of
       Some g \<Rightarrow> Some g | None \<Rightarrow> if name = n then Some (zyre_group_new name) else None)" for name
    using gs Cons.prems(2)
    by (auto simp: zyre_node_require_peer_group_def wf_zhash_insert zhash_lookup_insert split: option.splits)
  obtain groups where IH: "each (remove_restart env ident) names s = Inr (s\<lparr>n_peer_groups := groups\<rparr>)"
    "wf_zhash groups" "uncontested (s\<lparr>n_peer_groups := groups\<rparr>)"
    "\<forall>name. zhash_lookup groups name = (case zhash_lookup (n_peer_groups s) name of
         Some g \<Rightarrow> Some g | None \<Rightarrow> if name \<in> set names then Some (zyre_group_new name) else None)"
    using Cons.IH [of s] req s(2) by blast
  have "s\<lparr>n_peer_groups := groups\<rparr> = self\<lparr>n_peer_groups := groups\<rparr>" by (subst s(1)) simp
  then show ?case using IH step s(3)
    by (intro exI [of _ groups]) (auto simp: uncontested_def split: option.split)
qed

text \<open>A group without its member of that identity.\<close>

definition without_member :: "string \<Rightarrow> zyre_group \<Rightarrow> zyre_group" where
  "without_member ident g = g\<lparr>g_peers := zhash_delete ident (g_peers g)\<rparr>"

lemma deletes_exact:
  assumes "distinct (map fst items)" and "n_heap self a = Some p" and "zyre_peer_identity p = ident"
    and "wf_zhash (n_peer_groups self)"
    and "\<forall>(name, g) \<in> set items. zhash_lookup (n_peer_groups self) name = Some g"
  shows "\<exists>q groups. each (zyre_node_delete_peer a) items self
      = Inr (self\<lparr>n_heap := (n_heap self)(a \<mapsto> q), n_peer_groups := groups\<rparr>)
    \<and> wf_zhash groups \<and> (\<forall>name. zhash_lookup groups name
      = (if name \<in> fst ` set items then map_option (without_member ident) (zhash_lookup (n_peer_groups self) name)
         else zhash_lookup (n_peer_groups self) name))"
  using assms
proof (induction items arbitrary: self p)
  case Nil
  have "(n_heap self)(a \<mapsto> p) = n_heap self" using Nil(2) by (rule fun_upd_idem)
  then show ?case using Nil(4) by (intro exI [of _ p] exI [of _ "n_peer_groups self"]) simp
next
  case (Cons item items)
  obtain n g where item: "item = (n, g)" by (rule prod.exhaust)
  have look: "zhash_lookup (n_peer_groups self) n = Some g" using Cons.prems(5) item by simp
  let ?p = "zyre_peer_set_status p (p_status p + 1)"
  let ?s = "put_group n (without_member ident g) (self\<lparr>n_heap := put_peer a ?p (n_heap self)\<rparr>)"
  have step: "zyre_node_delete_peer a item self = Inr ?s"
    using Cons.prems(2,3) item
    by (simp only: zyre_node_delete_peer_def zyre_group_leave_def without_member_def Let_def deref_Some
        and_then_simps prod.sel prod.case)
  have s1: "n_heap ?s a = Some ?p" "zyre_peer_identity ?p = ident" "wf_zhash (n_peer_groups ?s)"
    using Cons.prems(3,4) by (simp_all add: put_group_def put_peer_def zyre_simps)
  have s2: "zhash_lookup (n_peer_groups ?s) name
       = (if name = n then Some (without_member ident g) else zhash_lookup (n_peer_groups self) name)" for name
    using look by (simp add: put_group_def zhash_lookup_alter)
  have d: "distinct (map fst items)" "n \<notin> fst ` set items" using Cons.prems(1) item by auto
  then have "\<forall>(name, g) \<in> set items. zhash_lookup (n_peer_groups ?s) name = Some g"
    using Cons.prems(5) s2 by force
  then obtain q groups where IH: "each (zyre_node_delete_peer a) items ?s
      = Inr (?s\<lparr>n_heap := (n_heap ?s)(a \<mapsto> q), n_peer_groups := groups\<rparr>)"
    "wf_zhash groups" "\<forall>name. zhash_lookup groups name
      = (if name \<in> fst ` set items then map_option (without_member ident) (zhash_lookup (n_peer_groups ?s) name)
         else zhash_lookup (n_peer_groups ?s) name)"
    using Cons.IH [OF d(1) s1] by blast
  have "?s\<lparr>n_heap := (n_heap ?s)(a \<mapsto> q), n_peer_groups := groups\<rparr>
      = self\<lparr>n_heap := (n_heap self)(a \<mapsto> q), n_peer_groups := groups\<rparr>"
    by (simp add: put_group_def put_peer_def)
  then show ?case using IH step s2 d(2) item look
    by (intro exI [of _ q] exI [of _ groups]) (simp add: put_peer_def fun_upd_def)
qed

section \<open>The removal\<close>

text \<open>The node with that peer removed; its groups are still to be given.\<close>

definition without_peer :: "env \<Rightarrow> addr \<Rightarrow> zyre_peer \<Rightarrow> zyre_group zhash \<Rightarrow> zyre_node \<Rightarrow> zyre_node" where
  "without_peer env a p groups self = self
     \<lparr>n_outbox := n_outbox self @ event_frames ''EXIT'' p,
      n_gossip := (if env_draft env
        then map_option (\<lambda>cmds. cmds @ [[''UNPUBLISH'', zyre_peer_identity p]]) (n_gossip self) else n_gossip self),
      n_heap := (n_heap self)(a := None), n_peers := zhash_delete (zyre_peer_identity p) (n_peers self),
      n_peer_groups := groups\<rparr>"

definition groups_without :: "string \<Rightarrow> zyre_node \<Rightarrow> zyre_group zhash \<Rightarrow> bool" where
  "groups_without ident self groups \<longleftrightarrow> wf_zhash groups
     \<and> (\<forall>name. zhash_lookup groups name = (case zhash_lookup (n_peer_groups self) name of
          Some g \<Rightarrow> Some (without_member ident g)
        | None \<Rightarrow> if name \<in> set (n_own_groups self) then Some (zyre_group_new name) else None))"

theorem remove_peer_exact:
  assumes "node_ok self" and "uncontested self" and "n_heap self a = Some p"
  shows "\<exists>groups. zyre_node_remove_peer env a self = Inr (without_peer env a p groups self)
    \<and> groups_without (zyre_peer_identity p) self groups"
proof -
  let ?id = "zyre_peer_identity p"
  let ?s0 = "outbox_send (zyre_peer_name p) (outbox_sendm ?id (outbox_sendm ''EXIT'' self))"
  let ?gossip = "if env_draft env then map_option (\<lambda>cmds. cmds @ [[''UNPUBLISH'', ?id]]) (n_gossip self) else n_gossip self"
  let ?s1 = "self\<lparr>n_outbox := n_outbox self @ event_frames ''EXIT'' p, n_gossip := ?gossip\<rparr>"
  have s0: "?s0 = self\<lparr>n_outbox := n_outbox self @ event_frames ''EXIT'' p\<rparr>"
    by (simp add: event_frames_def outbox_send_def outbox_sendm_def)
  have s1: "(if env_draft env \<and> n_gossip ?s0 \<noteq> None
       then gossip_sendx [Some ''UNPUBLISH'', Some ?id] ?s0 else Inr ?s0) = Inr ?s1"
    unfolding s0 by (auto simp: gossip_sendx_def split: option.split)
  have wf: "wf_zhash (n_peer_groups self)" using node_okD(3) [OF assms(1)] by (simp add: groups_ok_def)
  have u1: "uncontested ?s1" using assms(2) by (simp add: uncontested_def)
  obtain gs where gs: "each (remove_restart env ?id) (n_own_groups self) ?s1 = Inr (?s1\<lparr>n_peer_groups := gs\<rparr>)"
    "wf_zhash gs" "\<forall>name. zhash_lookup gs name = (case zhash_lookup (n_peer_groups self) name of
       Some g \<Rightarrow> Some g | None \<Rightarrow> if name \<in> set (n_own_groups self) then Some (zyre_group_new name) else None)"
    using restarts_exact [OF u1, of env ?id "n_own_groups self"] wf by auto
  let ?s2 = "?s1\<lparr>n_peer_groups := gs\<rparr>"
  have "distinct (map fst gs)" "\<forall>(name, g) \<in> set gs. zhash_lookup gs name = Some g"
    using gs(2) zhash_lookup_iff [OF gs(2)] by (auto simp: wf_zhash_def)
  then obtain q groups where d: "each (zyre_node_delete_peer a) gs ?s2
      = Inr (?s2\<lparr>n_heap := (n_heap self)(a \<mapsto> q), n_peer_groups := groups\<rparr>)" "wf_zhash groups"
    "\<forall>name. zhash_lookup groups name
      = (if name \<in> fst ` set gs then map_option (without_member ?id) (zhash_lookup gs name) else zhash_lookup gs name)"
    using deletes_exact [of gs ?s2 a p ?id] assms(3) gs(2) by auto
  have "zhash_lookup (n_peers self) ?id = Some a"
    using peer_identity_filed [OF assms(1,3)] peer_lookup_iff [OF assms(1)] by simp
  then have "zyre_node_remove_peer env a self = Inr (without_peer env a p groups self)"
    using assms(3) s1 gs(1) d(1)
    by (simp add: zyre_node_remove_peer_def node_peer_def Let_def node_delete_peer_def without_peer_def)
  moreover have "groups_without ?id self groups"
  proof -
    have "zhash_lookup groups name = map_option (without_member ?id) (zhash_lookup gs name)" for name
      using d(3) zhash_lookup_None [of gs name] by auto
    moreover have "without_member ?id (zyre_group_new name) = zyre_group_new name" for name
      by (simp add: without_member_def zyre_group_new_def zhash_delete_def)
    ultimately show ?thesis using d(2) gs(3) by (auto simp: groups_without_def split: option.split)
  qed
  ultimately show ?thesis by blast
qed

text \<open>The memberships of the others stay.\<close>

lemma groups_without_member:
  assumes "groups_without ident self groups" and "\<forall>(name, g) \<in> set (n_peer_groups self). wf_zhash (g_peers g)"
  shows "member (without_peer env a p groups self) k name \<longleftrightarrow> k \<noteq> ident \<and> member self k name"
proof -
  have "wf_zhash (g_peers g)" if "zhash_lookup (n_peer_groups self) name = Some g" for g
    using assms(2) zhash_lookup_SomeD [OF that] by blast
  moreover have "zhash_lookup [] k = None" by (simp add: zhash_lookup_def)
  ultimately show ?thesis using assms(1)
    by (auto simp: groups_without_def without_peer_def member_def without_member_def zhash_lookup_delete
        zyre_group_new_def split: option.splits)
qed

end
