(* ===== verification/Zyre_Node_Recv_Props.thy ===== *)
theory Zyre_Node_Recv_Props
  imports Zyre_Removal Zyre_Node_Props
begin

text \<open>
  What the messages of other peers do to a node: who is listened to, what a HELLO makes, what a lost
  message costs, and how a node follows the groups of its peers.
\<close>

section \<open>Who is listened to\<close>

lemma recv_peer_from:
  assumes "zre_msg_recv (env_rank env) True zre_msg_new (n_inbox self) = (0, msg, rest)"
    and "m_routing_id msg = Some (b # d)" and "length d = 16"
  shows "zyre_node_recv_peer env self = recv_from env (env_uuid_of env d) msg (self\<lparr>n_inbox := rest\<rparr>)"
  using assms by (simp add: zyre_node_recv_peer_def)

text \<open>C24: a message other than HELLO is taken from the inbox and nothing else happens, unless the table of
  peers has its sender, that peer has said HELLO before, and no message before this one was lost.\<close>

theorem stranger_is_ignored:
  assumes "zre_msg_recv (env_rank env) True zre_msg_new (n_inbox self) = (0, msg, rest)"
    and "m_routing_id msg = Some (b # d)" and "length d = 16" and "m_id msg \<noteq> ZRE_MSG_HELLO"
    and "\<forall>a p. zhash_lookup (n_peers self) (uu_str (env_uuid_of env d)) = Some a \<longrightarrow> n_heap self a = Some p \<longrightarrow> \<not> p_ready p"
    and "actor_reachable self"
  shows "zyre_node_recv_peer env self = Inr (self\<lparr>n_inbox := rest\<rparr>)"
proof -
  have live: "\<exists>p. n_heap self a = Some p \<and> \<not> p_ready p"
    if "zhash_lookup (n_peers self) (uu_str (env_uuid_of env d)) = Some a" for a
    using filed_peer [OF reachable_ok [OF assms(6)] zhash_lookup_SomeD [OF that]] assms(5) that by metis
  show ?thesis
    using assms(4) live
    by (auto simp: recv_peer_from [OF assms(1-3)] recv_from_def node_peer_def zyre_peer_ready_def split: option.split)
qed

text \<open>A message without content of that peer, alone in the inbox.\<close>

definition from_7 :: "zre_msg \<Rightarrow> zframe list" where
  "from_7 m = routed (peer_identity 55) (multipart [zre_msg_put m])"

lemma recv_from_7:
  assumes "sendable m" and "\<not> have_content m"
  shows "zre_msg_recv rank True zre_msg_new (from_7 m) = (0, zre_msg_received rank (peer_identity 55) m, [])"
proof -
  have "sent_content m = []" using assms(2) by (simp add: sent_content_def)
  then show ?thesis using recv_sent_frames [OF assms(1), of rank "peer_identity 55" "[]" "[]"] by (simp add: from_7_def)
qed

lemma received_routing_id [simp]: "m_routing_id (zre_msg_received rank rid m) = Some rid"
  by (simp add: zre_msg_received_def store_fields_def Let_def)

lemma peer_identity_eq: "peer_identity d = 1 # (d # replicate 15 0)"
  by (simp add: peer_identity_def)

lemma uuid_7: "uu_str (env_uuid_of run_env (55 # replicate 15 0)) = ''7''"
  by code_simp

definition with_msg :: "zre_msg \<Rightarrow> zyre_node \<Rightarrow> zyre_node" where
  "with_msg m self = self\<lparr>n_inbox := n_inbox self @ from_7 m\<rparr>"

lemma with_msg_reachable: "actor_reachable self \<Longrightarrow> actor_reachable (with_msg m self)"
  using actor_reachable.step [OF _ actor_step.arrive] by (simp add: with_msg_def)

lemma with_msg_recv: "n_inbox self = [] \<Longrightarrow> sendable m \<Longrightarrow> \<not> have_content m
    \<Longrightarrow> zre_msg_recv rank True zre_msg_new (n_inbox (with_msg m self))
      = (0, zre_msg_received rank (peer_identity 55) m, [])"
  by (simp add: with_msg_def recv_from_7)

theorem stranger_is_ignored_witness:
  "zyre_node_recv_peer run_env (with_msg sample_join boot_node) = Inr ((with_msg sample_join boot_node)\<lparr>n_inbox := []\<rparr>)"
proof (rule stranger_is_ignored [OF with_msg_recv [OF boot_node_sel(5) sendable_samples(2) sample_sel(4)]])
  show "m_routing_id (zre_msg_received (env_rank run_env) (peer_identity 55) sample_join) = Some (1 # (55 # replicate 15 0))"
    by (simp add: peer_identity_def)
  show "actor_reachable (with_msg sample_join boot_node)" by (rule with_msg_reachable [OF boot_node_reachable])
qed (simp_all add: with_msg_def boot_node_sel)

section \<open>HELLO\<close>

text \<open>A HELLO from a sender the node does not know.\<close>

lemma hello_sender_new:
  assumes "node_ok self" and "zhash_lookup (n_peers self) (uu_str uuid) = None" and "n_secret_key self = None"
    and "reachable_peer env self (m_endpoint msg) None" and "hello_message env self = Inr hello"
  obtains s p t1 t2 where
    "hello_sender env uuid msg None self = Inr (Some (n_next self), s)"
    and "zyre_peer_send env (fresh_peer env self uuid (m_endpoint msg) None) hello = Inr (0, p)"
    and "n_heap s (n_next self) = Some (p\<lparr>p_evasive_at := t1, p_expired_at := t2, p_ready := True\<rparr>)"
    and "n_peer_groups s = n_peer_groups self" and "n_outbox s = n_outbox self"
    and "required (uu_str uuid) self (Some (n_next self)) s"
proof -
  obtain s p t1 t2 where s: "zyre_node_require_peer env self uuid (m_endpoint msg) None = Inr (Some (n_next self), s)"
    "zyre_peer_send env (fresh_peer env self uuid (m_endpoint msg) None) hello = Inr (0, p)"
    "n_heap s (n_next self) = Some (p\<lparr>p_evasive_at := t1, p_expired_at := t2\<rparr>)"
    "n_peer_groups s = n_peer_groups self" "n_outbox s = n_outbox self"
    "required (uu_str uuid) self (Some (n_next self)) s"
    by (rule require_peer_new [OF assms(1,2,4,5)]) blast
  let ?p = "p\<lparr>p_evasive_at := t1, p_expired_at := t2, p_ready := True\<rparr>"
  let ?s = "s\<lparr>n_heap := (n_heap s)(n_next self \<mapsto> ?p)\<rparr>"
  have ready: "node_on_heap (alter_peer (\<lambda>p. zyre_peer_set_ready p True) (n_next self)) s = Inr ?s"
    using s(3) by (simp add: node_alter_live zyre_simps)
  have "ensures (node_on_heap (alter_peer (\<lambda>p. zyre_peer_set_ready p True) (n_next self)) s) (steady s)"
    by (rule steady_alter) (simp_all add: zyre_simps)
  then have "steady s ?s" using ready by (simp add: ensures_def)
  then have "required (uu_str uuid) self (Some (n_next self)) ?s"
    using s(6) steadyD [of s ?s] by (auto simp: required_def)
  then show thesis using s assms(3) ready
    by (intro that [of ?s p t2 t1]) (simp_all add: hello_sender_def hello_require_def)
qed

lemma hello_handled:
  assumes "node_ok self" and "uncontested self" and "n_heap self a = Some p0" and "p_ready p0"
    and "m_id msg = ZRE_MSG_HELLO" and "m_sequence msg = 1" and "m_groups msg = Some groups"
    and "p = p0\<lparr>p_want_sequence := 1, p_name := Some (m_name msg),
           p_headers := map_option (zhash_arrange (env_rank env)) (m_headers msg)\<rparr>"
  obtains s t1 t2 where "recv_ready env a uuid msg self = Inr s" and "node_ok s" and "uncontested s"
    and "n_peers s = n_peers self" and "config s = config self"
    and "n_heap s a = Some (p\<lparr>p_status := m_status msg, p_evasive_at := t1, p_expired_at := t2\<rparr>)"
    and "n_outbox s = n_outbox (enter_event env p (m_endpoint msg) self) @ concat (map (group_event_frames ''JOIN'' p) groups)"
    and "\<And>k n. member s k n \<longleftrightarrow> (n \<in> set groups \<and> k = zyre_peer_identity p0) \<or> member self k n"
proof -
  let ?w = "p0\<lparr>p_want_sequence := 1\<rparr>"
  let ?self = "self\<lparr>n_heap := put_peer a ?w (n_heap self)\<rparr>"
  have same: "same_objects (n_heap self) (put_peer a ?w (n_heap self))"
    by (rule same_objects_put [where p = p0]) (simp_all add: assms(3))
  have st: "safe self ?self" by (rule safeI [OF assms(1) steady_heap [OF same]])
  have u: "uncontested ?self" using assms(2) by (simp add: uncontested_def)
  have w: "n_heap ?self a = Some ?w" by (simp add: put_peer_def)
  obtain s where s: "recv_peer_hello env a msg ?self = Inr s" "safe ?self s" "uncontested s"
    "n_heap s a = Some (p\<lparr>p_status := m_status msg\<rparr>)"
    "n_outbox s = n_outbox (enter_event env p (m_endpoint msg) ?self) @ concat (map (group_event_frames ''JOIN'' p) groups)"
    "\<And>k n. member s k n \<longleftrightarrow> (n \<in> set groups \<and> k = zyre_peer_identity ?w) \<or> member ?self k n"
    by (rule recv_hello_live [OF safeD(2) [OF st] u w, of p env msg groups]) (use assms(7,8) in auto)
  obtain t1 t2 k where r: "node_refresh env a s = Inr (s\<lparr>n_ticks := k,
      n_heap := (n_heap s)(a \<mapsto> p\<lparr>p_status := m_status msg, p_evasive_at := t1, p_expired_at := t2\<rparr>)\<rparr>)" (is "_ = Inr ?s")
    using refresh_live [OF s(4), of env] by blast
  have eq: "recv_ready env a uuid msg self = Inr ?s"
    using assms(3,5,6) s(1) r
    by (simp add: recv_ready_def node_peer_def zyre_peer_messages_lost_def recv_peer_command_def Let_def)
  have "steady s ?s" by (rule ensuresD [OF steady_refresh r])
  then have "steady self ?s" by (rule steady_trans [OF steady_trans [OF safeD(1) [OF st] safeD(1) [OF s(2)]]])
  then have ok: "node_ok ?s" "n_peers ?s = n_peers self" "config ?s = config self"
    using steadyD assms(1) by blast+
  have out: "n_outbox (enter_event env p e ?self) = n_outbox (enter_event env p e self)" for e
    by (simp add: enter_event_def Let_def outbox_send_def outbox_sendm_def outbox_frame_def split: option.split)
  show thesis
    by (rule that [OF eq ok(1) _ ok(2,3)]) (use s(3,5) s(6) [unfolded member_def] in
      \<open>simp_all add: uncontested_def out member_def zyre_peer_identity_def\<close>)
qed

lemma hello_message_inbox [simp]: "hello_message env (self\<lparr>n_inbox := i\<rparr>) = hello_message env self"
proof -
  let ?s = "self\<lparr>n_inbox := i\<rparr>"
  have e: "n_endpoint ?s = n_endpoint self" "n_advertised_endpoint ?s = n_advertised_endpoint self"
    "n_own_groups ?s = n_own_groups self" "n_status ?s = n_status self" "n_name ?s = n_name self"
    "n_headers ?s = n_headers self" by simp_all
  show ?thesis unfolding hello_message_def hello_endpoint_def e ..
qed

lemma hello_peer_made:
  assumes "node_ok self" and "uncontested self" and "n_secret_key self = None"
    and "zre_msg_recv (env_rank env) True zre_msg_new (n_inbox self) = (0, msg, rest)"
    and "m_routing_id msg = Some (b # d)" and "length d = 16" and "ident = uu_str (env_uuid_of env d)"
    and "m_id msg = ZRE_MSG_HELLO" and "m_sequence msg = 1" and "m_groups msg = Some groups"
    and "zhash_lookup (n_peers self) ident = None"
    and "reachable_peer env self (m_endpoint msg) None" and "hello_message env self = Inr hello"
    and "sendable hello" and "\<forall>q. \<not> env_full env q"
  shows "\<exists>s a p mb. zyre_node_recv_peer env self = Inr s \<and> zhash_lookup (n_peers s) ident = Some a
    \<and> n_heap s a = Some p \<and> p_connected p \<and> p_ready p \<and> zyre_peer_identity p = ident
    \<and> p_name p = Some (m_name msg) \<and> p_status p = m_status msg
    \<and> p_headers p = map_option (zhash_arrange (env_rank env)) (m_headers msg)
    \<and> p_want_sequence p = 1 \<and> p_mailbox p = Some mb \<and> mb_remote mb = connect_endpoint env (m_endpoint msg)
    \<and> mb_identity mb = 1 # uu_data (n_uuid self)
    \<and> recv_all rank 1 (router_view rid True (mb_frames mb))
        = ([zre_msg_received rank rid (zre_msg_set_sequence hello 1)], [])
    \<and> (\<forall>name. member s ident name \<longleftrightarrow> name \<in> set groups)
    \<and> n_outbox s = n_outbox (enter_event env p (m_endpoint msg) self)
        @ concat (map (group_event_frames ''JOIN'' p) groups)"
proof -
  let ?u = "env_uuid_of env d"
  let ?self = "self\<lparr>n_inbox := rest\<rparr>"
  let ?a = "n_next self"
  have ok: "node_ok ?self" using assms(1) by simp
  have reach: "reachable_peer env ?self (m_endpoint msg) None" "hello_message env ?self = Inr hello"
    using assms(12,13) by (simp_all add: reachable_peer_def)
  have none: "zhash_lookup (n_peers ?self) (uu_str ?u) = None" "n_secret_key ?self = None"
    using assms(3,7,11) by simp_all
  obtain s0 p0 t1 t2 where s0: "hello_sender env ?u msg None ?self = Inr (Some ?a, s0)"
    and sent: "zyre_peer_send env (fresh_peer env ?self ?u (m_endpoint msg) None) hello = Inr (0, p0)"
    and heap: "n_heap s0 ?a = Some (p0\<lparr>p_evasive_at := t1, p_expired_at := t2, p_ready := True\<rparr>)" (is "_ = Some ?r")
    and grp: "n_peer_groups s0 = n_peer_groups self" and out: "n_outbox s0 = n_outbox self"
    and req: "required ident ?self (Some ?a) s0"
    by (rule hello_sender_new [OF ok none reach]) (rule that, simp_all add: assms(7))
  have s0ok: "node_ok s0" "zhash_lookup (n_peers s0) ident = Some ?a" using req by (simp_all add: required_def)
  have u0: "uncontested s0" using assms(2) uncontested_cong [OF grp] by simp
  let ?f = "fresh_peer env ?self ?u (m_endpoint msg) None"
  have p0: "p_uuid p0 = ?u" "p_connected p0" "peer_ok p0"
    using zyre_peer_send_yields [OF fresh_peer_sel(2) [of env ?self ?u "m_endpoint msg" None], of env hello] sent
      fresh_peer_sel [of env ?self ?u "m_endpoint msg" None] by simp_all
  have recv: "receives rank rid ?f p0 (zre_msg_received rank rid (zre_msg_set_sequence hello 1))"
    using peer_send_receives [OF fresh_peer_sel(2) assms(15,14) sent] fresh_peer_sel(5) by simp
  obtain mb where mb: "p_mailbox p0 = Some mb" "mb_remote mb = connect_endpoint env (m_endpoint msg)"
    "mb_identity mb = 1 # uu_data (n_uuid self)"
    "recv_all rank 1 (router_view rid True (mb_frames mb))
        = ([zre_msg_received rank rid (zre_msg_set_sequence hello 1)], [])"
    using recv by (auto simp: receives_def fresh_peer_def Let_def connected_mailbox_def)
  have ident: "zyre_peer_identity ?r = ident" using p0(1) assms(7) by (simp add: zyre_peer_identity_def)
  have no: "\<not> member s0 ident name" for name
  proof -
    have "unlisted ident (n_peer_groups self)"
      using node_okD(3) [OF assms(1)] assms(11)
      by (fastforce simp: unlisted_def groups_ok_def group_ok_def zhash_lookup_None)
    then show ?thesis using member_unlisted member_cong [OF grp] by simp
  qed
  let ?p = "?r\<lparr>p_want_sequence := 1, p_name := Some (m_name msg),
           p_headers := map_option (zhash_arrange (env_rank env)) (m_headers msg)\<rparr>"
  have rdy: "p_ready ?r" by simp
  obtain s t3 t4 where s: "recv_ready env ?a ?u msg s0 = Inr s" "n_peers s = n_peers s0"
    "n_heap s ?a = Some (?p\<lparr>p_status := m_status msg, p_evasive_at := t3, p_expired_at := t4\<rparr>)" (is "_ = Some ?q")
    "n_outbox s = n_outbox (enter_event env ?p (m_endpoint msg) s0) @ concat (map (group_event_frames ''JOIN'' ?p) groups)"
    "\<And>k n. member s k n \<longleftrightarrow> (n \<in> set groups \<and> k = zyre_peer_identity ?r) \<or> member s0 k n"
    by (rule hello_handled [OF s0ok(1) u0 heap rdy assms(8,9,10) refl, where env = env and uuid = ?u])
      (rule that)
  have ev: "enter_event env ?p e s0 = enter_event env ?q e s0" "group_event_frames ''JOIN'' ?p = group_event_frames ''JOIN'' ?q"
    "n_outbox (enter_event env p e s0) = n_outbox (enter_event env p e self)" for e p
    using out by (simp_all add: enter_event_def group_event_frames_def zyre_peer_identity_def zyre_peer_name_def fun_eq_iff
        Let_def outbox_send_def outbox_sendm_def outbox_frame_def split: option.split)
  have "zyre_node_recv_peer env self = Inr s"
    using s0 s(1) heap assms(7,8,11)
    by (simp add: recv_peer_from [OF assms(4-6)] recv_from_def node_peer_def zyre_peer_ready_def Let_def)
  moreover have "zhash_lookup (n_peers s) ident = Some ?a" using s(2) s0ok(2) by simp
  moreover have "\<forall>name. member s ident name \<longleftrightarrow> name \<in> set groups" using s(5) no ident by simp
  ultimately show ?thesis
    using s(3,4) p0(2) mb ident ev by (intro exI [of _ s] exI [of _ ?a] exI [of _ ?q] exI [of _ mb])
      (simp add: zyre_peer_identity_def)
qed

text \<open>C21: a HELLO from an identity the node does not know makes a peer of it, if its endpoint can be
  connected to: the peer is in the table, connected and ready, has the name, headers and status of the
  HELLO and is in exactly the groups the HELLO lists; the first message that leaves for it is this node's
  own HELLO, under number 1; the application gets ENTER and then one JOIN for each group, in order; and
  the next message expected of the peer is number 2. The node has no secret key and contests no group.\<close>

theorem hello_makes_peer:
  assumes "actor_reachable self" and "uncontested self" and "n_secret_key self = None"
    and "zre_msg_recv (env_rank env) True zre_msg_new (n_inbox self) = (0, msg, rest)"
    and "m_routing_id msg = Some (b # d)" and "length d = 16" and "ident = uu_str (env_uuid_of env d)"
    and "m_id msg = ZRE_MSG_HELLO" and "m_sequence msg = 1" and "m_groups msg = Some groups"
    and "zhash_lookup (n_peers self) ident = None"
    and "reachable_peer env self (m_endpoint msg) None" and "hello_message env self = Inr hello"
    and "sendable hello" and "\<forall>q. \<not> env_full env q"
  shows "\<exists>s a p mb. zyre_node_recv_peer env self = Inr s \<and> zhash_lookup (n_peers s) ident = Some a
    \<and> n_heap s a = Some p \<and> p_connected p \<and> p_ready p \<and> zyre_peer_identity p = ident
    \<and> p_name p = Some (m_name msg) \<and> p_status p = m_status msg
    \<and> p_headers p = map_option (zhash_arrange (env_rank env)) (m_headers msg)
    \<and> p_want_sequence p = 1 \<and> p_mailbox p = Some mb \<and> mb_remote mb = connect_endpoint env (m_endpoint msg)
    \<and> recv_all rank 1 (router_view rid True (mb_frames mb))
        = ([zre_msg_received rank rid (zre_msg_set_sequence hello 1)], [])
    \<and> (\<forall>name. member s ident name \<longleftrightarrow> name \<in> set groups)
    \<and> n_outbox s = n_outbox (enter_event env p (m_endpoint msg) self)
        @ concat (map (group_event_frames ''JOIN'' p) groups)"
  using hello_peer_made [OF reachable_ok [OF assms(1)] assms(2-15)] by blast

text \<open>The booted node, a HELLO from peer 7 in its inbox.\<close>

definition hello_node :: zyre_node where
  "hello_node = boot_node\<lparr>n_inbox := routed (peer_identity 55) (multipart [zre_msg_put peer_hello])\<rparr>"

lemma hello_node_reachable: "actor_reachable hello_node"
  using actor_reachable.step [OF boot_node_reachable actor_step.arrive] by (simp add: hello_node_def boot_node_sel)

lemma peer_hello_sendable: "sendable peer_hello"
  by (simp add: peer_hello_def sendable_def zre_msg_new_def fields_ok_def field_ok_def c_string_def long_ok_def
      short_ok_def)

lemma hello_node_recv: "zre_msg_recv (env_rank run_env) True zre_msg_new (n_inbox hello_node)
    = (0, zre_msg_received (env_rank run_env) (peer_identity 55) peer_hello, [])"
proof -
  have "sent_content peer_hello = []"
    by (simp add: sent_content_def have_content_def peer_hello_def zre_msg_new_def)
  then show ?thesis
    using recv_sent_frames [OF peer_hello_sendable, of "env_rank run_env" "peer_identity 55" "[]" "[]"]
    by (simp add: hello_node_def)
qed

lemma peer_hello_sel: "m_id peer_hello = ZRE_MSG_HELLO" "m_sequence peer_hello = 1"
  by (simp_all add: peer_hello_def)

lemma received_hello:
  "m_id (zre_msg_received rank rid peer_hello) = ZRE_MSG_HELLO"
  "m_sequence (zre_msg_received rank rid peer_hello) = 1"
  "m_groups (zre_msg_received rank rid peer_hello) = Some [''A'']"
  "m_endpoint (zre_msg_received rank rid peer_hello) = ''x''"
  "m_routing_id (zre_msg_received rank rid peer_hello) = Some rid"
  by (simp_all add: zre_msg_received_def store_fields_def peer_hello_def Let_def msg_list_def)

definition boot_hello :: zre_msg where
  "boot_hello = zre_msg_new\<lparr>m_id := ZRE_MSG_HELLO, m_endpoint := ''e'', m_groups := Some [], m_status := 0,
     m_name := ''9'', m_headers := Some []\<rparr>"

lemma hello_node_message: "hello_message run_env hello_node = Inr boot_hello" "sendable boot_hello"
  by (simp_all add: hello_message_def hello_endpoint_def hello_node_def boot_node_sel run_env_def sample_env_def
      boot_hello_def zhash_arrange_def zyre_simps zre_msg_new_def sendable_def fields_ok_def field_ok_def c_string_def
      field256_def)

theorem hello_makes_peer_witness:
  "\<exists>s a p mb. zyre_node_recv_peer run_env hello_node = Inr s \<and> zhash_lookup (n_peers s) ''7'' = Some a
    \<and> n_heap s a = Some p \<and> p_connected p \<and> p_ready p \<and> zyre_peer_identity p = ''7''
    \<and> p_name p = Some (m_name (zre_msg_received (env_rank run_env) (peer_identity 55) peer_hello))
    \<and> p_status p = m_status (zre_msg_received (env_rank run_env) (peer_identity 55) peer_hello)
    \<and> p_headers p = map_option (zhash_arrange (env_rank run_env))
        (m_headers (zre_msg_received (env_rank run_env) (peer_identity 55) peer_hello))
    \<and> p_want_sequence p = 1 \<and> p_mailbox p = Some mb \<and> mb_remote mb = connect_endpoint run_env
        (m_endpoint (zre_msg_received (env_rank run_env) (peer_identity 55) peer_hello))
    \<and> recv_all length 1 (router_view [1] True (mb_frames mb))
        = ([zre_msg_received length [1] (zre_msg_set_sequence boot_hello 1)], [])
    \<and> (\<forall>name. member s ''7'' name \<longleftrightarrow> name \<in> set [''A''])
    \<and> n_outbox s = n_outbox (enter_event run_env p
          (m_endpoint (zre_msg_received (env_rank run_env) (peer_identity 55) peer_hello)) hello_node)
        @ concat (map (group_event_frames ''JOIN'' p) [''A''])"
proof (rule hello_makes_peer [OF hello_node_reachable _ _ hello_node_recv, where b = 1 and d = "55 # replicate 15 0"])
  show "''7'' = uu_str (env_uuid_of run_env (55 # replicate 15 0))"
    by code_simp
  show "reachable_peer run_env hello_node
      (m_endpoint (zre_msg_received (env_rank run_env) (peer_identity 55) peer_hello)) None"
    by (simp add: reachable_peer_def received_hello run_env_def sample_env_def connect_endpoint_def hello_node_def
        boot_node_sel)
  show "hello_message run_env hello_node = Inr boot_hello" "sendable boot_hello"
    by (rule hello_node_message)+
qed (simp_all add: uncontested_def hello_node_def boot_node_sel received_hello peer_hello_sel
    peer_identity_def run_env_def sample_env_def)

section \<open>A HELLO cut short\<close>

text \<open>The octets of a HELLO under number 1 up to its endpoint.\<close>

definition short_hello :: "string \<Rightarrow> byte list" where
  "short_hello endpoint = [0xAA, 0xA1, 1, 2, 0, 1] @ put_string endpoint"

lemma recv_short_hello:
  assumes "short_ok endpoint"
  shows "zre_msg_recv rank True zre_msg_new (routed rid (multipart [short_hello endpoint]) @ rest)
    = (0, zre_msg_new\<lparr>m_routing_id := Some rid, m_id := ZRE_MSG_HELLO, m_sequence := 1, m_endpoint := endpoint\<rparr>, rest)"
proof -
  have "get_string (put_string endpoint) = Some (endpoint, [])"
    using ws.get_put [OF assms, of "[]"] by simp
  then show ?thesis
    by (simp add: zre_msg_recv_def routed_def recv_data_def recv_frame_def recv_body_def recv_hello_def
        recv_sequence_def short_hello_def get_or_def Let_def)
qed

text \<open>C38: a HELLO that ends behind its endpoint, from an identity the node does not know, aborts the whole
  process: it is not refused as malformed, the peer is made and connected to, ENTER is announced, and then
  the loop over the groups is given a null list. A frame of a few octets is enough, whoever sends it.\<close>

theorem short_hello_aborts:
  assumes "actor_reachable self" and "n_secret_key self = None"
    and "n_inbox self = routed (b # d) (multipart [short_hello endpoint]) @ rest" and "length d = 16"
    and "short_ok endpoint" and "zhash_lookup (n_peers self) (uu_str (env_uuid_of env d)) = None"
    and "reachable_peer env self endpoint None" and "hello_message env self = Inr hello"
  shows "zyre_node_recv_peer env self = Inl Assertion_failed"
proof -
  let ?u = "env_uuid_of env d" and ?t = "self\<lparr>n_inbox := rest\<rparr>" and ?a = "n_next self"
  let ?m = "zre_msg_new\<lparr>m_routing_id := Some (b # d), m_id := ZRE_MSG_HELLO, m_sequence := 1, m_endpoint := endpoint\<rparr>"
  have recv: "zre_msg_recv (env_rank env) True zre_msg_new (n_inbox self) = (0, ?m, rest)"
    using recv_short_hello [OF assms(5)] assms(3) by simp
  have ok: "node_ok ?t" using reachable_ok [OF assms(1)] by simp
  have none: "zhash_lookup (n_peers ?t) (uu_str ?u) = None" "n_secret_key ?t = None" using assms(2,6) by simp_all
  have reach: "reachable_peer env ?t (m_endpoint ?m) None" "hello_message env ?t = Inr hello"
    using assms(7,8) by (simp_all add: reachable_peer_def)
  obtain s p t1 t2 where s: "hello_sender env ?u ?m None ?t = Inr (Some ?a, s)"
    "n_heap s ?a = Some (p\<lparr>p_evasive_at := t1, p_expired_at := t2, p_ready := True\<rparr>)"
    by (rule hello_sender_new [OF ok none reach]) (rule that, simp_all)
  have "recv_ready env ?a ?u ?m s = Inl Assertion_failed"
    using s(2) by (simp add: recv_ready_def node_peer_def zyre_peer_messages_lost_def recv_peer_command_def
        recv_peer_hello_def node_alter_live put_peer_def enter_event_def zre_msg_new_def outbox_send_def outbox_sendm_def
        zyre_simps Let_def)
  then show ?thesis
    using s recv assms(4,6) by (simp add: zyre_node_recv_peer_def recv_from_def node_peer_def zyre_peer_ready_def)
qed

theorem short_hello_aborts_witness:
  "zyre_node_recv_peer run_env (boot_node\<lparr>n_inbox := routed (1 # (55 # replicate 15 0)) (multipart [short_hello ''x'']) @ []\<rparr>)
    = Inl Assertion_failed"
proof (rule short_hello_aborts [where b = 1 and d = "55 # replicate 15 0" and endpoint = "''x''" and rest = "[]"
      and hello = boot_hello])
  show "actor_reachable (boot_node\<lparr>n_inbox := routed (1 # (55 # replicate 15 0)) (multipart [short_hello ''x'']) @ []\<rparr>)"
    using actor_reachable.step [OF boot_node_reachable actor_step.arrive] by (simp add: boot_node_sel)
  show "reachable_peer run_env (boot_node\<lparr>n_inbox := routed (1 # (55 # replicate 15 0)) (multipart [short_hello ''x'']) @ []\<rparr>)
     ''x'' None"
    by (simp add: reachable_peer_def run_env_def sample_env_def connect_endpoint_def boot_node_sel)
qed (use hello_node_message(1) in \<open>simp_all add: boot_node_sel short_ok_def c_string_def hello_node_def\<close>)

section \<open>Lost messages\<close>

text \<open>C23: when the next message of a ready peer has any number but the expected one, the message is taken from
  the inbox and the peer is removed: its object is freed, the table is without it, every group keeps its other
  members, its headers, leader, election and contest flag and loses only this one, and the application gets one
  EXIT with its identity and name. Nothing else of the node changes, neither the object of another peer nor
  the node's own data, but for two things the code does on every removal: with the draft API and gossip
  it unpublishes the identity, and a group that the node is in and no peer has joined yet gets its empty group
  object. The node contests no group.\<close>

theorem lost_message_removes_peer:
  assumes "actor_reachable self" and "uncontested self"
    and "zre_msg_recv (env_rank env) True zre_msg_new (n_inbox self) = (0, msg, rest)"
    and "m_routing_id msg = Some (b # d)" and "length d = 16" and "ident = uu_str (env_uuid_of env d)"
    and "m_id msg \<noteq> ZRE_MSG_HELLO" and "zhash_lookup (n_peers self) ident = Some a"
    and "n_heap self a = Some p" and "p_ready p" and "m_sequence msg \<noteq> p_want_sequence p + 1"
  shows "\<exists>groups s. zyre_node_recv_peer env self = Inr s
    \<and> s = self\<lparr>n_inbox := rest, n_outbox := n_outbox self @ event_frames ''EXIT'' p,
        n_gossip := (if env_draft env then map_option (\<lambda>cmds. cmds @ [[''UNPUBLISH'', ident]]) (n_gossip self)
                     else n_gossip self),
        n_heap := (n_heap self)(a := None), n_peers := zhash_delete ident (n_peers self), n_peer_groups := groups\<rparr>
    \<and> (\<forall>name. zhash_lookup groups name = (case zhash_lookup (n_peer_groups self) name of
          Some g \<Rightarrow> Some (g\<lparr>g_peers := zhash_delete ident (g_peers g)\<rparr>)
        | None \<Rightarrow> if name \<in> set (n_own_groups self) then Some (zyre_group_new name) else None))
    \<and> (\<forall>k name. member s k name \<longleftrightarrow> k \<noteq> ident \<and> member self k name)"
proof -
  let ?p = "p\<lparr>p_want_sequence := p_want_sequence p + 1\<rparr>"
  let ?t = "self\<lparr>n_inbox := rest\<rparr>"
  let ?s = "?t\<lparr>n_heap := put_peer a ?p (n_heap self)\<rparr>"
  have ok0: "node_ok ?t" using reachable_ok [OF assms(1)] by simp
  have "same_objects (n_heap ?t) (put_peer a ?p (n_heap self))"
    using same_objects_put [of "n_heap self" a p ?p] assms(9) by simp
  from steadyD(3) [OF steady_heap [OF this] ok0] have ok: "node_ok ?s" .
  have u: "uncontested ?s" using assms(2) by (simp add: uncontested_def)
  have h: "n_heap ?s a = Some ?p" by (simp add: put_peer_def)
  have ident: "zyre_peer_identity p = ident"
    using filed_peer [OF reachable_ok [OF assms(1)] zhash_lookup_SomeD [OF assms(8)]] assms(9) by (metis option.inject)
  have same: "event_frames ''EXIT'' ?p = event_frames ''EXIT'' p" "zyre_peer_identity ?p = ident"
    using ident by (simp_all add: event_frames_def zyre_peer_identity_def zyre_peer_name_def)
  obtain groups where r: "zyre_node_remove_peer env a ?s = Inr (without_peer env a ?p groups ?s)"
    "groups_without ident ?s groups"
    using remove_peer_exact [OF ok u h, of env] same(2) by auto
  have "zyre_node_recv_peer env self = Inr (without_peer env a ?p groups ?s)"
    using assms(6-11) r(1) by (simp add: recv_peer_from [OF assms(3-5)] recv_from_def recv_ready_def node_peer_def
        zyre_peer_ready_def zyre_peer_messages_lost_def)
  moreover have "without_peer env a ?p groups ?s = self\<lparr>n_inbox := rest, n_outbox := n_outbox self @ event_frames ''EXIT'' p,
        n_gossip := (if env_draft env then map_option (\<lambda>cmds. cmds @ [[''UNPUBLISH'', ident]]) (n_gossip self)
                     else n_gossip self),
        n_heap := (n_heap self)(a := None), n_peers := zhash_delete ident (n_peers self), n_peer_groups := groups\<rparr>"
    unfolding without_peer_def same by (simp add: put_peer_def)
  moreover have "\<forall>name. zhash_lookup groups name = (case zhash_lookup (n_peer_groups self) name of
          Some g \<Rightarrow> Some (g\<lparr>g_peers := zhash_delete ident (g_peers g)\<rparr>)
        | None \<Rightarrow> if name \<in> set (n_own_groups self) then Some (zyre_group_new name) else None)"
    using r(2) by (simp add: groups_without_def without_member_def split: option.split)
  moreover have "\<forall>k name. member (without_peer env a ?p groups ?s) k name \<longleftrightarrow> k \<noteq> ident \<and> member self k name"
  proof -
    have "\<forall>(name, g) \<in> set (n_peer_groups ?s). wf_zhash (g_peers g)"
      using groups_okD [OF node_okD(3) [OF ok]] by (auto simp: group_ok_def)
    moreover have "member ?s k name = member self k name" for k name by (simp add: member_def)
    ultimately show ?thesis using groups_without_member [OF r(2)] by simp
  qed
  ultimately show ?thesis by blast
qed

lemma sample_node_uncontested: "uncontested sample_node" "uncontested (with_msg late_join sample_node)"
  using sample_node_sel(5) by (auto simp: uncontested_def list_all_iff with_msg_def)

definition late_join :: zre_msg where
  "late_join = sample_join\<lparr>m_sequence := 5\<rparr>"

lemma late_join: "sendable late_join" "\<not> have_content late_join"
  using sendable_samples(2) by (simp_all add: late_join_def sample_join_def sendable_def have_content_def fields_ok_def)

theorem lost_message_removes_peer_witness:
  "\<exists>p s. zyre_node_recv_peer run_env (with_msg late_join sample_node) = Inr s
    \<and> n_peers s = zhash_delete ''7'' (n_peers (with_msg late_join sample_node))
    \<and> n_heap s = (n_heap (with_msg late_join sample_node))(0 := None) \<and> (\<forall>name. \<not> member s ''7'' name)
    \<and> n_outbox s = n_outbox (with_msg late_join sample_node) @ event_frames ''EXIT'' p \<and> n_inbox s = []
    \<and> n_own_groups s = n_own_groups (with_msg late_join sample_node) \<and> n_status s = n_status (with_msg late_join sample_node)"
proof -
  obtain p where p: "n_heap (with_msg late_join sample_node) 0 = Some p" "p_ready p" "p_want_sequence p = 1"
    by (rule sample_node_peer) (simp add: with_msg_def)
  have late: "m_id (zre_msg_received (env_rank run_env) (peer_identity 55) late_join) \<noteq> ZRE_MSG_HELLO"
    "m_sequence (zre_msg_received (env_rank run_env) (peer_identity 55) late_join) \<noteq> p_want_sequence p + 1"
    by (simp_all add: late_join_def sample_join_def p(3))
  have look: "zhash_lookup (n_peers (with_msg late_join sample_node)) ''7'' = Some 0"
    by (simp add: with_msg_def sample_node_sel zhash_lookup_def)
  have id: "m_routing_id (zre_msg_received (env_rank run_env) (peer_identity 55) late_join) = Some (1 # (55 # replicate 15 0))"
    by (simp add: peer_identity_def)
  have "length (55 # replicate 15 0 :: byte list) = 16" "''7'' = uu_str (env_uuid_of run_env (55 # replicate 15 0))"
    by (simp_all add: uuid_7)
  from lost_message_removes_peer [OF with_msg_reachable [OF sample_node_reachable] sample_node_uncontested(2)
      with_msg_recv [OF sample_node_sel(4) late_join] id this late(1) look p(1,2) late(2)]
  obtain groups s where s: "zyre_node_recv_peer run_env (with_msg late_join sample_node) = Inr s"
    "\<forall>k name. member s k name \<longleftrightarrow> k \<noteq> ''7'' \<and> member (with_msg late_join sample_node) k name"
    and eq: "s = (with_msg late_join sample_node)\<lparr>n_inbox := [],
        n_outbox := n_outbox (with_msg late_join sample_node) @ event_frames ''EXIT'' p,
        n_gossip := (if env_draft run_env then map_option (\<lambda>cmds. cmds @ [[''UNPUBLISH'', ''7'']])
            (n_gossip (with_msg late_join sample_node)) else n_gossip (with_msg late_join sample_node)),
        n_heap := (n_heap (with_msg late_join sample_node))(0 := None),
        n_peers := zhash_delete ''7'' (n_peers (with_msg late_join sample_node)), n_peer_groups := groups\<rparr>"
    by blast
  from s(2) have "\<forall>name. \<not> member s ''7'' name" by blast
  with s(1) show ?thesis by (intro exI [of _ p] exI [of _ s]) (simp add: eq)
qed

end
