(* ===== verification/Zyre_Membership_Props.thy ===== *)
theory Zyre_Membership_Props
  imports Zyre_Node_Recv_Props
begin

text \<open>
  Two nodes together: what one node calls its groups is what the other believes of it. The sender's joins
  and leaves are abstracted to a list of groups and a counter; its actor refines that specification and
  writes one message for each step, and the receiver's actor, fed these messages, follows it.
\<close>

section \<open>The specification\<close>

datatype own_call = Join_call string | Leave_call string

fun own_step :: "own_call \<Rightarrow> string list \<times> byte \<Rightarrow> string list \<times> byte" where
  "own_step (Join_call n) (own, st) = (if n \<in> set own then (own, st) else (own @ [n], st + 1))"
| "own_step (Leave_call n) (own, st) = (if n \<in> set own then (remove1 n own, st + 1) else (own, st))"

fun own_message :: "own_call \<Rightarrow> string list \<times> byte \<Rightarrow> zre_msg list" where
  "own_message (Join_call n) (own, st) = (if n \<in> set own then [] else [status_msg ZRE_MSG_JOIN n (st + 1)])"
| "own_message (Leave_call n) (own, st) = (if n \<in> set own then [status_msg ZRE_MSG_LEAVE n (st + 1)] else [])"

fun own_messages :: "own_call list \<Rightarrow> string list \<times> byte \<Rightarrow> zre_msg list" where
  "own_messages [] s = []"
| "own_messages (c # cs) s = own_message c s @ own_messages cs (own_step c s)"

fun call_name :: "own_call \<Rightarrow> string" where
  "call_name (Join_call n) = n"
| "call_name (Leave_call n) = n"

definition own_ok :: "string list \<times> byte \<Rightarrow> bool" where
  "own_ok s \<longleftrightarrow> distinct (fst s) \<and> (\<forall>g \<in> set (fst s). c_string g)"

lemma own_ok_step: "own_ok s \<Longrightarrow> c_string (call_name c) \<Longrightarrow> own_ok (own_step c s)"
  by (cases s; cases c) (auto simp: own_ok_def dest: notin_set_remove1)

lemma zlist_exists_iff:
  assumes "own_ok (own, st)" and "c_string n"
  shows "zlist_exists own n \<longleftrightarrow> n \<in> set own"
  using assms streq_iff by (fastforce simp: zlist_exists_def list_ex_iff own_ok_def)

lemma zlist_remove_eq: "own_ok (own, st) \<Longrightarrow> c_string n \<Longrightarrow> zlist_remove own n = remove1 n own"
proof (induction own)
  case (Cons g own)
  then have "own_ok (own, st)" "streq g n \<longleftrightarrow> g = n" by (simp_all add: own_ok_def streq_iff)
  then show ?case using Cons by simp
qed simp

section \<open>The sender\<close>

fun call_request :: "own_call \<Rightarrow> zframe list" where
  "call_request (Join_call n) = zyre_join n"
| "call_request (Leave_call n) = zyre_leave n"

definition make_calls :: "env \<Rightarrow> own_call list \<Rightarrow> zyre_node \<Rightarrow> zyre_node outcome" where
  "make_calls env = each (\<lambda>c. zyre_node_recv_api env (request_of (call_request c)))"

text \<open>The frames are those of these messages, one after the other.\<close>

fun carries :: "zframe list \<Rightarrow> zre_msg list \<Rightarrow> bool" where
  "carries fs [] \<longleftrightarrow> fs = []"
| "carries fs (m # ms) \<longleftrightarrow> (\<exists>tail rest. fs = multipart ((zre_msg_put m @ tail) # sent_content m) @ rest \<and> carries rest ms)"

lemma carries_append: "carries fs ms \<Longrightarrow> carries gs ns \<Longrightarrow> carries (fs @ gs) (ms @ ns)"
  by (induction ms arbitrary: fs) fastforce+

text \<open>A connected peer of the sender after frames were written for it.\<close>

definition wrote :: "zframe list \<Rightarrow> zre_msg list \<Rightarrow> zyre_peer \<Rightarrow> zyre_peer \<Rightarrow> bool" where
  "wrote fs ms p p' \<longleftrightarrow> p_connected p \<and> p_connected p' \<and> (\<exists>mb. p_mailbox p = Some mb
     \<and> p_mailbox p' = Some (mb\<lparr>mb_frames := mb_frames mb @ fs\<rparr>))
     \<and> carries fs (numbered (p_sent_sequence p) ms) \<and> p_sent_sequence p' = p_sent_sequence p + of_nat (length ms)"

lemma numbered_append: "numbered k (ms @ ns) = numbered k ms @ numbered (k + of_nat (length ms)) ns"
  by (induction ms arbitrary: k) (simp_all add: add.assoc)

lemma wrote_trans:
  assumes "wrote fs ms p q" and "wrote gs ns q r" shows "wrote (fs @ gs) (ms @ ns) p r"
  using assms by (auto simp: wrote_def numbered_append carries_append add.assoc)

lemma wrote_nothing: "p_connected p \<Longrightarrow> peer_ok p \<Longrightarrow> wrote [] [] p p"
  by (auto simp: wrote_def peer_ok_def)

lemma peer_send_wrote:
  assumes "p_connected p" and "peer_ok p" and "\<forall>q. \<not> env_full env q" and "zyre_peer_send env p m = Inr (0, p')"
  shows "\<exists>fs. wrote fs [m] p p'"
proof -
  obtain mb where mb: "p_mailbox p = Some mb" using assms(1,2) by (auto simp: peer_ok_def)
  let ?q = "zre_msg_set_sequence m (p_sent_sequence p + 1)"
  obtain tail where "p' = p\<lparr>p_sent_sequence := p_sent_sequence p + 1,
      p_mailbox := Some (mb\<lparr>mb_frames := mb_frames mb @ multipart ((zre_msg_put ?q @ tail) # sent_content ?q)\<rparr>)\<rparr>"
    using peer_send_connected [OF mb assms(1,3), of m] assms(4) by auto
  then have "wrote (multipart ((zre_msg_put ?q @ tail) # sent_content ?q)) [m] p p'"
    using mb assms(1) by (auto simp: wrote_def)
  then show ?thesis by blast
qed

text \<open>One announcement, to all peers.\<close>

lemma send_status_frames:
  assumes "node_ok self" and "\<forall>q. \<not> env_full env q" and "(k, a) \<in> set (n_peers self)"
    and "n_heap self a = Some p" and "p_connected p"
  obtains s p' fs where "each (zyre_node_send_peer env m) (n_peers self) self = Inr s"
    and "s = self\<lparr>n_heap := n_heap s\<rparr>" and "same_objects (n_heap self) (n_heap s)"
    and "n_heap s a = Some p'" and "wrote fs [zre_msg_dup (env_rank env) m] p p'"
proof -
  let ?g = "zyre_group_new []\<lparr>g_peers := n_peers self\<rparr>"
  let ?m = "zre_msg_dup (env_rank env) m"
  have g: "filed (n_heap self) (g_peers ?g)" using node_okD(1) [OF assms(1)] by simp
  obtain heap' where h: "zyre_group_send env ?g m (n_heap self) = Inr heap'" "same_objects (n_heap self) heap'"
    "\<And>k a p. (k, a) \<in> set (g_peers ?g) \<Longrightarrow> n_heap self a = Some p \<Longrightarrow>
          \<exists>p'. heap' a = Some p' \<and> zyre_peer_send env p ?m = Inr (0, p')"
    by (rule group_send_result [OF g node_okD(2) [OF assms(1)], of env m]) (rule that)
  obtain p' where p': "heap' a = Some p'" "zyre_peer_send env p ?m = Inr (0, p')"
    using h(3) [OF _ assms(4)] assms(3) by auto
  have "peer_ok p" using heap_okD [OF node_okD(2) [OF assms(1)] assms(4)] .
  then obtain fs where "wrote fs [?m] p p'" using peer_send_wrote [OF assms(5) _ assms(2) p'(2)] by blast
  moreover have "each (zyre_node_send_peer env m) (n_peers self) self = Inr (self\<lparr>n_heap := heap'\<rparr>)"
    using h(1) by (simp add: send_all_peers node_on_heap_def)
  ultimately show thesis
    using h(2) p'(1) by (intro that [of "self\<lparr>n_heap := heap'\<rparr>" p' fs]) simp_all
qed

text \<open>The actor refines the specification, and the frames it writes for a peer are the messages of it.\<close>

definition own_view :: "zyre_node \<Rightarrow> string list \<times> byte" where
  "own_view self = (n_own_groups self, n_status self)"

lemma call_refines:
  assumes "node_ok self" and "own_ok (own_view self)" and "field_ok (call_name c)" and "\<forall>q. \<not> env_full env q"
    and "(k, a) \<in> set (n_peers self)" and "n_heap self a = Some p" and "p_connected p"
  obtains s p' fs where "zyre_node_recv_api env (request_of (call_request c)) self = Inr s" and "node_ok s"
    and "n_peers s = n_peers self" and "n_peer_groups s = n_peer_groups self" and "own_view s = own_step c (own_view self)" and "n_heap s a = Some p'"
    and "wrote fs (map (zre_msg_dup (env_rank env)) (own_message c (own_view self))) p p'"
proof -
  have n: "c_string (call_name c)" using assms(3) by (simp add: field_ok_def)
  have ex: "zlist_exists (n_own_groups self) (call_name c) \<longleftrightarrow> call_name c \<in> set (n_own_groups self)"
    using assms(2) n by (auto simp: own_view_def zlist_exists_iff)
  have rm: "zlist_remove (n_own_groups self) (call_name c) = remove1 (call_name c) (n_own_groups self)"
    using assms(2) n by (auto simp: own_view_def zlist_remove_eq)
  have pok: "peer_ok p" using heap_okD [OF node_okD(2) [OF assms(1)] assms(6)] .
  have req: "request_of (zyre_join n) = [str_bytes ''JOIN'', str_bytes n]"
    "request_of (zyre_leave n) = [str_bytes ''LEAVE'', str_bytes n]" for n
    using zmsg_recv_sendx [of _ _ "[]"] by (simp_all add: request_of_def zyre_join_def zyre_leave_def)
  show thesis
  proof (cases c)
    case (Join_call nm)
    let ?t = "self\<lparr>n_own_groups := n_own_groups self @ [nm], n_status := n_status self + 1\<rparr>"
    let ?m = "status_msg ZRE_MSG_JOIN nm (n_status self + 1)"
    show thesis
    proof (cases "nm \<in> set (n_own_groups self)")
      case True
      then show thesis using Join_call assms ex n wrote_nothing [OF assms(7) pok]
        by (intro that [of self p "[]"]) (simp_all add: req api_join_def own_view_def)
    next
      case False
      obtain s p' fs where s: "each (zyre_node_send_peer env ?m) (n_peers ?t) ?t = Inr s" "s = ?t\<lparr>n_heap := n_heap s\<rparr>"
        "same_objects (n_heap ?t) (n_heap s)" "n_heap s a = Some p'" "wrote fs [zre_msg_dup (env_rank env) ?m] p p'"
        by (rule send_status_frames [of ?t env k a p ?m]) (use assms in \<open>simp_all\<close>)
      have f: "field_ok nm" using assms(3) Join_call by simp
      have "zyre_node_recv_api env (request_of (call_request c)) self = Inr s"
        using s(1) False ex n Join_call by (simp add: req api_join_def Let_def status_message_eq [OF f])
      moreover have "node_ok s" using steadyD(3) [OF steady_heap [OF s(3)]] s(2) assms(1) by simp
      moreover have "n_peers s = n_peers self" "n_peer_groups s = n_peer_groups self"
        "own_view s = own_step c (own_view self)"
        by (subst s(2), use False Join_call in \<open>simp add: own_view_def\<close>)+
      ultimately show thesis using s(4,5) False Join_call by (intro that) (simp_all add: own_view_def)
    qed
  next
    case (Leave_call nm)
    let ?t = "self\<lparr>n_status := n_status self + 1\<rparr>"
    let ?m = "status_msg ZRE_MSG_LEAVE nm (n_status self + 1)"
    show thesis
    proof (cases "nm \<in> set (n_own_groups self)")
      case False
      then show thesis using Leave_call assms ex n wrote_nothing [OF assms(7) pok]
        by (intro that [of self p "[]"]) (simp_all add: req api_leave_def own_view_def)
    next
      case True
      obtain s p' fs where s: "each (zyre_node_send_peer env ?m) (n_peers ?t) ?t = Inr s" "s = ?t\<lparr>n_heap := n_heap s\<rparr>"
        "same_objects (n_heap ?t) (n_heap s)" "n_heap s a = Some p'" "wrote fs [zre_msg_dup (env_rank env) ?m] p p'"
        by (rule send_status_frames [of ?t env k a p ?m]) (use assms in \<open>simp_all\<close>)
      let ?s = "s\<lparr>n_own_groups := zlist_remove (n_own_groups s) nm\<rparr>"
      have f: "field_ok nm" using assms(3) Leave_call by simp
      have own: "n_own_groups s = n_own_groups self" "n_peers s = n_peers self" "n_status s = n_status self + 1"
        "n_peer_groups s = n_peer_groups self"
        by (subst s(2), simp)+
      have "zyre_node_recv_api env (request_of (call_request c)) self = Inr ?s"
        using s(1) True ex n Leave_call by (simp add: req api_leave_def Let_def status_message_eq [OF f])
      moreover have "node_ok ?s" using steadyD(3) [OF steady_heap [OF s(3)]] s(2) assms(1) by simp
      moreover have "own_view ?s = own_step c (own_view self)"
        using True Leave_call rm own by (simp add: own_view_def)
      ultimately show thesis using s(4,5) own True Leave_call by (intro that [of ?s]) (simp_all add: own_view_def)
    qed
  qed
qed

lemma calls_refine:
  assumes "node_ok self" and "own_ok (own_view self)" and "\<forall>c \<in> set calls. field_ok (call_name c)"
    and "\<forall>q. \<not> env_full env q"
    and "(k, a) \<in> set (n_peers self)" and "n_heap self a = Some p" and "p_connected p"
  shows "\<exists>s p' fs. make_calls env calls self = Inr s \<and> own_view s = fold own_step calls (own_view self)
    \<and> n_heap s a = Some p' \<and> wrote fs (map (zre_msg_dup (env_rank env)) (own_messages calls (own_view self))) p p'"
  using assms
proof (induction calls arbitrary: self p)
  case Nil
  have "wrote [] [] p p" using wrote_nothing Nil heap_okD [OF node_okD(2) [OF Nil(1)]] by simp
  then show ?case using Nil by (auto simp: make_calls_def)
next
  case (Cons c calls)
  let ?dup = "map (zre_msg_dup (env_rank env))"
  obtain s q fs where s: "zyre_node_recv_api env (request_of (call_request c)) self = Inr s" "node_ok s"
    "n_peers s = n_peers self" "n_peer_groups s = n_peer_groups self" "own_view s = own_step c (own_view self)" "n_heap s a = Some q"
    "wrote fs (?dup (own_message c (own_view self))) p q"
    by (rule call_refines [of self c env k a p]) (use Cons.prems in \<open>simp_all\<close>)
  have "own_ok (own_view s)" using s(5) Cons.prems(2,3) by (simp add: own_ok_step field_ok_def)
  moreover have "p_connected q" using s(7) by (simp add: wrote_def)
  ultimately obtain t r gs where t: "make_calls env calls s = Inr t" "own_view t = fold own_step calls (own_view s)"
    "n_heap t a = Some r" "wrote gs (?dup (own_messages calls (own_view s))) q r"
    using Cons.IH [of s q] s(2,3,6) Cons.prems(3-5) by auto
  have "make_calls env (c # calls) self = Inr t" using s(1) t(1) by (simp add: make_calls_def)
  moreover have "wrote (fs @ gs) (?dup (own_messages (c # calls) (own_view self))) p r"
    using wrote_trans [OF s(7) t(4)] s(5) by simp
  ultimately show ?case using t(2,3) s(5) by auto
qed

section \<open>The receiver\<close>

text \<open>The receiver's picture of the peer \<open>ident\<close>: its groups, its status, the last number heard of it.\<close>

definition mirrors :: "string list \<times> byte \<Rightarrow> 16 word \<Rightarrow> string \<Rightarrow> zyre_node \<Rightarrow> bool" where
  "mirrors view k ident self \<longleftrightarrow> (\<exists>a p. zhash_lookup (n_peers self) ident = Some a \<and> n_heap self a = Some p
     \<and> p_ready p \<and> p_status p = snd view \<and> p_want_sequence p = k
     \<and> (\<forall>name. member self ident name \<longleftrightarrow> name \<in> set (fst view)))"

text \<open>The handlers of JOIN and LEAVE on a message with the status that is due.\<close>

fun call_event :: "own_call \<Rightarrow> string" where
  "call_event (Join_call n) = ''JOIN''"
| "call_event (Leave_call n) = ''LEAVE''"


lemma recv_join_live:
  assumes "node_ok self" and "uncontested self" and "n_heap self a = Some p" and "m_status msg = p_status p + 1"
  obtains s where "recv_peer_join env a msg self = Inr s" and "safe self s" and "uncontested s"
    and "n_heap s a = Some (p\<lparr>p_status := m_status msg\<rparr>)"
    and "n_outbox s = n_outbox self @ group_event_frames ''JOIN'' p (m_group msg)"
    and "\<And>k n. member s k n \<longleftrightarrow> (n = m_group msg \<and> k = zyre_peer_identity p) \<or> member self k n"
proof -
  obtain g s where s: "zyre_node_join_peer_group env a (m_group msg) self = Inr (g, s)" "safe self s" "uncontested s"
    "zyre_node_require_peer_group env (m_group msg) s = (g, s)" "\<not> g_contest g"
    "n_heap s = (n_heap self)(a \<mapsto> p\<lparr>p_status := p_status p + 1\<rparr>)"
    "n_outbox s = n_outbox self @ group_event_frames ''JOIN'' p (m_group msg)"
    "\<And>k n. member s k n \<longleftrightarrow> (n = m_group msg \<and> k = zyre_peer_identity p) \<or> member self k n"
    by (rule join_peer_group_live [OF assms(1-3)]) blast
  show thesis
    by (rule that [of s]) (use s assms(4) in \<open>simp_all add: recv_peer_join_def node_peer_def zyre_group_contest_def\<close>)
qed

lemma recv_leave_live:
  assumes "node_ok self" and "uncontested self" and "n_heap self a = Some p" and "m_status msg = p_status p + 1"
  obtains s where "recv_peer_leave env a msg self = Inr s" and "safe self s" and "uncontested s"
    and "n_heap s a = Some (p\<lparr>p_status := m_status msg\<rparr>)"
    and "n_outbox s = n_outbox self @ group_event_frames ''LEAVE'' p (m_group msg)"
    and "\<And>k n. member s k n \<longleftrightarrow> \<not> (n = m_group msg \<and> k = zyre_peer_identity p) \<and> member self k n"
proof -
  obtain g s where s: "zyre_node_leave_peer_group env a (m_group msg) self = Inr (g, s)" "safe self s" "uncontested s"
    "\<not> g_contest g" "n_heap s = (n_heap self)(a \<mapsto> p\<lparr>p_status := p_status p + 1\<rparr>)"
    "n_outbox s = n_outbox self @ group_event_frames ''LEAVE'' p (m_group msg)"
    "\<And>k n. member s k n \<longleftrightarrow> \<not> (n = m_group msg \<and> k = zyre_peer_identity p) \<and> member self k n"
    by (rule leave_peer_group_live [OF assms(1-3)]) blast
  show thesis
    by (rule that [of s]) (use s assms(4) in \<open>simp_all add: recv_peer_leave_def node_peer_def zyre_group_contest_def\<close>)
qed

text \<open>One announcement, read from the inbox.\<close>

lemma frames_want: "group_event_frames type (p\<lparr>p_want_sequence := k\<rparr>) name = group_event_frames type p name"
  by (simp add: group_event_frames_def zyre_peer_identity_def zyre_peer_name_def)

lemma recv_announcement:
  assumes "node_ok self" and "uncontested self" and "mirrors view k ident self" and "own_ok view"
    and "own_message c view = [m]" and "zre_msg_recv (env_rank env) True zre_msg_new (n_inbox self) = (0, msg, rest)"
    and "m_routing_id msg = Some (b # d)" and "length d = 16" and "ident = uu_str (env_uuid_of env d)"
    and "m_id msg = m_id m" and "m_group msg = m_group m" and "m_status msg = m_status m" and "m_sequence msg = k + 1"
  obtains s where "zyre_node_recv_peer env self = Inr s" and "node_ok s" and "uncontested s"
    and "mirrors (own_step c view) (k + 1) ident s" and "n_inbox s = rest"
    and "\<And>q. known_peer self ident = Some q \<Longrightarrow>
      n_outbox s = n_outbox self @ group_event_frames (call_event c) q (call_name c)
      \<and> (\<exists>q'. known_peer s ident = Some q' \<and> p_name q' = p_name q)"
proof -
  obtain own st where view: "view = (own, st)" by (rule prod.exhaust)
  obtain a p where p: "zhash_lookup (n_peers self) ident = Some a" "n_heap self a = Some p" "p_ready p" "p_status p = st"
    "p_want_sequence p = k" "\<And>name. member self ident name \<longleftrightarrow> name \<in> set own"
    using assms(3) by (auto simp: mirrors_def view)
  have ident: "zyre_peer_identity p = ident"
    using filed_peer [OF assms(1) zhash_lookup_SomeD [OF p(1)]] p(2) by (metis option.inject)
  let ?u = "env_uuid_of env d" and ?q = "p\<lparr>p_want_sequence := k + 1\<rparr>"
  let ?i = "self\<lparr>n_inbox := rest\<rparr>"
  let ?t = "?i\<lparr>n_heap := put_peer a ?q (n_heap self)\<rparr>"
  have same: "same_objects (n_heap ?i) (put_peer a ?q (n_heap self))"
    using same_objects_put [of "n_heap self" a p ?q] p(2) by simp
  have ok: "node_ok ?t" using steadyD(3) [OF steady_heap [OF same]] assms(1) by simp
  have unc: "uncontested ?t" using assms(2) by (simp add: uncontested_def)
  have tq: "n_heap ?t a = Some ?q" by (simp add: put_peer_def)
  have tm: "member ?t n name = member self n name" for n name by (simp add: member_def)
  have st: "m_status msg = p_status ?q + 1" "set (fst (own_step c view)) = (case c of Join_call n \<Rightarrow> insert n (set own)
      | Leave_call n \<Rightarrow> set own - {n})" "snd (own_step c view) = m_status msg" "m_group msg = call_name c"
    "m_id msg = (case c of Join_call n \<Rightarrow> ZRE_MSG_JOIN | Leave_call n \<Rightarrow> ZRE_MSG_LEAVE)"
    using assms(4,5,10-12) p(4) by (cases c; auto simp: view status_msg_def own_ok_def split: if_splits)+
  have idq: "zyre_peer_identity ?q = ident" using ident by (simp add: zyre_peer_identity_def)
  obtain s where s: "recv_peer_command env a ?u msg ?t = Inr (Some a, s)" "safe ?t s" "uncontested s"
    "n_heap s a = Some (?q\<lparr>p_status := m_status msg\<rparr>)"
    "n_outbox s = n_outbox self @ group_event_frames (call_event c) p (call_name c)"
    "\<And>n. member s ident n \<longleftrightarrow> n \<in> set (fst (own_step c view))"
  proof (cases c)
    case (Join_call n)
    obtain s where s: "recv_peer_join env a msg ?t = Inr s" "safe ?t s" "uncontested s"
      "n_heap s a = Some (?q\<lparr>p_status := m_status msg\<rparr>)"
      "n_outbox s = n_outbox ?t @ group_event_frames ''JOIN'' ?q (m_group msg)"
      "\<And>k n. member s k n \<longleftrightarrow> (n = m_group msg \<and> k = zyre_peer_identity ?q) \<or> member ?t k n"
      by (rule recv_join_live [OF ok unc tq st(1), of env]) (rule that)
    have "member s ident n \<longleftrightarrow> n \<in> set (fst (own_step c view))" for n
      unfolding s(6) tm p(6) st(2,4) idq by (simp add: Join_call)
    moreover have "recv_peer_command env a ?u msg ?t = Inr (Some a, s)"
      using s(1) st(5) Join_call by (simp add: recv_peer_command_def)
    moreover have "n_outbox s = n_outbox self @ group_event_frames (call_event c) p (call_name c)"
      using s(5) st(4) Join_call by (simp add: frames_want)
    ultimately show thesis using s(2-4) by (intro that [of s])
  next
    case (Leave_call n)
    obtain s where s: "recv_peer_leave env a msg ?t = Inr s" "safe ?t s" "uncontested s"
      "n_heap s a = Some (?q\<lparr>p_status := m_status msg\<rparr>)"
      "n_outbox s = n_outbox ?t @ group_event_frames ''LEAVE'' ?q (m_group msg)"
      "\<And>k n. member s k n \<longleftrightarrow> \<not> (n = m_group msg \<and> k = zyre_peer_identity ?q) \<and> member ?t k n"
      by (rule recv_leave_live [OF ok unc tq st(1), of env]) (rule that)
    have "member s ident n \<longleftrightarrow> n \<in> set (fst (own_step c view))" for n
      unfolding s(6) tm p(6) st(2,4) idq by (auto simp add: Leave_call)
    moreover have "recv_peer_command env a ?u msg ?t = Inr (Some a, s)"
      using s(1) st(5) Leave_call by (simp add: recv_peer_command_def)
    moreover have "n_outbox s = n_outbox self @ group_event_frames (call_event c) p (call_name c)"
      using s(5) st(4) Leave_call by (simp add: frames_want)
    ultimately show thesis using s(2-4) by (intro that [of s])
  qed
  obtain t1 t2 j where r: "node_refresh env a s = Inr (s\<lparr>n_ticks := j, n_heap := (n_heap s)(a \<mapsto>
      ?q\<lparr>p_status := m_status msg, p_evasive_at := t1, p_expired_at := t2\<rparr>)\<rparr>)" (is "_ = Inr ?r")
    using refresh_live [OF s(4), of env] by blast
  have eq: "zyre_node_recv_peer env self = Inr ?r"
    using p(1,2,3,5) s(1) r st(5) assms(6-9,13)
    by (cases c) (simp_all add: zyre_node_recv_peer_def recv_from_def recv_ready_def node_peer_def zyre_peer_ready_def
        zyre_peer_messages_lost_def)
  have "node_ok ?r" by (rule steadyD(3) [OF ensuresD [OF steady_refresh r] safeD(2) [OF s(2)]])
  moreover have "uncontested ?r" using s(3) by (simp add: uncontested_def)
  moreover have "n_peers s = n_peers self" "n_inbox s = rest"
    using steadyD(1) [OF safeD(1) [OF s(2)]] configD(10) [OF steadyD(2) [OF safeD(1) [OF s(2)]]] by simp_all
  moreover from this have "mirrors (own_step c view) (k + 1) ident ?r"
    using p(1,3) s(6) st(3) by (simp add: mirrors_def member_def)
  ultimately show thesis using p(1,2) s(5) by (intro that [OF eq]) (simp_all add: known_peer_def)
qed

text \<open>A stream of announcements.\<close>

fun recv_turns :: "env \<Rightarrow> nat \<Rightarrow> zyre_node \<Rightarrow> zyre_node outcome" where
  "recv_turns env 0 self = Inr self"
| "recv_turns env (Suc n) self = and_then (zyre_node_recv_peer env self) (recv_turns env n)"

lemma own_message_cases: "own_message c view = [] \<and> own_step c view = view
    \<or> (\<exists>i st. own_message c view = [status_msg i (call_name c) st] \<and> (i = ZRE_MSG_JOIN \<or> i = ZRE_MSG_LEAVE))"
  by (cases view; cases c) auto

lemma received_status_msg:
  assumes "field_ok name" and "i = ZRE_MSG_JOIN \<or> i = ZRE_MSG_LEAVE"
    and "msg = zre_msg_received rank rid (zre_msg_set_sequence (zre_msg_dup r (status_msg i name st)) k)"
  shows "m_id msg = i" "m_group msg = name" "m_status msg = st" "m_sequence msg = k" "m_routing_id msg = Some rid"
proof -
  have "fields_ok (status_msg i name st)" using status_msg_sendable(1) [OF assms(1,2)] by (simp add: sendable_def)
  then have "msg = zre_msg_received rank rid (zre_msg_set_sequence (status_msg i name st) k)"
    using received_dup [OF _ status_msg_sendable(2)] assms(3) by simp
  then show "m_id msg = i" "m_group msg = name" "m_status msg = st" "m_sequence msg = k" "m_routing_id msg = Some rid"
    using assms(2) by (auto simp: zre_msg_received_def store_fields_def status_msg_def zyre_simps Let_def)
qed

lemma recv_carried:
  assumes "carries fs (m # ms)" and "sendable m"
  obtains gs where "carries gs ms" and "zre_msg_recv rank True zre_msg_new (router_view rid True fs)
      = (0, zre_msg_received rank rid m, router_view rid True gs)"
proof -
  obtain tail gs where "fs = multipart ((zre_msg_put m @ tail) # sent_content m) @ gs" "carries gs ms"
    using assms(1) by auto
  then show thesis using recv_sent_frames [OF assms(2), of rank rid tail "router_view rid True gs"]
    by (intro that [of gs]) (simp_all add: router_view_message)
qed

lemma recv_announcements:
  assumes "node_ok self" and "uncontested self" and "mirrors view k (uu_str (env_uuid_of env d)) self" and "own_ok view"
    and "\<forall>c \<in> set calls. field_ok (call_name c)" and "length d = 16"
    and "carries fs (numbered k (map (zre_msg_dup r) (own_messages calls view)))"
    and "n_inbox self = router_view (b # d) True fs"
  shows "\<exists>s. recv_turns env (length (own_messages calls view)) self = Inr s \<and> n_inbox s = []
    \<and> mirrors (fold own_step calls view) (k + of_nat (length (own_messages calls view))) (uu_str (env_uuid_of env d)) s"
  using assms
proof (induction calls arbitrary: self view k fs)
  case (Cons c calls)
  have name: "field_ok (call_name c)" and step: "own_ok (own_step c view)"
    using Cons.prems(4,5) own_ok_step by (auto simp: field_ok_def)
  show ?case
  proof (cases "own_message c view = []")
    case True
    then have "own_step c view = view" using own_message_cases [of c view] by auto
    then show ?thesis using Cons.IH [of self view k fs] Cons.prems True by simp
  next
    case False
    then obtain i st where m: "own_message c view = [status_msg i (call_name c) st]" and i: "i = ZRE_MSG_JOIN \<or> i = ZRE_MSG_LEAVE"
      using own_message_cases [of c view] by auto
    let ?m = "zre_msg_set_sequence (zre_msg_dup r (status_msg i (call_name c) st)) (k + 1)"
    have "sendable ?m" using sendable_dup [OF status_msg_sendable(1) [OF name i]] by simp
    moreover have "carries fs (?m # numbered (k + 1) (map (zre_msg_dup r) (own_messages calls (own_step c view))))"
      using Cons.prems(7) m by simp
    ultimately obtain gs where gs: "carries gs (numbered (k + 1) (map (zre_msg_dup r) (own_messages calls (own_step c view))))"
      "zre_msg_recv (env_rank env) True zre_msg_new (router_view (b # d) True fs)
        = (0, zre_msg_received (env_rank env) (b # d) ?m, router_view (b # d) True gs)"
      using recv_carried by metis
    note f = received_status_msg [OF name i refl, of "env_rank env" "b # d" r st "k + 1"]
    have recv: "zre_msg_recv (env_rank env) True zre_msg_new (n_inbox self)
        = (0, zre_msg_received (env_rank env) (b # d) ?m, router_view (b # d) True gs)"
      using gs(2) Cons.prems(8) by simp
    obtain s where s: "zyre_node_recv_peer env self = Inr s" "node_ok s" "uncontested s"
      "mirrors (own_step c view) (k + 1) (uu_str (env_uuid_of env d)) s" "n_inbox s = router_view (b # d) True gs"
      by (rule recv_announcement [OF Cons.prems(1-4) m recv f(5) Cons.prems(6) refl])
        (use f in \<open>simp_all add: status_msg_def\<close>)
    show ?thesis using Cons.IH [OF s(2-4) step _ Cons.prems(6) gs(1) s(5)] Cons.prems(5) s(1) m
      by (auto simp: add.assoc)
  qed
qed auto

section \<open>Both together\<close>

text \<open>Let one node's picture of another be right: groups, status and message count. Then whatever joins
  and leaves the other's application calls, after the node has read the messages these calls wrote for it,
  its picture is right again, and no message is left: the two assertions on the status never fire and no
  loss is reported, over any number of calls. The other node's actor does with its own list of groups what
  the specification \<open>own_step\<close> says. The reading node contests no group.\<close>

theorem membership_converges:
  assumes "node_ok sender" and "own_ok (own_view sender)" and "\<forall>c \<in> set calls. field_ok (call_name c)"
    and "\<forall>q. \<not> env_full env q" and "(k, a) \<in> set (n_peers sender)" and "n_heap sender a = Some p" and "p_connected p"
    and "node_ok reader" and "uncontested reader" and "length d = 16" and "n_inbox reader = []"
    and "mirrors (own_view sender) (p_sent_sequence p) (uu_str (env_uuid_of env' d)) reader"
  shows "\<exists>s p' mb fs n r. make_calls env calls sender = Inr s \<and> own_view s = fold own_step calls (own_view sender)
    \<and> n_heap s a = Some p' \<and> p_mailbox p = Some mb \<and> p_mailbox p' = Some (mb\<lparr>mb_frames := mb_frames mb @ fs\<rparr>)
    \<and> recv_turns env' n (reader\<lparr>n_inbox := router_view (b # d) True fs\<rparr>) = Inr r \<and> n_inbox r = []
    \<and> mirrors (own_view s) (p_sent_sequence p') (uu_str (env_uuid_of env' d)) r"
proof -
  let ?ms = "own_messages calls (own_view sender)" and ?u = "uu_str (env_uuid_of env' d)"
  obtain s p' fs where s: "make_calls env calls sender = Inr s" "own_view s = fold own_step calls (own_view sender)"
    "n_heap s a = Some p'" "wrote fs (map (zre_msg_dup (env_rank env)) ?ms) p p'"
    using calls_refine [OF assms(1-7)] by blast
  obtain mb where mb: "p_mailbox p = Some mb" "p_mailbox p' = Some (mb\<lparr>mb_frames := mb_frames mb @ fs\<rparr>)"
    and fs: "carries fs (numbered (p_sent_sequence p) (map (zre_msg_dup (env_rank env)) ?ms))"
    and sent: "p_sent_sequence p' = p_sent_sequence p + of_nat (length ?ms)"
    using s(4) by (auto simp: wrote_def)
  let ?r = "reader\<lparr>n_inbox := router_view (b # d) True fs\<rparr>"
  have "node_ok ?r" "uncontested ?r" "mirrors (own_view sender) (p_sent_sequence p) ?u ?r"
    using assms(8,9,12) by (simp_all add: uncontested_def mirrors_def member_def)
  then obtain r where "recv_turns env' (length ?ms) ?r = Inr r" "n_inbox r = []"
    "mirrors (fold own_step calls (own_view sender)) (p_sent_sequence p + of_nat (length ?ms)) ?u r"
    using recv_announcements [of ?r "own_view sender" "p_sent_sequence p" env' d calls fs "env_rank env" b] assms(2,3,10) fs
    by auto
  then show ?thesis using s mb sent by metis
qed

text \<open>Node 7 as its peer knows it, and the calls it makes.\<close>

definition sample_sender :: zyre_node where
  "sample_sender = sample_node\<lparr>n_own_groups := [''A''], n_status := 1\<rparr>"

definition sample_calls :: "own_call list" where
  "sample_calls = [Join_call ''B'', Leave_call ''A'', Join_call ''B'', Leave_call ''C'', Join_call ''C'']"

theorem membership_converges_witness:
  "\<exists>(p::zyre_peer) s p' mb fs n r. make_calls run_env sample_calls sample_sender = Inr s
    \<and> own_view s = fold own_step sample_calls (own_view sample_sender)
    \<and> n_heap s 0 = Some p' \<and> p_mailbox p = Some mb \<and> p_mailbox p' = Some (mb\<lparr>mb_frames := mb_frames mb @ fs\<rparr>)
    \<and> recv_turns run_env n (sample_node\<lparr>n_inbox := router_view (1 # (55 # replicate 15 0)) True fs\<rparr>) = Inr r
    \<and> n_inbox r = []
    \<and> mirrors (own_view s) (p_sent_sequence p') (uu_str (env_uuid_of run_env (55 # replicate 15 0))) r"
proof -
  obtain p where p: "n_heap sample_node 0 = Some p" "p_ready p" "p_connected p" "p_want_sequence p = 1" "p_status p = 1"
    "p_sent_sequence p = 1" by (rule sample_node_peer)
  obtain g where g: "n_peer_groups sample_node = [(''A'', g)]" "g_peers g = [(''7'', 0)]" by (rule sample_node_group)
  have ok: "node_ok sample_node" by (rule reachable_ok [OF sample_node_reachable])
  have "\<exists>s p' mb fs n r. make_calls run_env sample_calls sample_sender = Inr s
    \<and> own_view s = fold own_step sample_calls (own_view sample_sender)
    \<and> n_heap s 0 = Some p' \<and> p_mailbox p = Some mb \<and> p_mailbox p' = Some (mb\<lparr>mb_frames := mb_frames mb @ fs\<rparr>)
    \<and> recv_turns run_env n (sample_node\<lparr>n_inbox := router_view (1 # (55 # replicate 15 0)) True fs\<rparr>) = Inr r
    \<and> n_inbox r = []
    \<and> mirrors (own_view s) (p_sent_sequence p') (uu_str (env_uuid_of run_env (55 # replicate 15 0))) r"
  proof (rule membership_converges [where k = "''7''"])
    show "mirrors (own_view sample_sender) (p_sent_sequence p) (uu_str (env_uuid_of run_env (55 # replicate 15 0))) sample_node"
      unfolding uuid_7 mirrors_def using p g
      by (intro exI [of _ 0] exI [of _ p])
        (simp add: own_view_def sample_sender_def member_def sample_node_sel zhash_lookup_def)
    show "n_heap sample_sender 0 = Some p" using p by (simp add: sample_sender_def)
  qed (use ok p in \<open>simp_all add: sample_sender_def sample_node_sel sample_node_uncontested own_ok_def own_view_def
      sample_calls_def field_ok_def c_string_def run_env_def sample_env_def\<close>)
  then show ?thesis by (rule exI [of _ p])
qed

end
