(* ===== verification/Zre_Msg_Zpl.thy ===== *)
theory Zre_Msg_Zpl
  imports Zre_Msg_Codec
begin

text \<open>
  Messages as configuration trees (\<open>src/zre_msg.c\<close>, \<open>zre_msg_new_zpl\<close> and \<open>zre_msg_zpl\<close>): one writer
  and one reader for each kind of message. The trees (\<open>zconfig_t\<close>) and the serialised content
  (\<open>zmsg_encode\<close>, \<open>zmsg_decode\<close>) are CZMQ's, so they are parameters, with the laws the code relies on.
\<close>

section \<open>What is used of zconfig and zmsg\<close>

text \<open>
  Items are built from the leaves: \<open>cf_add parent child\<close> is the parent after \<open>zconfig_new\<close> has made the
  child in it and the child has been filled. \<open>cf_items\<close> are names and values of the children in order.
\<close>

record 'c config_ops =
  cf_new :: "string \<Rightarrow> 'c"
  cf_put :: "'c \<Rightarrow> string \<Rightarrow> string \<Rightarrow> 'c"
  cf_add :: "'c \<Rightarrow> 'c \<Rightarrow> 'c"
  cf_get :: "'c \<Rightarrow> string \<Rightarrow> string option"
  cf_locate :: "'c \<Rightarrow> string \<Rightarrow> 'c option"
  cf_items :: "'c \<Rightarrow> (string \<times> string) list"
  cf_name :: "'c \<Rightarrow> string"
  cf_encode :: "byte list list \<Rightarrow> byte list"
  cf_decode :: "byte list \<Rightarrow> byte list list option"
  cf_unset :: "32 word"                       \<comment> \<open>the variable \<open>sscanf\<close> leaves alone\<close>

section \<open>Octets as hexadecimal digits\<close>

definition hex_char :: "nat \<Rightarrow> char" where
  "hex_char n = (if n < 10 then char_of (48 + n) else char_of (87 + n))"

text \<open>\<open>sprintf (aux, "%02x", mem [i])\<close> for each octet.\<close>

definition str_from_bytes :: "byte list \<Rightarrow> string" where
  "str_from_bytes mem = concat (map (\<lambda>b. [hex_char (unat b div 16), hex_char (unat b mod 16)]) mem)"

definition hex_value :: "char \<Rightarrow> nat option" where
  "hex_value c = (let n = of_char c in
     if 48 \<le> n \<and> n \<le> 57 then Some (n - 48)
     else if 97 \<le> n \<and> n \<le> 102 then Some (n - 87)
     else if 65 \<le> n \<and> n \<le> 70 then Some (n - 55)
     else None)"

text \<open>The digits at the front of a string; none is a matching failure.\<close>

fun scan_digits :: "string \<Rightarrow> nat option" where
  "scan_digits [] = None"
| "scan_digits (c # cs) = (case hex_value c of None \<Rightarrow> None
     | Some v \<Rightarrow> (case cs of [] \<Rightarrow> Some v
         | d # ds \<Rightarrow> (case hex_value d of None \<Rightarrow> Some v | Some w \<Rightarrow> Some (16 * v + w))))"

text \<open>
  \<open>sscanf (buff, "%x", &uint)\<close> on two characters: white space, a sign and the prefix \<open>0x\<close> are skipped,
  a negative number wraps around.
\<close>

definition sscanf_x :: "string \<Rightarrow> 32 word option" where
  "sscanf_x buff = (case dropWhile is_space buff of
     [] \<Rightarrow> None
   | c # cs \<Rightarrow>
       if c = CHR ''-'' then map_option (\<lambda>v. - of_nat v) (scan_digits cs)
       else if c = CHR ''+'' then map_option of_nat (scan_digits cs)
       else if c = CHR ''0'' \<and> (cs = ''x'' \<or> cs = ''X'') then None
       else map_option of_nat (scan_digits (c # cs)))"

text \<open>The loop over pairs of characters, for a string of even length.\<close>

fun bytes_of_pairs :: "32 word \<Rightarrow> string \<Rightarrow> byte list outcome" where
  "bytes_of_pairs unset (c # d # cs) =
     (let u = (case sscanf_x [c, d] of None \<Rightarrow> unset | Some u \<Rightarrow> u)
      in assert_that (u \<le> 0xFF) (and_then (bytes_of_pairs unset cs) (\<lambda>mem. Inr (ucast u # mem))))"
| "bytes_of_pairs unset _ = Inr []"

text \<open>The macro makes the function it stands in return null when the length is odd.\<close>

definition bytes_from_str :: "32 word \<Rightarrow> string \<Rightarrow> byte list option outcome" where
  "bytes_from_str unset str =
     (if odd (length str) then Inr None
      else and_then (bytes_of_pairs unset str) (\<lambda>mem. Inr (Some mem)))"

section \<open>strtoll\<close>

text \<open>The value, saturated to 64 bits, and the part of the string behind it.\<close>

definition c_strtoll :: "string \<Rightarrow> int \<times> string" where
  "c_strtoll s =
     (let t = dropWhile is_space s;
          negative = (t \<noteq> [] \<and> hd t = CHR ''-'');
          u = (if t \<noteq> [] \<and> (hd t = CHR ''-'' \<or> hd t = CHR ''+'') then tl t else t);
          v = (if negative then - digits_value u else digits_value u)
      in if takeWhile is_digit u = [] then (0, s)
         else (max (- (2 ^ 63)) (min (2 ^ 63 - 1) v), dropWhile is_digit u))"

section \<open>Writing\<close>

definition zpl_routing_id :: "'c config_ops \<Rightarrow> zre_msg \<Rightarrow> 'c \<Rightarrow> 'c" where
  "zpl_routing_id ops self root = (case m_routing_id self of None \<Rightarrow> root
     | Some d \<Rightarrow> cf_put ops root ''routing_id'' (str_from_bytes d))"

text \<open>Every section \<open>content\<close> begins with these two.\<close>

definition zpl_open :: "'c config_ops \<Rightarrow> zre_msg \<Rightarrow> 'c" where
  "zpl_open ops self = cf_put ops (cf_put ops (cf_new ops ''content'') ''version'' ''2'')
     ''sequence'' (c_dec (uint (m_sequence self)))"

definition zpl_groups :: "'c config_ops \<Rightarrow> string list \<Rightarrow> 'c" where
  "zpl_groups ops groups = foldl (\<lambda>strings (i, g). cf_put ops strings (c_dec (int i)) g)
     (cf_new ops ''groups'') (enumerate 0 groups)"

definition zpl_headers :: "'c config_ops \<Rightarrow> string zhash \<Rightarrow> 'c" where
  "zpl_headers ops headers = foldl (\<lambda>hash (k, item). cf_put ops hash k item) (cf_new ops ''headers'') headers"

definition zpl_hello :: "'c config_ops \<Rightarrow> zre_msg \<Rightarrow> 'c" where
  "zpl_hello ops self =
     (let config = cf_put ops (zpl_open ops self) ''endpoint'' (m_endpoint self);
          config = (case m_groups self of None \<Rightarrow> config | Some gs \<Rightarrow> cf_add ops config (zpl_groups ops gs));
          config = cf_put ops config ''status'' (c_dec (uint (m_status self)));
          config = cf_put ops config ''name'' (m_name self)
      in case m_headers self of None \<Rightarrow> config | Some h \<Rightarrow> cf_add ops config (zpl_headers ops h))"

text \<open>\<open>zmsg_encode\<close> asserts that there is a message.\<close>

definition zpl_content :: "'c config_ops \<Rightarrow> zre_msg \<Rightarrow> 'c \<Rightarrow> 'c outcome" where
  "zpl_content ops self config = (case m_content self of None \<Rightarrow> Inl Assertion_failed
     | Some ds \<Rightarrow> Inr (cf_put ops config ''content'' (str_from_bytes (cf_encode ops ds))))"

definition zpl_whisper :: "'c config_ops \<Rightarrow> zre_msg \<Rightarrow> 'c outcome" where
  "zpl_whisper ops self = zpl_content ops self (zpl_open ops self)"

definition zpl_shout :: "'c config_ops \<Rightarrow> zre_msg \<Rightarrow> 'c outcome" where
  "zpl_shout ops self = zpl_content ops self (cf_put ops (zpl_open ops self) ''group'' (m_group self))"

text \<open>JOIN and LEAVE.\<close>

definition zpl_join :: "'c config_ops \<Rightarrow> zre_msg \<Rightarrow> 'c" where
  "zpl_join ops self = cf_put ops (cf_put ops (zpl_open ops self) ''group'' (m_group self))
     ''status'' (c_dec (uint (m_status self)))"

definition zpl_elect :: "'c config_ops \<Rightarrow> zre_msg \<Rightarrow> 'c" where
  "zpl_elect ops self = cf_put ops (cf_put ops (zpl_open ops self) ''group'' (m_group self))
     ''challenger_id'' (m_challenger_id self)"

definition zpl_leader :: "'c config_ops \<Rightarrow> zre_msg \<Rightarrow> 'c" where
  "zpl_leader ops self = cf_put ops (cf_put ops (zpl_open ops self) ''group'' (m_group self))
     ''leader_id'' (m_leader_id self)"

text \<open>The root with the name of the message, the routing id and the section.\<close>

definition zpl_root :: "'c config_ops \<Rightarrow> zre_msg \<Rightarrow> string \<Rightarrow> 'c \<Rightarrow> 'c" where
  "zpl_root ops self message content =
     cf_add ops (zpl_routing_id ops self (cf_put ops (cf_new ops ''zre_msg'') ''message'' message)) content"

text \<open>The parent the caller may give only gets the root as its child.\<close>

definition zre_msg_zpl :: "'c config_ops \<Rightarrow> zre_msg \<Rightarrow> 'c outcome" where
  "zre_msg_zpl ops self =
     (if m_id self = ZRE_MSG_HELLO then Inr (zpl_root ops self ''ZRE_MSG_HELLO'' (zpl_hello ops self))
      else if m_id self = ZRE_MSG_WHISPER then
        and_then (zpl_whisper ops self) (\<lambda>c. Inr (zpl_root ops self ''ZRE_MSG_WHISPER'' c))
      else if m_id self = ZRE_MSG_SHOUT then
        and_then (zpl_shout ops self) (\<lambda>c. Inr (zpl_root ops self ''ZRE_MSG_SHOUT'' c))
      else if m_id self = ZRE_MSG_JOIN then Inr (zpl_root ops self ''ZRE_MSG_JOIN'' (zpl_join ops self))
      else if m_id self = ZRE_MSG_LEAVE then Inr (zpl_root ops self ''ZRE_MSG_LEAVE'' (zpl_join ops self))
      else if m_id self = ZRE_MSG_PING then Inr (zpl_root ops self ''ZRE_MSG_PING'' (zpl_open ops self))
      else if m_id self = ZRE_MSG_PING_OK then Inr (zpl_root ops self ''ZRE_MSG_PING_OK'' (zpl_open ops self))
      else if m_id self = ZRE_MSG_ELECT then Inr (zpl_root ops self ''ZRE_MSG_ELECT'' (zpl_elect ops self))
      else if m_id self = ZRE_MSG_LEADER then Inr (zpl_root ops self ''ZRE_MSG_LEADER'' (zpl_leader ops self))
      else if m_id self = ZRE_MSG_GOODBYE then Inr (zpl_root ops self ''ZRE_MSG_GOODBYE'' (zpl_open ops self))
      else Inr (cf_new ops ''zre_msg''))"

section \<open>Reading\<close>

text \<open>The names of the messages; an unknown one is refused.\<close>

definition zpl_message_id :: "string \<Rightarrow> int option" where
  "zpl_message_id message =
     (if streq ''ZRE_MSG_HELLO'' message then Some ZRE_MSG_HELLO
      else if streq ''ZRE_MSG_WHISPER'' message then Some ZRE_MSG_WHISPER
      else if streq ''ZRE_MSG_SHOUT'' message then Some ZRE_MSG_SHOUT
      else if streq ''ZRE_MSG_JOIN'' message then Some ZRE_MSG_JOIN
      else if streq ''ZRE_MSG_LEAVE'' message then Some ZRE_MSG_LEAVE
      else if streq ''ZRE_MSG_PING'' message then Some ZRE_MSG_PING
      else if streq ''ZRE_MSG_PING_OK'' message then Some ZRE_MSG_PING_OK
      else if streq ''ZRE_MSG_ELECT'' message then Some ZRE_MSG_ELECT
      else if streq ''ZRE_MSG_LEADER'' message then Some ZRE_MSG_LEADER
      else if streq ''ZRE_MSG_GOODBYE'' message then Some ZRE_MSG_GOODBYE
      else None)"

text \<open>A number must take up its whole string; the empty string counts as one.\<close>

definition zpl_number :: "'c config_ops \<Rightarrow> 'c \<Rightarrow> string \<Rightarrow> int option" where
  "zpl_number ops content key = (case cf_get ops content key of None \<Rightarrow> None
     | Some s \<Rightarrow> if snd (c_strtoll s) = [] then Some (fst (c_strtoll s)) else None)"

text \<open>Storing into the 16-bit and 8-bit fields keeps the low bits.\<close>

definition zpl_get_sequence :: "'c config_ops \<Rightarrow> 'c \<Rightarrow> zre_msg \<Rightarrow> zre_msg option" where
  "zpl_get_sequence ops content self =
     map_option (\<lambda>u. self\<lparr>m_sequence := word_of_int u\<rparr>) (zpl_number ops content ''sequence'')"

definition zpl_get_status :: "'c config_ops \<Rightarrow> 'c \<Rightarrow> zre_msg \<Rightarrow> zre_msg option" where
  "zpl_get_status ops content self =
     map_option (\<lambda>u. self\<lparr>m_status := word_of_int u\<rparr>) (zpl_number ops content ''status'')"

definition zpl_get_group :: "'c config_ops \<Rightarrow> 'c \<Rightarrow> zre_msg \<Rightarrow> zre_msg option" where
  "zpl_get_group ops content self =
     map_option (\<lambda>s. self\<lparr>m_group := field256 s\<rparr>) (cf_get ops content ''group'')"

text \<open>The sections of lists and tables may be missing.\<close>

definition zpl_get_groups :: "'c config_ops \<Rightarrow> 'c \<Rightarrow> zre_msg \<Rightarrow> zre_msg" where
  "zpl_get_groups ops content self = (case cf_locate ops content ''groups'' of None \<Rightarrow> self
     | Some zstrings \<Rightarrow> self\<lparr>m_groups := Some (map snd (cf_items ops zstrings))\<rparr>)"

definition zpl_get_headers :: "'c config_ops \<Rightarrow> (string \<Rightarrow> nat) \<Rightarrow> 'c \<Rightarrow> zre_msg \<Rightarrow> zre_msg" where
  "zpl_get_headers ops rank content self = (case cf_locate ops content ''headers'' of None \<Rightarrow> self
     | Some section \<Rightarrow> self\<lparr>m_headers :=
         Some (fold (\<lambda>(k, v). zhash_update rank k v) (cf_items ops section) [])\<rparr>)"

definition zpl_read_hello :: "'c config_ops \<Rightarrow> (string \<Rightarrow> nat) \<Rightarrow> 'c \<Rightarrow> zre_msg \<Rightarrow> zre_msg option" where
  "zpl_read_hello ops rank content self =
     Option.bind (zpl_get_sequence ops content self) (\<lambda>self.
     Option.bind (cf_get ops content ''endpoint'') (\<lambda>s.
       let self = zpl_get_groups ops content (self\<lparr>m_endpoint := field256 s\<rparr>) in
     Option.bind (zpl_get_status ops content self) (\<lambda>self.
     Option.bind (cf_get ops content ''name'') (\<lambda>s.
       Some (zpl_get_headers ops rank content (self\<lparr>m_name := field256 s\<rparr>))))))"

text \<open>The content of WHISPER and SHOUT, from its digits; what \<open>zmsg_decode\<close> refuses is no content.\<close>

definition zpl_get_content :: "'c config_ops \<Rightarrow> 'c \<Rightarrow> zre_msg \<Rightarrow> zre_msg option outcome" where
  "zpl_get_content ops content self = (case cf_get ops content ''content'' of None \<Rightarrow> Inr None
     | Some s \<Rightarrow> and_then (bytes_from_str (cf_unset ops) s)
         (\<lambda>mem. Inr (map_option (\<lambda>bvalue. self\<lparr>m_content := cf_decode ops bvalue\<rparr>) mem)))"

definition zpl_read_whisper :: "'c config_ops \<Rightarrow> 'c \<Rightarrow> zre_msg \<Rightarrow> zre_msg option outcome" where
  "zpl_read_whisper ops content self = (case zpl_get_sequence ops content self of None \<Rightarrow> Inr None
     | Some self \<Rightarrow> zpl_get_content ops content self)"

definition zpl_read_shout :: "'c config_ops \<Rightarrow> 'c \<Rightarrow> zre_msg \<Rightarrow> zre_msg option outcome" where
  "zpl_read_shout ops content self =
     (case Option.bind (zpl_get_sequence ops content self) (zpl_get_group ops content) of None \<Rightarrow> Inr None
      | Some self \<Rightarrow> zpl_get_content ops content self)"

definition zpl_read_join :: "'c config_ops \<Rightarrow> 'c \<Rightarrow> zre_msg \<Rightarrow> zre_msg option" where
  "zpl_read_join ops content self =
     Option.bind (zpl_get_sequence ops content self) (\<lambda>self.
     Option.bind (zpl_get_group ops content self) (zpl_get_status ops content))"

text \<open>PING and PING-OK; GOODBYE has the same body.\<close>

definition zpl_read_ping :: "'c config_ops \<Rightarrow> 'c \<Rightarrow> zre_msg \<Rightarrow> zre_msg option" where
  "zpl_read_ping ops content self = zpl_get_sequence ops content self"

definition zpl_read_goodbye :: "'c config_ops \<Rightarrow> 'c \<Rightarrow> zre_msg \<Rightarrow> zre_msg option" where
  "zpl_read_goodbye ops content self = zpl_get_sequence ops content self"

definition zpl_read_elect :: "'c config_ops \<Rightarrow> 'c \<Rightarrow> zre_msg \<Rightarrow> zre_msg option" where
  "zpl_read_elect ops content self =
     Option.bind (zpl_get_sequence ops content self) (\<lambda>self.
     Option.bind (zpl_get_group ops content self) (\<lambda>self.
       map_option (\<lambda>s. self\<lparr>m_challenger_id := field256 s\<rparr>) (cf_get ops content ''challenger_id'')))"

definition zpl_read_leader :: "'c config_ops \<Rightarrow> 'c \<Rightarrow> zre_msg \<Rightarrow> zre_msg option" where
  "zpl_read_leader ops content self =
     Option.bind (zpl_get_sequence ops content self) (\<lambda>self.
     Option.bind (zpl_get_group ops content self) (\<lambda>self.
       map_option (\<lambda>s. self\<lparr>m_leader_id := field256 s\<rparr>) (cf_get ops content ''leader_id'')))"

definition zpl_read_body :: "'c config_ops \<Rightarrow> (string \<Rightarrow> nat) \<Rightarrow> 'c \<Rightarrow> zre_msg \<Rightarrow> zre_msg option outcome" where
  "zpl_read_body ops rank content self =
     (if m_id self = ZRE_MSG_HELLO then Inr (zpl_read_hello ops rank content self)
      else if m_id self = ZRE_MSG_WHISPER then zpl_read_whisper ops content self
      else if m_id self = ZRE_MSG_SHOUT then zpl_read_shout ops content self
      else if m_id self = ZRE_MSG_JOIN \<or> m_id self = ZRE_MSG_LEAVE then Inr (zpl_read_join ops content self)
      else if m_id self = ZRE_MSG_PING \<or> m_id self = ZRE_MSG_PING_OK then Inr (zpl_read_ping ops content self)
      else if m_id self = ZRE_MSG_ELECT then Inr (zpl_read_elect ops content self)
      else if m_id self = ZRE_MSG_LEADER then Inr (zpl_read_leader ops content self)
      else Inr (zpl_read_goodbye ops content self))"

text \<open>The routing id, where there is one.\<close>

definition zpl_get_routing_id :: "'c config_ops \<Rightarrow> 'c \<Rightarrow> zre_msg \<Rightarrow> zre_msg option outcome" where
  "zpl_get_routing_id ops config self = (case cf_get ops config ''routing_id'' of None \<Rightarrow> Inr (Some self)
     | Some s \<Rightarrow> and_then (bytes_from_str (cf_unset ops) s)
         (\<lambda>mem. Inr (map_option (\<lambda>bvalue. self\<lparr>m_routing_id := Some bvalue\<rparr>) mem)))"

definition zre_msg_new_zpl :: "'c config_ops \<Rightarrow> (string \<Rightarrow> nat) \<Rightarrow> 'c \<Rightarrow> zre_msg option outcome" where
  "zre_msg_new_zpl ops rank config =
     (case Option.bind (cf_get ops config ''message'') zpl_message_id of None \<Rightarrow> Inr None
      | Some i \<Rightarrow>
          and_then (zpl_get_routing_id ops config (zre_msg_set_id zre_msg_new i)) (\<lambda>self.
            case self of None \<Rightarrow> Inr None
            | Some self \<Rightarrow> (case cf_locate ops config ''content'' of None \<Rightarrow> Inr None
                | Some content \<Rightarrow> zpl_read_body ops rank content self)))"

end
