(* ===== verification/Zre_Msg_Zpl_Props.thy ===== *)
theory Zre_Msg_Zpl_Props
  imports Zre_Msg_Zpl Zre_Msg_Codec_Props
begin

text \<open>
  What the ZPL form of a message keeps: a message written as a configuration tree is read back with
  every field of its kind, and is the same octets on the wire. The laws of the tree are collected in
  \<open>config_laws\<close>; a small tree that has them serves the witnesses.
\<close>

section \<open>The laws of configuration trees\<close>

text \<open>A key without \<open>/\<close> names a child; with it \<open>zconfig_put\<close> would make a path of items.\<close>

definition simple_key :: "string \<Rightarrow> bool" where
  "simple_key k \<longleftrightarrow> k \<noteq> [] \<and> CHR ''/'' \<notin> set k"

definition laws_new :: "'c config_ops \<Rightarrow> bool" where
  "laws_new ops \<longleftrightarrow> (\<forall>n. cf_name ops (cf_new ops n) = n \<and> cf_items ops (cf_new ops n) = []
     \<and> (\<forall>k. cf_get ops (cf_new ops n) k = None \<and> cf_locate ops (cf_new ops n) k = None))"

definition laws_put :: "'c config_ops \<Rightarrow> bool" where
  "laws_put ops \<longleftrightarrow> (\<forall>c k v. simple_key k \<longrightarrow>
     cf_name ops (cf_put ops c k v) = cf_name ops c
     \<and> (k \<notin> fst ` set (cf_items ops c) \<longrightarrow> cf_items ops (cf_put ops c k v) = cf_items ops c @ [(k, v)])
     \<and> (\<forall>j. simple_key j \<longrightarrow>
          cf_get ops (cf_put ops c k v) j = (if j = k then Some v else cf_get ops c j)
          \<and> (j \<noteq> k \<longrightarrow> cf_locate ops (cf_put ops c k v) j = cf_locate ops c j)))"

definition laws_add :: "'c config_ops \<Rightarrow> bool" where
  "laws_add ops \<longleftrightarrow> (\<forall>c d. cf_name ops (cf_add ops c d) = cf_name ops c) \<and> (\<forall>c d j. simple_key j \<longrightarrow> cf_locate ops c (cf_name ops d) = None \<longrightarrow>
     cf_locate ops (cf_add ops c d) j = (if j = cf_name ops d then Some d else cf_locate ops c j)
     \<and> (j \<noteq> cf_name ops d \<longrightarrow> cf_get ops (cf_add ops c d) j = cf_get ops c j))"

definition config_laws :: "'c config_ops \<Rightarrow> bool" where
  "config_laws ops \<longleftrightarrow> laws_new ops \<and> laws_put ops \<and> laws_add ops
     \<and> (\<forall>ds. cf_decode ops (cf_encode ops ds) = Some ds)"

lemma config_newD:
  assumes "config_laws ops"
  shows "cf_name ops (cf_new ops n) = n" "cf_items ops (cf_new ops n) = []"
    "cf_get ops (cf_new ops n) k = None" "cf_locate ops (cf_new ops n) k = None"
    "cf_name ops (cf_add ops c d) = cf_name ops c"
    "cf_decode ops (cf_encode ops ds) = Some ds"
  using assms by (simp_all add: config_laws_def laws_new_def laws_add_def)

lemma config_putD:
  assumes "config_laws ops" and "simple_key k"
  shows "cf_name ops (cf_put ops c k v) = cf_name ops c"
    "k \<notin> fst ` set (cf_items ops c) \<Longrightarrow> cf_items ops (cf_put ops c k v) = cf_items ops c @ [(k, v)]"
    "simple_key j \<Longrightarrow> cf_get ops (cf_put ops c k v) j = (if j = k then Some v else cf_get ops c j)"
    "simple_key j \<Longrightarrow> j \<noteq> k \<Longrightarrow> cf_locate ops (cf_put ops c k v) j = cf_locate ops c j"
proof -
  have "laws_put ops" using assms(1) by (simp add: config_laws_def)
  note * = this [unfolded laws_put_def, rule_format, OF assms(2)]
  show "cf_name ops (cf_put ops c k v) = cf_name ops c"
    "k \<notin> fst ` set (cf_items ops c) \<Longrightarrow> cf_items ops (cf_put ops c k v) = cf_items ops c @ [(k, v)]"
    "simple_key j \<Longrightarrow> cf_get ops (cf_put ops c k v) j = (if j = k then Some v else cf_get ops c j)"
    "simple_key j \<Longrightarrow> j \<noteq> k \<Longrightarrow> cf_locate ops (cf_put ops c k v) j = cf_locate ops c j"
    using * by blast+
qed

lemma config_addD:
  assumes "config_laws ops" and "simple_key j" and "cf_locate ops c (cf_name ops d) = None"
  shows "cf_locate ops (cf_add ops c d) j = (if j = cf_name ops d then Some d else cf_locate ops c j)"
    "j \<noteq> cf_name ops d \<Longrightarrow> cf_get ops (cf_add ops c d) j = cf_get ops c j"
proof -
  have "laws_add ops" using assms(1) by (simp add: config_laws_def)
  note * = this [unfolded laws_add_def, THEN conjunct2, rule_format, OF assms(2,3)]
  show "cf_locate ops (cf_add ops c d) j = (if j = cf_name ops d then Some d else cf_locate ops c j)"
    "j \<noteq> cf_name ops d \<Longrightarrow> cf_get ops (cf_add ops c d) j = cf_get ops c j"
    using * by blast+
qed

lemmas config_laws_rules = config_newD config_putD config_addD

section \<open>Digits\<close>

lemma hex_value_special:
  assumes "is_space c \<or> c \<in> {CHR ''-'', CHR ''+'', CHR ''x'', CHR ''X''}"
  shows "hex_value c = None"
  using assms by (auto simp: is_space_def hex_value_def)

lemma hex_value_hex_char:
  assumes "v < 16"
  shows "hex_value (hex_char v) = Some v"
  using assms by (auto simp: hex_char_def hex_value_def)

lemma hex_char_ok:
  assumes "v < 16"
  shows "hex_value (hex_char v) = Some v \<and> \<not> is_space (hex_char v)
     \<and> hex_char v \<notin> {CHR ''-'', CHR ''+'', CHR ''x'', CHR ''X''}"
  using hex_value_hex_char [OF assms] hex_value_special [of "hex_char v"] by fastforce

lemma sscanf_x_hex:
  assumes "n < 256"
  shows "sscanf_x [hex_char (n div 16), hex_char (n mod 16)] = Some (of_nat n)"
proof -
  have "n div 16 < 16" and "n mod 16 < 16" using assms by auto
  note digits = this [THEN hex_char_ok]
  have "16 * (n div 16) + n mod 16 = n" by simp
  then show ?thesis using digits by (simp add: sscanf_x_def)
qed

lemma ucast_ucast_b: "ucast (ucast (b :: byte) :: 32 word) = b"
  by (simp add: ucast_up_ucast_id is_up)

lemma bytes_of_pairs_str_from_bytes: "bytes_of_pairs unset (str_from_bytes mem) = Inr mem"
proof (induction mem)
  case (Cons b mem)
  have b: "unat b < 256" using unsigned_less [of b, where 'a = nat] by simp
  have "unat (of_nat (unat b) :: 32 word) = unat b"
    using b by (simp only: unat_of_nat) simp
  then have "(of_nat (unat b) :: 32 word) \<le> 0xFF"
    using b by (simp add: word_le_nat_alt)
  moreover have "ucast (of_nat (unat b) :: 32 word) = b"
    by (simp add: ucast_ucast_b)
  ultimately show ?case using Cons sscanf_x_hex [OF b]
    by (simp add: str_from_bytes_def assert_that_def Let_def)
qed (simp add: str_from_bytes_def)

lemma even_length_str_from_bytes [simp]: "even (length (str_from_bytes mem))"
  by (induction mem) (simp_all add: str_from_bytes_def)

lemma bytes_from_str_from_bytes [simp]: "bytes_from_str unset (str_from_bytes mem) = Inr (Some mem)"
  by (simp add: bytes_from_str_def bytes_of_pairs_str_from_bytes)

text \<open>What \<open>%ld\<close> prints of a field, \<open>strtoll\<close> reads back to its last character.\<close>

lemma c_strtoll_c_dec:
  assumes "0 \<le> i" and "i < 2 ^ 63"
  shows "c_strtoll (c_dec i) = (i, [])"
proof -
  let ?s = "dec_digits (nat i)"
  have d: "\<forall>c \<in> set ?s. is_digit c" by (simp add: dec_digits_digits)
  have ne: "?s \<noteq> []" by (simp add: dec_digits.simps [of "nat i"])
  then have "is_digit (hd ?s)" using d by simp
  then have hd: "\<not> is_space (hd ?s)" "hd ?s \<noteq> CHR ''-''" "hd ?s \<noteq> CHR ''+''"
    by (auto simp: is_digit_def is_space_def)
  have some: "takeWhile is_digit ?s \<noteq> []" using d ne by (cases ?s) auto
  have "dropWhile is_space ?s = ?s" using hd ne by (cases ?s) auto
  moreover have "dropWhile is_digit ?s = []" using d by simp
  ultimately show ?thesis using assms ne hd some digits_value_dec_digits [of "nat i"]
    by (simp add: c_strtoll_def c_dec_def Let_def)
qed

lemma c_strtoll_field [simp]:
  "c_strtoll (c_dec (uint (w :: 16 word))) = (uint w, [])"
  "c_strtoll (c_dec (uint (b :: byte))) = (uint b, [])"
proof -
  have "uint w < 2 ^ 16" and "uint b < 2 ^ 8"
    using unsigned_less [of w, where 'a = int] unsigned_less [of b, where 'a = int] by simp_all
  then show "c_strtoll (c_dec (uint w)) = (uint w, [])" "c_strtoll (c_dec (uint b)) = (uint b, [])"
    by (simp_all add: c_strtoll_c_dec)
qed

section \<open>Sections of many items\<close>

lemma cf_items_puts:
  assumes "config_laws ops"
  shows "\<forall>e \<in> set es. simple_key (fst e) \<Longrightarrow> distinct (map fst es)
    \<Longrightarrow> fst ` set es \<inter> fst ` set (cf_items ops c) = {}
    \<Longrightarrow> cf_items ops (foldl (\<lambda>c (k, v). cf_put ops c k v) c es) = cf_items ops c @ es
      \<and> cf_name ops (foldl (\<lambda>c (k, v). cf_put ops c k v) c es) = cf_name ops c"
proof (induction es arbitrary: c)
  case (Cons e es)
  obtain k v where e: "e = (k, v)" by (cases e)
  have items: "cf_items ops (cf_put ops c k v) = cf_items ops c @ [(k, v)]"
    and name: "cf_name ops (cf_put ops c k v) = cf_name ops c"
    using config_putD(1,2) [OF assms, of k c v] Cons.prems e by auto
  have "fst ` set es \<inter> fst ` set (cf_items ops (cf_put ops c k v)) = {}"
    using Cons.prems e by (auto simp: items)
  then show ?case using Cons.IH [of "cf_put ops c k v"] Cons.prems e items name by simp
qed simp

lemma simple_key_c_dec [simp]: "simple_key (c_dec (int i))"
proof -
  have "CHR ''/'' \<notin> set (dec_digits i)"
    using dec_digits_digits [of "CHR ''/''" i] by (auto simp: is_digit_def)
  moreover have "dec_digits i \<noteq> []" by (simp add: dec_digits.simps [of i])
  ultimately show ?thesis by (auto simp: simple_key_def c_dec_def)
qed

lemma c_dec_inject [simp]: "c_dec i = c_dec j \<longleftrightarrow> i = j"
  by (metis c_atoi_c_dec)

lemma zpl_groups_facts:
  assumes "config_laws ops"
  shows "cf_name ops (zpl_groups ops gs) = ''groups''" "map snd (cf_items ops (zpl_groups ops gs)) = gs"
proof -
  let ?es = "map (\<lambda>(i, g). (c_dec (int i), g)) (enumerate 0 gs)"
  have "zpl_groups ops gs = foldl (\<lambda>c (k, v). cf_put ops c k v) (cf_new ops ''groups'') ?es"
    by (simp add: zpl_groups_def foldl_map case_prod_unfold)
  moreover have "distinct (map fst ?es)"
  proof -
    have "map fst ?es = map (\<lambda>i. c_dec (int i)) (map fst (enumerate 0 gs))"
      by (simp only: map_map comp_def case_prod_unfold fst_conv)
    then show ?thesis by (simp only: distinct_map map_fst_enumerate) (auto intro: inj_onI)
  qed
  moreover have "\<forall>e \<in> set ?es. simple_key (fst e)" by auto
  ultimately have "cf_items ops (zpl_groups ops gs) = ?es \<and> cf_name ops (zpl_groups ops gs) = ''groups''"
    using cf_items_puts [OF assms, of ?es "cf_new ops ''groups''"] by (simp only: config_newD [OF assms]) simp
  moreover have "map snd ?es = gs" by (simp add: case_prod_unfold comp_def)
  ultimately show "cf_name ops (zpl_groups ops gs) = ''groups''" "map snd (cf_items ops (zpl_groups ops gs)) = gs"
    by simp_all
qed

lemma zpl_headers_facts:
  assumes "config_laws ops" and "wf_zhash h" and "\<forall>e \<in> set h. simple_key (fst e)"
  shows "cf_name ops (zpl_headers ops h) = ''headers''" "cf_items ops (zpl_headers ops h) = h"
  using cf_items_puts [OF assms(1,3), of "cf_new ops ''headers''"] assms(2)
  by (simp_all add: zpl_headers_def wf_zhash_def config_newD [OF assms(1)])

section \<open>The round trip\<close>

text \<open>The table a reader makes of the items, and the message it makes of a tree.\<close>

definition zpl_table :: "(string \<Rightarrow> nat) \<Rightarrow> string zhash \<Rightarrow> string zhash" where
  "zpl_table rank h = fold (\<lambda>(k, v). zhash_update rank k v) h []"

definition zpl_copy :: "(string \<Rightarrow> nat) \<Rightarrow> zre_msg \<Rightarrow> zre_msg" where
  "zpl_copy rank m =
     (let self = zre_msg_new\<lparr>m_routing_id := m_routing_id m, m_id := m_id m, m_sequence := m_sequence m\<rparr> in
      if m_id m = ZRE_MSG_HELLO then
        self\<lparr>m_endpoint := m_endpoint m, m_groups := m_groups m, m_status := m_status m,
          m_name := m_name m, m_headers := map_option (zpl_table rank) (m_headers m)\<rparr>
      else if m_id m = ZRE_MSG_WHISPER then self\<lparr>m_content := m_content m\<rparr>
      else if m_id m = ZRE_MSG_SHOUT then self\<lparr>m_content := m_content m, m_group := m_group m\<rparr>
      else if m_id m = ZRE_MSG_JOIN \<or> m_id m = ZRE_MSG_LEAVE
        then self\<lparr>m_status := m_status m, m_group := m_group m\<rparr>
      else if m_id m = ZRE_MSG_ELECT
        then self\<lparr>m_group := m_group m, m_challenger_id := m_challenger_id m\<rparr>
      else if m_id m = ZRE_MSG_LEADER then self\<lparr>m_group := m_group m, m_leader_id := m_leader_id m\<rparr>
      else self)"

text \<open>
  What can be written: a known kind, content where the kind has it, and header names that are one
  step of a path.
\<close>

definition zpl_able :: "zre_msg \<Rightarrow> bool" where
  "zpl_able m \<longleftrightarrow> fields_ok m \<and> 1 \<le> m_id m \<and> m_id m \<le> 10
     \<and> (have_content m \<longrightarrow> m_content m \<noteq> None)
     \<and> (\<forall>h. m_headers m = Some h \<longrightarrow> wf_zhash h \<and> (\<forall>e \<in> set h. simple_key (fst e)))"

lemma simple_keys [simp]:
  "simple_key ''message''" "simple_key ''routing_id''" "simple_key ''content''" "simple_key ''version''"
  "simple_key ''sequence''" "simple_key ''endpoint''" "simple_key ''groups''" "simple_key ''status''"
  "simple_key ''name''" "simple_key ''headers''" "simple_key ''group''" "simple_key ''challenger_id''"
  "simple_key ''leader_id''"
  by (simp_all add: simple_key_def)

lemma zpl_open_read:
  assumes "config_laws ops"
  shows "cf_name ops (zpl_open ops m) = ''content''" "cf_locate ops (zpl_open ops m) ''groups'' = None"
    "cf_locate ops (zpl_open ops m) ''headers'' = None"
    "cf_get ops (zpl_open ops m) ''sequence'' = Some (c_dec (uint (m_sequence m)))"
  by (simp_all add: zpl_open_def config_newD [OF assms] config_putD [OF assms])

lemma zpl_hello_read:
  assumes "config_laws ops" and "zpl_able m"
  defines "c \<equiv> zpl_hello ops m"
  shows "cf_name ops c = ''content''"
    "cf_get ops c ''sequence'' = Some (c_dec (uint (m_sequence m)))"
    "cf_get ops c ''endpoint'' = Some (m_endpoint m)"
    "cf_get ops c ''status'' = Some (c_dec (uint (m_status m)))"
    "cf_get ops c ''name'' = Some (m_name m)"
    "cf_locate ops c ''groups'' = map_option (zpl_groups ops) (m_groups m)"
    "cf_locate ops c ''headers'' = map_option (zpl_headers ops) (m_headers m)"
proof -
  have h: "cf_name ops (zpl_headers ops h) = ''headers''" if "m_headers m = Some h" for h
    using that assms(2) by (intro zpl_headers_facts [OF assms(1)]) (auto simp: zpl_able_def)
  define c1 where "c1 = cf_put ops (zpl_open ops m) ''endpoint'' (m_endpoint m)"
  define c2 where "c2 = (case m_groups m of None \<Rightarrow> c1 | Some gs \<Rightarrow> cf_add ops c1 (zpl_groups ops gs))"
  define c3 where "c3 = cf_put ops (cf_put ops c2 ''status'' (c_dec (uint (m_status m)))) ''name'' (m_name m)"
  have c: "c = (case m_headers m of None \<Rightarrow> c3 | Some h \<Rightarrow> cf_add ops c3 (zpl_headers ops h))"
    unfolding c_def zpl_hello_def c1_def c2_def c3_def Let_def by (rule refl)
  note put = config_putD [OF assms(1)]
  have 1: "cf_name ops c1 = ''content''" "cf_locate ops c1 ''groups'' = None"
    "cf_locate ops c1 ''headers'' = None" "cf_get ops c1 ''endpoint'' = Some (m_endpoint m)"
    "cf_get ops c1 ''sequence'' = Some (c_dec (uint (m_sequence m)))"
    by (simp_all add: c1_def zpl_open_read [OF assms(1)] put)
  note add = config_newD(5) [OF assms(1)] config_addD [OF assms(1)] zpl_groups_facts(1) [OF assms(1)]
  have 2: "cf_name ops c2 = ''content''" "cf_locate ops c2 ''groups'' = map_option (zpl_groups ops) (m_groups m)"
    "cf_locate ops c2 ''headers'' = None" "cf_get ops c2 ''endpoint'' = Some (m_endpoint m)"
    "cf_get ops c2 ''sequence'' = Some (c_dec (uint (m_sequence m)))"
    by (cases "m_groups m"; simp add: c2_def 1 add)+
  have 3: "cf_name ops c3 = ''content''" "cf_locate ops c3 ''groups'' = map_option (zpl_groups ops) (m_groups m)"
    "cf_locate ops c3 ''headers'' = None" "cf_get ops c3 ''endpoint'' = Some (m_endpoint m)"
    "cf_get ops c3 ''sequence'' = Some (c_dec (uint (m_sequence m)))"
    "cf_get ops c3 ''status'' = Some (c_dec (uint (m_status m)))" "cf_get ops c3 ''name'' = Some (m_name m)"
    by (simp_all add: c3_def 2 put)
  show "cf_name ops c = ''content''"
    "cf_get ops c ''sequence'' = Some (c_dec (uint (m_sequence m)))"
    "cf_get ops c ''endpoint'' = Some (m_endpoint m)"
    "cf_get ops c ''status'' = Some (c_dec (uint (m_status m)))"
    "cf_get ops c ''name'' = Some (m_name m)"
    "cf_locate ops c ''groups'' = map_option (zpl_groups ops) (m_groups m)"
    "cf_locate ops c ''headers'' = map_option (zpl_headers ops) (m_headers m)"
    by (cases "m_headers m"; simp add: c 3 h add)+
qed

lemma zpl_get_rules:
  assumes "config_laws ops"
  shows "cf_get ops c ''sequence'' = Some (c_dec (uint (m_sequence m)))
      \<Longrightarrow> zpl_get_sequence ops c self = Some (self\<lparr>m_sequence := m_sequence m\<rparr>)"
    "cf_get ops c ''status'' = Some (c_dec (uint (m_status m)))
      \<Longrightarrow> zpl_get_status ops c self = Some (self\<lparr>m_status := m_status m\<rparr>)"
    "cf_get ops c ''group'' = Some g \<Longrightarrow> field_ok g
      \<Longrightarrow> zpl_get_group ops c self = Some (self\<lparr>m_group := g\<rparr>)"
    "cf_get ops c ''content'' = Some (str_from_bytes (cf_encode ops ds))
      \<Longrightarrow> zpl_get_content ops c self = Inr (Some (self\<lparr>m_content := Some ds\<rparr>))"
  by (simp_all add: zpl_get_sequence_def zpl_get_status_def zpl_number_def zpl_get_group_def
      zpl_get_content_def config_newD [OF assms])

lemma zpl_read_hello_written:
  assumes "config_laws ops" and "zpl_able m" and "m_id m = ZRE_MSG_HELLO"
  shows "zpl_read_hello ops rank (zpl_hello ops m) (zre_msg_new\<lparr>m_routing_id := m_routing_id m, m_id := m_id m\<rparr>)
    = Some (zpl_copy rank m)"
proof -
  note written = zpl_hello_read [OF assms(1,2)]
  have h: "cf_items ops (zpl_headers ops h) = h" if "m_headers m = Some h" for h
    using that assms(2) by (intro zpl_headers_facts [OF assms(1)]) (auto simp: zpl_able_def)
  have ok: "field_ok (m_endpoint m)" "field_ok (m_name m)"
    using assms(2) by (simp_all add: zpl_able_def fields_ok_def)
  show ?thesis
    by (cases "m_groups m"; cases "m_headers m")
      (simp_all add: zpl_read_hello_def zpl_get_rules(1,2) [OF assms(1)] written ok assms(3)
        zpl_get_groups_def zpl_get_headers_def zpl_groups_facts [OF assms(1)] h zpl_table_def zpl_copy_def Let_def
        zre_msg_new_def)
qed

text \<open>The section of every kind but HELLO.\<close>

definition zpl_section :: "'c config_ops \<Rightarrow> zre_msg \<Rightarrow> 'c outcome" where
  "zpl_section ops m =
     (if m_id m = ZRE_MSG_HELLO then Inr (zpl_hello ops m)
      else if m_id m = ZRE_MSG_WHISPER then zpl_whisper ops m
      else if m_id m = ZRE_MSG_SHOUT then zpl_shout ops m
      else if m_id m = ZRE_MSG_JOIN \<or> m_id m = ZRE_MSG_LEAVE then Inr (zpl_join ops m)
      else if m_id m = ZRE_MSG_ELECT then Inr (zpl_elect ops m)
      else if m_id m = ZRE_MSG_LEADER then Inr (zpl_leader ops m)
      else Inr (zpl_open ops m))"

lemma zpl_body_written:
  assumes "config_laws ops" and "zpl_able m"
  obtains c where "zpl_section ops m = Inr c" and "cf_name ops c = ''content''"
    and "zpl_read_body ops rank c (zre_msg_new\<lparr>m_routing_id := m_routing_id m, m_id := m_id m\<rparr>)
      = Inr (Some (zpl_copy rank m))"
proof -
  note laws = config_putD [OF assms(1)] zpl_open_read [OF assms(1)]
  note get = zpl_get_rules [OF assms(1)]
  have ok: "field_ok (m_group m)" "field_ok (m_challenger_id m)" "field_ok (m_leader_id m)"
    using assms(2) by (simp_all add: zpl_able_def fields_ok_def)
  have "\<exists>c. zpl_section ops m = Inr c \<and> cf_name ops c = ''content''
      \<and> zpl_read_body ops rank c (zre_msg_new\<lparr>m_routing_id := m_routing_id m, m_id := m_id m\<rparr>)
        = Inr (Some (zpl_copy rank m))"
  proof (cases "m_id m = ZRE_MSG_HELLO")
    case True
    then show ?thesis
      using zpl_read_hello_written [OF assms True, of rank] zpl_hello_read(1) [OF assms]
      by (simp add: zpl_section_def zpl_read_body_def)
  next
    case False
    then consider "m_id m = 2" | "m_id m = 3" | "m_id m = 4" | "m_id m = 5" | "m_id m = 6" | "m_id m = 7"
      | "m_id m = 8" | "m_id m = 9" | "m_id m = 10"
      using assms(2) known_id [of "m_id m"] unfolding zpl_able_def by blast
    then show ?thesis
    proof cases
      case 1
      then obtain ds where "m_content m = Some ds" using assms(2) by (auto simp: zpl_able_def have_content_def)
      with 1 show ?thesis
        by (simp add: zpl_section_def zpl_read_body_def zpl_whisper_def zpl_content_def zpl_read_whisper_def
            zpl_copy_def laws get Let_def zre_msg_new_def)
    next
      case 2
      then obtain ds where "m_content m = Some ds" using assms(2) by (auto simp: zpl_able_def have_content_def)
      with 2 show ?thesis
        by (simp add: zpl_section_def zpl_read_body_def zpl_shout_def zpl_content_def zpl_read_shout_def
            zpl_copy_def laws get ok Let_def zre_msg_new_def)
    qed (simp_all add: zpl_section_def zpl_read_body_def zpl_join_def zpl_elect_def zpl_leader_def
        zpl_read_join_def zpl_read_elect_def zpl_read_leader_def zpl_read_ping_def zpl_read_goodbye_def
        zpl_copy_def laws get ok Let_def zre_msg_new_def)
  qed
  then show thesis using that by blast
qed

lemma zpl_root_read:
  assumes "config_laws ops" and "cf_name ops c = ''content''"
  shows "cf_get ops (zpl_root ops m message c) ''message'' = Some message"
    "cf_get ops (zpl_root ops m message c) ''routing_id'' = map_option str_from_bytes (m_routing_id m)"
    "cf_locate ops (zpl_root ops m message c) ''content'' = Some c"
  using assms(2)
  by (cases "m_routing_id m"; simp add: zpl_root_def zpl_routing_id_def config_newD [OF assms(1)]
      config_putD [OF assms(1)] config_addD [OF assms(1)])+

lemma zre_msg_new_zpl_root:
  assumes "config_laws ops" and "cf_name ops c = ''content''" and "zpl_message_id message = Some (m_id m)"
  shows "zre_msg_new_zpl ops rank (zpl_root ops m message c)
    = zpl_read_body ops rank c (zre_msg_new\<lparr>m_routing_id := m_routing_id m, m_id := m_id m\<rparr>)"
  by (cases "m_routing_id m")
    (simp_all add: zre_msg_new_zpl_def zpl_root_read [OF assms(1,2)] assms(3) zpl_get_routing_id_def
      zyre_simps zre_msg_new_def)

lemma zre_msg_zpl_root:
  assumes "1 \<le> m_id m" and "m_id m \<le> 10"
  obtains message where "zpl_message_id message = Some (m_id m)"
    and "zre_msg_zpl ops m = and_then (zpl_section ops m) (\<lambda>c. Inr (zpl_root ops m message c))"
proof -
  have "m_id m = 1 \<or> m_id m = 2 \<or> m_id m = 3 \<or> m_id m = 4 \<or> m_id m = 5 \<or> m_id m = 6 \<or> m_id m = 7
      \<or> m_id m = 8 \<or> m_id m = 9 \<or> m_id m = 10"
    using assms known_id [of "m_id m"] by blast
  then show thesis
    by (elim disjE; intro that) (simp_all add: zre_msg_zpl_def zpl_section_def zpl_message_id_def)
qed

lemma zpl_table_facts:
  assumes "wf_zhash h"
  shows "wf_zhash (zpl_table rank h)" "zhash_lookup (zpl_table rank h) k = zhash_lookup h k"
proof -
  have *: "wf_zhash h \<Longrightarrow> wf_zhash t \<Longrightarrow> wf_zhash (fold (\<lambda>(k, v). zhash_update rank k v) h t)
      \<and> zhash_lookup (fold (\<lambda>(k, v). zhash_update rank k v) h t) k
        = (case zhash_lookup h k of Some v \<Rightarrow> Some v | None \<Rightarrow> zhash_lookup t k)" for t
  proof (induction h arbitrary: t)
    case (Cons e h)
    obtain j v where e: "e = (j, v)" by (cases e)
    then have "zhash_lookup h j = None" "wf_zhash h" using Cons.prems(1) by (simp_all add: wf_zhash_Cons)
    moreover have "zhash_lookup (e # h) k = (if k = j then Some v else zhash_lookup h k)"
      by (simp add: zhash_lookup_def e)
    ultimately show ?case using Cons.IH [of "zhash_update rank j v t"] Cons.prems(2) e
      by (auto simp: zhash_wf_rules zhash_lookup_update split: option.splits)
  qed simp
  from * [OF assms wf_zhash_Nil] show "wf_zhash (zpl_table rank h)"
    "zhash_lookup (zpl_table rank h) k = zhash_lookup h k"
    by (simp_all add: zpl_table_def split: option.splits)
qed

section \<open>A tree for the witnesses\<close>

datatype ctree = Item (c_name: string) (c_value: "string option") (c_children: "ctree list")

fun child :: "ctree list \<Rightarrow> string \<Rightarrow> ctree option" where
  "child [] k = None"
| "child (c # cs) k = (if c_name c = k then Some c else child cs k)"

fun put_child :: "ctree list \<Rightarrow> string \<Rightarrow> string \<Rightarrow> ctree list" where
  "put_child [] k v = [Item k (Some v) []]"
| "put_child (c # cs) k v =
     (if c_name c = k then Item k (Some v) (c_children c) # cs else c # put_child cs k v)"

text \<open>A content is written octet by octet, each behind a one, with a zero behind each part.\<close>

definition parts_encode :: "byte list list \<Rightarrow> byte list" where
  "parts_encode ds = concat (map (\<lambda>d. concat (map (\<lambda>b. [1, b]) d) @ [0]) ds)"

fun parts_decode :: "byte list \<Rightarrow> byte list list option" where
  "parts_decode [] = Some []"
| "parts_decode [t] = (if t = 0 then Some [[]] else None)"
| "parts_decode (t # b # bs) = (if t = 0 then map_option ((#) []) (parts_decode (b # bs))
     else (case parts_decode bs of Some (d # ds) \<Rightarrow> Some ((b # d) # ds) | _ \<Rightarrow> None))"

definition tree_ops :: "ctree config_ops" where
  "tree_ops = \<lparr>cf_new = \<lambda>n. Item n None [],
     cf_put = \<lambda>c k v. Item (c_name c) (c_value c) (put_child (c_children c) k v),
     cf_add = \<lambda>c d. Item (c_name c) (c_value c) (c_children c @ [d]),
     cf_get = \<lambda>c k. Option.bind (child (c_children c) k) c_value,
     cf_locate = \<lambda>c k. child (c_children c) k,
     cf_items = \<lambda>c. map (\<lambda>d. (c_name d, case c_value d of None \<Rightarrow> [] | Some v \<Rightarrow> v)) (c_children c),
     cf_name = c_name, cf_encode = parts_encode, cf_decode = parts_decode, cf_unset = 0x12345678\<rparr>"

lemma child_put_child [simp]:
  "j \<noteq> k \<Longrightarrow> child (put_child cs k v) j = child cs j"
  "Option.bind (child (put_child cs k v) k) c_value = Some v"
  by (induction cs) auto

lemma child_append: "child (cs @ [d]) j
    = (case child cs j of Some c \<Rightarrow> Some c | None \<Rightarrow> if c_name d = j then Some d else None)"
  by (induction cs) auto

lemma put_child_new: "k \<notin> c_name ` set cs \<Longrightarrow> put_child cs k v = cs @ [Item k (Some v) []]"
  by (induction cs) auto

lemma parts_decode_zero: "parts_decode (0 # bs) = map_option ((#) []) (parts_decode bs)"
  by (cases bs) simp_all

lemma parts_decode_part:
  "parts_decode (concat (map (\<lambda>b. [1, b]) d) @ 0 # bs) = map_option ((#) d) (parts_decode bs)"
  by (induction d) (simp_all add: parts_decode_zero split: option.split)

lemma parts_decode_encode: "parts_decode (parts_encode ds) = Some ds"
  by (induction ds) (simp_all add: parts_encode_def parts_decode_part)

lemma tree_laws [simp]: "config_laws tree_ops"
proof -
  have "laws_new tree_ops" by (simp add: laws_new_def tree_ops_def)
  moreover have "laws_put tree_ops"
    by (auto simp: laws_put_def tree_ops_def image_image put_child_new)
  moreover have "laws_add tree_ops"
    by (auto simp: laws_add_def tree_ops_def child_append split: option.splits)
  moreover have "\<forall>ds. cf_decode tree_ops (cf_encode tree_ops ds) = Some ds"
    by (simp add: tree_ops_def parts_decode_encode)
  ultimately show ?thesis by (simp add: config_laws_def)
qed

section \<open>The properties\<close>

lemma zpl_able_samples [simp]: "zpl_able sample_hello" "zpl_able sample_join"
  by (simp_all add: zpl_able_def sample_hello_def sample_join_def zre_msg_new_def fields_ok_def
      field_ok_def c_string_def wf_zhash_def simple_key_def have_content_def)

lemma zpl_written_read:
  assumes "config_laws ops" and "zpl_able m"
  shows "\<exists>root. zre_msg_zpl ops m = Inr root \<and> zre_msg_new_zpl ops rank root = Inr (Some (zpl_copy rank m))"
proof -
  obtain c where c: "zpl_section ops m = Inr c" "cf_name ops c = ''content''"
    "zpl_read_body ops rank c (zre_msg_new\<lparr>m_routing_id := m_routing_id m, m_id := m_id m\<rparr>)
      = Inr (Some (zpl_copy rank m))"
    using assms by (rule zpl_body_written)
  have "1 \<le> m_id m" "m_id m \<le> 10" using assms(2) by (simp_all add: zpl_able_def)
  then obtain message where "zpl_message_id message = Some (m_id m)"
    "zre_msg_zpl ops m = and_then (zpl_section ops m) (\<lambda>c. Inr (zpl_root ops m message c))"
    by (rule zre_msg_zpl_root)
  then show ?thesis using c zre_msg_new_zpl_root [OF assms(1) c(2)] by simp
qed

text \<open>A table whose order is the hash order of its names comes back in that order.\<close>

definition hash_order :: "(string \<Rightarrow> nat) \<Rightarrow> string zhash \<Rightarrow> bool" where
  "hash_order rank h \<longleftrightarrow> sorted_wrt (<) (map (\<lambda>e. rank (fst e)) h)"

lemma zhash_update_last:
  assumes "hash_order rank (t @ [(k, v)])"
  shows "zhash_update rank k v t = t @ [(k, v)]"
proof -
  let ?f = "\<lambda>e. rank (fst e) :: nat"
  have less: "\<forall>e \<in> set t. ?f e < rank k" and t: "sorted_wrt (<) (map ?f t)"
    using assms by (auto simp: hash_order_def sorted_wrt_append)
  then have "zhash_lookup t k = None" by (auto simp: zhash_lookup_None)
  moreover have "zhash_arrange rank ((k, v) # t) = t @ [(k, v)]"
  proof -
    have "sorted (map ?f (t @ [(k, v)]))" and "distinct (map ?f (t @ [(k, v)]))"
      using assms by (simp_all add: hash_order_def strict_sorted_iff)
    moreover have "filter (\<lambda>x. rank k = ?f x) t = []" using less by (auto simp: filter_empty_conv)
    ultimately show ?thesis unfolding zhash_arrange_def
      by (intro properties_for_sort_key) auto
  qed
  ultimately show ?thesis by (simp add: zhash_update_def)
qed

lemma zpl_table_hash_order: "hash_order rank h \<Longrightarrow> zpl_table rank h = h"
proof (induction h rule: rev_induct)
  case (snoc e h)
  obtain k v where e: "e = (k, v)" by (cases e)
  have "hash_order rank h" using snoc.prems by (simp add: hash_order_def sorted_wrt_append)
  then show ?case using snoc zhash_update_last [of rank h k v] e by (simp add: zpl_table_def)
qed (simp add: zpl_table_def)

lemma mset_zpl_table:
  assumes "wf_zhash h"
  shows "mset (zpl_table rank h) = mset h"
proof -
  have "set (zpl_table rank h) = set h"
  proof (rule set_eqI)
    fix e show "e \<in> set (zpl_table rank h) \<longleftrightarrow> e \<in> set h"
      using zpl_table_facts(1) [OF assms, of rank] zpl_table_facts(2) [OF assms, of rank "fst e"] assms
        zhash_lookup_iff [of "zpl_table rank h" "fst e" "snd e"] zhash_lookup_iff [of h "fst e" "snd e"] by simp
  qed
  moreover have "distinct (zpl_table rank h)" "distinct h"
    using zpl_table_facts(1) [OF assms, of rank] assms unfolding wf_zhash_def by (auto simp: distinct_map)
  ultimately show ?thesis by (simp add: set_eq_iff_mset_eq_distinct)
qed

text \<open>The message with its header table in the order the copy has it.\<close>

definition zpl_reordered :: "(string \<Rightarrow> nat) \<Rightarrow> zre_msg \<Rightarrow> zre_msg" where
  "zpl_reordered rank m = m\<lparr>m_headers := map_option (zpl_table rank) (m_headers m)\<rparr>"

lemma zpl_copy_put:
  "zre_msg_put (zpl_copy rank m) = zre_msg_put (zpl_reordered rank m)"
  "sent_content (zpl_copy rank m) = sent_content m"
  "stale_bytes (zpl_copy rank m) = 0"
  by (simp_all add: zre_msg_put_def put_hello_def sent_content_def have_content_def stale_bytes_def
      zpl_copy_def zpl_reordered_def zre_msg_new_def Let_def)

lemma zpl_reordered_same:
  assumes "\<forall>h. m_headers m = Some h \<longrightarrow> hash_order rank h"
  shows "zpl_reordered rank m = m"
  using assms by (cases "m_headers m") (simp_all add: zpl_reordered_def zpl_table_hash_order)

text \<open>Characters \<open>%x\<close> takes for a negative number.\<close>

lemma sscanf_x_minus:
  assumes "hex_value d = Some v" and "v \<noteq> 0"
  shows "\<exists>u. sscanf_x [CHR ''-'', d] = Some u \<and> \<not> u \<le> 0xFF"
proof -
  have "v < 16" using assms(1) by (auto simp: hex_value_def Let_def split: if_splits)
  then have "v = 1 \<or> v = 2 \<or> v = 3 \<or> v = 4 \<or> v = 5 \<or> v = 6 \<or> v = 7 \<or> v = 8 \<or> v = 9 \<or> v = 10
      \<or> v = 11 \<or> v = 12 \<or> v = 13 \<or> v = 14 \<or> v = 15"
    using assms(2) by arith
  moreover have "\<not> (- 1 :: 32 word) \<le> 0xFF"
  proof -
    have "uint (- 1 :: 32 word) = 2 ^ 32 - 1" by (simp add: unsigned_minus_1_eq_mask mask_eq_exp_minus_1)
    then show ?thesis by (simp add: word_le_def)
  qed
  ultimately have "\<not> - (of_nat v :: 32 word) \<le> 0xFF"
    by (elim disjE) simp_all
  then show ?thesis using assms(1) by (simp add: sscanf_x_def is_space_def)
qed

text \<open>C33: a message of any kind, written as a configuration tree and read back, is the message again:
  its routing id, its kind and every field and content of that kind, with the same answers of the
  header table.\<close>

theorem zpl_roundtrip:
  assumes "config_laws ops" and "zpl_able m"
  shows "\<exists>root. zre_msg_zpl ops m = Inr root
     \<and> zre_msg_new_zpl ops rank root = Inr (Some (zpl_copy rank m))
     \<and> (\<forall>h k. m_headers m = Some h \<longrightarrow> zhash_lookup (zpl_table rank h) k = zhash_lookup h k)"
proof -
  have "zhash_lookup (zpl_table rank h) k = zhash_lookup h k" if "m_headers m = Some h" for h k
    using that assms(2) by (intro zpl_table_facts) (simp add: zpl_able_def)
  then show ?thesis using zpl_written_read [OF assms, of rank] by blast
qed

theorem zpl_roundtrip_witness:
  "\<exists>root. zre_msg_zpl tree_ops sample_hello = Inr root
     \<and> zre_msg_new_zpl tree_ops length root = Inr (Some (zpl_copy length sample_hello))"
  using zpl_roundtrip [OF tree_laws zpl_able_samples(1), of length] by blast

text \<open>C34: a message and what is read back from its configuration tree, each sent through a mailbox that
  accepts everything, give the same frames up to two things. The headers of a HELLO are written again in the
  order in which the new table holds them, which is some order of the same headers; and the original can end
  with \<open>stale_bytes\<close> unwritten octets, which is its header size field when a HELLO without a header table still
  has one of an earlier table, while the copy never does. So the frames are the same, octet by octet, when the
  size field is not stale and no two header names share a slot of the hash table, the table being in the order
  of its slots. Two names in one slot change places.\<close>

theorem zpl_same_frames:
  assumes "config_laws ops" and "zpl_able m" and "\<forall>q. \<not> full q"
  shows "\<exists>root m' tail fs fs'. zre_msg_zpl ops m = Inr root \<and> zre_msg_new_zpl ops rank root = Inr (Some m')
     \<and> zre_msg_send full junk False m [] = Inr (0, zre_msg_count_headers m, fs)
     \<and> zre_msg_send full junk False m' [] = Inr (0, zre_msg_count_headers m', fs')
     \<and> fs = multipart ((zre_msg_put m @ tail) # sent_content m) \<and> length tail = stale_bytes m
     \<and> fs' = multipart (zre_msg_put (zpl_reordered rank m) # sent_content m)
     \<and> (\<forall>h. m_headers m = Some h \<longrightarrow> mset (zpl_table rank h) = mset h)
     \<and> (stale_bytes m = 0 \<and> (\<forall>h. m_headers m = Some h \<longrightarrow> hash_order rank h) \<longrightarrow> fs' = fs)"
proof -
  obtain root where root: "zre_msg_zpl ops m = Inr root"
    "zre_msg_new_zpl ops rank root = Inr (Some (zpl_copy rank m))"
    using zpl_written_read [OF assms(1,2), of rank] by blast
  obtain tail where t: "zre_msg_send full junk False m []
      = Inr (0, zre_msg_count_headers m, [] @ multipart ((zre_msg_put m @ tail) # sent_content m))"
    "length tail = stale_bytes m"
    using assms(3) by (rule zre_msg_send_frames)
  obtain tail' where "zre_msg_send full junk False (zpl_copy rank m) []
      = Inr (0, zre_msg_count_headers (zpl_copy rank m),
             [] @ multipart ((zre_msg_put (zpl_copy rank m) @ tail') # sent_content (zpl_copy rank m)))"
    "length tail' = stale_bytes (zpl_copy rank m)"
    using assms(3) by (rule zre_msg_send_frames)
  then have c: "zre_msg_send full junk False (zpl_copy rank m) []
      = Inr (0, zre_msg_count_headers (zpl_copy rank m),
             multipart (zre_msg_put (zpl_reordered rank m) # sent_content m))"
    by (simp add: zpl_copy_put)
  have w: "\<forall>h. m_headers m = Some h \<longrightarrow> mset (zpl_table rank h) = mset h"
    using assms(2) by (simp add: zpl_able_def mset_zpl_table)
  have same: "stale_bytes m = 0 \<and> (\<forall>h. m_headers m = Some h \<longrightarrow> hash_order rank h)
      \<longrightarrow> multipart (zre_msg_put (zpl_reordered rank m) # sent_content m)
        = multipart ((zre_msg_put m @ tail) # sent_content m)"
    using t(2) by (auto simp: zpl_reordered_same)
  show ?thesis using root t c w same by (intro exI conjI) simp_all
qed

theorem zpl_same_frames_witness:
  "\<exists>root m' fs. zre_msg_zpl tree_ops sample_hello = Inr root
     \<and> zre_msg_new_zpl tree_ops length root = Inr (Some m')
     \<and> zre_msg_send (\<lambda>_. False) (\<lambda>_. 0) False sample_hello [] = Inr (0, zre_msg_count_headers sample_hello, fs)
     \<and> zre_msg_send (\<lambda>_. False) (\<lambda>_. 0) False m' [] = Inr (0, zre_msg_count_headers m', fs)"
proof -
  have "stale_bytes sample_hello = 0 \<and> (\<forall>h. m_headers sample_hello = Some h \<longrightarrow> hash_order length h)"
    by (simp add: stale_bytes_def hash_order_def)
  note ok = this
  have "\<forall>q. \<not> False" by simp
  then show ?thesis
    using ok zpl_same_frames [OF tree_laws zpl_able_samples(1), where full = "\<lambda>_. False" and junk = "\<lambda>_. 0" and rank = length]
    by metis
qed

text \<open>Two headers whose names share a slot do change places: the frames differ.\<close>

definition bucket_hello :: zre_msg where
  "bucket_hello = sample_hello\<lparr>m_headers := Some [(''a'', ''1''), (''b'', ''2'')]\<rparr>"

lemma bucket_hello_reversed:
  "zpl_able bucket_hello" "m_headers (zpl_reordered length bucket_hello) = Some [(''b'', ''2''), (''a'', ''1'')]"
  "zre_msg_put (zpl_reordered length bucket_hello) \<noteq> zre_msg_put bucket_hello"
proof -
  show "zpl_able bucket_hello"
    by (simp add: zpl_able_def bucket_hello_def sample_hello_def zre_msg_new_def fields_ok_def field_ok_def
        c_string_def wf_zhash_def simple_key_def have_content_def)
  show r: "m_headers (zpl_reordered length bucket_hello) = Some [(''b'', ''2''), (''a'', ''1'')]" by code_simp
  show "zre_msg_put (zpl_reordered length bucket_hello) \<noteq> zre_msg_put bucket_hello" by code_simp
qed

text \<open>A tree read from a file can stop the process: a routing id of even length with a pair of a
  minus sign and a digit fails the assertion that every pair is an octet, whatever comes before and
  behind it, where the reader refuses other bad trees with a null pointer.\<close>

theorem zpl_minus_aborts:
  assumes "cf_get ops config ''message'' = Some message" and "zpl_message_id message = Some i"
    and "cf_get ops config ''routing_id'' = Some (front @ CHR ''-'' # d # rest)"
    and "even (length front)" and "even (length rest)" and "hex_value d = Some v" and "v \<noteq> 0"
  shows "zre_msg_new_zpl ops rank config = Inl Assertion_failed"
proof -
  obtain u where u: "sscanf_x [CHR ''-'', d] = Some u" "\<not> u \<le> 0xFF"
    using sscanf_x_minus [OF assms(6,7)] by blast
  have "even (length p) \<Longrightarrow> bytes_of_pairs unset (p @ CHR ''-'' # d # rest) = Inl Assertion_failed" for unset p
    by (induction unset p rule: bytes_of_pairs.induct) (auto simp: u assert_that_def Let_def)
  with assms show ?thesis
    by (simp add: zre_msg_new_zpl_def zpl_get_routing_id_def bytes_from_str_def)
qed

definition bad_tree :: ctree where
  "bad_tree = Item ''zre_msg'' None [Item ''message'' (Some ''ZRE_MSG_PING'') [],
     Item ''routing_id'' (Some ''00-1'') []]"

theorem zpl_minus_aborts_witness:
  "zre_msg_new_zpl tree_ops length bad_tree = Inl Assertion_failed"
  by (rule zpl_minus_aborts [where message = "''ZRE_MSG_PING''" and i = 6 and front = "''00''"
        and d = "CHR ''1''" and rest = "[]" and v = 1])
    (simp_all add: tree_ops_def bad_tree_def zpl_message_id_def hex_value_def)

end
