(* ===== verification/Zyre_Log.thy ===== *)
theory Zyre_Log
  imports Zyre_Node_Actor_Inv Zyre_Event
begin

text \<open>
  What the library writes to the log: the printed form of a message (\<open>src/zre_msg.c\<close>), of an event
  (\<open>src/zyre_event.c\<close>) and of an election (\<open>src/zyre_election.c\<close>), and the dump of a node
  (\<open>src/zyre_node.c\<close>), as the lines in order. A null string under \<open>%s\<close> is printed as \<open>(null)\<close>, as the C
  libraries the project is built with do.
\<close>

section \<open>Log lines\<close>

text \<open>The parts of a multipart message are printed by \<open>zmsg_print\<close>, in a form of its own.\<close>

datatype log_entry = Line string | Parts "byte list list"

definition fmt_s :: "string option \<Rightarrow> string" where
  "fmt_s s = (case s of None \<Rightarrow> ''(null)'' | Some t \<Rightarrow> t)"

definition quoted :: "string \<Rightarrow> string" where
  "quoted s = CHR 0x27 # s @ [CHR 0x27]"

definition yes_no :: "bool \<Rightarrow> string" where
  "yes_no b = (if b then ''yes'' else ''no'')"

section \<open>Messages\<close>

text \<open>The three lines every kind begins with, and the fields.\<close>

definition print_head :: "string \<Rightarrow> zre_msg \<Rightarrow> log_entry list" where
  "print_head name self = [Line (name @ '':''), Line ''    version=2'',
     Line (''    sequence='' @ c_dec (uint (m_sequence self)))]"

definition print_content :: "zre_msg \<Rightarrow> log_entry list" where
  "print_content self = Line ''    content=''
     # (case m_content self of Some ds \<Rightarrow> [Parts ds] | None \<Rightarrow> [Line ''(NULL)''])"

definition print_hello :: "zre_msg \<Rightarrow> log_entry list" where
  "print_hello self = print_head ''ZRE_MSG_HELLO'' self
     @ [Line (''    endpoint='' @ quoted (m_endpoint self)), Line ''    groups='']
     @ (case m_groups self of None \<Rightarrow> [] | Some gs \<Rightarrow> map (\<lambda>g. Line (''        '' @ quoted g)) gs)
     @ [Line (''    status='' @ c_dec (uint (m_status self))), Line (''    name='' @ quoted (m_name self)),
        Line ''    headers='']
     @ (case m_headers self of None \<Rightarrow> [Line ''(NULL)'']
        | Some h \<Rightarrow> map (\<lambda>(k, v). Line (''        '' @ k @ ''='' @ v)) h)"

definition print_membership :: "string \<Rightarrow> zre_msg \<Rightarrow> log_entry list" where
  "print_membership name self = print_head name self
     @ [Line (''    group='' @ quoted (m_group self)), Line (''    status='' @ c_dec (uint (m_status self)))]"

definition print_elect :: "zre_msg \<Rightarrow> log_entry list" where
  "print_elect self = print_head ''ZRE_MSG_ELECT'' self
     @ [Line (''    group='' @ quoted (m_group self)),
        Line (''    challenger_id='' @ quoted (m_challenger_id self))]"

definition print_leader :: "zre_msg \<Rightarrow> log_entry list" where
  "print_leader self = print_head ''ZRE_MSG_LEADER'' self
     @ [Line (''    group='' @ quoted (m_group self)), Line (''    leader_id='' @ quoted (m_leader_id self))]"

definition zre_msg_print :: "zre_msg \<Rightarrow> log_entry list" where
  "zre_msg_print self =
     (if m_id self = ZRE_MSG_HELLO then print_hello self
      else if m_id self = ZRE_MSG_WHISPER then print_head ''ZRE_MSG_WHISPER'' self @ print_content self
      else if m_id self = ZRE_MSG_SHOUT then print_head ''ZRE_MSG_SHOUT'' self
        @ [Line (''    group='' @ quoted (m_group self))] @ print_content self
      else if m_id self = ZRE_MSG_JOIN then print_membership ''ZRE_MSG_JOIN'' self
      else if m_id self = ZRE_MSG_LEAVE then print_membership ''ZRE_MSG_LEAVE'' self
      else if m_id self = ZRE_MSG_PING then print_head ''ZRE_MSG_PING'' self
      else if m_id self = ZRE_MSG_PING_OK then print_head ''ZRE_MSG_PING_OK'' self
      else if m_id self = ZRE_MSG_ELECT then print_elect self
      else if m_id self = ZRE_MSG_LEADER then print_leader self
      else if m_id self = ZRE_MSG_GOODBYE then print_head ''ZRE_MSG_GOODBYE'' self
      else [])"

section \<open>Events and elections\<close>

definition log_pair :: "string \<times> string \<Rightarrow> log_entry" where
  "log_pair e = Line (''   - '' @ fst e @ '': '' @ snd e)"

text \<open>\<open>zhash_size\<close> asserts that there is a table, \<open>zmsg_print\<close> that there is a message.\<close>

definition zyre_event_print :: "zyre_event \<Rightarrow> log_entry list outcome" where
  "zyre_event_print self = and_then (not_null (ev_type self)) (\<lambda>type.
     let lines = [Line ''zyre_event:'',
           Line ('' - from name='' @ fmt_s (ev_peer_name self) @ '' uuid='' @ fmt_s (ev_peer_uuid self)),
           Line ('' - type='' @ type)];
         of_group = lines @ [Line ('' - group='' @ fmt_s (ev_group self))];
         of_message = (case ev_msg self of None \<Rightarrow> Inl Assertion_failed
           | Some ds \<Rightarrow> Inr (lines @ [Line '' - message:'', Parts ds]))
     in if streq type ''ENTER'' then
          (case ev_headers self of None \<Rightarrow> Inl Assertion_failed
           | Some h \<Rightarrow> Inr (lines @ [Line ('' - headers='' @ c_dec (int (zhash_size h)) @ '':'')] @ map log_pair h
               @ [Line ('' - address='' @ fmt_s (ev_peer_addr self))]))
        else if streq type ''JOIN'' then Inr of_group
        else if streq type ''LEAVE'' then Inr of_group
        else if streq type ''SHOUT'' then of_message
        else if streq type ''WHISPER'' then of_message
        else if streq type ''LEADER'' then Inr of_group
        else Inr lines)"

text \<open>The father must be a live peer: \<open>zyre_peer_name\<close> asserts that there is one.\<close>

definition zyre_election_print :: "peer_heap \<Rightarrow> zyre_election \<Rightarrow> log_entry list outcome" where
  "zyre_election_print heap self = (case e_father self of None \<Rightarrow> Inl Assertion_failed
     | Some father \<Rightarrow> and_then (deref father heap) (\<lambda>p.
        Inr [Line ''zyre_election : {'', Line (''    father: '' @ zyre_peer_name p),
          Line (''    CAW: '' @ fmt_s (e_caw self)),
          Line (''    election count: '' @ c_dec (sint (e_erec self))),
          Line (''    leader count: '' @ c_dec (sint (e_lrec self))),
          Line (''    state: '' @ (if e_leader self = None then ''undecided''
            else if e_isLeader self then ''leader'' else ''loser'')),
          Line (''    leader: '' @ fmt_s (e_leader self)), Line ''}'']))"

section \<open>The dump of a node\<close>

definition zyre_peer_sent_sequence :: "zyre_peer \<Rightarrow> 16 word" where
  [zyre_simps]: "zyre_peer_sent_sequence self = p_sent_sequence self"

definition zyre_peer_want_sequence :: "zyre_peer \<Rightarrow> 16 word" where
  [zyre_simps]: "zyre_peer_want_sequence self = p_want_sequence self"

definition zyre_node_log_peer :: "zyre_peer \<Rightarrow> log_entry outcome" where
  "zyre_node_log_peer peer = and_then (zyre_peer_endpoint peer) (\<lambda>endpoint.
     Inr (Line (''   - uuid='' @ zyre_peer_identity peer @ '' name='' @ zyre_peer_name peer
       @ '' endpoint='' @ endpoint @ '' connected='' @ yes_no (zyre_peer_connected peer)
       @ '' ready='' @ yes_no (zyre_peer_ready peer)
       @ '' sent_seq='' @ c_dec (uint (zyre_peer_sent_sequence peer))
       @ '' want_seq='' @ c_dec (uint (zyre_peer_want_sequence peer)))))"

definition dump_head :: "zyre_node \<Rightarrow> log_entry list" where
  "dump_head self = [Line ''zyre_node: dump state'',
     Line ('' - name='' @ n_name self @ '' uuid='' @ uu_str (n_uuid self)),
     Line ('' - endpoint='' @ fmt_s (n_endpoint self))]
     @ (case n_public_key self of None \<Rightarrow> [] | Some k \<Rightarrow> [Line ('' - public-key: '' @ k)])
     @ (if n_beacon_port self \<noteq> 0 then
          [Line ('' - discovery=beacon port='' @ c_dec (n_beacon_port self)
             @ '' interval='' @ c_dec (uint (n_interval self)))]
        else Line '' - discovery=gossip''
          # (case n_gossip_bind self of None \<Rightarrow> [] | Some e \<Rightarrow> [Line (''   - bind endpoint='' @ e)])
          @ (case n_gossip_connect self of None \<Rightarrow> [] | Some e \<Rightarrow> [Line (''   - connect endpoint='' @ e)]))
     @ [Line ('' - headers='' @ c_dec (int (zhash_size (n_headers self))) @ '':'')] @ map log_pair (n_headers self)"

definition dump_peer :: "string \<times> addr \<Rightarrow> log_entry list \<times> zyre_node \<Rightarrow> (log_entry list \<times> zyre_node) outcome" where
  "dump_peer item st = (case st of (lines, self) \<Rightarrow>
     and_then (node_peer (snd item) self) (\<lambda>p.
     and_then (zyre_node_log_peer p) (\<lambda>line. Inr (lines @ [line], self))))"

definition dump_groups :: "zyre_node \<Rightarrow> log_entry list" where
  "dump_groups self = Line ('' - own groups='' @ c_dec (int (length (n_own_groups self))) @ '':'')
     # map (\<lambda>g. Line (''   - '' @ g)) (n_own_groups self)
     @ Line ('' - peer groups='' @ c_dec (int (zhash_size (n_peer_groups self))) @ '':'')
     # concat (map (\<lambda>name. Line (''   - '' @ name)
         # (case zhash_lookup (n_peer_groups self) name of None \<Rightarrow> []
            | Some g \<Rightarrow> map (\<lambda>k. Line (''     - '' @ k)) (zyre_group_peers g)))
       (zhash_keys (n_peer_groups self)))"

definition zyre_node_dump :: "zyre_node \<Rightarrow> log_entry list outcome" where
  "zyre_node_dump self =
     and_then (each dump_peer (n_peers self)
        (dump_head self @ [Line ('' - peers='' @ c_dec (int (zhash_size (n_peers self))) @ '':'')], self))
       (\<lambda>(lines, self). Inr (lines @ dump_groups self))"

definition zyre_print :: "zframe list" where
  "zyre_print = pipe_str ''DUMP''"

end
