(* ===== verification/Zyre_Query_Props.thy ===== *)
theory Zyre_Query_Props
  imports Zyre_Log Zyre_Node_Props
begin

text \<open>
  What the application learns from a node: the replies to its queries and the dump show the node's
  tables as they are, in every reachable state, and asking changes nothing but the pipe.
\<close>

section \<open>The view of a peer\<close>

lemma known_peer_lookup:
  assumes "node_ok self" and "zhash_lookup (n_peers self) k = Some a"
  obtains p where "n_heap self a = Some p" and "known_peer self k = Some p" and "peer_ok p"
    and "zyre_peer_identity p = k"
proof -
  have "(k, a) \<in> set (n_peers self)" using assms peer_lookup_iff by blast
  then obtain p where "n_heap self a = Some p" "zyre_peer_identity p = k" "peer_ok p"
    using filed_peer [OF assms(1)] by blast
  then show thesis using that assms(2) by (simp add: known_peer_def)
qed

text \<open>The address a peer is shown with: that of its connection, if there is one.\<close>

definition shown_address :: "zyre_peer option \<Rightarrow> string" where
  "shown_address peer = (case peer of None \<Rightarrow> [] | Some p \<Rightarrow>
     if p_connected p then (case p_endpoint p of Some e \<Rightarrow> e | None \<Rightarrow> []) else [])"

definition shown_header :: "zyre_peer option \<Rightarrow> string \<Rightarrow> string" where
  "shown_header peer key = (case peer of None \<Rightarrow> [] | Some p \<Rightarrow>
     (case zyre_peer_header p key None of Some v \<Rightarrow> v | None \<Rightarrow> []))"

lemma peer_endpoint_shown: "peer_ok p \<Longrightarrow> zyre_peer_endpoint p = Inr (shown_address (Some p))"
  by (auto simp: zyre_peer_endpoint_def shown_address_def peer_ok_def not_null_def)

section \<open>Queries\<close>

text \<open>The node reads one request and only appends its reply to the pipe.\<close>

definition answers :: "env \<Rightarrow> zyre_node \<Rightarrow> zframe list \<Rightarrow> pipe_reply \<Rightarrow> bool" where
  "answers env self call reply \<longleftrightarrow>
     (\<forall>later. zyre_node_recv_api env (request_of (call @ later)) self = Inr (pipe_send reply self))"

lemma query_dispatch [simp]:
  "zyre_node_recv_api env [str_bytes ''PEERS''] self
     = Inr (pipe_send (Reply_list (Some (zhash_keys (n_peers self)))) self)"
  "zyre_node_recv_api env [str_bytes ''PEER GROUPS''] self
     = Inr (pipe_send (Reply_list (Some (zhash_keys (n_peer_groups self)))) self)"
  "zyre_node_recv_api env [str_bytes ''OWN GROUPS''] self
     = Inr (pipe_send (Reply_list (Some (n_own_groups self))) self)"
  "zyre_node_recv_api env (str_bytes ''GROUP PEERS'' # req) self
     = pop_string req (\<lambda>name _. Inr (pipe_send (Reply_list
          (map_option zyre_group_peers (zhash_lookup (n_peer_groups self) name))) self))"
  "zyre_node_recv_api env (str_bytes ''PEER ENDPOINT'' # req) self
     = pop_string req (\<lambda>uuid _. case zhash_lookup (n_peers self) uuid of
          None \<Rightarrow> Inr (pipe_send (Reply_string '''') self)
        | Some peer \<Rightarrow> and_then (node_peer peer self) (\<lambda>p. and_then (zyre_peer_endpoint p) (\<lambda>e.
            Inr (pipe_send (Reply_string e) self))))"
  "zyre_node_recv_api env (str_bytes ''PEER HEADER'' # req) self = api_peer_header req self"
  by (simp_all add: zyre_node_recv_api_def pop_string_def c_string_def api_settings_def api_network_def
      api_message_def api_query_def streq_def)

lemma answers_address:
  assumes "node_ok self" and "c_string k"
  shows "answers env self (zyre_peer_address k) (Reply_string (shown_address (known_peer self k)))"
proof (cases "zhash_lookup (n_peers self) k")
  case None
  then show ?thesis using assms(2)
    by (simp add: answers_def request_of_def zyre_peer_address_def known_peer_def shown_address_def)
next
  case (Some a)
  then obtain p where "n_heap self a = Some p" "known_peer self k = Some p" "peer_ok p"
    by (rule known_peer_lookup [OF assms(1)])
  then show ?thesis using Some assms(2)
    by (simp add: answers_def request_of_def zyre_peer_address_def node_peer_def peer_endpoint_shown)
qed

lemma answers_header:
  assumes "node_ok self" and "c_string k" and "c_string key"
  shows "answers env self (zyre_peer_header_value k key) (Reply_string (shown_header (known_peer self k) key))"
proof (cases "zhash_lookup (n_peers self) k")
  case None
  then show ?thesis using assms(2,3)
    by (simp add: answers_def request_of_def zyre_peer_header_value_def api_peer_header_def known_peer_def
        shown_header_def)
next
  case (Some a)
  then obtain p where "n_heap self a = Some p" "known_peer self k = Some p" "peer_ok p"
    by (rule known_peer_lookup [OF assms(1)])
  then show ?thesis using Some assms(2,3)
    by (simp add: answers_def request_of_def zyre_peer_header_value_def api_peer_header_def node_peer_def
        shown_header_def)
qed

text \<open>In every reachable state the queries of the application are answered from the tables and
  change nothing else: the peers, the groups of the peers, the node's own groups, the members of a
  group, a peer's address and a header of a peer, an empty string standing for what is not known.
  Every member that the node lists for a group it also lists as a peer.\<close>

theorem queries_answered:
  assumes "actor_reachable self" and "c_string k" and "c_string key" and "c_string name"
  shows "answers env self zyre_peers (Reply_list (Some (zhash_keys (n_peers self))))
    \<and> answers env self zyre_peer_groups (Reply_list (Some (zhash_keys (n_peer_groups self))))
    \<and> answers env self zyre_own_groups (Reply_list (Some (n_own_groups self)))
    \<and> answers env self (zyre_peers_by_group name)
        (Reply_list (map_option zyre_group_peers (zhash_lookup (n_peer_groups self) name)))
    \<and> answers env self (zyre_peer_address k) (Reply_string (shown_address (known_peer self k)))
    \<and> answers env self (zyre_peer_header_value k key) (Reply_string (shown_header (known_peer self k) key))
    \<and> (\<forall>g. zhash_lookup (n_peer_groups self) name = Some g
        \<longrightarrow> set (zyre_group_peers g) \<subseteq> set (zhash_keys (n_peers self)))"
proof -
  have ok: "node_ok self" using assms(1) by (rule reachable_ok)
  have "set (zyre_group_peers g) \<subseteq> set (zhash_keys (n_peers self))"
    if "zhash_lookup (n_peer_groups self) name = Some g" for g
    using group_ok_lookup [OF node_okD(3) [OF ok] that] by (auto simp: group_ok_def zhash_keys_def zyre_simps)
  moreover have "answers env self zyre_peers (Reply_list (Some (zhash_keys (n_peers self))))"
    "answers env self zyre_peer_groups (Reply_list (Some (zhash_keys (n_peer_groups self))))"
    "answers env self zyre_own_groups (Reply_list (Some (n_own_groups self)))"
    "answers env self (zyre_peers_by_group name)
      (Reply_list (map_option zyre_group_peers (zhash_lookup (n_peer_groups self) name)))"
    using assms(4) by (simp_all add: answers_def request_of_def zyre_peers_def zyre_peer_groups_def
        zyre_own_groups_def zyre_peers_by_group_def)
  ultimately show ?thesis using answers_address [OF ok assms(2)] answers_header [OF ok assms(2,3)] by simp
qed

theorem queries_answered_witness:
  "answers run_env sample_node zyre_peers (Reply_list (Some [''7'']))
    \<and> answers run_env sample_node zyre_own_groups (Reply_list (Some []))
    \<and> answers run_env sample_node (zyre_peers_by_group ''A'') (Reply_list (Some [''7'']))"
proof -
  obtain g where g: "n_peer_groups sample_node = [(''A'', g)]" "g_peers g = [(''7'', 0)]"
    by (rule sample_node_group)
  have "c_string ''7''" "c_string ''A''" "c_string ''X''" by (simp_all add: c_string_def)
  then show ?thesis
    using queries_answered [OF sample_node_reachable, of "''7''" "''X''" "''A''" run_env] g sample_node_sel(1,2)
    by (simp add: zhash_keys_def zhash_lookup_def zyre_simps)
qed

section \<open>The dump\<close>

lemma dump_peers:
  assumes "node_ok self" and "set items \<subseteq> set (n_peers self)"
  shows "\<exists>shown. each dump_peer items (lines, self) = Inr (lines @ shown, self) \<and> length shown = length items
    \<and> (\<forall>i < length items. \<exists>p. known_peer self (fst (items ! i)) = Some p
         \<and> zyre_node_log_peer p = Inr (shown ! i))"
  using assms(2)
proof (induction items arbitrary: lines)
  case (Cons item items)
  obtain k a where item: "item = (k, a)" by (cases item)
  have "zhash_lookup (n_peers self) k = Some a" using Cons.prems item peer_lookup_iff [OF assms(1)] by simp
  then obtain p where p: "n_heap self a = Some p" "known_peer self k = Some p" "peer_ok p"
    by (rule known_peer_lookup [OF assms(1)])
  then obtain line where line: "zyre_node_log_peer p = Inr line"
    by (simp add: zyre_node_log_peer_def peer_endpoint_shown)
  then have step: "dump_peer item (lines, self) = Inr (lines @ [line], self)"
    using p item by (simp add: dump_peer_def node_peer_def)
  obtain shown where "each dump_peer items (lines @ [line], self) = Inr ((lines @ [line]) @ shown, self)"
    "length shown = length items"
    "\<forall>i < length items. \<exists>p. known_peer self (fst (items ! i)) = Some p \<and> zyre_node_log_peer p = Inr (shown ! i)"
    using Cons.IH [of "lines @ [line]"] Cons.prems by auto
  then show ?case using step line p item
    by (intro exI [of _ "line # shown"]) (auto simp: less_Suc_eq_0_disj)
qed simp

text \<open>A dump never fails in a reachable state: it shows the node's settings, then one line for each
  peer of the table, in its order, with the peer's own data, then the groups.\<close>

theorem dump_shows_peers:
  assumes "actor_reachable self"
  shows "\<exists>shown. zyre_node_dump self = Inr (dump_head self
        @ [Line ('' - peers='' @ c_dec (int (zhash_size (n_peers self))) @ '':'')] @ shown @ dump_groups self)
    \<and> length shown = length (n_peers self)
    \<and> (\<forall>i < length shown. \<exists>p. known_peer self (zhash_keys (n_peers self) ! i) = Some p
         \<and> zyre_node_log_peer p = Inr (shown ! i))"
proof -
  let ?lines = "dump_head self @ [Line ('' - peers='' @ c_dec (int (zhash_size (n_peers self))) @ '':'')]"
  obtain shown where "each dump_peer (n_peers self) (?lines, self) = Inr (?lines @ shown, self)"
    "length shown = length (n_peers self)"
    "\<forall>i < length (n_peers self). \<exists>p. known_peer self (fst (n_peers self ! i)) = Some p
         \<and> zyre_node_log_peer p = Inr (shown ! i)"
    using dump_peers [OF reachable_ok [OF assms], of "n_peers self" ?lines] by auto
  then show ?thesis by (auto simp: zyre_node_dump_def zhash_keys_def)
qed

theorem dump_shows_peers_witness:
  "\<exists>line. zyre_node_dump sample_node = Inr (dump_head sample_node @ [Line '' - peers=1:'', line]
       @ dump_groups sample_node)"
proof -
  have "c_dec 1 = ''1''" by code_simp
  then show ?thesis
    using dump_shows_peers [OF sample_node_reachable] sample_node_sel(1)
    by (auto simp: zhash_size_def length_Suc_conv)
qed

end
