(* ===== verification/Zyre_Quiet_Props.thy ===== *)
theory Zyre_Quiet_Props
  imports Zyre_Removal Zyre_Node_Props
begin

text \<open>
  The check of quiet peers: what the actor does to each peer of its table when the timer has run out. A
  peer past its expiry is removed, one past its evasive time gets a PING, the others are left alone.
\<close>

section \<open>One peer\<close>

definition ping_message :: zre_msg where
  "ping_message = zre_msg_new\<lparr>m_id := ZRE_MSG_PING\<rparr>"

text \<open>What becomes of a peer at time \<open>now\<close>, and what the application is told.\<close>

definition checked :: "env \<Rightarrow> int \<Rightarrow> zyre_peer \<Rightarrow> zyre_peer option \<Rightarrow> bool" where
  "checked env now p r \<longleftrightarrow>
     (if zyre_peer_expired_at p \<le> now then r = None
      else if zyre_peer_evasive_at p \<le> now then \<exists>p'. r = Some p' \<and> zyre_peer_send env p ping_message = Inr (0, p')
      else r = Some p)"

definition report :: "int \<Rightarrow> int \<Rightarrow> zyre_peer \<Rightarrow> zframe list" where
  "report interval now p =
     (if zyre_peer_expired_at p \<le> now then event_frames ''EXIT'' p
      else if zyre_peer_evasive_at p \<le> now then event_frames ''EVASIVE'' p
        @ (if zyre_peer_evasive_at p + interval \<le> now then event_frames ''SILENT'' p else [])
      else [])"

text \<open>
  Every reading of the clock during the check is between two times, and no deadline of the peer is
  passed between them.
\<close>

definition clock_between :: "env \<Rightarrow> int \<Rightarrow> int \<Rightarrow> bool" where
  "clock_between env since until \<longleftrightarrow> (\<forall>n. since \<le> sint (env_clock env n) \<and> sint (env_clock env n) \<le> until)"

definition clear_cut :: "int \<Rightarrow> int \<Rightarrow> int \<Rightarrow> zyre_peer \<Rightarrow> bool" where
  "clear_cut interval since until p \<longleftrightarrow>
     (\<forall>t \<in> {zyre_peer_expired_at p, zyre_peer_evasive_at p, zyre_peer_evasive_at p + interval}.
        t \<le> since \<or> until < t)"

lemma clear_cut_now:
  assumes "clock_between env since until" and "clear_cut interval since until p"
  shows "zyre_peer_expired_at p \<le> sint (env_clock env n) \<longleftrightarrow> zyre_peer_expired_at p \<le> since"
    "zyre_peer_evasive_at p \<le> sint (env_clock env n) \<longleftrightarrow> zyre_peer_evasive_at p \<le> since"
    "zyre_peer_evasive_at p + interval \<le> sint (env_clock env n) \<longleftrightarrow> zyre_peer_evasive_at p + interval \<le> since"
proof -
  have "since \<le> sint (env_clock env n)" "sint (env_clock env n) \<le> until"
    using assms(1) by (simp_all add: clock_between_def)
  then show "zyre_peer_expired_at p \<le> sint (env_clock env n) \<longleftrightarrow> zyre_peer_expired_at p \<le> since"
    "zyre_peer_evasive_at p \<le> sint (env_clock env n) \<longleftrightarrow> zyre_peer_evasive_at p \<le> since"
    "zyre_peer_evasive_at p + interval \<le> sint (env_clock env n) \<longleftrightarrow> zyre_peer_evasive_at p + interval \<le> since"
    using assms(2) by (auto simp: clear_cut_def)
qed

lemma peer_event_frames: "n_outbox (peer_event e p s) = n_outbox s @ event_frames e p"
  "peer_event e p s = s\<lparr>n_outbox := n_outbox s @ event_frames e p\<rparr>"
  by (simp_all add: peer_event_def event_frames_def outbox_send_def outbox_sendm_def)

text \<open>What the check of one peer leaves.\<close>

definition visited :: "env \<Rightarrow> int \<Rightarrow> string \<Rightarrow> addr \<Rightarrow> zyre_peer \<Rightarrow> zyre_node \<Rightarrow> zyre_node \<Rightarrow> bool" where
  "visited env now k a p self s \<longleftrightarrow> node_ok s \<and> uncontested s \<and> config s = config self
     \<and> n_peers s = (if zyre_peer_expired_at p \<le> now then zhash_delete k (n_peers self) else n_peers self)
     \<and> checked env now p (n_heap s a) \<and> (\<forall>b. b \<noteq> a \<longrightarrow> n_heap s b = n_heap self b)
     \<and> n_outbox s = n_outbox self @ report (uint (s_reap_interval self)) now p"

lemma reap_interval_config: "config s = config self \<Longrightarrow> s_reap_interval s = s_reap_interval self"
  by (simp add: config_def s_reap_interval_def Let_def)

lemma ticks_simps [simp]:
  "config (s\<lparr>n_ticks := t\<rparr>) = config s" "node_ok (s\<lparr>n_ticks := t\<rparr>) = node_ok s"
  "uncontested (s\<lparr>n_ticks := t\<rparr>) = uncontested s" "s_reap_interval (s\<lparr>n_ticks := t\<rparr>) = s_reap_interval s"
  by (simp_all add: config_def s_reap_interval_def node_ok_def uncontested_def Let_def)

lemma visited_ticks [simp]: "visited env now k a p (self\<lparr>n_ticks := t\<rparr>) s = visited env now k a p self s"
  "visited env now k a p self (s\<lparr>n_ticks := t\<rparr>) = visited env now k a p self s"
  by (simp_all add: visited_def)

lemma visited_ticks_between [simp]:
  "visited env now k a p self (s\<lparr>n_heap := h, n_ticks := t, n_outbox := out\<rparr>)
    = visited env now k a p self (s\<lparr>n_heap := h, n_outbox := out\<rparr>)"
  "visited env now k a p self (s\<lparr>n_ticks := t, n_heap := h, n_outbox := out\<rparr>)
    = visited env now k a p self (s\<lparr>n_heap := h, n_outbox := out\<rparr>)"
  by (simp_all add: visited_def config_def node_ok_def uncontested_def)

lemma reap_interval_updates [simp]:
  "s_reap_interval (s\<lparr>n_heap := h\<rparr>) = s_reap_interval s" "s_reap_interval (s\<lparr>n_outbox := out\<rparr>) = s_reap_interval s"
  by (simp_all add: s_reap_interval_def Let_def)

lemma visited_expired:
  assumes "node_ok self" and "uncontested self" and "n_heap self a = Some p" and "zyre_peer_identity p = k"
    and "zyre_peer_expired_at p \<le> now"
  shows "yields (zyre_node_remove_peer env a self) (visited env now k a p self)"
proof -
  obtain s where s: "zyre_node_remove_peer env a self = Inr s" "removed a self s" "uncontested s"
    "n_outbox s = n_outbox self @ event_frames ''EXIT'' p"
    using remove_peer_yields [OF assms(1-3), of env] by (auto simp: yields_def)
  then have "\<forall>b. b \<noteq> a \<longrightarrow> n_heap s b = n_heap self b"
    using remove_peer_exact [OF assms(1-3), of env] s(1) by (auto simp: without_peer_def)
  then show ?thesis using s assms(3-5)
    by (simp add: visited_def removed_def checked_def report_def)
qed

lemma visited_pinged:
  assumes "node_ok self" and "uncontested self" and "n_heap self a = Some p"
    and "\<not> zyre_peer_expired_at p \<le> now" and "zyre_peer_evasive_at p \<le> now"
  shows "yields (node_peer_send env a ping_message self) (\<lambda>s. \<exists>h. s = self\<lparr>n_heap := h\<rparr>
    \<and> visited env now k a p self (s\<lparr>n_outbox := n_outbox self @ report (uint (s_reap_interval self)) now p\<rparr>))"
proof -
  have "peer_ok p" using assms(1,3) node_okD(2) heap_okD by blast
  then obtain p' where p': "zyre_peer_send env p ping_message = Inr (0, p')"
    "node_peer_send env a ping_message self = Inr (self\<lparr>n_heap := (n_heap self)(a \<mapsto> p')\<rparr>)"
    by (rule node_send_live [of self a p env ping_message, OF assms(3)])
  have "steady self (self\<lparr>n_heap := (n_heap self)(a \<mapsto> p')\<rparr>)"
    by (rule ensuresD [OF steady_peer_send p'(2)])
  then have "node_ok (self\<lparr>n_heap := (n_heap self)(a \<mapsto> p')\<rparr>)" using steadyD(3) assms(1) by blast
  then show ?thesis using p' assms(2,4,5)
    by (simp add: visited_def checked_def node_ok_def uncontested_def config_def) (rule exI, rule refl)
qed

lemma ping_peer_visits:
  assumes "node_ok self" and "uncontested self" and "n_heap self a = Some p" and "zyre_peer_identity p = k"
    and "clock_between env since until" and "clear_cut (uint (s_reap_interval self)) since until p"
  shows "yields (zyre_node_ping_peer env (k, a) self)
    (\<lambda>(gone, s). gone = (zyre_peer_expired_at p \<le> since) \<and> visited env since k a p self s)"
proof -
  let ?t = "n_ticks self"
  let ?s1 = "self\<lparr>n_ticks := Suc ?t\<rparr>" and ?s2 = "self\<lparr>n_ticks := Suc (Suc ?t)\<rparr>"
  note readings = clear_cut_now [OF assms(5,6)]
  have m: "zre_msg_set_id zre_msg_new ZRE_MSG_PING = ping_message" by (simp add: zyre_simps ping_message_def)
  show ?thesis
  proof (cases "zyre_peer_expired_at p \<le> since")
    case True
    then obtain s where "zyre_node_remove_peer env a ?s1 = Inr s" "visited env since k a p self s"
      using visited_expired [of ?s1 a p k since env] assms(1-4) by (auto simp: yields_def)
    then show ?thesis using True assms(3)
      by (simp add: zyre_node_ping_peer_def node_peer_def zclock_mono_def readings)
  next
    case unexpired: False
    show ?thesis
    proof (cases "zyre_peer_evasive_at p \<le> since")
      case True
      then obtain h where "node_peer_send env a ping_message ?s2 = Inr (?s2\<lparr>n_heap := h\<rparr>)"
        "visited env since k a p ?s2 (?s2\<lparr>n_heap := h, n_outbox := n_outbox self
           @ report (uint (s_reap_interval self)) since p\<rparr>)"
        using visited_pinged [of ?s2 a p since env k] unexpired assms(1-3) by (auto simp: yields_def)
      then show ?thesis using True unexpired assms(3)
        by (simp add: zyre_node_ping_peer_def node_peer_def zclock_mono_def readings m peer_event_frames report_def
            split: if_splits)
    next
      case False
      then show ?thesis using unexpired assms(1-3)
        by (simp add: zyre_node_ping_peer_def node_peer_def zclock_mono_def readings visited_def checked_def report_def)
    qed
  qed
qed

section \<open>The walk\<close>

definition outlives :: "int \<Rightarrow> zyre_node \<Rightarrow> string \<times> addr \<Rightarrow> bool" where
  "outlives now self e \<longleftrightarrow> (\<forall>p. n_heap self (snd e) = Some p \<longrightarrow> now < zyre_peer_expired_at p)"

definition walked :: "env \<Rightarrow> int \<Rightarrow> addr zhash \<Rightarrow> zyre_node \<Rightarrow> zyre_node \<Rightarrow> bool" where
  "walked env now items self s \<longleftrightarrow> node_ok s \<and> uncontested s \<and> config s = config self
     \<and> n_peers s = filter (\<lambda>e. e \<in> set items \<longrightarrow> outlives now self e) (n_peers self)
     \<and> (\<forall>(k, a) \<in> set items. \<forall>p. n_heap self a = Some p \<longrightarrow> checked env now p (n_heap s a))
     \<and> (\<forall>b. b \<notin> snd ` set items \<longrightarrow> n_heap s b = n_heap self b)
     \<and> n_outbox s = n_outbox self
         @ concat (map (\<lambda>e. report (uint (s_reap_interval self)) now (the (n_heap self (snd e)))) items)"

lemma filter_head:
  assumes "wf_zhash h" and "(k, a) \<in> set h" and "k \<notin> fst ` set items" and "set items \<subseteq> set h"
  shows "filter (\<lambda>e. e \<in> set items \<longrightarrow> Q e) (if Q (k, a) then h else zhash_delete k h)
    = filter (\<lambda>e. e \<in> set ((k, a) # items) \<longrightarrow> Q e) h"
proof -
  have "fst e = k \<longleftrightarrow> e = (k, a)" if "e \<in> set h" for e
    using that assms(1,2) zhash_lookup_iff [OF assms(1)] by (metis fst_conv option.inject prod.collapse)
  then show ?thesis by (auto simp: zhash_delete_def intro!: filter_cong)
qed

text \<open>The visit of one entry leaves the objects of all others.\<close>

lemma visited_others:
  assumes "node_ok self" and "(k, a) \<in> set (n_peers self)" and "visited env now k a p self s"
    and "e \<in> set (n_peers self)" and "fst e \<noteq> k"
  shows "n_heap s (snd e) = n_heap self (snd e)"
proof -
  have "snd e \<noteq> a"
  proof
    assume "snd e = a"
    have "inj_on snd (set (n_peers self))"
      using filed_distinct [OF node_okD(1) [OF assms(1)]] by (simp add: distinct_map)
    then have "e = (k, a)" by (rule inj_onD) (use \<open>snd e = a\<close> assms(2,4) in auto)
    then show False using assms(5) by simp
  qed
  then show ?thesis using assms(3) by (simp add: visited_def)
qed

lemma walked_step:
  assumes "node_ok self" and "(k, a) \<in> set (n_peers self)" and "n_heap self a = Some p"
    and "visited env since k a p self s" and "walked env since r s t"
    and "set r \<subseteq> set (n_peers self)" and "k \<notin> fst ` set r"
  shows "walked env since ((k, a) # r) self t"
proof -
  have v: "node_ok s" "uncontested s" "config s = config self"
    "n_peers s = (if zyre_peer_expired_at p \<le> since then zhash_delete k (n_peers self) else n_peers self)"
    "checked env since p (n_heap s a)" "\<And>b. b \<noteq> a \<Longrightarrow> n_heap s b = n_heap self b"
    "n_outbox s = n_outbox self @ report (uint (s_reap_interval self)) since p"
    using assms(4) by (simp_all add: visited_def)
  have kept: "n_heap s (snd e) = n_heap self (snd e)" if "e \<in> set r" for e
    using visited_others [OF assms(1,2,4), of e] that assms(6,7) by blast
  have lives: "outlives since s e \<longleftrightarrow> outlives since self e" if "e \<in> set r" for e
    using kept [OF that] by (simp add: outlives_def)
  have head: "outlives since self (k, a) \<longleftrightarrow> \<not> zyre_peer_expired_at p \<le> since"
    using assms(3) by (auto simp: outlives_def)
  have "inj_on snd (set (n_peers self))"
    using filed_distinct [OF node_okD(1) [OF assms(1)]] by (simp add: distinct_map)
  then have "(j, a) \<in> set r \<Longrightarrow> (j, a) = (k, a)" for j
    using inj_onD [of snd "set (n_peers self)" "(j, a)" "(k, a)"] assms(2,6) by auto
  then have "a \<notin> snd ` set r" using assms(7) by force
  then have at: "n_heap t a = n_heap s a" using assms(5) by (simp add: walked_def)
  have "n_peers t = filter (\<lambda>e. e \<in> set r \<longrightarrow> outlives since self e) (n_peers s)"
    using assms(5) lives by (auto simp: walked_def intro!: filter_cong)
  also have "\<dots> = filter (\<lambda>e. e \<in> set ((k, a) # r) \<longrightarrow> outlives since self e) (n_peers self)"
    using filter_head [OF node_okD(4) [OF assms(1)] assms(2,7,6), of "outlives since self"] head
    by (cases "zyre_peer_expired_at p \<le> since") (simp_all add: v(4))
  finally have peers: "n_peers t = filter (\<lambda>e. e \<in> set ((k, a) # r) \<longrightarrow> outlives since self e) (n_peers self)" .
  show ?thesis
    unfolding walked_def
  proof (intro conjI)
    show "node_ok t" "uncontested t" "config t = config self" using assms(5) v(3) by (simp_all add: walked_def)
    show "n_peers t = filter (\<lambda>e. e \<in> set ((k, a) # r) \<longrightarrow> outlives since self e) (n_peers self)" by (rule peers)
    have "checked env since q (n_heap t b)" if "(j, b) \<in> set r" "n_heap self b = Some q" for j b q
      using that kept [OF that(1)] assms(5) by (auto simp: walked_def)
    then show "\<forall>(j, b) \<in> set ((k, a) # r). \<forall>q. n_heap self b = Some q \<longrightarrow> checked env since q (n_heap t b)"
      using v(5) at assms(3) by auto
    show "\<forall>b. b \<notin> snd ` set ((k, a) # r) \<longrightarrow> n_heap t b = n_heap self b"
      using assms(5) v(6) by (auto simp: walked_def)
    have reports: "map (\<lambda>e. report (uint (s_reap_interval self)) since (the (n_heap s (snd e)))) r
        = map (\<lambda>e. report (uint (s_reap_interval self)) since (the (n_heap self (snd e)))) r"
      by (rule map_cong) (simp_all add: kept)
    have "n_outbox t = n_outbox s
        @ concat (map (\<lambda>e. report (uint (s_reap_interval self)) since (the (n_heap s (snd e)))) r)"
      using assms(5) reap_interval_config [OF v(3)] by (simp add: walked_def)
    then show "n_outbox t = n_outbox self
        @ concat (map (\<lambda>e. report (uint (s_reap_interval self)) since (the (n_heap self (snd e)))) ((k, a) # r))"
      unfolding reports v(7) using assms(3) by simp
  qed
qed

text \<open>
  The entries the walk comes to. Once an expired peer is removed it may miss entries that are still to
  come: what \<open>zhash_next\<close> does after \<open>zhash_delete\<close> is not documented, so \<open>env_skips\<close> is any
  relation.
\<close>

fun reached :: "env \<Rightarrow> int \<Rightarrow> zyre_node \<Rightarrow> (string \<times> addr) list \<Rightarrow> (string \<times> addr) list" where
  "reached env now self [] = []"
| "reached env now self (e # items) = e # reached env now self
     (if outlives now self e then items else filter (\<lambda>f. \<not> env_skips env (fst e) (fst f)) items)"

lemma set_reached: "set (reached env now self items) \<subseteq> set items"
  by (induction env now self items rule: reached.induct) (auto split: if_splits)

lemma reached_cong:
  "\<forall>e \<in> set items. outlives now s e = outlives now self e \<Longrightarrow> reached env now s items = reached env now self items"
  by (induction env now s items rule: reached.induct) (auto split: if_splits)

lemma reached_expired:
  assumes "\<exists>e \<in> set items. \<not> outlives now self e"
  shows "\<exists>e \<in> set (reached env now self items). \<not> outlives now self e"
  using assms
proof (induction items)
  case (Cons e items)
  then show ?case by (cases "outlives now self e") auto
qed simp

text \<open>An entry is missed only because of an expired one that the walk came to before it.\<close>

lemma reached_missed:
  "e \<in> set items \<Longrightarrow> e \<notin> set (reached env now self items)
     \<Longrightarrow> \<exists>f \<in> set (reached env now self items). \<not> outlives now self f \<and> env_skips env (fst f) (fst e)"
  by (induction env now self items rule: reached.induct) (auto split: if_splits)

lemma reap_peers_walks:
  assumes "clock_between env since until"
  shows "node_ok self \<Longrightarrow> uncontested self \<Longrightarrow> set items \<subseteq> set (n_peers self) \<Longrightarrow> distinct (map fst items)
    \<Longrightarrow> \<forall>e \<in> set items. \<forall>p. n_heap self (snd e) = Some p
        \<longrightarrow> clear_cut (uint (s_reap_interval self)) since until p
    \<Longrightarrow> yields (reap_peers env items self) (walked env since (reached env since self items) self)"
proof (induction items arbitrary: self rule: length_induct)
  case (1 all)
  show ?case
  proof (cases all)
    case Nil
    then show ?thesis using "1.prems"(1,2) by (simp add: walked_def)
  next
    case (Cons item rest)
    obtain k a where item: "item = (k, a)" by (rule prod.exhaust)
    have mem: "(k, a) \<in> set (n_peers self)" using "1.prems"(3) item Cons by simp
    then obtain p where p: "n_heap self a = Some p" "zyre_peer_identity p = k"
      using filed_peer [OF "1.prems"(1)] by blast
    let ?items = "if zyre_peer_expired_at p \<le> since then filter (\<lambda>e. \<not> env_skips env k (fst e)) rest else rest"
    let ?r = "reached env since self ?items"
    have head: "outlives since self (k, a) \<longleftrightarrow> \<not> zyre_peer_expired_at p \<le> since"
      using p(1) by (auto simp: outlives_def)
    have reach: "reached env since self all = (k, a) # ?r" using Cons item head by simp
    have inner: "set ?items \<subseteq> set rest" "length ?items < length all" using Cons by (auto simp: less_Suc_eq_le)
    have new: "k \<notin> fst ` set ?items" and sub: "set ?items \<subseteq> set (n_peers self)" and dist: "distinct (map fst ?items)"
      using "1.prems"(3,4) item Cons by (auto simp: distinct_map_filter)
    have "k \<notin> fst ` set ?r" and rsub: "set ?r \<subseteq> set (n_peers self)" and rin: "set ?r \<subseteq> set ?items"
      using set_reached [of env since self ?items] new sub by blast+
    have clear: "clear_cut (uint (s_reap_interval self)) since until p" using "1.prems"(5) p(1) item Cons by auto
    obtain s where s: "zyre_node_ping_peer env (k, a) self = Inr (zyre_peer_expired_at p \<le> since, s)"
      "visited env since k a p self s"
      using ping_peer_visits [OF "1.prems"(1,2) p assms clear] by (auto simp: yields_def)
    have ok: "node_ok s" "uncontested s" "config s = config self"
      "n_peers s = (if zyre_peer_expired_at p \<le> since then zhash_delete k (n_peers self) else n_peers self)"
      using s(2) by (simp_all add: visited_def)
    have kept: "n_heap s (snd e) = n_heap self (snd e)" if "e \<in> set ?items" for e
      using visited_others [OF "1.prems"(1) mem s(2), of e] that new sub by blast
    have lives: "\<forall>e \<in> set ?items. outlives since s e = outlives since self e"
      using kept by (auto simp: outlives_def)
    have "set ?items \<subseteq> set (n_peers s)" using sub new unfolding ok(4) by (force simp del: filter_cong split: if_splits)
    moreover have "\<forall>e \<in> set ?items. \<forall>q. n_heap s (snd e) = Some q
        \<longrightarrow> clear_cut (uint (s_reap_interval s)) since until q"
      using "1.prems"(5) kept inner(1) reap_interval_config [OF ok(3)] Cons by auto
    ultimately have "yields (reap_peers env ?items s) (walked env since (reached env since s ?items) s)"
      using "1.IH" inner(2) ok(1,2) dist by blast
    then obtain t where t: "reap_peers env ?items s = Inr t" "walked env since ?r s t"
      using reached_cong [OF lives, of env] by (auto simp: yields_def)
    have "reap_peers env all self = Inr t" using s(1) t(1) item Cons by (simp split: if_splits)
    moreover have "walked env since ((k, a) # ?r) self t"
      by (rule walked_step [OF "1.prems"(1) mem p(1) s(2) t(2) rsub \<open>k \<notin> fst ` set ?r\<close>])
    ultimately show ?thesis unfolding yields_def reach by blast
  qed
qed

text \<open>C27: the check of quiet peers. When the actor's timer has run out, the check goes through the table of
  peers. CZMQ does not say what a traversal meets after the current entry is deleted, so an entry may be
  missed, but only behind an expired one that the same check removes. Whatever is missed, the check never
  fails; of the entries it comes to it removes exactly the peers past their expiry, the table keeps all
  others in order; each entry it comes to that is past its evasive time and stays is sent one PING; every
  other peer object is untouched; and the application is told, peer by peer, EXIT for a removed one,
  EVASIVE for a pinged one, and SILENT besides when a check more has passed. While there is an expired
  peer each check makes them fewer; when none is missed, all of them are gone after one. No group is
  contested, and no deadline falls between two readings of the clock during the check.\<close>

theorem quiet_peers_checked:
  assumes "actor_reachable self" and "uncontested self" and "clock_between env since until"
    and "sint (n_last_reaped_at self) + uint (s_reap_interval self) \<le> since"
    and "\<forall>(k, a) \<in> set (n_peers self). \<forall>p. n_heap self a = Some p
        \<longrightarrow> clear_cut (uint (s_reap_interval self)) since until p"
  shows "\<exists>s seen. actor_reap env self = Inr s \<and> set seen \<subseteq> set (n_peers self)
    \<and> n_peers s = filter (\<lambda>e. e \<in> set seen \<longrightarrow> outlives since self e) (n_peers self)
    \<and> (\<forall>(k, a) \<in> set seen. \<forall>p. n_heap self a = Some p \<longrightarrow> checked env since p (n_heap s a))
    \<and> (\<forall>a. a \<notin> snd ` set seen \<longrightarrow> n_heap s a = n_heap self a)
    \<and> n_outbox s = n_outbox self
        @ concat (map (\<lambda>(k, a). report (uint (s_reap_interval self)) since (the (n_heap self a))) seen)
    \<and> (\<forall>e \<in> set (n_peers self) - set seen.
         \<exists>f \<in> set seen. \<not> outlives since self f \<and> env_skips env (fst f) (fst e))
    \<and> ((\<exists>e \<in> set (n_peers self). \<not> outlives since self e)
        \<longrightarrow> length (filter (\<lambda>e. \<not> outlives since self e) (n_peers s))
          < length (filter (\<lambda>e. \<not> outlives since self e) (n_peers self)))
    \<and> ((\<forall>k j. \<not> env_skips env k j) \<longrightarrow> n_peers s = filter (outlives since self) (n_peers self))"
proof -
  let ?self = "self\<lparr>n_ticks := Suc (Suc (n_ticks self)), n_last_reaped_at := env_clock env (Suc (n_ticks self))\<rparr>"
  let ?seen = "reached env since ?self (n_peers self)"
  have ok: "node_ok ?self" "uncontested ?self" "s_reap_interval ?self = s_reap_interval self"
    using reachable_ok [OF assms(1)] assms(2)
    by (simp_all add: node_ok_def uncontested_def s_reap_interval_def Let_def)
  have lives: "outlives since ?self = outlives since self" by (intro ext) (simp add: outlives_def)
  have "distinct (map fst (n_peers ?self))" using node_okD(4) [OF ok(1)] by (simp add: wf_zhash_def)
  moreover have "\<forall>e \<in> set (n_peers self). \<forall>p. n_heap ?self (snd e) = Some p
      \<longrightarrow> clear_cut (uint (s_reap_interval ?self)) since until p"
    using assms(5) ok(3) by auto
  ultimately obtain s where s: "reap_peers env (n_peers self) ?self = Inr s" "walked env since ?seen ?self s"
    using reap_peers_walks [OF assms(3) ok(1,2), of "n_peers self"] by (auto simp: yields_def)
  have "since \<le> sint (env_clock env (n_ticks self))" using assms(3) by (simp add: clock_between_def)
  then have run: "actor_reap env self = Inr s" using assms(4) s(1) by (simp add: actor_reap_def zclock_mono_def)
  have peers: "n_peers s = filter (\<lambda>e. e \<in> set ?seen \<longrightarrow> outlives since self e) (n_peers self)"
    using s(2) by (simp add: walked_def lives)
  have sub: "set ?seen \<subseteq> set (n_peers self)" by (rule set_reached)
  have missed: "\<forall>e \<in> set (n_peers self) - set ?seen.
      \<exists>f \<in> set ?seen. \<not> outlives since self f \<and> env_skips env (fst f) (fst e)"
    using reached_missed [of _ "n_peers self" env since ?self] unfolding lives by blast
  have fewer: "length (filter (\<lambda>e. \<not> outlives since self e) (n_peers s))
      < length (filter (\<lambda>e. \<not> outlives since self e) (n_peers self))"
    if some: "\<exists>e \<in> set (n_peers self). \<not> outlives since self e"
  proof -
    obtain e where e: "e \<in> set ?seen" "\<not> outlives since self e"
      using reached_expired [of "n_peers self" since ?self env] some unfolding lives by blast
    have "filter (\<lambda>e. \<not> outlives since self e) (n_peers s)
        = filter (\<lambda>e. e \<notin> set ?seen) (filter (\<lambda>e. \<not> outlives since self e) (n_peers self))"
      unfolding peers by (auto intro!: filter_cong)
    also have "length \<dots> < length (filter (\<lambda>e. \<not> outlives since self e) (n_peers self))"
      by (rule length_filter_less [where x = e]) (use e sub in auto)
    finally show ?thesis .
  qed
  have all: "n_peers s = filter (outlives since self) (n_peers self)" if "\<forall>k j. \<not> env_skips env k j"
    unfolding peers using missed that by (intro filter_cong) auto
  have "(\<forall>(k, a) \<in> set ?seen. \<forall>p. n_heap self a = Some p \<longrightarrow> checked env since p (n_heap s a))
    \<and> (\<forall>a. a \<notin> snd ` set ?seen \<longrightarrow> n_heap s a = n_heap self a)
    \<and> n_outbox s = n_outbox self
        @ concat (map (\<lambda>(k, a). report (uint (s_reap_interval self)) since (the (n_heap self a))) ?seen)"
    using s(2) ok(3) by (simp add: walked_def case_prod_unfold)
  with run sub peers missed fewer all show ?thesis by blast
qed

lemma clear_cut_instant: "clear_cut interval t t p"
  by (auto simp: clear_cut_def)

definition late_env :: env where
  "late_env = run_env\<lparr>env_clock := \<lambda>_. 100000, env_skips := \<lambda>_ _. True\<rparr>"

theorem quiet_peers_checked_witness:
  "\<exists>s. actor_reap late_env sample_node = Inr s \<and> n_peers s = []"
proof -
  have "uncontested sample_node" using sample_node_sel(5) by (simp add: uncontested_def list_all_iff)
  moreover have "clock_between late_env 100000 100000" by (simp add: clock_between_def late_env_def)
  moreover have "\<not> outlives 100000 sample_node (''7'', 0)"
    by (rule sample_node_peer) (auto simp: outlives_def)
  ultimately show ?thesis
    using quiet_peers_checked [OF sample_node_reachable, of late_env 100000 100000] sample_node_sel(1,7)
    by (auto simp: clear_cut_instant)
qed

end
