(* ===== verification/Zyre_Inbox_Props.thy ===== *)
theory Zyre_Inbox_Props
  imports Zyre_Node_Props "HOL-Library.Sublist"
begin

text \<open>
  Reading the inbox ends: whatever peers have sent, a turn of the actor that is woken by the inbox takes
  frames from its front and adds none, so that turns without arrivals in between empty it.
\<close>

section \<open>What a receive takes\<close>

lemma suffix_get_or:
  assumes "suffix (snd (snd bad)) fs" and "\<And>x rest. suffix (snd (snd (k x rest))) fs"
  shows "suffix (snd (snd (get_or r bad k))) fs"
  using assms by (cases r) (auto simp: get_or_def)

lemma suffix_recv_sequence:
  "(\<And>m rest. suffix (snd (snd (k m rest))) fs) \<Longrightarrow> suffix (snd (snd (recv_sequence self fs needle k))) fs"
  unfolding recv_sequence_def by (intro suffix_get_or) (auto intro!: suffix_get_or)

lemma suffix_recv_group:
  "(\<And>m rest. suffix (snd (snd (k m rest))) fs) \<Longrightarrow> suffix (snd (snd (recv_group self fs needle k))) fs"
  unfolding recv_group_def by (intro suffix_get_or) auto

lemma suffix_zmsg_recv_rest: "suffix (snd (zmsg_recv_rest fs)) fs"
  by (induction fs rule: zmsg_recv_rest.induct) (auto simp: Let_def suffix_ConsI split: prod.split)

lemma suffix_recv_content: "suffix (snd (recv_content mr fs)) fs"
  by (simp add: recv_content_def suffix_zmsg_recv_rest)

lemma suffix_recv_body: "suffix (snd (snd (recv_body rank self mr fs needle))) fs"
proof -
  have hello: "suffix (snd (snd (recv_hello rank self fs needle))) fs"
    unfolding recv_hello_def Let_def
    by (intro suffix_recv_sequence suffix_get_or) (auto intro!: suffix_get_or split: prod.split option.split)
  have content: "suffix (snd (snd (case recv_content mr fs of (c, input) \<Rightarrow> (0, m c, input)))) fs" for m :: "byte list list \<Rightarrow> zre_msg"
    using suffix_recv_content [of mr fs] by (auto split: prod.split)
  have whisper: "suffix (snd (snd (recv_whisper self mr fs needle))) fs"
    unfolding recv_whisper_def by (intro suffix_recv_sequence content)
  have shout: "suffix (snd (snd (recv_shout self mr fs needle))) fs"
    unfolding recv_shout_def by (intro suffix_recv_sequence suffix_recv_group content)
  show ?thesis
    unfolding recv_body_def recv_join_def recv_ping_def recv_elect_def recv_leader_def
    by (auto intro!: hello whisper shout suffix_recv_sequence suffix_recv_group suffix_get_or)
qed

lemma recv_data_takes: "suffix (snd (snd (recv_data rank self fs))) (tl fs)"
  unfolding recv_data_def recv_frame_def
  by (cases fs) (auto intro!: suffix_get_or suffix_recv_body)

lemma recv_takes:
  assumes "zre_msg_recv rank True self fs = (rc, msg, rest)"
  shows "suffix rest (tl fs)"
proof (cases fs)
  case (Cons f gs)
  have "suffix (snd (snd (recv_data rank m gs))) gs" for m
    using recv_data_takes [of rank m gs] suffix_order.trans suffix_tl by blast
  then show ?thesis using assms Cons by (auto simp: zre_msg_recv_def Let_def split: if_splits) (metis snd_conv)
qed (use assms in \<open>simp add: zre_msg_recv_def\<close>)

section \<open>Turns of the actor\<close>

lemma inbox_recv_peer:
  assumes "node_ok self"
  shows "ensures (zyre_node_recv_peer env self) (\<lambda>s. suffix (n_inbox s) (tl (n_inbox self)) \<and> n_poller s = n_poller self)"
proof -
  obtain rc msg rest where r: "zre_msg_recv (env_rank env) True zre_msg_new (n_inbox self) = (rc, msg, rest)"
    by (rule prod_cases3)
  have "ensures (recv_from env u msg (self\<lparr>n_inbox := rest\<rparr>)) (\<lambda>s. suffix (n_inbox s) (tl (n_inbox self)) \<and> n_poller s = n_poller self)" for u
    by (rule ensures_weaken [OF kept_from])
      (use recv_takes [OF r] in \<open>simp_all add: assms node_kept_def config_def\<close>)
  then show ?thesis using recv_takes [OF r]
    by (auto simp: zyre_node_recv_peer_def r Let_def split: option.split)
qed

definition watched :: "zyre_node \<Rightarrow> zyre_node \<Rightarrow> bool" where
  "watched self s \<longleftrightarrow> n_inbox s = n_inbox self \<and> set (n_poller self) \<subseteq> set (n_poller s)"

lemma watched_beacon: "ensures (actor_beacon env self) (watched self)"
proof -
  have send: "ensures (beacon_send c s) (watched self)" if "watched self s" for c s
    using that by (cases "n_beacon s") (simp_all add: beacon_send_def watched_def)
  have frame: "ensures (beacon_frame env s x) (\<lambda>_. True)" for s x
    by (simp add: ensures_def)
  show ?thesis unfolding actor_beacon_def Let_def
    by (intro ensures_if ensures_and_then [OF send] ensures_assert_that ensures_and_then [OF frame])
      (auto simp: watched_def zpoller_add_def)
qed

text \<open>A turn woken by the inbox takes at least one frame and adds none.\<close>

lemma inbox_turn_takes:
  assumes "node_ok self" and "List.member (n_poller self) Inbox" and "zyre_node_actor env Wake_inbox self = Inr s"
  shows "node_ok s \<and> List.member (n_poller s) Inbox \<and> suffix (n_inbox s) (tl (n_inbox self))"
proof -
  have ok: "node_ok s" using ensuresD [OF node_ok_actor [OF assms(1)] assms(3)] .
  obtain t where t: "actor_beacon env self = Inr t"
    "(if wake_enabled Wake_inbox t then zyre_node_recv_peer env t else Inr t) = Inr s"
    using assms(3) by (auto simp: zyre_node_actor_def actor_handle_def and_then_def split: sum.splits cong: if_cong)
  have w: "n_inbox t = n_inbox self" "List.member (n_poller t) Inbox" "node_ok t"
    using ensuresD [OF watched_beacon t(1)] ensuresD [OF tables_actor_beacon t(1)] assms(1,2)
    by (auto simp: watched_def same_tables_ok)
  show ?thesis
  proof (cases "wake_enabled Wake_inbox t")
    case True
    then show ?thesis using t(2) ensuresD [OF inbox_recv_peer [OF w(3), of env], of s] w ok by simp
  next
    case False
    then show ?thesis using t(2) w ok by (simp add: wake_enabled_def)
  qed
qed

section \<open>The inbox is emptied\<close>

definition inbox_turn :: "zyre_node \<Rightarrow> zyre_node \<Rightarrow> bool" where
  "inbox_turn self s \<longleftrightarrow> n_inbox self \<noteq> [] \<and> (\<exists>env. zyre_node_actor env Wake_inbox self = Inr s)"

fun inbox_turns :: "env list \<Rightarrow> zyre_node \<Rightarrow> zyre_node outcome" where
  "inbox_turns [] self = Inr self"
| "inbox_turns (env # envs) self = and_then (zyre_node_actor env Wake_inbox self) (inbox_turns envs)"

lemma suffix_tl_shorter: "suffix xs (tl ys) \<Longrightarrow> length xs \<le> length ys - 1"
  by (metis length_tl suffix_length_le)

lemma inbox_turns_end:
  assumes "node_ok self" and "List.member (n_poller self) Inbox"
  shows "Wellfounded.accp (\<lambda>s t. inbox_turn t s) self"
  using assms
proof (induction "length (n_inbox self)" arbitrary: self rule: less_induct)
  case less
  show ?case
  proof (rule accp.accI)
    fix s assume "inbox_turn self s"
    then obtain env where ne: "n_inbox self \<noteq> []" and turn: "zyre_node_actor env Wake_inbox self = Inr s"
      by (auto simp: inbox_turn_def)
    have s: "node_ok s" "List.member (n_poller s) Inbox" "suffix (n_inbox s) (tl (n_inbox self))"
      using inbox_turn_takes [OF less.prems turn] by simp_all
    have "0 < length (n_inbox self)" using ne by simp
    then have "length (n_inbox s) < length (n_inbox self)" using suffix_tl_shorter [OF s(3)] by linarith
    then show "Wellfounded.accp (\<lambda>s t. inbox_turn t s) s" by (rule less.hyps) (rule s)+
  qed
qed

lemma inbox_turns_left:
  assumes "node_ok self" and "List.member (n_poller self) Inbox"
  shows "ensures (inbox_turns envs self)
    (\<lambda>s. suffix (n_inbox s) (n_inbox self) \<and> length (n_inbox s) \<le> length (n_inbox self) - length envs)"
  using assms
proof (induction envs arbitrary: self)
  case (Cons env envs)
  have "ensures (inbox_turns envs s)
      (\<lambda>t. suffix (n_inbox t) (n_inbox self) \<and> length (n_inbox t) \<le> length (n_inbox self) - length (env # envs))"
    if "zyre_node_actor env Wake_inbox self = Inr s" for s
  proof -
    have s: "node_ok s" "List.member (n_poller s) Inbox" "suffix (n_inbox s) (tl (n_inbox self))"
      using inbox_turn_takes [OF Cons.prems that] by simp_all
    have "suffix (n_inbox s) (n_inbox self)" using s(3) suffix_tl suffix_order.trans by blast
    then show ?thesis
      using suffix_tl_shorter [OF s(3)] suffix_order.trans
      by (intro ensures_weaken [OF Cons.IH [OF s(1,2)]]) fastforce
  qed
  then show ?case by (auto simp: ensures_def and_then_def split: sum.splits)
qed simp

text \<open>C30: reading the inbox ends. From a reachable state in which the poller watches the inbox there is no
  endless sequence of turns that read it, whatever the frames are; turns that do not abort take frames only
  from the front, and as many of them as there are frames leave the inbox empty.\<close>

theorem inbox_is_emptied:
  assumes "actor_reachable self" and "List.member (n_poller self) Inbox"
    and "inbox_turns envs self = Inr s"
  shows "Wellfounded.accp (\<lambda>s t. inbox_turn t s) self \<and> suffix (n_inbox s) (n_inbox self)
    \<and> length (n_inbox s) \<le> length (n_inbox self) - length envs"
  using inbox_turns_end [OF reachable_ok [OF assms(1)] assms(2)]
    ensuresD [OF inbox_turns_left [OF reachable_ok [OF assms(1)] assms(2)] assms(3)] by simp

text \<open>Three frames that are no message, read by three turns.\<close>

definition noise_events :: "(wake + zframe list) list" where
  "noise_events = boot_events @ [Inr (multipart [[1], [2]]), Inr (multipart [[3]])]"

definition noise_node :: zyre_node where
  "noise_node = (case actor_run run_env noise_events sample_start of Inr s \<Rightarrow> s | Inl e \<Rightarrow> sample_start)"

lemma noise_run:
  "case actor_run run_env noise_events sample_start of
     Inl e \<Rightarrow> False
   | Inr s \<Rightarrow> length (n_inbox s) = 3 \<and> List.member (n_poller s) Inbox
       \<and> (case inbox_turns [run_env, run_env, run_env] s of Inl e \<Rightarrow> False | Inr t \<Rightarrow> True)"
  by code_simp

lemma noise_node_reachable: "actor_reachable noise_node"
  using sample_start_reachable actor_run_reachable [OF sample_start_reachable, of run_env noise_events]
  by (auto simp: noise_node_def ensures_def split: sum.split)

theorem inbox_is_emptied_witness:
  "length (n_inbox noise_node) = 3 \<and> Wellfounded.accp (\<lambda>s t. inbox_turn t s) noise_node
    \<and> (\<exists>s. inbox_turns [run_env, run_env, run_env] noise_node = Inr s \<and> n_inbox s = [])"
proof -
  obtain s where s: "inbox_turns [run_env, run_env, run_env] noise_node = Inr s"
    and n: "length (n_inbox noise_node) = 3" "List.member (n_poller noise_node) Inbox"
    using noise_run by (auto simp: noise_node_def split: sum.splits)
  then show ?thesis using inbox_is_emptied [OF noise_node_reachable n(2) s] by auto
qed

end
