(* ===== verification/Zyre_Client.thy ===== *)
theory Zyre_Client
  imports Zyre_Event Zyre_Log
begin

text \<open>
  The object an application holds (\<open>src/zyre.c\<close>, \<open>zyre_t\<close>): its two ends of the pipe to the node's actor,
  the inbox with the events, and the strings it keeps for its callers. A call writes its request to the
  pipe; some calls then wait for the reply. The actor runs on its own thread, so its turns come in any
  order between the calls.
\<close>

section \<open>The object\<close>

text \<open>The calls that wait, by the reply they read.\<close>

datatype zyre_wait = Wait_uuid | Wait_name | Wait_set_endpoint | Wait_start | Wait_stop | Wait_peers
  | Wait_peers_by_group | Wait_peer_address | Wait_peer_header_value | Wait_own_groups | Wait_peer_groups

text \<open>
  The actor is its node; the replies not yet read are those on the node's pipe after the first \<open>z_read\<close>,
  and the frames of the inbox not yet read those of its outbox after the first \<open>z_taken\<close>.
\<close>

record zyre_t =
  z_actor :: zyre_node
  z_pipe :: "zframe list"
  z_read :: nat
  z_taken :: nat
  z_uuid :: "string option"
  z_name :: "string option"
  z_wait :: "zyre_wait option"
  z_gone :: bool

text \<open>The actor's first reply, the signal that it is ready, is read by \<open>zactor_new\<close>.\<close>

definition zyre_object :: "env \<Rightarrow> zuuid \<Rightarrow> string option \<Rightarrow> zyre_t option" where
  "zyre_object env uuid name = (case actor_start env uuid of
     None \<Rightarrow> None
   | Some node \<Rightarrow> Some \<lparr>z_actor = node, z_pipe = zyre_new name, z_read = 1, z_taken = 0,
       z_uuid = None, z_name = None, z_wait = None, z_gone = False\<rparr>)"

text \<open>\<open>zactor_destroy\<close> asks the actor to end.\<close>

definition zyre_destroy :: "zyre_t \<Rightarrow> zyre_t" where
  "zyre_destroy self = self\<lparr>z_pipe := z_pipe self @ pipe_str ''$TERM'', z_uuid := None, z_name := None,
     z_gone := True\<rparr>"

section \<open>Calls\<close>

text \<open>The old copy of the string is freed before the call.\<close>

definition zyre_call :: "zframe list \<Rightarrow> zyre_wait option \<Rightarrow> zyre_t \<Rightarrow> zyre_t" where
  "zyre_call frames w self = self\<lparr>z_pipe := z_pipe self @ frames, z_wait := w,
     z_uuid := (if w = Some Wait_uuid then None else z_uuid self),
     z_name := (if w = Some Wait_name then None else z_name self)\<rparr>"

datatype zyre_result = Ret_void | Ret_string string | Ret_int int | Ret_list "string list option"

text \<open>What a waiting call does with a reply. Reading one of another form is a fault.\<close>

definition zyre_reply :: "zyre_wait \<Rightarrow> pipe_reply \<Rightarrow> zyre_t \<Rightarrow> (zyre_result \<times> zyre_t) outcome" where
  "zyre_reply w r self = (let self = self\<lparr>z_read := z_read self + 1, z_wait := None\<rparr> in
     case r of
       Reply_string s \<Rightarrow>
         (if w = Wait_uuid then Inr (Ret_string s, self\<lparr>z_uuid := Some s\<rparr>)
          else if w = Wait_name then Inr (Ret_string s, self\<lparr>z_name := Some s\<rparr>)
          else if w = Wait_peer_address \<or> w = Wait_peer_header_value then Inr (Ret_string s, self)
          else Inl Assertion_failed)
     | Reply_signal i \<Rightarrow>
         (if w = Wait_set_endpoint \<or> w = Wait_start then Inr (Ret_int (wait_result i), self)
          else if w = Wait_stop then Inr (Ret_void, self)
          else Inl Assertion_failed)
     | Reply_list l \<Rightarrow>
         (if w = Wait_peers \<or> w = Wait_peers_by_group \<or> w = Wait_own_groups \<or> w = Wait_peer_groups
          then Inr (Ret_list l, self)
          else Inl Assertion_failed))"

text \<open>The frames of a whole message are there; the next message on the inbox.\<close>

definition complete :: "zframe list \<Rightarrow> bool" where
  "complete fs \<longleftrightarrow> list_ex (\<lambda>f. \<not> fr_more f) fs"

definition zyre_recv :: "zyre_t \<Rightarrow> (byte list list \<times> zyre_t) option" where
  "zyre_recv self = (let fs = drop (z_taken self) (n_outbox (z_actor self)) in
     if complete fs then
       (case zmsg_recv_rest fs of (msg, rest) \<Rightarrow>
          Some (msg, self\<lparr>z_taken := length (n_outbox (z_actor self)) - length rest\<rparr>))
     else None)"

section \<open>The public functions\<close>

text \<open>
  What each function of the class writes, and what it waits for; strings are C strings. A whisper or shout
  has at least one frame of content.
\<close>

inductive public_call :: "zframe list \<Rightarrow> zyre_wait option \<Rightarrow> bool" where
  "public_call zyre_uuid (Some Wait_uuid)"
| "public_call zyre_name (Some Wait_name)"
| "c_string name \<Longrightarrow> public_call (zyre_set_name name) None"
| "c_string name \<Longrightarrow> c_string value \<Longrightarrow> public_call (zyre_set_header name value) None"
| "public_call zyre_set_verbose None"
| "public_call (zyre_set_port port_nbr) None"
| "public_call (zyre_set_beacon_peer_port port_nbr) None"
| "public_call (zyre_set_evasive_timeout interval) None"
| "public_call (zyre_set_silent_timeout interval) None"
| "public_call (zyre_set_expired_timeout interval) None"
| "public_call (zyre_set_interval interval) None"
| "c_string endpoint \<Longrightarrow> public_call (zyre_set_endpoint endpoint) (Some Wait_set_endpoint)"
| "c_string name \<Longrightarrow> public_call (zyre_set_contest_in_group name) None"
| "c_string endpoint \<Longrightarrow> public_call (zyre_set_advertised_endpoint endpoint) None"
| "c_string public \<Longrightarrow> c_string secret \<Longrightarrow> public_call (zyre_set_zcert public secret) None"
| "c_string domain \<Longrightarrow> public_call (zyre_set_zap_domain domain) None"
| "c_string uuid \<Longrightarrow> c_string endpoint \<Longrightarrow> c_string key \<Longrightarrow> public_call (zyre_require_peer uuid endpoint key) None"
| "c_string endpoint \<Longrightarrow> public_call (zyre_gossip_bind endpoint) None"
| "c_string endpoint \<Longrightarrow> public_call (zyre_gossip_connect endpoint) None"
| "c_string key \<Longrightarrow> c_string endpoint \<Longrightarrow> public_call (zyre_gossip_connect_curve key endpoint) None"
| "c_string node \<Longrightarrow> public_call (zyre_gossip_unpublish node) None"
| "public_call zyre_start (Some Wait_start)"
| "public_call zyre_stop (Some Wait_stop)"
| "c_string name \<Longrightarrow> public_call (zyre_join name) None"
| "c_string name \<Longrightarrow> public_call (zyre_leave name) None"
| "c_string peer \<Longrightarrow> content \<noteq> [] \<Longrightarrow> public_call (zyre_whisper peer content) None"
| "c_string name \<Longrightarrow> content \<noteq> [] \<Longrightarrow> public_call (zyre_shout name content) None"
| "c_string peer \<Longrightarrow> c_string value \<Longrightarrow> public_call (zyre_whispers peer value) None"
| "c_string name \<Longrightarrow> c_string value \<Longrightarrow> public_call (zyre_shouts name value) None"
| "public_call zyre_peers (Some Wait_peers)"
| "c_string name \<Longrightarrow> public_call (zyre_peers_by_group name) (Some Wait_peers_by_group)"
| "c_string peer \<Longrightarrow> public_call (zyre_peer_address peer) (Some Wait_peer_address)"
| "c_string peer \<Longrightarrow> c_string name \<Longrightarrow> public_call (zyre_peer_header_value peer name) (Some Wait_peer_header_value)"
| "public_call zyre_own_groups (Some Wait_own_groups)"
| "public_call zyre_peer_groups (Some Wait_peer_groups)"
| "public_call zyre_print None"

section \<open>Runs\<close>

text \<open>
  The application calls when it does not wait; the actor reads one whole request from the pipe, or is woken
  by something else; frames arrive on the inbox; the application reads its reply, or an event. The first
  argument collects the frames the application has written since the object was made.
\<close>

inductive zyre_run :: "zframe list \<Rightarrow> zyre_t \<Rightarrow> bool" where
  made: "zyre_object env uuid name = Some self \<Longrightarrow> pred_option c_string name
    \<Longrightarrow> zyre_run (zyre_new name) self"
| call: "zyre_run written self \<Longrightarrow> z_wait self = None \<Longrightarrow> \<not> z_gone self \<Longrightarrow> public_call frames w
    \<Longrightarrow> zyre_run (written @ frames) (zyre_call frames w self)"
| serve: "zyre_run written self \<Longrightarrow> \<not> n_terminated (z_actor self) \<Longrightarrow> complete (z_pipe self)
    \<Longrightarrow> zmsg_recv_rest (z_pipe self) = (request, rest)
    \<Longrightarrow> zyre_node_actor env (Wake_api request) (z_actor self) = Inr node
    \<Longrightarrow> zyre_run written (self\<lparr>z_actor := node, z_pipe := rest\<rparr>)"
| turn: "zyre_run written self \<Longrightarrow> \<not> n_terminated (z_actor self) \<Longrightarrow> \<nexists>request. w = Wake_api request
    \<Longrightarrow> zyre_node_actor env w (z_actor self) = Inr node
    \<Longrightarrow> zyre_run written (self\<lparr>z_actor := node\<rparr>)"
| arrive: "zyre_run written self
    \<Longrightarrow> zyre_run written (self\<lparr>z_actor := (z_actor self)\<lparr>n_inbox := n_inbox (z_actor self) @ frames\<rparr>\<rparr>)"
| reply: "zyre_run written self \<Longrightarrow> z_wait self = Some w \<Longrightarrow> z_read self < length (n_pipe (z_actor self))
    \<Longrightarrow> zyre_reply w (n_pipe (z_actor self) ! z_read self) self = Inr (result, s)
    \<Longrightarrow> zyre_run written s"
| event: "zyre_run written self \<Longrightarrow> zyre_recv self = Some (msg, s) \<Longrightarrow> zyre_run written s"
| destroy: "zyre_run written self \<Longrightarrow> z_wait self = None \<Longrightarrow> \<not> z_gone self
    \<Longrightarrow> zyre_run (written @ pipe_str ''$TERM'') (zyre_destroy self)"

end
