(* ===== verification/Zyre_Kept.thy ===== *)
theory Zyre_Kept
  imports Zyre_Node_Actor_Inv
begin

text \<open>
  What the node does on its own account: messages from peers, discovery and the timer change neither the
  settings of the application nor the pipe to it. The contract is stated once for every relation between
  two states that follows from equal settings; here it is used for the link to the application, the
  replies on the pipe and the poller's watch over it.
\<close>

section \<open>Relations that only the application breaks\<close>

locale kept_by_node =
  fixes K :: "zyre_node \<Rightarrow> zyre_node \<Rightarrow> bool"
  assumes K_config: "config s = config self \<Longrightarrow> K self s"
    and K_trans: "K s t \<Longrightarrow> K t u \<Longrightarrow> K s u"
    and K_inbox: "K self (self\<lparr>n_inbox := i\<rparr>)"
begin

lemma K_refl [simp]: "K s s"
  by (rule K_config) simp

lemma ensures_steady_K: "ensures m (steady self) \<Longrightarrow> ensures m (K self)"
  by (erule ensures_weaken) (rule K_config, rule steadyD(2))

lemma K_peer_send: "K self s \<Longrightarrow> ensures (node_peer_send env a m s) (K self)"
  by (rule ensures_weaken [OF ensures_steady_K [OF steady_peer_send]]) (rule K_trans)

lemma K_send_each: "ensures (each (\<lambda>item. node_peer_send env (snd item) m) items self) (K self)"
  using ensures_each [of "K self" self items] K_peer_send by simp

lemma K_recv_peer:
  assumes "node_ok self"
  shows "ensures (zyre_node_recv_peer env self) (K self)"
proof -
  obtain rc msg input where r: "zre_msg_recv (env_rank env) True zre_msg_new (n_inbox self) = (rc, msg, input)"
    by (rule prod_cases3)
  have "K self s" if "node_kept (self\<lparr>n_inbox := input\<rparr>) s" for s
    using that K_config K_trans [OF K_inbox] by (metis node_kept_def)
  then have "ensures (recv_from env u msg (self\<lparr>n_inbox := input\<rparr>)) (K self)" for u
    by (intro ensures_weaken [OF kept_from]) (simp_all add: assms)
  then show ?thesis using K_inbox
    by (auto simp: zyre_node_recv_peer_def r Let_def split: option.split)
qed

lemma K_require:
  assumes "node_ok self"
  shows "ensures (and_then (zyre_node_require_peer env self uuid e key) (\<lambda>(peer, s). Inr s)) (K self)"
  by (rule ensures_and_then2 [OF require_peer_keeps [OF assms]]) (simp add: required_def K_config)

lemma K_remove: "node_ok self \<Longrightarrow> ensures (zyre_node_remove_peer env a self) (K self)"
  by (rule ensures_weaken [OF remove_peer_keeps]) (simp_all add: removed_def K_config)

lemma K_recv_beacon: "node_ok self \<Longrightarrow> ensures (zyre_node_recv_beacon env ip frame self) (K self)"
  unfolding zyre_node_recv_beacon_def Let_def
  by (intro ensures_if K_require) (auto split: option.split intro: K_remove)

lemma K_recv_gossip: "node_ok self \<Longrightarrow> ensures (zyre_node_recv_gossip env c u e self) (K self)"
  unfolding zyre_node_recv_gossip_def
  by (intro ensures_assert_that)
    (auto split: prod.split option.split intro!: ensures_and_then [OF ensures_not_null] ensures_if K_require)

lemma K_ticks: "K (self\<lparr>n_ticks := t\<rparr>) s \<Longrightarrow> K self s" "K self (self\<lparr>n_ticks := t\<rparr>)"
  using K_trans [OF K_config [of "self\<lparr>n_ticks := t\<rparr>" self]] K_config by (simp_all add: config_def)

lemma K_event: "K self s \<Longrightarrow> K self (peer_event e p s)"
  by (erule K_trans) (simp add: K_config config_def peer_event_def outbox_send_def outbox_sendm_def)

lemma K_ping:
  assumes "node_ok self"
  shows "ensures (zyre_node_ping_peer env item self) (\<lambda>(gone, s). K self s)"
proof -
  have rem: "ensures (and_then (zyre_node_remove_peer env a (self\<lparr>n_ticks := t\<rparr>)) (\<lambda>s. Inr (True, s)))
      (\<lambda>(gone, s). K self s)" for a t
    by (rule ensures_and_then [OF K_remove]) (simp_all add: assms K_ticks)
  have tick: "K self (s\<lparr>n_ticks := t\<rparr>)" if "K self s" for s t
    using K_trans [OF that K_ticks(2)] .
  show ?thesis unfolding zyre_node_ping_peer_def
    by (intro steady_node_peer)
      (auto simp: zclock_mono_def Let_def intro!: rem ensures_and_then [OF K_peer_send] tick K_event)
qed

lemma K_reap: "node_ok self \<Longrightarrow> ensures (reap_peers env items self) (K self)"
proof (induction items arbitrary: self rule: measure_induct_rule [of length])
  case (less items)
  show ?case
  proof (cases items)
    case (Cons item rest)
    let ?items = "\<lambda>gone. if gone then filter (\<lambda>e. \<not> env_skips env (fst item) (fst e)) rest else rest"
    have "ensures (zyre_node_ping_peer env item self) (\<lambda>(gone, s). node_ok s \<and> K self s)"
      using node_ok_ping [OF less.prems, of env item] K_ping [OF less.prems, of env item]
      by (auto simp: ensures_def)
    moreover have "ensures (reap_peers env (?items gone) s) (K self)" if "node_ok s \<and> K self s" for gone s
    proof (rule ensures_weaken [OF less.IH])
      show "length (?items gone) < length items" by (simp add: Cons less_Suc_eq_le)
    qed (use that K_trans in blast)+
    ultimately show ?thesis unfolding Cons reap_peers.simps by (rule ensures_and_then2)
  qed simp
qed

lemma K_actor_reap:
  assumes "node_ok self"
  shows "ensures (actor_reap env self) (K self)"
proof -
  have "K self (self\<lparr>n_ticks := t, n_last_reaped_at := r\<rparr>)" for t r
    by (rule K_config) (simp add: config_def)
  then have "ensures (reap_peers env items (self\<lparr>n_ticks := t, n_last_reaped_at := r\<rparr>)) (K self)" for items t r
    by (intro ensures_weaken [OF K_reap]) (use assms K_trans in \<open>blast | simp\<close>)+
  then show ?thesis using K_ticks(2) by (auto simp: actor_reap_def zclock_mono_def Let_def)
qed

text \<open>Whatever wakes the actor but the application.\<close>

lemma K_handle:
  "node_ok self \<Longrightarrow> \<nexists>request. w = Wake_api request \<Longrightarrow> ensures (actor_handle env w self) (K self)"
  by (cases w) (simp_all add: actor_handle_def K_recv_peer K_recv_beacon K_recv_gossip K_actor_reap)

end

section \<open>The link to the application\<close>

definition linked :: "zyre_node \<Rightarrow> zyre_node \<Rightarrow> bool" where
  "linked self s \<longleftrightarrow> n_pipe s = n_pipe self \<and> (List.member (n_poller self) Pipe \<longrightarrow> List.member (n_poller s) Pipe)"

lemma linked_updates [simp]:
  "linked a (outbox_send x b) = linked a b" "linked a (outbox_sendm x b) = linked a b"
  "linked a (b\<lparr>n_beacon := bc\<rparr>) = linked a b" "linked a (b\<lparr>n_port := pt\<rparr>) = linked a b"
  "linked a (b\<lparr>n_endpoint := e\<rparr>) = linked a b" "linked a (b\<lparr>n_gossip := g\<rparr>) = linked a b"
  "linked a (b\<lparr>n_gossip_bind := gb\<rparr>) = linked a b" "linked a (b\<lparr>n_gossip_connect := gc\<rparr>) = linked a b"
  "linked a (b\<lparr>n_inbox := i\<rparr>) = linked a b" "linked a (b\<lparr>n_inbox_cert := ic\<rparr>) = linked a b"
  "linked a (b\<lparr>n_beacon_port := bp\<rparr>) = linked a b" "linked a (b\<lparr>n_beacon_version := bv\<rparr>) = linked a b"
  "linked a (b\<lparr>n_own_groups := gs\<rparr>) = linked a b" "linked a (b\<lparr>n_status := st\<rparr>) = linked a b"
  by (simp_all add: linked_def outbox_send_def outbox_sendm_def)

lemma linked_poller:
  "linked a b \<Longrightarrow> linked a (zpoller_add x b)" "linked a b \<Longrightarrow> x \<noteq> Pipe \<Longrightarrow> linked a (zpoller_remove x b)"
  by (auto simp: linked_def zpoller_add_def zpoller_remove_def)

interpretation link: kept_by_node linked
proof unfold_locales
  show "linked self s" if "config s = config self" for s self
    using that by (simp add: linked_def config_def)
qed (auto simp: linked_def)

lemma linked_gossip: "linked self s \<Longrightarrow> ensures (gossip_sendx strs s) (linked self)"
  by (cases "n_gossip s") (simp_all add: gossip_sendx_def)

lemma linked_beacon: "linked self s \<Longrightarrow> ensures (beacon_send cmd s) (linked self)"
  by (cases "n_beacon s") (simp_all add: beacon_send_def)

lemma linked_gossip_start: "linked self s \<Longrightarrow> ensures (zyre_node_gossip_start env s) (linked self)"
  by (simp add: zyre_node_gossip_start_def Let_def ensures_assert_that)

lemma linked_cert: "linked self s \<Longrightarrow> ensures (node_apply_cert env s) (linked self)"
  by (simp add: node_apply_cert_def split: option.split)

lemma linked_gossip_keys: "linked self s \<Longrightarrow> ensures (gossip_keys s) (linked self)"
  by (auto simp: gossip_keys_def split: option.split intro!: ensures_and_then [OF linked_gossip] linked_gossip)

lemma linked_frame: "ensures (beacon_frame env s x) (\<lambda>_. True)" "ensures (not_null p) (\<lambda>_. True)"
  by (simp_all add: ensures_def)

lemma linked_start_gossip:
  assumes "linked self s"
  shows "ensures (node_start_gossip env s) (\<lambda>(rc, t). rc = 0 \<and> linked self t)"
proof -
  have "ensures (case n_endpoint s of
         Some endpoint \<Rightarrow> Inr s
       | None \<Rightarrow>
           let iface = (if streq (env_interface env) '''' then ''*'' else env_interface env);
               s = s\<lparr>n_port := env_bind env (''tcp://'' @ iface @ '':*'')\<rparr>
           in assert_that (0 < n_port s)
             (Inr (s\<lparr>n_endpoint := Some (''tcp://'' @ env_hostname env @ '':'' @ c_dec (n_port s))\<rparr>)))
      (linked self)"
    using assms by (auto simp: Let_def intro!: ensures_assert_that split: option.split)
  then show ?thesis unfolding node_start_gossip_def
    by (rule ensures_and_then)
      (intro ensures_assert_that ensures_and_then [OF linked_frame(2)] ensures_and_then [OF linked_gossip]
        ensures_mechanism, auto intro: linked_poller)
qed

lemma linked_start: "linked self s \<Longrightarrow> ensures (zyre_node_start env s) (\<lambda>(rc, t). linked self t)"
  unfolding zyre_node_start_def
  by (intro ensures_and_then [OF linked_cert] ensures_if ensures_weaken [OF linked_start_gossip])
    (auto simp: node_start_beacon_def Let_def intro!: ensures_assert_that ensures_mechanism)

lemma linked_stop: "ensures (zyre_node_stop env self) (\<lambda>(rc, s). linked self s)"
proof -
  have goodbye: "ensures (if b then each (\<lambda>item. node_peer_send env (snd item) m) items self else Inr self) (linked self)"
    for b m items
    by (simp add: link.K_send_each)
  have beacon: "ensures (if b then and_then (beacon_frame env s 0) (\<lambda>beacon.
                    and_then (beacon_send (Beacon_publish beacon (n_interval s)) s) (\<lambda>self.
                      Inr ((zpoller_remove Beacon self)\<lparr>n_beacon := None\<rparr>)))
               else Inr s) (linked self)" if "linked self s" for b s
    using that by (intro ensures_if ensures_and_then [OF linked_frame(1)] ensures_and_then [OF linked_beacon])
      (auto intro!: linked_poller)
  show ?thesis unfolding zyre_node_stop_def Let_def
    by (intro ensures_and_then [OF goodbye] ensures_and_then [OF beacon]) (auto intro!: linked_poller)
qed

lemma linked_actor_beacon: "ensures (actor_beacon env self) (linked self)"
  unfolding actor_beacon_def Let_def
  by (intro ensures_if ensures_and_then [OF linked_beacon] ensures_assert_that ensures_and_then [OF linked_frame(1)])
    (auto intro!: linked_poller)

end
