(* ===== verification/Zyre_Pipe.thy ===== *)
theory Zyre_Pipe
  imports Zyre_Kept
begin

text \<open>
  The replies of the node to its application: a request is answered with exactly one reply of the kind its
  sender waits for, or with none, and nothing but a request ever puts a reply on the pipe.
\<close>

section \<open>What a request is answered with\<close>

datatype reply_kind = String_reply | Signal_reply | List_reply

fun kind_of :: "pipe_reply \<Rightarrow> reply_kind" where
  "kind_of (Reply_string s) = String_reply"
| "kind_of (Reply_signal i) = Signal_reply"
| "kind_of (Reply_list l) = List_reply"

definition expects :: "byte list list \<Rightarrow> reply_kind option" where
  "expects request = (case request of [] \<Rightarrow> None | f # rest \<Rightarrow>
     if List.member [''UUID'', ''NAME'', ''PEER ENDPOINT'', ''PEER NAME'', ''PEER HEADER''] (cstr f) then Some String_reply
     else if List.member [''SET ENDPOINT'', ''START'', ''STOP''] (cstr f) then Some Signal_reply
     else if List.member [''PEERS'', ''GROUP PEERS'', ''PEER GROUPS'', ''OWN GROUPS''] (cstr f) then Some List_reply
     else None)"

definition answered :: "byte list list \<Rightarrow> zyre_node \<Rightarrow> zyre_node \<Rightarrow> bool" where
  "answered request self s \<longleftrightarrow> (case expects request of None \<Rightarrow> linked self s
     | Some k \<Rightarrow> \<exists>r. kind_of r = k \<and> linked (pipe_send r self) s)"

lemma answeredI:
  "expects request = None \<Longrightarrow> linked self s \<Longrightarrow> answered request self s"
  "expects request = Some (kind_of r) \<Longrightarrow> linked self s \<Longrightarrow> answered request self (pipe_send r s)"
  by (auto simp: answered_def linked_def pipe_send_def)

lemma ensures_silent:
  "expects request = None \<Longrightarrow> ensures m (linked self) \<Longrightarrow> ensures m (answered request self)"
  by (erule ensures_weaken) (rule answeredI(1))

lemma streq_cstr: "c_string s \<Longrightarrow> streq (cstr f) s \<longleftrightarrow> cstr f = s"
  by (simp add: streq_iff)

section \<open>Settings\<close>

lemma answered_settings:
  assumes "ensures otherwise (answered (f # request) self)"
  shows "ensures (api_settings env (cstr f) request self otherwise) (answered (f # request) self)"
proof -
  have contest: "linked self (put_group name (zyre_group_set_contest g) s)"
    if "zyre_node_require_peer_group env name self = (g, s)" for name g s
    using that by (auto simp: zyre_node_require_peer_group_def put_group_def linked_def split: option.splits)
  show ?thesis unfolding api_settings_def
    by (intro ensures_if ensures_pop assms)
      (auto simp: streq_cstr c_string_def expects_def intro!: answeredI contest split: prod.split,
       simp_all add: linked_def)
qed

section \<open>Network, messages and queries\<close>

lemma answered_network:
  assumes "ensures otherwise (answered (f # request) self)"
  shows "ensures (api_network env (cstr f) request self otherwise) (answered (f # request) self)"
proof -
  note silent = ensures_silent [of "f # request"]
  have refl: "linked self self" by simp
  have kinds: "expects (f # request) = Some Signal_reply" if "streq (cstr f) ''SET ENDPOINT'' \<or> streq (cstr f) ''START'' \<or> streq (cstr f) ''STOP''"
    using that by (auto simp: streq_cstr c_string_def expects_def)
  have reply: "answered (f # request) self (pipe_send (Reply_signal rc) s)"
    if "streq (cstr f) ''SET ENDPOINT'' \<or> streq (cstr f) ''START'' \<or> streq (cstr f) ''STOP''" "linked self s" for rc s
    using kinds [OF that(1)] that(2) by (intro answeredI) simp_all
  have endpoint: "ensures (api_set_endpoint env request self) (answered (f # request) self)"
    if "streq (cstr f) ''SET ENDPOINT''"
    unfolding api_set_endpoint_def
    by (intro ensures_and_then [OF linked_gossip_start [OF refl]] ensures_pop ensures_and_then [OF linked_cert] ensures_if
        ensures_mechanism) (use that in \<open>auto intro!: reply\<close>)
  have bind: "ensures (and_then (zyre_node_gossip_start env self) (\<lambda>self.
        let self = self\<lparr>n_gossip_bind := fst (zmsg_popstr request)\<rparr>
        in and_then (gossip_keys self) (\<lambda>self. gossip_sendx [Some ''BIND'', n_gossip_bind self] self)))
      (linked self)"
    unfolding Let_def
    by (intro ensures_and_then [OF linked_gossip_start [OF refl]] ensures_and_then [OF linked_gossip_keys] linked_gossip) simp_all
  have conn: "ensures (and_then (zyre_node_gossip_start env self) (\<lambda>self.
        case zmsg_popstr request of (connect, request) \<Rightarrow>
        let self = self\<lparr>n_gossip_connect := connect\<rparr>
        in and_then (gossip_keys self) (\<lambda>self.
             gossip_sendx [Some ''CONNECT'', n_gossip_connect self, fst (zmsg_popstr request)] self)))
      (linked self)"
    unfolding Let_def prod.case_distrib
    by (intro ensures_and_then [OF linked_gossip_start [OF refl]])
      (auto split: prod.split intro!: ensures_and_then [OF linked_gossip_keys] linked_gossip)
  have start: "ensures (and_then (zyre_node_start env self) (\<lambda>(rc, s). Inr (pipe_send (Reply_signal rc) s))) (answered (f # request) self)"
    if "streq (cstr f) ''START''"
    by (rule ensures_and_then2 [OF linked_start [OF refl]]) (use that in \<open>auto intro!: reply\<close>)
  have stop: "ensures (and_then (zyre_node_stop env self) (\<lambda>(rc, s). Inr (pipe_send (Reply_signal rc) s))) (answered (f # request) self)"
    if "streq (cstr f) ''STOP''"
    by (rule ensures_and_then2 [OF linked_stop]) (use that in \<open>auto intro!: reply\<close>)
  have silents: "expects (f # request) = None" if "streq (cstr f) ''SET PUBLICKEY'' \<or> streq (cstr f) ''SET SECRETKEY''
      \<or> streq (cstr f) ''ZAP DOMAIN'' \<or> streq (cstr f) ''GOSSIP BIND'' \<or> streq (cstr f) ''GOSSIP CONNECT''
      \<or> streq (cstr f) ''GOSSIP UNPUBLISH''"
    using that by (auto simp: streq_cstr c_string_def expects_def)
  have pops: "ensures (pop_string request (\<lambda>key _. Inr (self\<lparr>n_public_key := Some key, n_headers := h key\<rparr>))) (linked self)"
    "ensures (pop_string request (\<lambda>key _. Inr (self\<lparr>n_secret_key := Some key\<rparr>))) (linked self)"
    "ensures (pop_string request (\<lambda>key _. Inr (self\<lparr>n_zap_domain := key\<rparr>))) (linked self)" for h
    by (intro ensures_pop, simp add: linked_def)+
  show ?thesis unfolding api_network_def
    by (intro ensures_if endpoint start stop silent [OF silents pops(1)] silent [OF silents pops(2)]
        silent [OF silents pops(3)] silent [OF silents bind] silent [OF silents conn]
        silent [OF silents linked_gossip [OF refl]] assms) simp_all
qed

lemma answered_message:
  assumes "ensures otherwise (answered (f # request) self)"
  shows "ensures (api_message env (cstr f) request self otherwise) (answered (f # request) self)"
proof -
  note silent = ensures_silent [of "f # request"]
  have silents: "expects (f # request) = None" if "streq (cstr f) ''WHISPER'' \<or> streq (cstr f) ''SHOUT''
      \<or> streq (cstr f) ''JOIN'' \<or> streq (cstr f) ''LEAVE''"
    using that by (auto simp: streq_cstr c_string_def expects_def)
  have whisper: "ensures (api_whisper env request self) (linked self)"
    unfolding api_whisper_def Let_def
    by (rule ensures_pop) (auto split: option.split intro: link.ensures_steady_K steady_peer_send)
  have shout: "ensures (api_shout env request self) (linked self)"
    unfolding api_shout_def Let_def
    by (rule ensures_pop) (auto split: option.split intro: link.ensures_steady_K steady_group_send)
  have sends: "ensures (each (zyre_node_send_peer env msg) items s) (linked self)" if "linked self s" for msg items s
    unfolding zyre_node_send_peer_def
    by (rule ensures_weaken [OF link.K_send_each]) (rule link.K_trans [OF that])
  have join: "ensures (api_join env request self) (linked self)"
    unfolding api_join_def Let_def by (intro ensures_pop ensures_if sends) simp_all
  have leave: "ensures (api_leave env request self) (linked self)"
    unfolding api_leave_def Let_def by (intro ensures_pop ensures_if ensures_and_then [OF sends]) simp_all
  show ?thesis unfolding api_message_def
    by (intro ensures_if silent [OF silents whisper] silent [OF silents shout] silent [OF silents join]
        silent [OF silents leave] assms) simp_all
qed

lemma answered_query:
  assumes "node_ok self"
  shows "ensures (api_query env (cstr f) request self (Inl e)) (answered (f # request) self)"
proof -
  have reply: "answered (f # request) self (pipe_send r self)" if "expects (f # request) = Some (kind_of r)" for r
    by (rule answeredI(2) [OF that]) simp
  have kinds: "expects (f # request) = Some String_reply" if "streq (cstr f) ''PEER ENDPOINT'' \<or> streq (cstr f) ''PEER NAME''
      \<or> streq (cstr f) ''PEER HEADER''"
    using that by (auto simp: streq_cstr c_string_def expects_def)
  have req: "ensures (api_require_peer env request self) (linked self)"
  proof -
    have "linked self s" if "zyre_node_require_peer env self uuid e key = Inr (r, s)" for uuid e key r s
      using ensuresD [OF require_peer_keeps [OF assms] that] by (simp add: required_def link.K_config)
    then show ?thesis by (auto simp: api_require_peer_def ensures_def split: prod.splits if_splits)
  qed
  have header: "ensures (api_peer_header request self) (answered (f # request) self)"
    if "streq (cstr f) ''PEER HEADER''"
    unfolding api_peer_header_def using kinds that
    by (auto intro!: ensures_pop steady_node_peer reply split: option.split)
  have ep: "ensures (case x of None \<Rightarrow> Inr (pipe_send (Reply_string s) self)
        | Some a \<Rightarrow> and_then (node_peer a self) (\<lambda>p. and_then (r p) (\<lambda>e. Inr (pipe_send (Reply_string (g e)) self)))) (answered (f # request) self)"
    if "streq (cstr f) ''PEER ENDPOINT''" for x s r g
    using kinds that by (auto intro!: steady_node_peer reply simp: ensures_def split: option.split)
  have nm: "ensures (case x of None \<Rightarrow> Inl e
        | Some a \<Rightarrow> and_then (node_peer a self) (\<lambda>p. Inr (pipe_send (Reply_string (g p)) self))) (answered (f # request) self)"
    if "streq (cstr f) ''PEER NAME''" for x e g
    using kinds that by (auto intro!: steady_node_peer reply simp: ensures_def split: option.split)
  show ?thesis unfolding api_query_def
    by (intro ensures_if ensures_pop header ep nm ensures_silent [OF _ req])
      (auto simp: streq_cstr c_string_def expects_def intro!: reply answeredI(1), simp_all add: linked_def)
qed

text \<open>The contract of the request handler.\<close>

lemma api_answered:
  assumes "node_ok self"
  shows "ensures (zyre_node_recv_api env request self) (answered request self)"
proof (cases request)
  case (Cons f rest)
  then show ?thesis using assms
    by (simp add: zyre_node_recv_api_def pop_string_def zmsg_popstr_def answered_settings answered_network
        answered_message answered_query)
qed (simp add: zyre_node_recv_api_def pop_string_def zmsg_popstr_def)

section \<open>The actor\<close>

definition wake_answered :: "wake \<Rightarrow> zyre_node \<Rightarrow> zyre_node \<Rightarrow> bool" where
  "wake_answered w self s \<longleftrightarrow> (case w of Wake_api request \<Rightarrow> answered request self s | _ \<Rightarrow> linked self s)"

text \<open>The node is sound, and its poller watches the pipe.\<close>

definition attached :: "zyre_node \<Rightarrow> bool" where
  "attached self \<longleftrightarrow> node_ok self \<and> List.member (n_poller self) Pipe"

lemma answered_attached: "attached self \<Longrightarrow> answered request self s \<Longrightarrow> List.member (n_poller s) Pipe"
  by (auto simp: attached_def answered_def linked_def pipe_send_def split: option.splits)

lemma actor_prepared: "ensures (actor_beacon env self) (\<lambda>t. same_tables self t \<and> linked self t)"
  using tables_actor_beacon linked_actor_beacon by (auto simp: ensures_def)

lemma actor_answered:
  assumes "attached self"
  shows "ensures (zyre_node_actor env w self) (\<lambda>s. attached s \<and> wake_answered w self s)"
proof -
  have step: "ensures (if wake_enabled w t then actor_handle env w t else Inr t)
      (\<lambda>s. List.member (n_poller s) Pipe \<and> wake_answered w self s)"
    if t: "same_tables self t" "linked self t" for t
  proof -
    have att: "attached t"
      using assms same_tables_ok [OF t(1)] t(2) by (simp add: attached_def linked_def)
    show ?thesis
    proof (cases "\<exists>request. w = Wake_api request")
      case True
      then obtain request where w: "w = Wake_api request" by blast
      have "answered request self s" if "answered request t s" for s
        using that t(2) att by (auto simp: answered_def linked_def pipe_send_def attached_def split: option.splits)
      then have "ensures (zyre_node_recv_api env request t) (\<lambda>s. List.member (n_poller s) Pipe \<and> answered request self s)"
        using answered_attached [OF att] att
        by (intro ensures_weaken [OF api_answered]) (auto simp: attached_def)
      then show ?thesis using w att by (simp add: actor_handle_def wake_enabled_def attached_def wake_answered_def)
    next
      case False
      have "wake_answered w self s \<and> List.member (n_poller s) Pipe" if "linked t s" for s
        using link.K_trans [OF t(2) that] that att False
        by (cases w) (simp_all add: wake_answered_def linked_def attached_def)
      then have "ensures (actor_handle env w t) (\<lambda>s. List.member (n_poller s) Pipe \<and> wake_answered w self s)"
        "List.member (n_poller t) Pipe \<and> wake_answered w self t"
        using ensures_weaken [OF link.K_handle [OF _ False]] att by (simp_all add: attached_def)
      then show ?thesis by simp
    qed
  qed
  have "ensures (zyre_node_actor env w self) (\<lambda>s. List.member (n_poller s) Pipe \<and> wake_answered w self s)"
    unfolding zyre_node_actor_def using actor_prepared by (rule ensures_and_then) (use step in blast)
  then show ?thesis using node_ok_actor [of self env w] assms by (auto simp: ensures_def attached_def)
qed

lemma attached_initial: "actor_initial self \<Longrightarrow> attached self"
  using node_ok_initial [of self]
  by (auto simp: attached_def actor_initial_def actor_start_def zyre_node_new_def zclock_mono_def pipe_send_def split: if_splits)

interpretation attached: invariant_of actor_initial actor_step attached
proof unfold_locales
  show "attached t" if "actor_step s t" and "attached s" for s t
    using that(1)
  proof (rule actor_stepE)
    show "attached t" if "zyre_node_actor env w s = Inr t" for env w
      using ensuresD [OF actor_answered [OF \<open>attached s\<close>] that] by simp
  qed (use that(2) in \<open>simp add: attached_def\<close>)
qed (rule attached_initial)

lemma reachable_attached: "actor_reachable self \<Longrightarrow> attached self"
  using reachable_run attached.inv_run by blast

end
