(* ===== verification/Zyre_Own_Props.thy ===== *)
theory Zyre_Own_Props
  imports Zyre_Membership_Props Zyre_Pipe
begin

text \<open>
  The node's own groups: a list without repetitions, of C strings, that nothing but the application's joins
  and leaves ever changes. The actor as a whole is a simulation of the specification of \<open>own_step\<close>.
\<close>

section \<open>What leaves the own groups alone\<close>

definition own_kept :: "zyre_node \<Rightarrow> zyre_node \<Rightarrow> bool" where
  "own_kept self s \<longleftrightarrow> own_view s = own_view self"

lemma own_kept_trans: "own_kept a b \<Longrightarrow> own_kept b c \<Longrightarrow> own_kept a c"
  by (simp add: own_kept_def)

lemma own_kept_config: "config s = config self \<Longrightarrow> own_kept self s"
  by (simp add: own_kept_def own_view_def config_def)

lemma own_kept_tables: "same_tables self s \<Longrightarrow> own_kept self s"
  by (simp add: own_kept_def own_view_def same_tables_def)

lemma own_kept_updates [simp]:
  "own_kept a (outbox_send x b) = own_kept a b" "own_kept a (outbox_sendm x b) = own_kept a b"
  "own_kept a (pipe_send r b) = own_kept a b" "own_kept a (zpoller_remove z b) = own_kept a b"
  "own_kept a (b\<lparr>n_beacon := bc\<rparr>) = own_kept a b" "own_kept a (b\<lparr>n_ticks := t\<rparr>) = own_kept a b"
  "own_kept a (b\<lparr>n_inbox := i\<rparr>) = own_kept a b" "own_kept a a"
  by (simp_all add: own_kept_def own_view_def outbox_send_def outbox_sendm_def pipe_send_def zpoller_remove_def)

interpretation own: kept_by_node own_kept
  by unfold_locales (auto simp: own_kept_def own_view_def config_def)

lemma own_kept_stop: "ensures (zyre_node_stop env self) (\<lambda>(rc, s). own_kept self s)"
proof -
  have goodbye: "ensures (if b then each (\<lambda>item. node_peer_send env (snd item) m) items self else Inr self) (own_kept self)"
    for b m items
    by (simp add: own.K_send_each)
  have beacon: "ensures (if b then and_then (beacon_frame env s 0) (\<lambda>beacon.
                    and_then (beacon_send (Beacon_publish beacon (n_interval s)) s) (\<lambda>self.
                      Inr ((zpoller_remove Beacon self)\<lparr>n_beacon := None\<rparr>)))
               else Inr s) (own_kept self)" if s: "own_kept self s" for b s
  proof -
    have "ensures (beacon_send c s) (own_kept self)" for c
      by (rule ensures_weaken [OF tables_beacon]) (rule own_kept_trans [OF s own_kept_tables])
    then show ?thesis using s by (auto simp: ensures_def)
  qed
  show ?thesis unfolding zyre_node_stop_def Let_def
    by (intro ensures_and_then [OF goodbye] ensures_and_then [OF beacon]) simp_all
qed

lemma settings_ensures:
  assumes "\<And>s. own_kept self s \<Longrightarrow> Q s" and "ensures otherwise Q"
  shows "ensures (api_settings env command request self otherwise) Q"
proof -
  have kept: "ensures m Q" if "ensures m (own_kept self)" for m
    using that by (rule ensures_weaken) (rule assms(1))
  have contest: "ensures (case zyre_node_require_peer_group env name self of (g, s) \<Rightarrow>
      Inr (put_group name (zyre_group_set_contest g) s)) Q" for name
    by (rule kept) (auto simp: zyre_node_require_peer_group_def put_group_def own_kept_def own_view_def split: option.split)
  show ?thesis unfolding api_settings_def
    by (intro ensures_if ensures_pop contest assms(2))
      (simp_all add: assms(1) own_kept_def own_view_def pipe_send_def)
qed

lemma own_kept_query:
  assumes "node_ok self"
  shows "ensures (api_query env command request self (Inl e)) (own_kept self)"
proof -
  have "own_kept self s" if "zyre_node_require_peer env self uuid e key = Inr (r, s)" for uuid e key r s
    using ensuresD [OF require_peer_keeps [OF assms] that] by (simp add: required_def own_kept_config)
  then have req: "ensures (api_require_peer env request self) (own_kept self)"
    by (auto simp: api_require_peer_def ensures_def split: prod.splits if_splits)
  have header: "ensures (api_peer_header request self) (own_kept self)"
    unfolding api_peer_header_def
    by (auto intro!: ensures_pop steady_node_peer split: option.split)
  have ep: "ensures (and_then (node_peer a self) (\<lambda>p. and_then (r p) (\<lambda>e. Inr (pipe_send (f e) self)))) (own_kept self)" for a r f
    by (auto intro!: steady_node_peer simp: ensures_def)
  have nm: "ensures (and_then (node_peer a self) (\<lambda>p. Inr (pipe_send (f p) self))) (own_kept self)" for a f
    by (auto intro!: steady_node_peer)
  have o: "ensures (case x of None \<Rightarrow> m | Some a \<Rightarrow> f a) (own_kept self)"
    if "ensures m (own_kept self)" "\<And>a. ensures (f a) (own_kept self)" for x :: "addr option" and m f
    using that by (simp split: option.split)
  show ?thesis unfolding api_query_def
    by (intro ensures_if req header ensures_pop o ep nm) (simp_all add: own_kept_def own_view_def pipe_send_def)
qed

section \<open>Joins and leaves\<close>

text \<open>The call that changes the own groups, as the actor reads it from the pipe.\<close>

definition call_of :: "byte list list \<Rightarrow> own_call option" where
  "call_of request = (case request of f # g # rest \<Rightarrow>
       if cstr f = ''JOIN'' then Some (Join_call (cstr g))
       else if cstr f = ''LEAVE'' then Some (Leave_call (cstr g)) else None
     | _ \<Rightarrow> None)"

definition own_called :: "own_call option \<Rightarrow> string list \<times> byte \<Rightarrow> string list \<times> byte" where
  "own_called call own = (case call of Some c \<Rightarrow> own_step c own | None \<Rightarrow> own)"

definition follows :: "byte list list \<Rightarrow> zyre_node \<Rightarrow> zyre_node \<Rightarrow> bool" where
  "follows request self s \<longleftrightarrow> own_view s = own_called (call_of request) (own_view self)"

lemma own_send_peers: "ensures (each (zyre_node_send_peer env msg) items self) (\<lambda>s. own_view s = own_view self)"
  unfolding zyre_node_send_peer_def
  by (rule ensures_weaken [OF own.K_send_each]) (simp add: own_kept_def)

lemma own_sent: "each (zyre_node_send_peer env msg) items self = Inr s
    \<Longrightarrow> n_own_groups s = n_own_groups self \<and> n_status s = n_status self"
  using ensuresD [OF own_send_peers] by (force simp: own_view_def)

lemma dispatch_own:
  "cstr f = ''JOIN'' \<Longrightarrow> zyre_node_recv_api env (f # rest) self = api_join env rest self"
  "cstr f = ''LEAVE'' \<Longrightarrow> zyre_node_recv_api env (f # rest) self = api_leave env rest self"
  by (simp_all add: zyre_node_recv_api_def pop_string_def zmsg_popstr_def api_settings_def api_network_def
      api_message_def streq_def)

lemma join_follows:
  assumes "own_ok (own_view self)" and "cstr f = ''JOIN''"
  shows "ensures (api_join env request self) (follows (f # request) self)"
proof (cases request)
  case Nil
  then show ?thesis by (simp add: api_join_def pop_string_def zmsg_popstr_def)
next
  case (Cons g rest)
  have new: "follows (f # g # rest) self s" if "own_view s = own_step (Join_call (cstr g)) (own_view self)" for s
    using that assms(2) by (simp add: follows_def call_of_def own_called_def)
  have "zlist_exists (n_own_groups self) (cstr g) \<longleftrightarrow> cstr g \<in> set (n_own_groups self)"
    using assms(1) zlist_exists_iff [of "n_own_groups self" "n_status self"] by (simp add: own_view_def)
  then show ?thesis
    by (auto simp: api_join_def pop_string_def zmsg_popstr_def Cons Let_def own_view_def ensures_def dest!: own_sent intro!: new)
qed

lemma leave_follows:
  assumes "own_ok (own_view self)" and "cstr f = ''LEAVE''"
  shows "ensures (api_leave env request self) (follows (f # request) self)"
proof (cases request)
  case Nil
  then show ?thesis by (simp add: api_leave_def pop_string_def zmsg_popstr_def)
next
  case (Cons g rest)
  have new: "follows (f # g # rest) self s" if "own_view s = own_step (Leave_call (cstr g)) (own_view self)" for s
    using that assms(2) by (simp add: follows_def call_of_def own_called_def)
  have "zlist_exists (n_own_groups self) (cstr g) \<longleftrightarrow> cstr g \<in> set (n_own_groups self)"
    "zlist_remove (n_own_groups self) (cstr g) = remove1 (cstr g) (n_own_groups self)"
    using assms(1) zlist_exists_iff [of "n_own_groups self" "n_status self"] zlist_remove_eq [of "n_own_groups self" "n_status self"]
    by (simp_all add: own_view_def)
  then show ?thesis
    by (auto simp: api_leave_def pop_string_def zmsg_popstr_def Cons Let_def own_view_def ensures_def dest!: own_sent intro!: new)
qed

lemma others_keep_own:
  assumes "node_ok self" and "cstr f \<noteq> ''JOIN''" and "cstr f \<noteq> ''LEAVE''"
  shows "ensures (zyre_node_recv_api env (f # rest) self) (own_kept self)"
proof -
  have not: "\<not> streq (cstr f) ''JOIN''" "\<not> streq (cstr f) ''LEAVE''"
    by (simp_all add: assms(2,3) streq_cstr c_string_def)
  have whisper: "ensures (api_whisper env rest self) (own_kept self)"
    unfolding api_whisper_def Let_def
    by (rule ensures_pop) (auto split: option.split intro: own.ensures_steady_K steady_peer_send)
  have shout: "ensures (api_shout env rest self) (own_kept self)"
    unfolding api_shout_def Let_def
    by (rule ensures_pop) (auto split: option.split intro: own.ensures_steady_K steady_group_send)
  have msg: "ensures (api_message env (cstr f) rest self (api_query env (cstr f) rest self (Inl Assertion_failed))) (own_kept self)"
    unfolding api_message_def using not
    by (intro ensures_if whisper shout own_kept_query [OF assms(1)]) simp_all
  have "ensures (api_network env (cstr f) rest self
      (api_message env (cstr f) rest self (api_query env (cstr f) rest self (Inl Assertion_failed)))) (own_kept self)"
    by (rule network_ensures [OF own_kept_tables msg]) (use own_kept_stop in \<open>auto simp: ensures_def\<close>)
  then show ?thesis using settings_ensures [of self "own_kept self"]
    by (simp add: zyre_node_recv_api_def pop_string_def zmsg_popstr_def)
qed

lemma api_follows:
  assumes "node_ok self" and "own_ok (own_view self)"
  shows "ensures (zyre_node_recv_api env request self) (follows request self)"
proof (cases request)
  case Nil
  then show ?thesis by (simp add: zyre_node_recv_api_def pop_string_def zmsg_popstr_def)
next
  case (Cons f rest)
  consider "cstr f = ''JOIN''" | "cstr f = ''LEAVE''" | "cstr f \<noteq> ''JOIN''" "cstr f \<noteq> ''LEAVE''" by blast
  then show ?thesis
  proof cases
    case 3
    then have "call_of request = None" by (simp add: Cons call_of_def split: list.split)
    then show ?thesis using ensures_weaken [OF others_keep_own [OF assms(1) 3]]
      by (simp add: Cons follows_def own_called_def own_kept_def)
  qed (use join_follows leave_follows assms(2) in \<open>simp_all add: Cons dispatch_own\<close>)
qed

section \<open>The actor\<close>

text \<open>The call that wakes the actor.\<close>

definition waking_call :: "wake \<Rightarrow> own_call option" where
  "waking_call w = (case w of Wake_api request \<Rightarrow> call_of request | _ \<Rightarrow> None)"

lemma actor_follows:
  assumes "attached self" and "own_ok (own_view self)"
  shows "ensures (zyre_node_actor env w self) (\<lambda>s. own_view s = own_called (waking_call w) (own_view self))"
proof -
  let ?Q = "\<lambda>s. own_view s = own_called (waking_call w) (own_view self)"
  have step: "ensures (if wake_enabled w t then actor_handle env w t else Inr t) ?Q"
    if t: "same_tables self t" "linked self t" for t
  proof -
    have ok: "node_ok t" and view: "own_view t = own_view self" and watch: "List.member (n_poller t) Pipe"
      using assms same_tables_ok [OF t(1)] own_kept_tables [OF t(1)] t(2)
      by (simp_all add: attached_def own_kept_def linked_def)
    show ?thesis
    proof (cases "\<exists>request. w = Wake_api request")
      case True
      then obtain request where w: "w = Wake_api request" by blast
      have "ensures (zyre_node_recv_api env request t) ?Q"
        by (rule ensures_weaken [OF api_follows [OF ok]])
          (use assms view w in \<open>simp_all add: follows_def waking_call_def\<close>)
      then show ?thesis using w watch by (simp add: actor_handle_def wake_enabled_def)
    next
      case False
      then have "waking_call w = None" by (cases w) (simp_all add: waking_call_def)
      then have "ensures (actor_handle env w t) ?Q" "?Q t"
        using ensures_weaken [OF own.K_handle [OF ok False]] view
        by (simp_all add: own_called_def own_kept_def)
      then show ?thesis by simp
    qed
  qed
  show ?thesis unfolding zyre_node_actor_def using actor_prepared by (rule ensures_and_then) (use step in blast)
qed

lemma own_ok_called: "own_ok own \<Longrightarrow> own_ok (own_called (waking_call w) own)"
proof -
  have "c_string (call_name c)" if "waking_call w = Some c" for c
    using that by (auto simp: waking_call_def call_of_def split: wake.splits list.splits if_splits)
  then show "own_ok own \<Longrightarrow> own_ok (own_called (waking_call w) own)"
    by (cases "waking_call w") (simp_all add: own_called_def own_ok_step)
qed

definition own_inv :: "zyre_node \<Rightarrow> bool" where
  "own_inv self \<longleftrightarrow> attached self \<and> own_ok (own_view self)"

interpretation owned: invariant_of actor_initial actor_step own_inv
proof unfold_locales
  show "own_inv t" if "actor_step s t" and "own_inv s" for s t
    using that(1)
  proof (rule actor_stepE)
    fix env w assume run: "zyre_node_actor env w s = Inr t"
    have "own_view t = own_called (waking_call w) (own_view s)"
      using ensuresD [OF actor_follows run] that(2) by (simp add: own_inv_def)
    then have "own_ok (own_view t)" using that(2) own_ok_called by (simp add: own_inv_def)
    then show ?thesis using attached.inv_step [OF that(1)] that(2) by (simp add: own_inv_def)
  next
    fix frames assume "t = s\<lparr>n_inbox := n_inbox s @ frames\<rparr>"
    then show ?thesis using that(2) by (simp add: own_inv_def attached_def own_view_def)
  qed
next
  show "own_inv s" if "actor_initial s" for s
    using that attached_initial [OF that]
    by (auto simp: actor_initial_def actor_start_def zyre_node_new_def zclock_mono_def pipe_send_def
        own_inv_def own_ok_def own_view_def split: if_splits)
qed

lemma reachable_own: "actor_reachable self \<Longrightarrow> own_inv self"
  using reachable_run owned.inv_run by blast

end
