(* ===== verification/Zyre_Client_Props.thy ===== *)
theory Zyre_Client_Props
  imports Zyre_Client Zyre_Own_Props
begin

text \<open>
  The application and its node together: no call is ever given the reply of another, whatever order the
  actor's turns come in, and the application reads back the effect of its own joins and leaves.
\<close>

section \<open>The requests on a pipe\<close>

fun requests_from :: "byte list list \<Rightarrow> zframe list \<Rightarrow> byte list list list" where
  "requests_from acc [] = []"
| "requests_from acc (f # fs) = (if fr_more f then requests_from (acc @ [fr_data f]) fs
     else (acc @ [fr_data f]) # requests_from [] fs)"

definition requests :: "zframe list \<Rightarrow> byte list list list" where
  "requests fs = requests_from [] fs"

text \<open>Frames that end with the end of a message.\<close>

definition whole :: "zframe list \<Rightarrow> bool" where
  "whole fs \<longleftrightarrow> (fs = [] \<or> \<not> fr_more (last fs))"

lemma requests_from_append:
  "whole fs \<Longrightarrow> fs \<noteq> [] \<or> acc = [] \<Longrightarrow> requests_from acc (fs @ gs) = requests_from acc fs @ requests_from [] gs"
  by (induction acc fs rule: requests_from.induct) (auto simp: whole_def split: if_splits)

lemma requests_append: "whole fs \<Longrightarrow> requests (fs @ gs) = requests fs @ requests gs"
  by (simp add: requests_def requests_from_append)

lemma requests_from_complete: "requests_from acc fs \<noteq> [] \<longleftrightarrow> complete fs"
  by (induction acc fs rule: requests_from.induct) (auto simp: complete_def)

lemma requests_complete: "requests fs \<noteq> [] \<longleftrightarrow> complete fs"
  by (simp add: requests_def requests_from_complete)

lemma requests_from_recv:
  "complete fs \<Longrightarrow> zmsg_recv_rest fs = (d, rest) \<Longrightarrow>
     \<exists>taken. fs = taken @ rest \<and> taken \<noteq> [] \<and> whole taken \<and> requests_from acc taken = [acc @ d]"
proof (induction fs arbitrary: acc d)
  case (Cons f fs)
  show ?case
  proof (cases "fr_more f")
    case True
    then obtain ds where ds: "zmsg_recv_rest fs = (ds, rest)" "d = fr_data f # ds" "complete fs"
      using Cons.prems by (auto simp: complete_def split: prod.splits)
    obtain taken where "fs = taken @ rest" "taken \<noteq> []" "whole taken"
      "requests_from (acc @ [fr_data f]) taken = [acc @ d]"
      using Cons.IH [OF ds(3,1), of "acc @ [fr_data f]"] ds(2) by auto
    then show ?thesis using True by (intro exI [of _ "f # taken"]) (simp add: whole_def)
  next
    case False
    then show ?thesis using Cons.prems by (intro exI [of _ "[f]"]) (simp add: whole_def)
  qed
qed (simp add: complete_def)

lemma requests_recv:
  assumes "complete fs" and "zmsg_recv_rest fs = (d, rest)"
  obtains taken where "fs = taken @ rest" and "whole taken" and "requests taken = [d]"
    and "requests fs = d # requests rest"
  using requests_from_recv [OF assms, of "[]"] requests_append unfolding requests_def by fastforce

lemma whole_append: "whole fs \<Longrightarrow> whole gs \<Longrightarrow> whole (fs @ gs)"
  by (cases "gs = []") (auto simp: whole_def)

lemma whole_rest: "whole (fs @ gs) \<Longrightarrow> whole gs"
  by (auto simp: whole_def)

lemma requests_multipart: "ds \<noteq> [] \<Longrightarrow> requests_from acc (multipart ds) = [acc @ ds]"
  by (induction ds arbitrary: acc rule: multipart.induct) auto

lemma multipart_Nil_iff [simp]: "multipart ds = [] \<longleftrightarrow> ds = []"
  by (induction ds rule: multipart.induct) auto

lemma last_multipart: "ds \<noteq> [] \<Longrightarrow> \<not> fr_more (last (multipart ds))"
  by (induction ds rule: multipart.induct) auto

section \<open>Calls and their requests\<close>

fun wait_kind :: "zyre_wait \<Rightarrow> reply_kind" where
  "wait_kind Wait_uuid = String_reply"
| "wait_kind Wait_name = String_reply"
| "wait_kind Wait_set_endpoint = Signal_reply"
| "wait_kind Wait_start = Signal_reply"
| "wait_kind Wait_stop = Signal_reply"
| "wait_kind Wait_peers = List_reply"
| "wait_kind Wait_peers_by_group = List_reply"
| "wait_kind Wait_peer_address = String_reply"
| "wait_kind Wait_peer_header_value = String_reply"
| "wait_kind Wait_own_groups = List_reply"
| "wait_kind Wait_peer_groups = List_reply"

definition due :: "zframe list \<Rightarrow> reply_kind list" where
  "due fs = List.map_filter expects (requests fs)"

definition awaited :: "zyre_wait option \<Rightarrow> reply_kind list" where
  "awaited w = (case w of None \<Rightarrow> [] | Some w \<Rightarrow> [wait_kind w])"

lemmas request_defs = zyre_uuid_def zyre_name_def zyre_set_name_def zyre_set_header_def zyre_set_verbose_def
  zyre_set_port_def zyre_set_beacon_peer_port_def zyre_set_evasive_timeout_def zyre_set_silent_timeout_def
  zyre_set_expired_timeout_def zyre_set_interval_def zyre_set_endpoint_def zyre_set_contest_in_group_def
  zyre_set_advertised_endpoint_def zyre_set_zcert_def zyre_set_zap_domain_def zyre_require_peer_def
  zyre_gossip_bind_def zyre_gossip_connect_def zyre_gossip_connect_curve_def zyre_gossip_unpublish_def
  zyre_start_def zyre_stop_def zyre_join_def zyre_leave_def zyre_whisper_def zyre_shout_def zyre_whispers_def
  zyre_shouts_def zyre_peers_def zyre_peers_by_group_def zyre_peer_address_def zyre_peer_header_value_def
  zyre_own_groups_def zyre_peer_groups_def zyre_print_def zyre_new_def

lemmas pipe_defs = pipe_sendx_def pipe_sendm_def pipe_str_def pipe_msg_def

lemma public_whole: "public_call frames w \<Longrightarrow> whole frames"
  by (induction rule: public_call.induct)
    (simp_all add: request_defs pipe_defs whole_def last_multipart)

lemma public_due: "public_call frames w \<Longrightarrow> due frames = awaited w"
  by (induction rule: public_call.induct)
    (simp_all add: request_defs pipe_defs due_def requests_def requests_multipart expects_def awaited_def c_string_def
      map_filter_simps)

section \<open>Replies\<close>

definition unread :: "zyre_t \<Rightarrow> pipe_reply list" where
  "unread self = drop (z_read self) (n_pipe (z_actor self))"

definition in_step :: "zyre_t \<Rightarrow> bool" where
  "in_step self \<longleftrightarrow> whole (z_pipe self) \<and> z_read self \<le> length (n_pipe (z_actor self))
     \<and> map kind_of (unread self) @ due (z_pipe self) = awaited (z_wait self)"

lemma map_filter_append: "List.map_filter f (xs @ ys) = List.map_filter f xs @ List.map_filter f ys"
  by (induction xs) (simp_all add: map_filter_simps split: option.split)

lemma due_append: "whole fs \<Longrightarrow> due (fs @ gs) = due fs @ due gs"
  by (simp add: due_def requests_append map_filter_append)

lemma run_reachable: "zyre_run written self \<Longrightarrow> actor_reachable (z_actor self)"
proof (induction rule: zyre_run.induct)
  case (made env uuid name self)
  then have "actor_start env uuid = Some (z_actor self)"
    by (auto simp: zyre_object_def split: option.splits)
  then have "actor_initial (z_actor self)" unfolding actor_initial_def by blast
  then show ?case by (rule actor_reachable.initial)
next
  case (serve written self request rest env node)
  then show ?case using actor_reachable.step [OF _ actor_step.turn] by simp
next
  case (turn written self w env node)
  then show ?case using actor_reachable.step [OF _ actor_step.turn] by simp
next
  case (arrive written self frames)
  then show ?case using actor_reachable.step [OF _ actor_step.arrive] by simp
next
  case (reply written self w result s)
  then show ?case by (auto simp: zyre_reply_def Let_def split: pipe_reply.splits if_splits)
next
  case (event written self msg s)
  then show ?case by (auto simp: zyre_recv_def Let_def split: if_splits prod.splits)
qed (simp_all add: zyre_call_def zyre_destroy_def)

text \<open>A turn of the actor appends to the pipe what its request is due.\<close>

lemma pipe_turn:
  assumes "actor_reachable node" and "zyre_node_actor env w node = Inr s"
  shows "\<exists>rs. n_pipe s = n_pipe node @ rs
    \<and> map kind_of rs = (case w of Wake_api request \<Rightarrow> (case expects request of None \<Rightarrow> [] | Some k \<Rightarrow> [k]) | _ \<Rightarrow> [])"
  using ensuresD [OF actor_answered [OF reachable_attached [OF assms(1)]] assms(2)]
  by (auto simp: wake_answered_def answered_def linked_def pipe_send_def split: wake.splits option.splits)

lemma object_made:
  assumes "zyre_object env uuid name = Some self"
  shows "n_pipe (z_actor self) = [Reply_signal 0]" and "z_pipe self = zyre_new name" and "z_read self = 1"
    and "z_wait self = None" and "own_view (z_actor self) = ([], 0)" and "\<not> z_gone self"
  using assms by (auto simp: zyre_object_def actor_start_def zyre_node_new_def zclock_mono_def pipe_send_def own_view_def
      split: option.splits if_splits)

lemma new_requests: "requests (zyre_new name) = (case name of None \<Rightarrow> [] | Some n \<Rightarrow> [[str_bytes ''SET NAME'', str_bytes n]])"
  "whole (zyre_new name)"
  by (simp_all add: zyre_new_def pipe_sendx_def whole_def requests_def split: option.split)

lemma in_step_run: "zyre_run written self \<Longrightarrow> in_step self"
proof (induction rule: zyre_run.induct)
  case (made env uuid name self)
  then show ?case
    by (simp add: in_step_def unread_def object_made [OF made(1)] new_requests due_def awaited_def expects_def c_string_def
        map_filter_simps split: option.split)
next
  case (call written self frames w)
  then show ?case using public_whole [OF call(4)] public_due [OF call(4)]
    by (auto simp: in_step_def unread_def zyre_call_def whole_append due_append awaited_def)
next
  case (serve written self request rest env node)
  obtain taken where t: "z_pipe self = taken @ rest" "requests (z_pipe self) = request # requests rest"
    by (rule requests_recv [OF serve(3,4)])
  obtain rs where "n_pipe node = n_pipe (z_actor self) @ rs"
    "map kind_of rs = (case expects request of None \<Rightarrow> [] | Some k \<Rightarrow> [k])"
    using pipe_turn [OF run_reachable [OF serve(1)] serve(5)] by auto
  moreover have "due (z_pipe self) = (case expects request of None \<Rightarrow> [] | Some k \<Rightarrow> [k]) @ due rest"
    using t(2) by (simp add: due_def map_filter_simps split: option.split)
  moreover have "whole rest" using serve(6) t(1) whole_rest by (auto simp: in_step_def)
  ultimately show ?case using serve(6) by (simp add: in_step_def unread_def)
next
  case (turn written self w env node)
  obtain rs where "n_pipe node = n_pipe (z_actor self) @ rs" "map kind_of rs = []"
    using pipe_turn [OF run_reachable [OF turn(1)] turn(4)] turn(3) by (auto split: wake.splits)
  then show ?case using turn(5) by (simp add: in_step_def unread_def)
next
  case (reply written self w result s)
  have s: "z_pipe s = z_pipe self" "z_actor s = z_actor self" "z_read s = Suc (z_read self)" "z_wait s = None"
    using reply(4) by (auto simp: zyre_reply_def Let_def split: pipe_reply.splits if_splits)
  have "unread self = n_pipe (z_actor self) ! z_read self # drop (Suc (z_read self)) (n_pipe (z_actor self))"
    using reply(3) by (simp add: unread_def Cons_nth_drop_Suc)
  then show ?case using reply s by (simp add: in_step_def unread_def awaited_def)
next
  case (event written self msg s)
  then show ?case by (auto simp: zyre_recv_def Let_def in_step_def unread_def split: if_splits prod.splits)
next
  case (destroy written self)
  then show ?case
    by (simp add: in_step_def unread_def zyre_destroy_def pipe_str_def whole_append due_append)
      (simp add: whole_def due_def requests_def expects_def c_string_def map_filter_simps)
qed (simp_all add: in_step_def unread_def)

lemma due_complete: "due fs \<noteq> [] \<Longrightarrow> complete fs"
  using requests_complete [of fs] by (auto simp: due_def map_filter_simps)

lemma reply_accepted: "kind_of r = wait_kind w \<Longrightarrow> \<exists>result s. zyre_reply w r self = Inr (result, s)"
  by (cases r; cases w) (simp_all add: zyre_reply_def Let_def)

text \<open>C26: replies and calls stay in step, in every order of the actor's turns and the application's calls:
  while no call waits there is no reply to read, and while one waits there is either exactly one reply, of
  the form that this call reads, or none and a whole request that the actor has still to read.\<close>

theorem replies_match_calls:
  assumes "zyre_run written self"
  shows "case z_wait self of None \<Rightarrow> unread self = []
    | Some w \<Rightarrow> unread self = [] \<and> complete (z_pipe self)
        \<or> (\<exists>r result s. unread self = [r] \<and> zyre_reply w r self = Inr (result, s))"
proof (cases "z_wait self")
  case None
  then show ?thesis using in_step_run [OF assms] by (simp add: in_step_def awaited_def)
next
  case (Some w)
  then have both: "map kind_of (unread self) @ due (z_pipe self) = [wait_kind w]"
    using in_step_run [OF assms] by (simp add: in_step_def awaited_def)
  show ?thesis
  proof (cases "unread self")
    case Nil
    then show ?thesis using both due_complete Some by simp
  next
    case (Cons r rs)
    then have "kind_of r = wait_kind w" "rs = []" using both by simp_all
    then show ?thesis using Cons Some reply_accepted by simp
  qed
qed

section \<open>A run\<close>

text \<open>The actor reads one request, if there is one.\<close>

definition zyre_serve :: "env \<Rightarrow> zyre_t \<Rightarrow> zyre_t outcome" where
  "zyre_serve env self =
     (if n_terminated (z_actor self) \<or> \<not> complete (z_pipe self) then Inr self
      else case zmsg_recv_rest (z_pipe self) of (request, rest) \<Rightarrow>
        and_then (zyre_node_actor env (Wake_api request) (z_actor self)) (\<lambda>node.
          Inr (self\<lparr>z_actor := node, z_pipe := rest\<rparr>)))"

lemma run_serve: "zyre_run written self \<Longrightarrow> ensures (zyre_serve env self) (zyre_run written)"
  by (auto simp: zyre_serve_def ensures_def split: prod.splits intro: zyre_run.serve)

lemma run_serves: "zyre_run written self \<Longrightarrow> ensures (each (\<lambda>_. zyre_serve env) xs self) (zyre_run written)"
  by (rule ensures_each) (auto intro: run_serve)

definition group_calls :: "zframe list" where
  "group_calls = zyre_join ''A'' @ zyre_join ''B'' @ zyre_leave ''A''"

definition sample_object :: zyre_t where
  "sample_object = the (zyre_object run_env \<lparr>uu_data = replicate 16 9, uu_str = ''9''\<rparr> (Some ''n''))"

text \<open>Two joins, a leave and the question, and what the actor makes of them.\<close>

definition asked_object :: zyre_t where
  "asked_object = zyre_call zyre_own_groups (Some Wait_own_groups) (zyre_call (zyre_leave ''A'') None
     (zyre_call (zyre_join ''B'') None (zyre_call (zyre_join ''A'') None sample_object)))"

definition served_object :: zyre_t where
  "served_object = (case each (\<lambda>_. zyre_serve run_env) [(), (), (), (), ()] asked_object of Inr s \<Rightarrow> s | Inl e \<Rightarrow> asked_object)"

definition sample_written :: "zframe list" where
  "sample_written = (((zyre_new (Some ''n'') @ zyre_join ''A'') @ zyre_join ''B'') @ zyre_leave ''A'') @ zyre_own_groups"

lemma sample_object_made: "zyre_object run_env \<lparr>uu_data = replicate 16 9, uu_str = ''9''\<rparr> (Some ''n'') = Some sample_object"
  by (simp add: sample_object_def zyre_object_def actor_start_def zyre_node_new_def run_env_def sample_env_def zclock_mono_def)

lemma asked_run: "zyre_run sample_written asked_object"
proof -
  have "z_wait sample_object = None" "\<not> z_gone sample_object"
    using object_made [OF sample_object_made] by simp_all
  then show ?thesis unfolding sample_written_def asked_object_def
    by (intro zyre_run.call zyre_run.made [OF sample_object_made] public_call.intros)
      (simp_all add: zyre_call_def c_string_def)
qed

lemma served_run: "zyre_run sample_written served_object"
  using asked_run run_serves [OF asked_run, of run_env "[(), (), (), (), ()]"]
  by (auto simp: served_object_def ensures_def split: sum.split)

lemma served_state:
  "case each (\<lambda>_. zyre_serve run_env) [(), (), (), (), ()] asked_object of
     Inl e \<Rightarrow> False
   | Inr s \<Rightarrow> z_wait s = Some Wait_own_groups \<and> n_pipe (z_actor s) = [Reply_signal 0, Reply_list (Some [''B''])]
       \<and> z_read s = 1"
  by code_simp

lemma served_object_sel:
  "z_wait served_object = Some Wait_own_groups"
  "n_pipe (z_actor served_object) = [Reply_signal 0, Reply_list (Some [''B''])]" "z_read served_object = 1"
  using served_state by (auto simp: served_object_def split: sum.splits)

theorem replies_match_calls_witness:
  "z_wait served_object = Some Wait_own_groups
   \<and> (\<exists>r result s. unread served_object = [r] \<and> zyre_reply Wait_own_groups r served_object = Inr (result, s))"
  using replies_match_calls [OF served_run] served_object_sel by (simp add: unread_def)

section \<open>Reading back\<close>

definition calls_of :: "zframe list \<Rightarrow> own_call list" where
  "calls_of frames = List.map_filter call_of (requests frames)"

lemma calls_of_append: "whole fs \<Longrightarrow> calls_of (fs @ gs) = calls_of fs @ calls_of gs"
  by (simp add: calls_of_def requests_append map_filter_append)

text \<open>Of all public functions the two that change the own groups.\<close>

lemma calls_of_public:
  "c_string name \<Longrightarrow> calls_of (zyre_join name) = [Join_call name]"
  "c_string name \<Longrightarrow> calls_of (zyre_leave name) = [Leave_call name]"
  "calls_of zyre_own_groups = []"
  by (simp_all add: calls_of_def request_defs pipe_defs requests_def call_of_def map_filter_simps c_string_def)

definition own_after :: "zframe list \<Rightarrow> string list \<times> byte" where
  "own_after frames = fold own_step (calls_of frames) ([], 0)"

lemma own_after_append: "whole fs \<Longrightarrow> own_after (fs @ gs) = fold own_step (calls_of gs) (own_after fs)"
  by (simp add: own_after_def calls_of_append)

definition own_asked :: "byte list list" where
  "own_asked = [str_bytes ''OWN GROUPS'']"

text \<open>The node is as the requests it has read make it; the question is the last request still to be read, or
  its answer is there.\<close>

definition reads_back :: "zframe list \<Rightarrow> zyre_t \<Rightarrow> bool" where
  "reads_back written self \<longleftrightarrow> (\<exists>served. written = served @ z_pipe self \<and> whole served
     \<and> own_view (z_actor self) = own_after served)
   \<and> (z_wait self = Some Wait_own_groups \<longrightarrow>
        (unread self = [] \<and> requests (z_pipe self) \<noteq> [] \<and> last (requests (z_pipe self)) = own_asked)
        \<or> unread self = [Reply_list (Some (fst (own_after written)))])"

lemma own_turn:
  assumes "actor_reachable node" and "zyre_node_actor env w node = Inr s"
  shows "own_view s = own_called (waking_call w) (own_view node)"
  using ensuresD [OF actor_follows assms(2)] reachable_own [OF assms(1)] by (simp add: own_inv_def)

lemma asked_turn:
  assumes "actor_reachable node" and "zyre_node_actor env (Wake_api own_asked) node = Inr s"
  shows "n_pipe s = n_pipe node @ [Reply_list (Some (fst (own_view node)))]"
proof -
  obtain t where t: "actor_beacon env node = Inr t"
    "(if wake_enabled (Wake_api own_asked) t then zyre_node_recv_api env own_asked t else Inr t) = Inr s"
    using assms(2) by (auto simp: zyre_node_actor_def actor_handle_def and_then_def split: sum.splits cong: if_cong)
  have "same_tables node t" "linked node t" using ensuresD [OF actor_prepared t(1)] by simp_all
  moreover have "zyre_node_recv_api env own_asked t = Inr (pipe_send (Reply_list (Some (n_own_groups t))) t)"
    by (simp add: own_asked_def zyre_node_recv_api_def pop_string_def c_string_def api_settings_def api_network_def
        api_message_def api_query_def streq_def)
  ultimately show ?thesis using t(2) reachable_attached [OF assms(1)]
    by (auto simp: same_tables_def linked_def attached_def wake_enabled_def pipe_send_def own_view_def)
qed

inductive_cases own_groups_callE: "public_call frames (Some Wait_own_groups)"

lemma asks_own: "public_call frames (Some Wait_own_groups) \<Longrightarrow> frames = zyre_own_groups"
  by (erule own_groups_callE)

lemma requests_own: "requests zyre_own_groups = [own_asked]"
  by (simp add: request_defs pipe_defs requests_def own_asked_def)

lemma reads_back_serve:
  assumes run: "zyre_run written self" and rb: "reads_back written self"
    and recv: "complete (z_pipe self)" "zmsg_recv_rest (z_pipe self) = (request, rest)"
    and turn: "zyre_node_actor env (Wake_api request) (z_actor self) = Inr node"
  shows "reads_back written (self\<lparr>z_actor := node, z_pipe := rest\<rparr>)"
proof -
  obtain served where served: "written = served @ z_pipe self" "whole served" "own_view (z_actor self) = own_after served"
    using rb by (auto simp: reads_back_def)
  obtain taken where taken: "z_pipe self = taken @ rest" "whole taken" "requests taken = [request]"
    "requests (z_pipe self) = request # requests rest"
    by (rule requests_recv [OF recv])
  note reach = run_reachable [OF run]
  have calls: "calls_of taken = (case call_of request of None \<Rightarrow> [] | Some c \<Rightarrow> [c])"
    using taken(3) by (simp add: calls_of_def map_filter_simps split: option.split)
  then have "own_view node = own_after (served @ taken)"
    using own_turn [OF reach turn] served
    by (simp add: own_after_append waking_call_def own_called_def split: option.split)
  then have first: "written = (served @ taken) @ rest" "whole (served @ taken)" "own_view node = own_after (served @ taken)"
    using served(1,2) taken(1,2) whole_append by simp_all
  have second: "unread (self\<lparr>z_actor := node, z_pipe := rest\<rparr>) = [] \<and> requests rest \<noteq> [] \<and> last (requests rest) = own_asked
      \<or> unread (self\<lparr>z_actor := node, z_pipe := rest\<rparr>) = [Reply_list (Some (fst (own_after written)))]"
    if wait: "z_wait self = Some Wait_own_groups"
  proof -
    have step: "map kind_of (unread self) @ due (z_pipe self) = [List_reply]" "z_read self \<le> length (n_pipe (z_actor self))"
      using in_step_run [OF run] wait by (simp_all add: in_step_def awaited_def)
    obtain rs where rs: "n_pipe node = n_pipe (z_actor self) @ rs"
      "map kind_of rs = (case expects request of None \<Rightarrow> [] | Some k \<Rightarrow> [k])"
      using pipe_turn [OF reach turn] by auto
    have new: "unread (self\<lparr>z_actor := node, z_pipe := rest\<rparr>) = unread self @ rs"
      using step(2) rs(1) by (simp add: unread_def)
    have last: "unread self = [] \<and> last (requests (z_pipe self)) = own_asked
        \<or> unread self = [Reply_list (Some (fst (own_after written)))]"
      using rb wait by (auto simp: reads_back_def)
    show ?thesis
    proof (cases "unread self = []")
      case False
      then have "unread self = [Reply_list (Some (fst (own_after written)))]" using last by blast
      moreover from this have "expects request = None"
        using step(1) taken(4) by (cases "expects request") (simp_all add: due_def map_filter_simps)
      ultimately show ?thesis using rs(2) new by simp
    next
      case True
      then have asked: "last (request # requests rest) = own_asked" using last taken(4) by simp
      show ?thesis
      proof (cases "requests rest = []")
        case True
        then have q: "request = own_asked" using asked by simp
        then have "rs = [Reply_list (Some (fst (own_view (z_actor self))))]"
          using asked_turn [OF reach] turn rs(1) by simp
        moreover have "calls_of (z_pipe self) = []"
          using taken(4) True q by (simp add: calls_of_def map_filter_simps own_asked_def call_of_def)
        then have "own_after written = own_after served" by (simp add: served(1,2) own_after_append)
        ultimately show ?thesis using new \<open>unread self = []\<close> served(3) by simp
      next
        case False
        have "expects own_asked = Some List_reply" by (simp add: own_asked_def expects_def c_string_def)
        then have "due rest \<noteq> []"
          using False asked by (cases "requests rest" rule: rev_cases) (simp_all add: due_def map_filter_append map_filter_simps)
        then have "expects request = None"
          using step(1) taken(4) True by (cases "expects request") (auto simp: due_def map_filter_simps)
        then show ?thesis using False asked new rs(2) True by simp
      qed
    qed
  qed
  show ?thesis unfolding reads_back_def using first second by auto
qed

lemma reads_back_run: "zyre_run written self \<Longrightarrow> reads_back written self"
proof (induction rule: zyre_run.induct)
  case (made env uuid name self)
  show ?case unfolding reads_back_def object_made [OF made(1)]
    by (rule conjI, rule exI [of _ "[]"]) (simp_all add: whole_def own_after_def calls_of_def requests_def map_filter_simps)
next
  case (call written self frames w)
  obtain served where "written = served @ z_pipe self" "whole served" "own_view (z_actor self) = own_after served"
    using call(5) by (auto simp: reads_back_def)
  moreover have "unread self = []" "whole (z_pipe self)"
    using in_step_run [OF call(1)] call(2) by (simp_all add: in_step_def awaited_def)
  moreover have "requests frames = [own_asked]" if "w = Some Wait_own_groups"
    using asks_own call(4) requests_own that by blast
  ultimately show ?case
    by (auto simp: reads_back_def zyre_call_def unread_def requests_append)
next
  case (serve written self request rest env node)
  then show ?case by (intro reads_back_serve)
next
  case (turn written self w env node)
  have "own_view node = own_view (z_actor self)"
    using own_turn [OF run_reachable [OF turn(1)] turn(4)] turn(3)
    by (cases w) (auto simp: waking_call_def own_called_def)
  moreover obtain rs where "n_pipe node = n_pipe (z_actor self) @ rs" "map kind_of rs = []"
    using pipe_turn [OF run_reachable [OF turn(1)] turn(4)] turn(3) by (auto split: wake.splits)
  ultimately show ?case using turn(5) by (simp add: reads_back_def unread_def)
next
  case (reply written self w result s)
  have "z_pipe s = z_pipe self" "z_actor s = z_actor self" "z_wait s = None"
    using reply(4) by (auto simp: zyre_reply_def Let_def split: pipe_reply.splits if_splits)
  then show ?case using reply(5) by (simp add: reads_back_def)
next
  case (event written self msg s)
  then show ?case by (auto simp: zyre_recv_def Let_def reads_back_def unread_def split: if_splits prod.splits)
next
  case (destroy written self)
  then show ?case by (auto simp: reads_back_def zyre_destroy_def)
qed (simp_all add: reads_back_def unread_def own_view_def)

text \<open>C25: the application reads back what it has done: whenever a call of \<open>zyre_own_groups\<close> returns, its
  result is the list that the specification makes of all joins and leaves the application has called before,
  in their order, whatever peers, timers and discovery have done to the node in between.\<close>

theorem own_groups_read_back:
  assumes "zyre_run written self" and "z_wait self = Some Wait_own_groups"
    and "z_read self < length (n_pipe (z_actor self))"
    and "zyre_reply Wait_own_groups (n_pipe (z_actor self) ! z_read self) self = Inr (result, s)"
  shows "result = Ret_list (Some (fst (fold own_step (calls_of written) ([], 0))))"
proof -
  have "unread self \<noteq> []" using assms(3) by (simp add: unread_def)
  then have "unread self = [Reply_list (Some (fst (own_after written)))]"
    using reads_back_run [OF assms(1)] assms(2) by (auto simp: reads_back_def)
  then have "n_pipe (z_actor self) ! z_read self = Reply_list (Some (fst (own_after written)))"
    using assms(3) by (simp add: unread_def Cons_nth_drop_Suc [symmetric])
  then show ?thesis using assms(4) by (simp add: zyre_reply_def Let_def own_after_def)
qed

lemma sample_calls: "calls_of sample_written = [Join_call ''A'', Join_call ''B'', Leave_call ''A'']"
  by (simp add: sample_written_def calls_of_def requests_def request_defs pipe_defs call_of_def map_filter_simps c_string_def)

theorem own_groups_read_back_witness:
  "\<exists>result s. zyre_reply Wait_own_groups (n_pipe (z_actor served_object) ! z_read served_object) served_object = Inr (result, s)
    \<and> result = Ret_list (Some [''B''])"
proof -
  obtain result s where
    r: "zyre_reply Wait_own_groups (n_pipe (z_actor served_object) ! z_read served_object) served_object = Inr (result, s)"
    using reply_accepted [of "Reply_list (Some [''B''])" Wait_own_groups served_object] served_object_sel by auto
  have "result = Ret_list (Some (fst (fold own_step (calls_of sample_written) ([], 0))))"
    by (rule own_groups_read_back [OF served_run served_object_sel(1) _ r]) (simp add: served_object_sel)
  then show ?thesis using r by (simp add: sample_calls)
qed

end
