(* ===== verification/Zyre_Meet_Props.thy ===== *)
theory Zyre_Meet_Props
  imports Zyre_Node_Recv_Props Zyre_Query_Props
begin

text \<open>
  Two nodes meet: the one that has heard of the other requires a peer, which sends its HELLO; the other
  makes a peer of it and answers with its own HELLO; and then each has the other ready in its table, with
  the other's name, status, headers and groups.
\<close>

section \<open>The first HELLO\<close>

lemma recv_all_one:
  "recv_all rank 1 input = ([m], rest) \<Longrightarrow> zre_msg_recv rank True zre_msg_new input = (0, m, rest)"
  by (auto split: prod.splits if_splits)

lemma require_says_hello:
  assumes "node_ok self" and "zhash_lookup (n_peers self) (uu_str uuid) = None"
    and "reachable_peer env self endpoint key" and "hello_message env self = Inr hello"
    and "sendable hello" and "\<forall>q. \<not> env_full env q"
  obtains s p mb where "zyre_node_require_peer env self uuid endpoint key = Inr (Some (n_next self), s)"
    and "node_ok s" and "config s = config self" and "n_peer_groups s = n_peer_groups self"
    and "zhash_lookup (n_peers s) (uu_str uuid) = Some (n_next self)"
    and "n_heap s (n_next self) = Some p" and "p_uuid p = uuid" and "p_connected p" and "\<not> p_ready p"
    and "p_endpoint p = Some (connect_endpoint env endpoint)" and "p_mailbox p = Some mb"
    and "mb_identity mb = 1 # uu_data (n_uuid self)"
    and "\<And>rank rid. recv_all rank 1 (router_view rid True (mb_frames mb))
        = ([zre_msg_received rank rid (zre_msg_set_sequence hello 1)], [])"
proof -
  let ?f = "fresh_peer env self uuid endpoint key"
  obtain s p t1 t2 where s: "zyre_node_require_peer env self uuid endpoint key = Inr (Some (n_next self), s)"
    "zyre_peer_send env ?f hello = Inr (0, p)"
    "n_heap s (n_next self) = Some (p\<lparr>p_evasive_at := t1, p_expired_at := t2\<rparr>)" (is "_ = Some ?p")
    "n_peer_groups s = n_peer_groups self" "required (uu_str uuid) self (Some (n_next self)) s"
    by (rule require_peer_new [OF assms(1-4)]) blast
  obtain mb0 where mb0: "p_mailbox ?f = Some mb0" "mb_identity mb0 = 1 # uu_data (n_uuid self)" "mb_frames mb0 = []"
    "p_endpoint ?f = Some (connect_endpoint env endpoint)"
    by (simp add: fresh_peer_def Let_def connected_mailbox_def)
  obtain tail where "zyre_peer_send env ?f hello = Inr (0, ?f\<lparr>p_sent_sequence := p_sent_sequence ?f + 1,
      p_mailbox := Some (mb0\<lparr>mb_frames := mb_frames mb0
        @ multipart ((zre_msg_put (zre_msg_set_sequence hello (p_sent_sequence ?f + 1)) @ tail)
            # sent_content (zre_msg_set_sequence hello (p_sent_sequence ?f + 1)))\<rparr>)\<rparr>)"
    by (rule peer_send_connected [OF mb0(1) fresh_peer_sel(1) assms(6)])
  then obtain mb where p: "p_mailbox p = Some mb" "mb_identity mb = mb_identity mb0" "p_uuid p = uuid" "p_connected p"
    "\<not> p_ready p" "p_endpoint p = p_endpoint ?f"
    using s(2) fresh_peer_sel [of env self uuid endpoint key] by auto
  have recv: "recv_all rank 1 (router_view rid True (mb_frames mb))
      = ([zre_msg_received rank rid (zre_msg_set_sequence hello 1)], [])" for rank rid
    using peer_send_receives [OF fresh_peer_sel(2) assms(6,5) s(2), of rank rid] mb0(1,3) p(1) fresh_peer_sel(5)
    by (auto simp: receives_def)
  show thesis
    by (rule that [of s ?p mb]) (use s p mb0 recv in \<open>simp_all add: required_def\<close>)
qed

section \<open>The answer\<close>

text \<open>A HELLO of a peer this node has connected to before it heard of it.\<close>

lemma hello_answered:
  assumes "node_ok self" and "uncontested self" and "n_secret_key self = None"
    and "zre_msg_recv (env_rank env) True zre_msg_new (n_inbox self) = (0, msg, rest)"
    and "m_routing_id msg = Some (b # d)" and "length d = 16" and "ident = uu_str (env_uuid_of env d)"
    and "m_id msg = ZRE_MSG_HELLO" and "m_sequence msg = 1" and "m_groups msg = Some groups"
    and "zhash_lookup (n_peers self) ident = Some a" and "n_heap self a = Some p" and "zyre_peer_identity p = ident"
    and "p_connected p" and "\<not> p_ready p"
    and "p_endpoint p = Some e" and "n_endpoint self = Some own" and "\<not> streq e own"
  obtains s q where "zyre_node_recv_peer env self = Inr s" and "zhash_lookup (n_peers s) ident = Some a"
    and "n_heap s a = Some q" and "p_connected q" and "p_ready q" and "p_name q = Some (m_name msg)"
    and "p_status q = m_status msg" and "p_headers q = map_option (zhash_arrange (env_rank env)) (m_headers msg)"
    and "\<And>name. member s ident name \<longleftrightarrow> name \<in> set groups \<or> member self ident name"
proof -
  let ?self = "self\<lparr>n_inbox := rest\<rparr>"
  let ?r = "p\<lparr>p_ready := True\<rparr>"
  let ?s0 = "?self\<lparr>n_heap := (n_heap self)(a \<mapsto> ?r)\<rparr>"
  have alter: "node_on_heap (alter_peer (\<lambda>p. zyre_peer_set_ready p True) a) ?self = Inr ?s0"
    using assms(12) by (simp add: node_alter_live zyre_simps)
  have "ensures (node_on_heap (alter_peer (\<lambda>p. zyre_peer_set_ready p True) a) ?self) (steady ?self)"
    by (rule steady_alter) (simp_all add: zyre_simps)
  then have st: "steady ?self ?s0" using alter by (simp add: ensures_def)
  have s0: "node_ok ?s0" using steadyD [OF st] assms(1) by simp
  have u0: "uncontested ?s0" using assms(2) by (simp add: uncontested_def)
  have heap: "n_heap ?s0 a = Some ?r" by simp
  have sender: "hello_sender env (env_uuid_of env d) msg (Some a) ?self = Inr (Some a, ?s0)"
    using assms(3,7,11,12,14-18) alter
    by (simp add: hello_sender_def hello_known_def node_peer_def zyre_peer_ready_def zyre_peer_endpoint_def
        hello_require_def zyre_node_require_peer_def)
  have rdy: "p_ready ?r" by simp
  let ?p = "?r\<lparr>p_want_sequence := 1, p_name := Some (m_name msg),
           p_headers := map_option (zhash_arrange (env_rank env)) (m_headers msg)\<rparr>"
  obtain s t1 t2 where s: "recv_ready env a (env_uuid_of env d) msg ?s0 = Inr s" "n_peers s = n_peers ?s0"
    "n_heap s a = Some (?p\<lparr>p_status := m_status msg, p_evasive_at := t1, p_expired_at := t2\<rparr>)" (is "_ = Some ?q")
    "\<And>k n. member s k n \<longleftrightarrow> (n \<in> set groups \<and> k = zyre_peer_identity ?r) \<or> member ?s0 k n"
    by (rule hello_handled [OF s0 u0 heap rdy assms(8,9,10) refl, where env = env and uuid = "env_uuid_of env d"])
      (rule that)
  have "zyre_node_recv_peer env self = Inr s"
    using sender s(1) heap assms(7,8,11)
    by (simp add: recv_peer_from [OF assms(4-6)] recv_from_def node_peer_def zyre_peer_ready_def Let_def)
  moreover have "member s ident name \<longleftrightarrow> name \<in> set groups \<or> member self ident name" for name
    using s(4) assms(13) member_cong [of ?s0 self] by (simp add: zyre_peer_identity_def)
  ultimately show thesis using s(2,3) assms(11,14) by (intro that [of s ?q]) simp_all
qed

section \<open>Both sides\<close>

text \<open>The frames of a mailbox as they arrive behind the identity of their sender.\<close>

definition delivered :: "mailbox \<Rightarrow> zframe list" where
  "delivered mb = router_view (mb_identity mb) True (mb_frames mb)"

text \<open>The node has the other one as a ready peer, with all that the other says of itself.\<close>

definition knows :: "zyre_node \<Rightarrow> zyre_node \<Rightarrow> bool" where
  "knows s other \<longleftrightarrow> (\<exists>p. known_peer s (uu_str (n_uuid other)) = Some p \<and> p_connected p \<and> p_ready p
     \<and> p_name p = Some (field256 (n_name other)) \<and> p_status p = n_status other
     \<and> (\<forall>k. zyre_peer_header p k None = zhash_lookup (n_headers other) k)
     \<and> (\<forall>g. member s (uu_str (n_uuid other)) g \<longleftrightarrow> g \<in> set (n_own_groups other)))"

lemma hello_fields:
  assumes "hello_message env self = Inr hello" and "sendable hello"
    and msg_def: "msg = zre_msg_received rank rid (zre_msg_set_sequence hello 1)"
  shows "m_id msg = ZRE_MSG_HELLO" "m_sequence msg = 1" "m_routing_id msg = Some rid"
    "m_groups msg = Some (n_own_groups self)" "m_name msg = field256 (n_name self)" "m_status msg = n_status self"
    "m_endpoint msg = m_endpoint hello"
    "\<exists>h. m_headers msg = Some h \<and> wf_zhash h \<and> (\<forall>k. zhash_lookup h k = zhash_lookup (n_headers self) k)"
proof -
  obtain e where h: "hello = zre_msg_set_headers (zre_msg_set_name (zre_msg_set_status (zre_msg_set_groups
      (zre_msg_set_endpoint (zre_msg_set_id zre_msg_new ZRE_MSG_HELLO) e) (Some (n_own_groups self))) (n_status self)) (n_name self))
      (Some (zhash_arrange (env_rank env) (n_headers self)))"
    using assms(1) by (auto simp: hello_message_def and_then_def split: sum.splits)
  then show "m_id msg = ZRE_MSG_HELLO" "m_sequence msg = 1" "m_routing_id msg = Some rid"
    "m_groups msg = Some (n_own_groups self)" "m_name msg = field256 (n_name self)" "m_status msg = n_status self"
    "m_endpoint msg = m_endpoint hello"
    by (simp_all add: msg_def zre_msg_received_def store_fields_def msg_list_def zyre_simps)
  have "sendable (zre_msg_set_sequence hello 1)" using assms(2) by simp
  then obtain h' where h': "m_headers msg = Some h'" "wf_zhash h'"
    "\<forall>k. zhash_lookup h' k = zhash_lookup (zhash_arrange (env_rank env) (n_headers self)) k"
    using hello_headers_roundtrip [of "zre_msg_set_sequence hello 1" "zhash_arrange (env_rank env) (n_headers self)" rank rid] h
    by (auto simp: msg_def zyre_simps)
  have wf: "wf_zhash (n_headers self)" using assms(2) h by (simp add: sendable_def zyre_simps)
  have "zhash_lookup (zhash_arrange rk (n_headers self)) k = zhash_lookup (n_headers self) k" for rk k
    using wf zhash_lookup_iff [of "n_headers self" k] zhash_lookup_iff [of "zhash_arrange rk (n_headers self)" k]
    by (metis option.exhaust set_zhash_arrange wf_zhash_arrange)
  then show "\<exists>h. m_headers msg = Some h \<and> wf_zhash h \<and> (\<forall>k. zhash_lookup h k = zhash_lookup (n_headers self) k)"
    using h' by auto
qed

lemma knows_hello:
  assumes "known_peer s (uu_str (n_uuid other)) = Some p" and "p_connected p" and "p_ready p"
    and "hello_message env other = Inr hello" and "sendable hello"
    and "msg = zre_msg_received rank rid (zre_msg_set_sequence hello 1)"
    and "p_name p = Some (m_name msg)" and "p_status p = m_status msg"
    and "p_headers p = map_option (zhash_arrange rk) (m_headers msg)"
    and "\<forall>g. member s (uu_str (n_uuid other)) g \<longleftrightarrow> g \<in> set (n_own_groups other)"
  shows "knows s other"
proof -
  note f = hello_fields [OF assms(4-6)]
  obtain h where h: "m_headers msg = Some h" "wf_zhash h" "\<forall>k. zhash_lookup h k = zhash_lookup (n_headers other) k"
    using f(8) by blast
  have "zhash_lookup (zhash_arrange rk h) k = zhash_lookup h k" for k
    using h(2) zhash_lookup_iff [of h k] zhash_lookup_iff [of "zhash_arrange rk h" k]
    by (metis option.exhaust set_zhash_arrange wf_zhash_arrange)
  then have "zyre_peer_header p k None = zhash_lookup (n_headers other) k" for k
    using assms(9) h(1,3) by (simp add: zyre_peer_header_def split: option.split)
  then show ?thesis using assms(1-3,7,8,10) f(5,6) unfolding knows_def by auto
qed

text \<open>A table that does not list an identity has it in no group.\<close>

lemma no_member:
  assumes "node_ok self" and "zhash_lookup (n_peers self) k = None"
  shows "\<not> member self k name"
proof -
  have "unlisted k (n_peer_groups self)"
    using node_okD(3) [OF assms(1)] assms(2)
    by (fastforce simp: unlisted_def groups_ok_def group_ok_def zhash_lookup_None)
  then show ?thesis by (rule member_unlisted)
qed

text \<open>C18: two nodes that have found each other know each other. The first requires a peer of the second's
  identity, at any endpoint that is not its own; the second reads what the first's mailbox then holds, and
  the first reads what the second's mailbox then holds, and no step fails. After that each has the other in
  its table, connected and ready, with the other's name, status counter, headers and exactly its groups. The
  nodes are in any reachable states in which they do not know each other, without secret keys and contests.\<close>

theorem nodes_meet:
  assumes "actor_reachable x" and "actor_reachable y" and "uncontested x" and "uncontested y"
    and "n_secret_key x = None" and "n_secret_key y = None"
    and "zhash_lookup (n_peers x) (uu_str (n_uuid y)) = None" and "zhash_lookup (n_peers y) (uu_str (n_uuid x)) = None"
    and "reachable_peer env x endpoint key" and "hello_message env x = Inr hello" and "sendable hello"
    and "reachable_peer env' y (m_endpoint hello) None" and "hello_message env' y = Inr hello'" and "sendable hello'"
    and "\<forall>q. \<not> env_full env q" and "\<forall>q. \<not> env_full env' q"
    and "n_endpoint x = Some own" and "\<not> streq (connect_endpoint env endpoint) own"
    and "length (uu_data (n_uuid x)) = 16" and "env_uuid_of env' (uu_data (n_uuid x)) = n_uuid x"
    and "length (uu_data (n_uuid y)) = 16" and "env_uuid_of env (uu_data (n_uuid y)) = n_uuid y"
  shows "\<exists>a x1 p mb y1 q mb' x2.
      zyre_node_require_peer env x (n_uuid y) endpoint key = Inr (Some a, x1)
    \<and> n_heap x1 a = Some p \<and> p_mailbox p = Some mb
    \<and> zyre_node_recv_peer env' (y\<lparr>n_inbox := delivered mb\<rparr>) = Inr y1
    \<and> known_peer y1 (uu_str (n_uuid x)) = Some q \<and> p_mailbox q = Some mb'
    \<and> zyre_node_recv_peer env (x1\<lparr>n_inbox := delivered mb'\<rparr>) = Inr x2
    \<and> knows y1 x \<and> knows x2 y"
proof -
  let ?a = "n_next x"
  have okx: "node_ok x" and oky: "node_ok y" using reachable_ok assms(1,2) by blast+
  obtain x1 p mb where x1: "zyre_node_require_peer env x (n_uuid y) endpoint key = Inr (Some ?a, x1)"
    "node_ok x1" "config x1 = config x" "n_peer_groups x1 = n_peer_groups x"
    "zhash_lookup (n_peers x1) (uu_str (n_uuid y)) = Some ?a"
    "n_heap x1 ?a = Some p" "p_uuid p = n_uuid y" "p_connected p" "\<not> p_ready p"
    "p_endpoint p = Some (connect_endpoint env endpoint)" "p_mailbox p = Some mb"
    "mb_identity mb = 1 # uu_data (n_uuid x)"
    "\<And>rank rid. recv_all rank 1 (router_view rid True (mb_frames mb))
        = ([zre_msg_received rank rid (zre_msg_set_sequence hello 1)], [])"
    by (rule require_says_hello [OF okx assms(7,9,10,11,15)]) blast
  let ?rx = "1 # uu_data (n_uuid x)" and ?ry = "1 # uu_data (n_uuid y)"
  let ?y = "y\<lparr>n_inbox := delivered mb\<rparr>"
  let ?m = "zre_msg_received (env_rank env') ?rx (zre_msg_set_sequence hello 1)"
  note fx = hello_fields [OF assms(10,11) refl, of "env_rank env'" ?rx]
  have recv: "zre_msg_recv (env_rank env') True zre_msg_new (n_inbox ?y) = (0, ?m, [])"
    using recv_all_one [OF x1(13)] x1(12) by (simp add: delivered_def)
  have oky': "node_ok ?y" using oky by simp
  obtain y1 b q mb' where y1: "zyre_node_recv_peer env' ?y = Inr y1" "zhash_lookup (n_peers y1) (uu_str (n_uuid x)) = Some b"
    "n_heap y1 b = Some q" "p_connected q" "p_ready q" "p_name q = Some (m_name ?m)" "p_status q = m_status ?m"
    "p_headers q = map_option (zhash_arrange (env_rank env')) (m_headers ?m)" "p_mailbox q = Some mb'"
    "mb_identity mb' = ?ry"
    "recv_all (env_rank env) 1 (router_view ?ry True (mb_frames mb'))
        = ([zre_msg_received (env_rank env) ?ry (zre_msg_set_sequence hello' 1)], [])"
    "\<forall>name. member y1 (uu_str (n_uuid x)) name \<longleftrightarrow> name \<in> set (n_own_groups x)"
    using hello_peer_made [OF oky' _ _ recv fx(3) assms(19) _ fx(1,2,4) _ _ _ assms(14,16),
        of "uu_str (n_uuid x)" "env_rank env" ?ry] assms(4,6,8,12,13,20) fx(7)
    by (auto simp: uncontested_def reachable_peer_def)
  have kx: "knows y1 x"
    by (rule knows_hello [OF _ y1(4,5) assms(10,11) refl y1(6-8,12)]) (simp add: known_peer_def y1(2,3))
  let ?x = "x1\<lparr>n_inbox := delivered mb'\<rparr>"
  let ?m' = "zre_msg_received (env_rank env) ?ry (zre_msg_set_sequence hello' 1)"
  note fy = hello_fields [OF assms(13,14) refl, of "env_rank env" ?ry]
  have recv': "zre_msg_recv (env_rank env) True zre_msg_new (n_inbox ?x) = (0, ?m', [])"
    using recv_all_one [OF y1(11)] y1(10) by (simp add: delivered_def)
  have cfg: "n_secret_key x1 = None" "n_endpoint x1 = Some own" using x1(3) assms(5,17) by (simp_all add: config_def)
  have side: "node_ok ?x" "uncontested ?x" "n_secret_key ?x = None"
    "uu_str (n_uuid y) = uu_str (env_uuid_of env (uu_data (n_uuid y)))"
    "zhash_lookup (n_peers ?x) (uu_str (n_uuid y)) = Some ?a" "n_heap ?x ?a = Some p" "n_endpoint ?x = Some own"
    using assms(3,22) x1(2,5,6) cfg uncontested_cong [OF x1(4)] by (simp_all add: uncontested_def)
  have id: "zyre_peer_identity p = uu_str (n_uuid y)" using x1(7) by (simp add: zyre_peer_identity_def)
  obtain x2 r where x2: "zyre_node_recv_peer env ?x = Inr x2" "zhash_lookup (n_peers x2) (uu_str (n_uuid y)) = Some ?a"
    "n_heap x2 ?a = Some r" "p_connected r" "p_ready r" "p_name r = Some (m_name ?m')" "p_status r = m_status ?m'"
    "p_headers r = map_option (zhash_arrange (env_rank env)) (m_headers ?m')"
    "\<And>name. member x2 (uu_str (n_uuid y)) name \<longleftrightarrow> name \<in> set (n_own_groups y) \<or> member ?x (uu_str (n_uuid y)) name"
    by (rule hello_answered [OF side(1-3) recv' fy(3) assms(21) side(4) fy(1,2,4) side(5,6) id x1(8,9,10) side(7) assms(18)])
      (rule that)
  have "\<not> member ?x (uu_str (n_uuid y)) name" for name
    using no_member [OF okx assms(7)] member_cong [of ?x x] x1(4) by simp
  then have "\<forall>name. member x2 (uu_str (n_uuid y)) name \<longleftrightarrow> name \<in> set (n_own_groups y)" using x2(9) by simp
  then have ky: "knows x2 y"
    by (intro knows_hello [OF _ x2(4,5) assms(13,14) refl x2(6-8)]) (simp_all add: known_peer_def x2(2,3))
  have "known_peer y1 (uu_str (n_uuid x)) = Some q" by (simp add: known_peer_def y1(2,3))
  then show ?thesis using x1(1,6,11) y1(1,9) x2(1) kx ky by blast
qed

text \<open>Two nodes that have just started, whose identities repeat one octet.\<close>

definition meet_uuid :: "byte \<Rightarrow> zuuid" where
  "meet_uuid d = \<lparr>uu_data = replicate 16 d, uu_str = [byte_char d]\<rparr>"

definition meet_start :: "byte \<Rightarrow> zyre_node" where
  "meet_start d = the (actor_start run_env (meet_uuid d))"

definition meet_node :: "byte \<Rightarrow> zyre_node" where
  "meet_node d = (case actor_run run_env boot_events (meet_start d) of Inr s \<Rightarrow> s | Inl e \<Rightarrow> meet_start d)"

definition fresh_start :: "byte \<Rightarrow> zyre_node \<Rightarrow> bool" where
  "fresh_start d s \<longleftrightarrow> n_uuid s = meet_uuid d \<and> n_name s = [byte_char d] \<and> n_peers s = [] \<and> n_peer_groups s = []
     \<and> n_own_groups s = [] \<and> n_status s = 0 \<and> n_endpoint s = Some ''e'' \<and> n_advertised_endpoint s = None
     \<and> n_headers s = [] \<and> n_secret_key s = None \<and> n_public_key s = None"

lemma meet_runs:
  "case actor_run run_env boot_events (meet_start 57) of Inl e \<Rightarrow> False | Inr s \<Rightarrow> fresh_start 57 s"
  "case actor_run run_env boot_events (meet_start 55) of Inl e \<Rightarrow> False | Inr s \<Rightarrow> fresh_start 55 s"
  by code_simp+

lemma meet_node_fresh: "fresh_start 57 (meet_node 57)" "fresh_start 55 (meet_node 55)"
  using meet_runs by (auto simp: meet_node_def split: sum.splits)

lemma meet_node_reachable: "actor_reachable (meet_node d)"
proof -
  have "actor_start run_env (meet_uuid d) = Some (meet_start d)"
    by (simp add: meet_start_def actor_start_def zyre_node_new_def run_env_def sample_env_def zclock_mono_def)
  then have "actor_initial (meet_start d)" unfolding actor_initial_def by blast
  then have start: "actor_reachable (meet_start d)" by (rule actor_reachable.initial)
  show ?thesis
    using start actor_run_reachable [OF start, of run_env boot_events]
    by (auto simp: meet_node_def ensures_def split: sum.split)
qed

lemma meet_hello:
  assumes "fresh_start d s" and "byte_char d \<noteq> CHR 0x00"
  shows "hello_message run_env s = Inr (boot_hello\<lparr>m_name := [byte_char d]\<rparr>)"
    and "sendable (boot_hello\<lparr>m_name := [byte_char d]\<rparr>)"
  using assms
  by (simp_all add: fresh_start_def hello_message_def hello_endpoint_def run_env_def sample_env_def
      boot_hello_def zhash_arrange_def zyre_simps zre_msg_new_def sendable_def fields_ok_def field_ok_def c_string_def
      field256_def)

theorem nodes_meet_witness:
  "\<exists>a x1 p mb y1 q mb' x2.
      zyre_node_require_peer run_env (meet_node 57) (meet_uuid 55) ''y'' None = Inr (Some a, x1)
    \<and> n_heap x1 a = Some p \<and> p_mailbox p = Some mb
    \<and> zyre_node_recv_peer run_env ((meet_node 55)\<lparr>n_inbox := delivered mb\<rparr>) = Inr y1
    \<and> known_peer y1 ''9'' = Some q \<and> p_mailbox q = Some mb'
    \<and> zyre_node_recv_peer run_env (x1\<lparr>n_inbox := delivered mb'\<rparr>) = Inr x2
    \<and> knows y1 (meet_node 57) \<and> knows x2 (meet_node 55)"
proof -
  have char: "byte_char 57 = CHR ''9''" "byte_char 55 = CHR ''7''" by code_simp+
  have uuid: "n_uuid (meet_node 57) = meet_uuid 57" "n_uuid (meet_node 55) = meet_uuid 55"
    using meet_node_fresh by (simp_all add: fresh_start_def)
  show ?thesis
    using nodes_meet [OF meet_node_reachable [of 57] meet_node_reachable [of 55], of run_env "''y''" None
        "boot_hello\<lparr>m_name := [byte_char 57]\<rparr>" run_env "boot_hello\<lparr>m_name := [byte_char 55]\<rparr>" "''e''"]
      meet_hello [OF meet_node_fresh(1)] meet_hello [OF meet_node_fresh(2)] meet_node_fresh char
    unfolding uuid
    by (simp add: fresh_start_def uncontested_def reachable_peer_def run_env_def sample_env_def connect_endpoint_def
        meet_uuid_def char streq_def boot_hello_def)
qed

end
