(* ===== verification/Zyre_Perf.thy ===== *)
theory Zyre_Perf
  imports Zyre_Client "HOL-Library.Signed_Division"
begin

text \<open>
  The performance test: the program that measures (\<open>src/perf_local.c\<close>) and the program whose nodes answer
  (\<open>src/perf_remote.c\<close>). Both are clients of the public class: they read messages from the inbox of a node
  and write calls. Clocks, the measured times and the threads are left out.
\<close>

section \<open>The remote end of the performance test\<close>

text \<open>The peer and the group to answer, and the cookie to send, which is kept from turn to turn.\<close>

definition remote_event :: "byte list list \<Rightarrow> string option
    \<Rightarrow> (string option \<times> string option \<times> string option) outcome" where
  "remote_event incoming sending_cookie =
     (case zmsg_popstr incoming of (event, incoming) \<Rightarrow>
      and_then (not_null event) (\<lambda>event.
        if streq event ''ENTER'' then Inr (fst (zmsg_popstr incoming), None, Some ''R:HELLO'')
        else if streq event ''EXIT'' then Inr (None, None, sending_cookie)
        else if streq event ''WHISPER'' then
          (case zmsg_popstr incoming of (to_peer, incoming) \<Rightarrow>
           case zmsg_popstr incoming of (name, incoming) \<Rightarrow>
           and_then (not_null (fst (zmsg_popstr incoming))) (\<lambda>cookie.
             if streq cookie ''S:WHISPER'' then Inr (to_peer, None, Some ''R:WHISPER'')
             else Inr (None, None, sending_cookie)))
        else if streq event ''SHOUT'' then
          (case zmsg_popstr incoming of (to_peer, incoming) \<Rightarrow>
           case zmsg_popstr incoming of (name, incoming) \<Rightarrow>
           case zmsg_popstr incoming of (to_group, incoming) \<Rightarrow>
           and_then (not_null (fst (zmsg_popstr incoming))) (\<lambda>cookie.
             if streq cookie ''S:SHOUT'' then Inr (None, to_group, Some ''R:SHOUT'')
             else Inr (None, None, sending_cookie)))
        else Inr (None, None, sending_cookie)))"

definition remote_send :: "string option \<Rightarrow> string option \<Rightarrow> string option \<Rightarrow> zframe list" where
  "remote_send to_peer to_group sending_cookie =
     (case to_peer of None \<Rightarrow> [] | Some peer \<Rightarrow> zyre_whispers peer (fmt_s sending_cookie))
     @ (case to_group of None \<Rightarrow> [] | Some name \<Rightarrow> zyre_shouts name (fmt_s sending_cookie))"

definition remote_turn :: "byte list list \<Rightarrow> string option \<Rightarrow> (zframe list \<times> string option) outcome" where
  "remote_turn incoming sending_cookie =
     and_then (remote_event incoming sending_cookie) (\<lambda>(to_peer, to_group, sending_cookie).
       Inr (remote_send to_peer to_group sending_cookie, sending_cookie))"

text \<open>Before the loop.\<close>

definition remote_setup :: "zframe list" where
  "remote_setup = zyre_new None @ zyre_start @ zyre_join ''GLOBAL''"

text \<open>The loop over the messages, which ends when the parent says so or the program is interrupted: here at \<open>None\<close>.\<close>

fun remote_loop :: "byte list list option list \<Rightarrow> zframe list \<times> string option \<Rightarrow> (zframe list \<times> string option) outcome" where
  "remote_loop [] st = Inr st"
| "remote_loop (None # polls) st = Inr st"
| "remote_loop (Some incoming # polls) (out, sending_cookie) =
     and_then (remote_turn incoming sending_cookie) (\<lambda>(frames, sending_cookie).
       remote_loop polls (out @ frames, sending_cookie))"

definition remote_node :: "byte list list option list \<Rightarrow> zframe list outcome" where
  "remote_node polls = and_then (remote_loop polls (remote_setup, None)) (\<lambda>(out, _). Inr out)"

text \<open>The main program: how many nodes, and what it logs, without the time.\<close>

definition remote_nodes :: "string list \<Rightarrow> int" where
  "remote_nodes args = (case args of [] \<Rightarrow> 25 | n # _ \<Rightarrow> c_atoi n)"

definition remote_log :: "nat \<Rightarrow> log_entry list" where
  "remote_log max_node = map (\<lambda>i. Line (''I: Started node '' @ c_dec (int i + 1))) [0..<max_node]
     @ map (\<lambda>i. Line (''I: Stopped node '' @ c_dec (int i + 1))) [0..<max_node] @ [Line ''I: Stopped perf_remote'']"

section \<open>The local end\<close>

definition s_node_recv :: "string \<Rightarrow> string \<Rightarrow> byte list list \<Rightarrow> bool outcome" where
  "s_node_recv command expected incoming =
     (case zmsg_popstr incoming of (event, incoming) \<Rightarrow>
      and_then (not_null event) (\<lambda>event.
        if streq event command then
          (case zmsg_popstr incoming of (peer, incoming) \<Rightarrow>
           case zmsg_popstr incoming of (name, incoming) \<Rightarrow>
           let incoming = (if streq command ''SHOUT'' then snd (zmsg_popstr incoming) else incoming)
           in and_then (not_null (fst (zmsg_popstr incoming))) (\<lambda>cookie. Inr (streq cookie expected)))
        else Inr False))"

text \<open>The number of nodes is positive; the array of their identities begins with null pointers.\<close>

record greeting =
  gr_nbr_node :: nat
  gr_nbr_hello_response :: nat
  gr_peers :: "string option list"

definition local_greet :: "nat \<Rightarrow> byte list list \<Rightarrow> greeting \<Rightarrow> greeting outcome" where
  "local_greet max_node incoming st =
     (case zmsg_popstr incoming of (event, incoming) \<Rightarrow>
      and_then (not_null event) (\<lambda>event.
        if streq event ''ENTER'' \<and> gr_nbr_node st < max_node then
          Inr (st\<lparr>gr_nbr_node := gr_nbr_node st + 1,
                  gr_peers := (gr_peers st)[gr_nbr_node st := fst (zmsg_popstr incoming)]\<rparr>)
        else if streq event ''WHISPER'' \<and> gr_nbr_hello_response st < max_node then
          (case zmsg_popstr incoming of (peer, incoming) \<Rightarrow>
           case zmsg_popstr incoming of (name, incoming) \<Rightarrow>
           and_then (not_null (fst (zmsg_popstr incoming))) (\<lambda>cookie.
             if streq cookie ''R:HELLO''
             then Inr (st\<lparr>gr_nbr_hello_response := gr_nbr_hello_response st + 1\<rparr>) else Inr st))
        else Inr st))"

text \<open>
  The loop over the incoming messages: its state when it breaks off, and the messages left; \<open>None\<close> as
  long as it waits for more.
\<close>

fun local_greetings :: "nat \<Rightarrow> byte list list list \<Rightarrow> greeting
    \<Rightarrow> (greeting \<times> byte list list list) option outcome" where
  "local_greetings max_node [] st = Inr None"
| "local_greetings max_node (incoming # rest) st =
     and_then (local_greet max_node incoming st) (\<lambda>st.
       if gr_nbr_node st = max_node \<and> gr_nbr_hello_response st = max_node then Inr (Some (st, rest))
       else local_greetings max_node rest st)"

text \<open>Waiting for the answers: \<open>while (nbr_message_response < goal)\<close>.\<close>

fun local_answers :: "string \<Rightarrow> string \<Rightarrow> int \<Rightarrow> byte list list list \<Rightarrow> int
    \<Rightarrow> (int \<times> byte list list list) option outcome" where
  "local_answers command expected goal incomings nbr =
     (if goal \<le> nbr then Inr (Some (nbr, incomings))
      else case incomings of
          [] \<Rightarrow> Inr None
        | incoming # rest \<Rightarrow> and_then (s_node_recv command expected incoming) (\<lambda>hit.
            local_answers command expected goal rest (if hit then nbr + 1 else nbr)))"

declare local_answers.simps [simp del]

text \<open>The arguments behind the program's name.\<close>

definition local_options :: "string list \<Rightarrow> int \<times> int" where
  "local_options args = (case args of [] \<Rightarrow> (25, 10000) | [n] \<Rightarrow> (c_atoi n, 10000)
     | n # m # _ \<Rightarrow> (c_atoi n, c_atoi m))"

text \<open>
  The two measurements. The state is what waits in the inbox, the calls made so far and the number of answers.
  After each call the program reads all messages the poller finds at once, \<open>poll k\<close> after the \<open>k\<close>-th.
\<close>

record perf_state =
  pf_incoming :: "byte list list list"
  pf_out :: "zframe list"
  pf_responses :: int

fun local_batch :: "string \<Rightarrow> string \<Rightarrow> byte list list list \<Rightarrow> int \<Rightarrow> int outcome" where
  "local_batch command expected [] nbr = Inr nbr"
| "local_batch command expected (incoming # rest) nbr =
     and_then (s_node_recv command expected incoming) (\<lambda>hit.
       local_batch command expected rest (if hit then nbr + 1 else nbr))"

definition local_poll :: "string \<Rightarrow> string \<Rightarrow> nat \<Rightarrow> perf_state \<Rightarrow> perf_state outcome" where
  "local_poll command expected k st =
     and_then (local_batch command expected (take k (pf_incoming st)) (pf_responses st)) (\<lambda>nbr.
       Inr (st\<lparr>pf_incoming := drop k (pf_incoming st), pf_responses := nbr\<rparr>))"

definition local_whisper :: "nat \<Rightarrow> string option list \<Rightarrow> (nat \<Rightarrow> nat) \<Rightarrow> nat \<Rightarrow> perf_state \<Rightarrow> perf_state outcome" where
  "local_whisper max_node peers poll nbr_message st =
     (if max_node = 0 then Inl Division_by_zero
      else case peers ! (nbr_message mod max_node) of
          None \<Rightarrow> Inl Assertion_failed
        | Some peer \<Rightarrow> local_poll ''WHISPER'' ''R:WHISPER'' (poll nbr_message)
            (st\<lparr>pf_out := pf_out st @ zyre_whispers peer ''S:WHISPER''\<rparr>))"

definition local_shout :: "(nat \<Rightarrow> nat) \<Rightarrow> nat \<Rightarrow> perf_state \<Rightarrow> perf_state outcome" where
  "local_shout poll nbr_message st = local_poll ''SHOUT'' ''R:SHOUT'' (poll nbr_message)
     (st\<lparr>pf_out := pf_out st @ zyre_shouts ''GLOBAL'' ''S:SHOUT''\<rparr>)"

text \<open>A measurement ends with the wait for the answers that are still missing.\<close>

definition local_wait :: "string \<Rightarrow> string \<Rightarrow> int \<Rightarrow> perf_state \<Rightarrow> perf_state option outcome" where
  "local_wait command expected goal st =
     and_then (local_answers command expected goal (pf_incoming st) (pf_responses st)) (\<lambda>answered.
       Inr (map_option (\<lambda>(nbr, rest). st\<lparr>pf_incoming := rest, pf_responses := nbr\<rparr>) answered))"

definition perf_setup :: "zframe list" where
  "perf_setup = zyre_new None @ zyre_start @ zyre_join ''GLOBAL''"

text \<open>
  The whole program, \<open>None\<close> as long as it waits for messages; the number of nodes is not negative. Every node
  answers a shout, so of the shouts there are as many fewer.
\<close>

definition perf_local :: "nat \<Rightarrow> int \<Rightarrow> (nat \<Rightarrow> nat) \<Rightarrow> (nat \<Rightarrow> nat) \<Rightarrow> byte list list list
    \<Rightarrow> perf_state option outcome" where
  "perf_local max_node max_message poll poll' incomings =
     and_then (local_greetings max_node incomings \<lparr>gr_nbr_node = 0, gr_nbr_hello_response = 0,
       gr_peers = replicate max_node None\<rparr>) (\<lambda>greeted.
     case greeted of None \<Rightarrow> Inr None | Some (g, rest) \<Rightarrow>
     and_then (each (local_whisper max_node (gr_peers g) poll) [0..<nat max_message]
       \<lparr>pf_incoming = rest, pf_out = perf_setup, pf_responses = 0\<rparr>) (\<lambda>st.
     and_then (local_wait ''WHISPER'' ''R:WHISPER'' max_message st) (\<lambda>whispered.
     case whispered of None \<Rightarrow> Inr None | Some st \<Rightarrow>
     if max_node = 0 then Inl Division_by_zero
     else let max_message = max_message sdiv int max_node in
       and_then (each (local_shout poll') [0..<nat max_message] (st\<lparr>pf_responses := 0\<rparr>)) (\<lambda>st.
         local_wait ''SHOUT'' ''R:SHOUT'' (max_message * int max_node) st))))"

section \<open>Both ends\<close>

text \<open>An event as the node writes it: its strings, then the message.\<close>

definition inbox_message :: "string list \<Rightarrow> byte list list" where
  "inbox_message strs = map str_bytes strs"

lemma popstr_frames [simp]:
  "c_string s \<Longrightarrow> zmsg_popstr (inbox_message (s # strs)) = (Some s, inbox_message strs)"
  "zmsg_popstr (inbox_message []) = (None, [])"
  by (simp_all add: inbox_message_def)

lemma c_string_words [simp]:
  "c_string ''ENTER''" "c_string ''WHISPER''" "c_string ''SHOUT''"
  "c_string ''S:WHISPER''" "c_string ''S:SHOUT''" "c_string ''R:HELLO''" "c_string ''R:WHISPER''" "c_string ''R:SHOUT''"
  by (simp_all add: c_string_def)

text \<open>
  The remote end answers what the local end sends: it greets whoever enters, answers a whisper with a
  whisper and a shout with a shout to the same group, and is silent on any other word.
\<close>

lemma remote_answers:
  assumes "c_string uuid" and "c_string name" and "c_string gr" and "c_string word"
  shows "remote_turn (inbox_message (''ENTER'' # uuid # strs)) c = Inr (zyre_whispers uuid ''R:HELLO'', Some ''R:HELLO'')"
    and "remote_turn (inbox_message [''WHISPER'', uuid, name, word]) c
      = Inr (if word = ''S:WHISPER'' then (zyre_whispers uuid ''R:WHISPER'', Some ''R:WHISPER'') else ([], c))"
    and "remote_turn (inbox_message [''SHOUT'', uuid, name, gr, word]) c
      = Inr (if word = ''S:SHOUT'' then (zyre_shouts gr ''R:SHOUT'', Some ''R:SHOUT'') else ([], c))"
  using assms by (simp_all add: remote_turn_def remote_event_def remote_send_def fmt_s_def streq_iff)

text \<open>A node that reads any mixture of greetings and requests answers each in turn.\<close>

datatype request = Greets string | Whispers string | Shouts string

fun request_event :: "request \<Rightarrow> byte list list" where
  "request_event (Greets uuid) = inbox_message [''ENTER'', uuid]"
| "request_event (Whispers uuid) = inbox_message [''WHISPER'', uuid, [], ''S:WHISPER'']"
| "request_event (Shouts name) = inbox_message [''SHOUT'', [], [], name, ''S:SHOUT'']"

fun request_answer :: "request \<Rightarrow> zframe list" where
  "request_answer (Greets uuid) = zyre_whispers uuid ''R:HELLO''"
| "request_answer (Whispers uuid) = zyre_whispers uuid ''R:WHISPER''"
| "request_answer (Shouts name) = zyre_shouts name ''R:SHOUT''"

fun request_ok :: "request \<Rightarrow> bool" where
  "request_ok (Greets uuid) = c_string uuid"
| "request_ok (Whispers uuid) = c_string uuid"
| "request_ok (Shouts name) = c_string name"

lemma remote_turn_request:
  assumes "request_ok r"
  shows "\<exists>c'. remote_turn (request_event r) c = Inr (request_answer r, c')"
  using assms remote_answers [of _ "[]" _ "''S:WHISPER''"] remote_answers [of "[]" "[]" _ "''S:SHOUT''"]
  by (cases r) simp_all

lemma remote_node_answers:
  assumes "list_all request_ok rs"
  shows "remote_node (map (\<lambda>r. Some (request_event r)) rs @ [None]) = Inr (remote_setup @ concat (map request_answer rs))"
proof -
  have "\<exists>c'. remote_loop (map (\<lambda>r. Some (request_event r)) rs @ [None]) (out, c) = Inr (out @ concat (map request_answer rs), c')" for out c
    using assms
  proof (induction rs arbitrary: out c)
    case (Cons r rs)
    obtain c' where "remote_turn (request_event r) c = Inr (request_answer r, c')" using remote_turn_request Cons.prems by fastforce
    then show ?case using Cons.IH [of "out @ request_answer r" c'] Cons.prems by simp
  qed simp
  then obtain c' where "remote_loop (map (\<lambda>r. Some (request_event r)) rs @ [None]) (remote_setup, None)
      = Inr (remote_setup @ concat (map request_answer rs), c')" by blast
  then show ?thesis by (simp add: remote_node_def)
qed

text \<open>The local end takes exactly the answers of the remote end for answers.\<close>

lemma local_recv:
  assumes "c_string uuid" and "c_string name" and "c_string gr" and "c_string word"
  shows "s_node_recv ''WHISPER'' ''R:WHISPER'' (inbox_message [''WHISPER'', uuid, name, word]) = Inr (word = ''R:WHISPER'')"
    and "s_node_recv ''SHOUT'' ''R:SHOUT'' (inbox_message [''SHOUT'', uuid, name, gr, word]) = Inr (word = ''R:SHOUT'')"
    and "s_node_recv ''SHOUT'' ''R:SHOUT'' (inbox_message (''WHISPER'' # strs)) = Inr False"
    and "s_node_recv ''WHISPER'' ''R:WHISPER'' (inbox_message (''ENTER'' # strs)) = Inr False"
  using assms by (simp_all add: s_node_recv_def streq_iff)

text \<open>Waiting for answers ends as soon as enough have come, and not before.\<close>

lemma local_answers_count:
  assumes "\<forall>m \<in> set ms. \<exists>hit. s_node_recv command expected m = Inr hit"
  shows "\<exists>r. local_answers command expected goal ms nbr = Inr r
    \<and> (r \<noteq> None \<longleftrightarrow> goal \<le> nbr + int (length (filter (\<lambda>m. s_node_recv command expected m = Inr True) ms)))"
  using assms
proof (induction ms arbitrary: nbr)
  case Nil
  then show ?case by (simp add: local_answers.simps)
next
  case (Cons m ms)
  obtain hit where hit: "s_node_recv command expected m = Inr hit" using Cons.prems by auto
  obtain r where "local_answers command expected goal ms (if hit then nbr + 1 else nbr) = Inr r"
    "r \<noteq> None \<longleftrightarrow> goal \<le> (if hit then nbr + 1 else nbr)
       + int (length (filter (\<lambda>m. s_node_recv command expected m = Inr True) ms))"
    using Cons.IH [of "if hit then nbr + 1 else nbr"] Cons.prems by auto
  then show ?case using hit by (cases hit) (auto simp: local_answers.simps [of _ _ _ "m # ms"])
qed

section \<open>The measurements\<close>

text \<open>How many of the messages are answers, where all can be read.\<close>

definition hits :: "string \<Rightarrow> string \<Rightarrow> byte list list list \<Rightarrow> int" where
  "hits command expected ms = int (length (filter (\<lambda>m. s_node_recv command expected m = Inr True) ms))"

definition readable :: "byte list list list \<Rightarrow> bool" where
  "readable ms \<longleftrightarrow> (\<forall>m \<in> set ms. \<forall>(c, e) \<in> {(''WHISPER'', ''R:WHISPER''), (''SHOUT'', ''R:SHOUT'')}.
     \<exists>hit. s_node_recv c e m = Inr hit)"

lemma readable_simps [simp]:
  "readable (ms @ ns) \<longleftrightarrow> readable ms \<and> readable ns" "readable ms \<Longrightarrow> readable (take k ms)"
  "readable ms \<Longrightarrow> readable (drop k ms)"
  by (auto simp: readable_def dest: in_set_takeD in_set_dropD)

lemma hits_append [simp]: "hits c e (ms @ ns) = hits c e ms + hits c e ns" "hits c e [] = 0"
  by (simp_all add: hits_def)

lemma hits_nonneg [simp]: "0 \<le> hits c e ms"
  by (simp add: hits_def)

lemma local_batch_hits:
  assumes "\<forall>m \<in> set ms. \<exists>hit. s_node_recv c e m = Inr hit"
  shows "local_batch c e ms nbr = Inr (nbr + hits c e ms)"
  using assms
proof (induction ms arbitrary: nbr)
  case (Cons m ms)
  obtain hit where "s_node_recv c e m = Inr hit" using Cons.prems by auto
  then show ?case using Cons by (cases hit) (simp_all add: hits_def)
qed simp

lemma local_poll_hits:
  assumes "readable (pf_incoming st)" and "(c, e) \<in> {(''WHISPER'', ''R:WHISPER''), (''SHOUT'', ''R:SHOUT'')}"
  shows "local_poll c e k st = Inr (st\<lparr>pf_incoming := drop k (pf_incoming st),
    pf_responses := pf_responses st + hits c e (take k (pf_incoming st))\<rparr>)"
proof -
  have "\<forall>m \<in> set (take k (pf_incoming st)). \<exists>hit. s_node_recv c e m = Inr hit"
    using assms by (auto simp: readable_def dest: in_set_takeD)
  then show ?thesis by (simp add: local_poll_def local_batch_hits)
qed

definition polled :: "(nat \<Rightarrow> nat) \<Rightarrow> nat \<Rightarrow> nat" where
  "polled poll n = sum_list (map poll [0..<n])"

lemma polled_next:
  "take (polled poll (Suc n)) ms = take (polled poll n) ms @ take (poll n) (drop (polled poll n) ms)"
  "drop (polled poll (Suc n)) ms = drop (poll n) (drop (polled poll n) ms)" "polled poll 0 = 0"
  by (simp_all add: polled_def take_add) (simp add: add.commute)

text \<open>The calls go to the nodes in turn; what comes in meanwhile is counted.\<close>

lemma local_whispers_sent:
  assumes "max_node \<noteq> 0" and "\<forall>i < max_node. peers ! i = Some (names ! i)" and "readable (pf_incoming st)"
  shows "each (local_whisper max_node peers poll) [0..<n] st = Inr (st\<lparr>pf_incoming := drop (polled poll n) (pf_incoming st),
    pf_out := pf_out st @ concat (map (\<lambda>k. zyre_whispers (names ! (k mod max_node)) ''S:WHISPER'') [0..<n]),
    pf_responses := pf_responses st + hits ''WHISPER'' ''R:WHISPER'' (take (polled poll n) (pf_incoming st))\<rparr>)"
proof (induction n)
  case (Suc n)
  have "n mod max_node < max_node" using assms(1) by simp
  then have "peers ! (n mod max_node) = Some (names ! (n mod max_node))" using assms(2) by blast
  then show ?case using Suc assms
    by (cases st) (simp add: each_append local_whisper_def local_poll_hits polled_next del: drop_drop)
qed (simp add: polled_next)

lemma local_shouts_sent:
  assumes "readable (pf_incoming st)"
  shows "each (local_shout poll) [0..<n] st = Inr (st\<lparr>pf_incoming := drop (polled poll n) (pf_incoming st),
    pf_out := pf_out st @ concat (replicate n (zyre_shouts ''GLOBAL'' ''S:SHOUT'')),
    pf_responses := pf_responses st + hits ''SHOUT'' ''R:SHOUT'' (take (polled poll n) (pf_incoming st))\<rparr>)"
proof (induction n)
  case (Suc n)
  have "concat (replicate (Suc n) x) = concat (replicate n x) @ x" for x :: "zframe list"
    by (induction n) simp_all
  then show ?case using Suc assms
    by (cases st) (simp add: each_append local_shout_def local_poll_hits polled_next del: drop_drop replicate.simps concat.simps)
qed (simp add: polled_next)

text \<open>The wait ends inside the messages that hold enough answers.\<close>

lemma local_answers_stop:
  assumes "\<forall>m \<in> set ws. \<exists>hit. s_node_recv c e m = Inr hit" and "goal \<le> nbr + hits c e ws"
  shows "\<exists>k nbr'. local_answers c e goal (ws @ ss) nbr = Inr (Some (nbr', drop k ws @ ss)) \<and> goal \<le> nbr'"
  using assms
proof (induction ws arbitrary: nbr)
  case Nil
  then show ?case by (simp add: local_answers.simps)
next
  case (Cons m ms)
  show ?case
  proof (cases "goal \<le> nbr")
    case True
    then show ?thesis by (intro exI [of _ 0] exI [of _ nbr]) (simp add: local_answers.simps)
  next
    case False
    obtain hit where hit: "s_node_recv c e m = Inr hit" using Cons.prems(1) by auto
    have "goal \<le> (if hit then nbr + 1 else nbr) + hits c e ms" using Cons.prems(2) hit by (auto simp: hits_def)
    then obtain k nbr' where "local_answers c e goal (ms @ ss) (if hit then nbr + 1 else nbr) = Inr (Some (nbr', drop k ms @ ss))"
      "goal \<le> nbr'" using Cons.IH Cons.prems(1) by (meson list.set_intros(2))
    then show ?thesis using False hit
      by (intro exI [of _ "Suc k"] exI [of _ nbr']) (simp add: local_answers.simps [of _ _ _ "m # ms @ ss"])
  qed
qed

text \<open>
  The program ends: once the nodes have greeted it and the inbox holds enough answers to the whispers, and behind
  them enough answers to the shouts, it has whispered to the nodes in turn, shouted, and counted.
\<close>

theorem perf_local_finishes:
  assumes "local_greetings max_node ms \<lparr>gr_nbr_node = 0, gr_nbr_hello_response = 0, gr_peers = replicate max_node None\<rparr>
      = Inr (Some (g, ws @ ss))"
    and "max_node \<noteq> 0" and "\<forall>i < max_node. gr_peers g ! i = Some (names ! i)" and "readable (ws @ ss)"
    and "polled poll (nat max_message) \<le> length ws"
    and "max_message \<le> hits ''WHISPER'' ''R:WHISPER'' ws"
    and "max_message sdiv int max_node * int max_node \<le> hits ''SHOUT'' ''R:SHOUT'' ss"
  shows "\<exists>st. perf_local max_node max_message poll poll' ms = Inr (Some st)
    \<and> pf_out st = perf_setup @ concat (map (\<lambda>k. zyre_whispers (names ! (k mod max_node)) ''S:WHISPER'') [0..<nat max_message])
        @ concat (replicate (nat (max_message sdiv int max_node)) (zyre_shouts ''GLOBAL'' ''S:SHOUT''))
    \<and> max_message sdiv int max_node * int max_node \<le> pf_responses st"
proof -
  let ?n = "nat max_message" and ?k = "nat (max_message sdiv int max_node)" and ?goal = "max_message sdiv int max_node * int max_node"
  let ?whispers = "concat (map (\<lambda>k. zyre_whispers (names ! (k mod max_node)) ''S:WHISPER'') [0..<?n])"
  let ?shouts = "concat (replicate ?k (zyre_shouts ''GLOBAL'' ''S:SHOUT''))"
  let ?p = "polled poll ?n"
  have halves: "drop ?p (ws @ ss) = drop ?p ws @ ss" "take ?p (ws @ ss) = take ?p ws" using assms(5) by simp_all
  let ?st1 = "\<lparr>pf_incoming = drop ?p ws @ ss, pf_out = perf_setup @ ?whispers,
    pf_responses = hits ''WHISPER'' ''R:WHISPER'' (take ?p ws)\<rparr>"
  have one: "each (local_whisper max_node (gr_peers g) poll) [0..<?n]
      \<lparr>pf_incoming = ws @ ss, pf_out = perf_setup, pf_responses = 0\<rparr> = Inr ?st1"
    using local_whispers_sent [OF assms(2,3), of "\<lparr>pf_incoming = ws @ ss, pf_out = perf_setup, pf_responses = 0\<rparr>" poll ?n]
      assms(4) by (simp add: halves del: take_append drop_append)
  have "hits ''WHISPER'' ''R:WHISPER'' ws = hits ''WHISPER'' ''R:WHISPER'' (take ?p ws) + hits ''WHISPER'' ''R:WHISPER'' (drop ?p ws)"
    by (metis append_take_drop_id hits_append(1))
  then have "max_message \<le> hits ''WHISPER'' ''R:WHISPER'' (take ?p ws) + hits ''WHISPER'' ''R:WHISPER'' (drop ?p ws)"
    using assms(6) by simp
  moreover have "\<forall>m \<in> set (drop ?p ws). \<exists>hit. s_node_recv ''WHISPER'' ''R:WHISPER'' m = Inr hit"
    using assms(4) by (auto simp: readable_def dest: in_set_dropD)
  ultimately obtain j nbr where two: "local_answers ''WHISPER'' ''R:WHISPER'' max_message (drop ?p ws @ ss)
      (hits ''WHISPER'' ''R:WHISPER'' (take ?p ws)) = Inr (Some (nbr, drop j (drop ?p ws) @ ss))"
    using local_answers_stop by blast
  let ?rest = "drop j (drop ?p ws) @ ss" and ?q = "polled poll' ?k"
  let ?st2 = "\<lparr>pf_incoming = ?rest, pf_out = perf_setup @ ?whispers, pf_responses = 0\<rparr>"
  have readable: "readable ?rest" using assms(4) by simp
  let ?st3 = "\<lparr>pf_incoming = drop ?q ?rest, pf_out = perf_setup @ ?whispers @ ?shouts,
    pf_responses = hits ''SHOUT'' ''R:SHOUT'' (take ?q ?rest)\<rparr>"
  have three: "each (local_shout poll') [0..<?k] ?st2 = Inr ?st3"
    using local_shouts_sent [of ?st2 poll' ?k] readable by simp
  have "hits ''SHOUT'' ''R:SHOUT'' ?rest = hits ''SHOUT'' ''R:SHOUT'' (take ?q ?rest) + hits ''SHOUT'' ''R:SHOUT'' (drop ?q ?rest)"
    by (metis append_take_drop_id hits_append(1))
  moreover have "hits ''SHOUT'' ''R:SHOUT'' ss \<le> hits ''SHOUT'' ''R:SHOUT'' ?rest" by simp
  ultimately have "?goal \<le> hits ''SHOUT'' ''R:SHOUT'' (take ?q ?rest) + hits ''SHOUT'' ''R:SHOUT'' (drop ?q ?rest)"
    using assms(7) by simp
  moreover have "\<forall>m \<in> set (drop ?q ?rest). \<exists>hit. s_node_recv ''SHOUT'' ''R:SHOUT'' m = Inr hit"
    using readable readable_simps(3) [of ?rest ?q] by (auto simp: readable_def)
  ultimately have "\<exists>i nbr'. local_answers ''SHOUT'' ''R:SHOUT'' ?goal (drop ?q ?rest @ [])
      (hits ''SHOUT'' ''R:SHOUT'' (take ?q ?rest)) = Inr (Some (nbr', drop i (drop ?q ?rest) @ [])) \<and> ?goal \<le> nbr'"
    by (rule local_answers_stop [rotated])
  then obtain i nbr' where four: "local_answers ''SHOUT'' ''R:SHOUT'' ?goal (drop ?q ?rest)
      (hits ''SHOUT'' ''R:SHOUT'' (take ?q ?rest)) = Inr (Some (nbr', drop i (drop ?q ?rest)))" "?goal \<le> nbr'"
    unfolding append_Nil2 by blast
  show ?thesis
    using assms(1,2) one two three four
    by (simp only: perf_local_def local_wait_def Let_def and_then_simps option.case prod.case perf_state.select_convs
        perf_state.update_convs option.map if_False) simp
qed

theorem perf_local_finishes_witness:
  "\<exists>st. perf_local 1 1 (\<lambda>_. 0) (\<lambda>_. 0) [inbox_message [''ENTER'', ''U'', ''n''], inbox_message [''WHISPER'', ''U'', ''n'', ''R:HELLO''],
      inbox_message [''WHISPER'', ''U'', ''n'', ''R:WHISPER''], inbox_message [''SHOUT'', ''U'', ''n'', ''GLOBAL'', ''R:SHOUT'']] = Inr (Some st)
    \<and> pf_out st = perf_setup @ concat (map (\<lambda>k. zyre_whispers ([''U''] ! (k mod 1)) ''S:WHISPER'') [0..<nat 1])
        @ concat (replicate (nat (1 sdiv int 1)) (zyre_shouts ''GLOBAL'' ''S:SHOUT''))
    \<and> 1 sdiv int 1 * int 1 \<le> pf_responses st"
proof (rule perf_local_finishes [where names = "[''U'']"
      and ws = "[inbox_message [''WHISPER'', ''U'', ''n'', ''R:WHISPER'']]"
      and ss = "[inbox_message [''SHOUT'', ''U'', ''n'', ''GLOBAL'', ''R:SHOUT'']]"
      and g = "\<lparr>gr_nbr_node = 1, gr_nbr_hello_response = 1, gr_peers = [Some ''U'']\<rparr>"])
  have c: "c_string ''U''" "c_string ''n''" "c_string ''GLOBAL''" by (simp_all add: c_string_def)
  note recv = s_node_recv_def streq_iff readable_def hits_def c
  show "local_greetings 1 [inbox_message [''ENTER'', ''U'', ''n''], inbox_message [''WHISPER'', ''U'', ''n'', ''R:HELLO''],
      inbox_message [''WHISPER'', ''U'', ''n'', ''R:WHISPER''], inbox_message [''SHOUT'', ''U'', ''n'', ''GLOBAL'', ''R:SHOUT'']]
      \<lparr>gr_nbr_node = 0, gr_nbr_hello_response = 0, gr_peers = replicate 1 None\<rparr>
    = Inr (Some (\<lparr>gr_nbr_node = 1, gr_nbr_hello_response = 1, gr_peers = [Some ''U'']\<rparr>,
        [inbox_message [''WHISPER'', ''U'', ''n'', ''R:WHISPER'']] @ [inbox_message [''SHOUT'', ''U'', ''n'', ''GLOBAL'', ''R:SHOUT'']]))"
    by (simp add: local_greet_def streq_iff c)
  show "readable ([inbox_message [''WHISPER'', ''U'', ''n'', ''R:WHISPER'']] @ [inbox_message [''SHOUT'', ''U'', ''n'', ''GLOBAL'', ''R:SHOUT'']])"
    "(1::int) \<le> hits ''WHISPER'' ''R:WHISPER'' [inbox_message [''WHISPER'', ''U'', ''n'', ''R:WHISPER'']]"
    by (auto simp: recv)
  show "(1::int) sdiv int 1 * int 1 \<le> hits ''SHOUT'' ''R:SHOUT'' [inbox_message [''SHOUT'', ''U'', ''n'', ''GLOBAL'', ''R:SHOUT'']]"
    by (simp add: recv signed_divide_int_def)
qed (simp_all add: polled_def)

text \<open>With no nodes to wait for, the program divides by zero as soon as any message lets it go on.\<close>

lemma perf_local_no_nodes:
  assumes "local_greet 0 m \<lparr>gr_nbr_node = 0, gr_nbr_hello_response = 0, gr_peers = []\<rparr> = Inr st" and "max_message \<ge> 0"
  shows "perf_local 0 max_message poll poll' (m # ms) = Inl Division_by_zero"
proof -
  have st: "gr_nbr_node st = 0 \<and> gr_nbr_hello_response st = 0"
    using assms(1) by (auto simp: local_greet_def split: prod.splits if_splits)
  have "each (local_whisper 0 (gr_peers st) poll) (0 # xs) s = Inl Division_by_zero" for xs s
    by (simp add: local_whisper_def)
  then show ?thesis
  proof (cases "nat max_message")
    case 0
    then show ?thesis using st assms
      by (simp add: perf_local_def local_wait_def local_answers.simps)
  next
    case (Suc n)
    then have "[0..<nat max_message] = 0 # [1..<Suc n]" by (simp add: upt_conv_Cons)
    then show ?thesis using st assms(1)
      by (simp add: perf_local_def local_whisper_def)
  qed
qed

end
