(* ===== verification/Zyre_Tools.thy ===== *)
theory Zyre_Tools
  imports Zyre_Client
begin

text \<open>
  The pinger (\<open>src/zpinger.c\<close>): its options, the calls before its loop, and what it does on each event.
\<close>

section \<open>The pinger\<close>

record ping_options =
  po_verbose :: bool
  po_iface :: "string option"
  po_endpoint :: "string option"
  po_gossip :: "string option"
  po_ipv6 :: bool
  po_curve :: bool

text \<open>The arguments behind the program's name; an exit code ends the program. Past the last one is a null pointer.\<close>

fun zpinger_options :: "env \<Rightarrow> bool \<Rightarrow> string list \<Rightarrow> ping_options \<Rightarrow> int + ping_options" where
  "zpinger_options env has_curve [] opts = Inr opts"
| "zpinger_options env has_curve (a # args) opts =
     (if streq a ''--help'' \<or> streq a ''-h'' then Inl 0
      else if streq a ''--verbose'' \<or> streq a ''-v'' then zpinger_options env has_curve args (opts\<lparr>po_verbose := True\<rparr>)
      else if streq a ''--interface'' \<or> streq a ''-i'' then
        (case args of [] \<Rightarrow> Inr (opts\<lparr>po_iface := None\<rparr>)
         | v # args \<Rightarrow> zpinger_options env has_curve args (opts\<lparr>po_iface := Some v\<rparr>))
      else if streq a ''--endpoint'' \<or> streq a ''-e'' then
        (case args of [] \<Rightarrow> Inr (opts\<lparr>po_endpoint := None\<rparr>)
         | v # args \<Rightarrow> zpinger_options env has_curve args (opts\<lparr>po_endpoint := Some v\<rparr>))
      else if streq a ''--gossip'' \<or> streq a ''-g'' then
        (case args of [] \<Rightarrow> Inr (opts\<lparr>po_gossip := None\<rparr>)
         | v # args \<Rightarrow> zpinger_options env has_curve args (opts\<lparr>po_gossip := Some v\<rparr>))
      else if streq a ''--ipv6'' \<or> streq a ''-6'' then zpinger_options env has_curve args (opts\<lparr>po_ipv6 := True\<rparr>)
      else if env_draft env \<and> (streq a ''--curve'' \<or> streq a ''-c'') then
        (if \<not> has_curve then Inl 1 else zpinger_options env has_curve args (opts\<lparr>po_curve := True\<rparr>))
      else Inl 1)"

text \<open>
  The calls before the loop, up to the result of setting the endpoint, and after it. The interface is set
  in CZMQ. \<open>keys\<close> are those of the new certificate.
\<close>

definition zpinger_setup :: "ping_options \<Rightarrow> zframe list" where
  "zpinger_setup opts = zyre_new None @ zyre_uuid @ zyre_name
     @ (if po_verbose opts then zyre_set_verbose else [])
     @ (case po_gossip opts of None \<Rightarrow> [] | Some g \<Rightarrow> zyre_gossip_connect g)
     @ (case po_endpoint opts of None \<Rightarrow> [] | Some e \<Rightarrow> zyre_set_endpoint e)"

definition zpinger_start :: "env \<Rightarrow> bool \<Rightarrow> string \<times> string \<Rightarrow> ping_options \<Rightarrow> zframe list" where
  "zpinger_start env has_curve keys opts =
     (if env_draft env \<and> po_curve opts \<and> has_curve
      then zyre_set_zap_domain ''ZPINGER'' @ zyre_set_zcert (fst keys) (snd keys)
        @ zyre_set_header ''X-PUBLICKEY'' (fst keys)
      else [])
     @ zyre_start @ zyre_join ''GLOBAL'' @ (if po_verbose opts then zyre_print else [])"

text \<open>One event: the line it logs and the calls it makes.\<close>

definition zpinger_event :: "zyre_event \<Rightarrow> (log_entry list \<times> zframe list) outcome" where
  "zpinger_event event = and_then (not_null (ev_type event)) (\<lambda>type.
     let name = fmt_s (ev_peer_name event) in
     if streq type ''ENTER'' then
       (case ev_peer_uuid event of
          None \<Rightarrow> Inl Assertion_failed
        | Some uuid \<Rightarrow> Inr ([Line (''['' @ name @ ''] peer entered'')], zyre_whispers uuid ''Hello''))
     else if streq type ''EXIT'' then Inr ([Line (''['' @ name @ ''] peer exited'')], [])
     else if streq type ''WHISPER'' then
       Inr ([Line (''['' @ name @ ''] received ping (WHISPER)'')], zyre_shouts ''GLOBAL'' ''Hello'')
     else if streq type ''SHOUT'' then
       Inr ([Line (''['' @ name @ '']('' @ fmt_s (ev_group event) @ '') received ping (SHOUT)'')], [])
     else Inr ([], []))"

end
