(* ===== verification/Zyre_Testers.thy ===== *)
theory Zyre_Testers
  imports Zyre_Client
begin

text \<open>
  The bulk testers (\<open>src/ztester_beacon.c\<close>, \<open>src/ztester_gossip.c\<close>): programs that start and stop nodes at
  random, each a thread that talks to the others at random.
\<close>

section \<open>The bulk testers\<close>

text \<open>The draws of \<open>randof\<close> in one turn are numbered; \<open>rand k n\<close> is the \<open>k\<close>-th, below \<open>n\<close>.\<close>

definition tester_event :: "(nat \<Rightarrow> int \<Rightarrow> int) \<Rightarrow> byte list list
    \<Rightarrow> (string option \<times> string option \<times> log_entry list) outcome" where
  "tester_event rand incoming =
     (case zmsg_popstr incoming of (event, incoming) \<Rightarrow> case zmsg_popstr incoming of (peer, incoming) \<Rightarrow>
      case zmsg_popstr incoming of (name, incoming) \<Rightarrow>
      and_then (not_null event) (\<lambda>event.
        if streq event ''ENTER'' then Inr (peer, None, [])
        else if streq event ''EXIT'' then Inr (peer, None, [])
        else if streq event ''WHISPER'' then Inr (if rand 0 2 = 0 then peer else None, None, [])
        else if streq event ''SHOUT'' then
          Inr (if rand 0 3 > 0 then None else peer, if rand 1 3 > 0 then None else fst (zmsg_popstr incoming), [])
        else if streq event ''JOIN'' then
          Inr (None, None, [Line (''I: '' @ fmt_s name @ '' joined '' @ fmt_s (fst (zmsg_popstr incoming)))])
        else if streq event ''LEAVE'' then
          Inr (None, None, [Line (''I: '' @ fmt_s name @ '' left '' @ fmt_s (fst (zmsg_popstr incoming)))])
        else Inr (None, None, [])))"

definition tester_send :: "string option \<Rightarrow> string option \<Rightarrow> int \<Rightarrow> zframe list \<times> int" where
  "tester_send to_peer to_group counter =
     (let (whispers, counter) = (case to_peer of None \<Rightarrow> ([], counter)
            | Some peer \<Rightarrow> (zyre_whispers peer (c_dec counter), counter + 1));
          (shouts, counter) = (case to_group of None \<Rightarrow> ([], counter)
            | Some name \<Rightarrow> (zyre_shouts name (c_dec counter), counter + 1))
      in (whispers @ shouts, counter))"

text \<open>\<open>GROUP%03d\<close> of a number of at most three digits.\<close>

definition tester_group :: "int \<Rightarrow> string" where
  "tester_group i = (let d = c_dec i in ''GROUP'' @ replicate (3 - length d) (CHR ''0'') @ d)"

definition tester_trigger :: "(nat \<Rightarrow> int \<Rightarrow> int) \<Rightarrow> zframe list" where
  "tester_trigger rand = (let name = tester_group (rand 0 10) in
     if rand 1 4 = 0 then zyre_join name
     else if rand 2 3 = 0 then zyre_leave name
     else [])"

text \<open>Before the loop, with beacons and with gossip, where the node has an endpoint of its own.\<close>

definition tester_setup :: "zframe list" where
  "tester_setup = zyre_new None @ zyre_set_verbose @ zyre_start"

definition gossip_tester_setup :: "string \<Rightarrow> zframe list" where
  "gossip_tester_setup node_name = zyre_new None @ zyre_set_verbose
     @ zyre_set_endpoint (''inproc://'' @ node_name) @ zyre_gossip_connect ''inproc://zyre-hub'' @ zyre_start"

text \<open>What the poller returns: nothing, after the time-out too, the parent's command, or an event.\<close>

datatype tester_poll = Poll_nothing | Poll_parent string | Poll_node "byte list list"

record tester =
  te_counter :: int
  te_trigger :: int
  te_sent :: "zframe list"

text \<open>What a turn does after the event; \<open>now\<close> and \<open>later\<close> are the two readings of the clock.\<close>

definition tester_acts :: "(nat \<Rightarrow> int \<Rightarrow> int) \<Rightarrow> int \<Rightarrow> int \<Rightarrow> tester
    \<Rightarrow> string option \<times> string option \<times> log_entry list \<Rightarrow> (bool \<times> tester) outcome" where
  "tester_acts rand now later st = (\<lambda>(to_peer, to_group, log).
     case tester_send to_peer to_group (te_counter st) of (frames, counter) \<Rightarrow>
     let st = st\<lparr>te_counter := counter, te_sent := te_sent st @ frames\<rparr>
     in if te_trigger st \<le> now
        then Inr (True, st\<lparr>te_trigger := later + 1000, te_sent := te_sent st @ tester_trigger rand\<rparr>)
        else Inr (True, st))"

text \<open>One turn of the loop, false at its end.\<close>

definition tester_turn :: "(nat \<Rightarrow> int \<Rightarrow> int) \<Rightarrow> (nat \<Rightarrow> int \<Rightarrow> int) \<Rightarrow> int \<Rightarrow> int \<Rightarrow> tester_poll \<Rightarrow> tester
    \<Rightarrow> (bool \<times> tester) outcome" where
  "tester_turn rand rand' now later polled st = (case polled of
     Poll_nothing \<Rightarrow> Inr (False, st)
   | Poll_parent command \<Rightarrow> assert_that (streq command ''$TERM'') (Inr (False, st))
   | Poll_node incoming \<Rightarrow> and_then (tester_event rand incoming) (tester_acts rand' now later st))"

text \<open>
  The node of the gossip tester has the same loop, but it copies the identity of the peer it answers, which must
  then be there.
\<close>

definition gossip_tester_event :: "(nat \<Rightarrow> int \<Rightarrow> int) \<Rightarrow> byte list list
    \<Rightarrow> (string option \<times> string option \<times> log_entry list) outcome" where
  "gossip_tester_event rand incoming =
     (case zmsg_popstr incoming of (event, incoming) \<Rightarrow> case zmsg_popstr incoming of (peer, incoming) \<Rightarrow>
      case zmsg_popstr incoming of (name, incoming) \<Rightarrow>
      and_then (not_null event) (\<lambda>event.
        if streq event ''ENTER'' then and_then (not_null peer) (\<lambda>peer. Inr (Some peer, None, []))
        else if streq event ''EXIT'' then and_then (not_null peer) (\<lambda>peer. Inr (Some peer, None, []))
        else if streq event ''WHISPER'' then
          (if rand 0 2 = 0 then and_then (not_null peer) (\<lambda>peer. Inr (Some peer, None, [])) else Inr (None, None, []))
        else if streq event ''SHOUT'' then and_then (not_null peer) (\<lambda>peer.
          Inr (if rand 0 3 > 0 then None else Some peer, if rand 1 3 > 0 then None else fst (zmsg_popstr incoming), []))
        else if streq event ''JOIN'' then
          Inr (None, None, [Line (''I: '' @ fmt_s name @ '' joined '' @ fmt_s (fst (zmsg_popstr incoming)))])
        else if streq event ''LEAVE'' then
          Inr (None, None, [Line (''I: '' @ fmt_s name @ '' left '' @ fmt_s (fst (zmsg_popstr incoming)))])
        else Inr (None, None, [])))"

definition gossip_tester_turn :: "(nat \<Rightarrow> int \<Rightarrow> int) \<Rightarrow> (nat \<Rightarrow> int \<Rightarrow> int) \<Rightarrow> int \<Rightarrow> int \<Rightarrow> tester_poll \<Rightarrow> tester
    \<Rightarrow> (bool \<times> tester) outcome" where
  "gossip_tester_turn rand rand' now later polled st = (case polled of
     Poll_nothing \<Rightarrow> Inr (False, st)
   | Poll_parent command \<Rightarrow> assert_that (streq command ''$TERM'') (Inr (False, st))
   | Poll_node incoming \<Rightarrow> and_then (gossip_tester_event rand incoming) (tester_acts rand' now later st))"

lemma gossip_tester_event_same:
  "fst (zmsg_popstr (snd (zmsg_popstr incoming))) \<noteq> None \<Longrightarrow> gossip_tester_event rand incoming = tester_event rand incoming"
  by (auto simp: gossip_tester_event_def tester_event_def not_null_def split: prod.splits option.splits)

text \<open>The main loop starts and stops nodes: the slots, and the count it logs.\<close>

definition tester_toggle :: "nat \<Rightarrow> bool list \<times> int \<Rightarrow> bool list \<times> int" where
  "tester_toggle index st = (case st of (actors, nbr_nodes) \<Rightarrow>
     if actors ! index then (actors[index := False], nbr_nodes - 1)
     else (actors[index := True], nbr_nodes + 1))"

text \<open>The arguments: the number of nodes, and of iterations, without end unless it is positive.\<close>

definition tester_options :: "string list \<Rightarrow> int \<times> int" where
  "tester_options args = (case args of [] \<Rightarrow> (10, -1) | [n] \<Rightarrow> (c_atoi n, -1) | n # m # _ \<Rightarrow> (c_atoi n, c_atoi m))"

text \<open>The gossip tester names its nodes, in an array of ten octets.\<close>

definition gossip_name :: "nat \<Rightarrow> string outcome" where
  "gossip_name index = (let node_name = ''node-'' @ c_dec (int index)
     in if 10 \<le> length node_name then Inl Buffer_overflow else Inr node_name)"

record tester_main =
  tm_actors :: "bool list"
  tm_nbr_nodes :: int
  tm_nbr_iterations :: int
  tm_names :: "string list"
  tm_log :: "log_entry list"

text \<open>One iteration at a slot; \<open>name\<close> makes what the node is started with.\<close>

definition tester_iteration :: "(nat \<Rightarrow> string outcome) \<Rightarrow> nat \<Rightarrow> tester_main \<Rightarrow> tester_main outcome" where
  "tester_iteration name index st =
     (if length (tm_actors st) \<le> index then Inl Buffer_overflow
      else case tester_toggle index (tm_actors st, tm_nbr_nodes st) of (actors, nbr_nodes) \<Rightarrow>
        let st' = st\<lparr>tm_actors := actors, tm_nbr_nodes := nbr_nodes, tm_nbr_iterations := tm_nbr_iterations st + 1\<rparr>
        in if tm_actors st ! index
           then Inr (st'\<lparr>tm_log := tm_log st @ [Line (''stopped node ('' @ c_dec nbr_nodes @ '' running)'')]\<rparr>)
           else and_then (name index) (\<lambda>node_name. Inr (st'\<lparr>tm_names := tm_names st @ [node_name],
             tm_log := tm_log st @ [Line (''started node ('' @ c_dec nbr_nodes @ '' running)'')]\<rparr>)))"

text \<open>The draws of the slots; when there are no more the program was interrupted.\<close>

fun tester_loop :: "(nat \<Rightarrow> string outcome) \<Rightarrow> int \<Rightarrow> nat list \<Rightarrow> tester_main \<Rightarrow> tester_main outcome" where
  "tester_loop name max_iterations [] st = Inr st"
| "tester_loop name max_iterations (index # draws) st =
     and_then (tester_iteration name index st) (\<lambda>st.
       if 0 < max_iterations \<and> max_iterations \<le> tm_nbr_iterations st then Inr st
       else tester_loop name max_iterations draws st)"

definition tester_run :: "(nat \<Rightarrow> string outcome) \<Rightarrow> nat \<Rightarrow> int \<Rightarrow> nat list \<Rightarrow> tester_main outcome" where
  "tester_run name max_nodes max_iterations draws =
     and_then (tester_loop name max_iterations draws \<lparr>tm_actors = replicate max_nodes False, tm_nbr_nodes = 0,
       tm_nbr_iterations = 0, tm_names = [], tm_log = []\<rparr>) (\<lambda>st.
     Inr (st\<lparr>tm_actors := map (\<lambda>_. False) (tm_actors st),
       tm_log := tm_log st @ [Line (''stopped tester ('' @ c_dec (tm_nbr_iterations st) @ '' iterations)'')]\<rparr>))"

text \<open>The nodes of the beacon tester get no argument.\<close>

definition beacon_tester :: "nat \<Rightarrow> int \<Rightarrow> nat list \<Rightarrow> tester_main outcome" where
  "beacon_tester max_nodes max_iterations draws = tester_run (\<lambda>_. Inr []) max_nodes max_iterations draws"

definition gossip_tester :: "nat \<Rightarrow> int \<Rightarrow> nat list \<Rightarrow> tester_main outcome" where
  "gossip_tester max_nodes max_iterations draws =
     assert_that (max_nodes \<noteq> 0) (tester_run gossip_name max_nodes max_iterations draws)"

section \<open>Facts\<close>

text \<open>The count of running testers is the number of slots in use.\<close>

lemma tester_toggle_count:
  assumes "index < length actors" and "nbr_nodes = int (count_list actors True)"
  shows "case tester_toggle index (actors, nbr_nodes) of (actors, nbr_nodes) \<Rightarrow> nbr_nodes = int (count_list actors True)"
proof -
  have split: "actors = take index actors @ actors ! index # drop (Suc index) actors"
    using assms(1) by (simp add: id_take_nth_drop)
  have "count_list (actors[index := b]) True + (if actors ! index then 1 else 0)
      = count_list actors True + (if b then 1 else 0)" for b
    by (subst (3) split, subst upd_conv_take_nth_drop [OF assms(1)]) simp
  from this [of True] this [of False] show ?thesis using assms(2) by (auto simp: tester_toggle_def)
qed

text \<open>Each message a tester sends takes the next number.\<close>

lemma tester_numbers:
  "snd (tester_send to_peer to_group counter)
     = counter + (if to_peer = None then 0 else 1) + (if to_group = None then 0 else 1)"
  by (simp add: tester_send_def split: option.split)

text \<open>A poll that times out ends a tester as an interrupt does.\<close>

lemma tester_ends_when_quiet: "tester_turn rand rand' now later Poll_nothing st = Inr (False, st)"
  by (simp add: tester_turn_def)

text \<open>The name of a node fits its array up to the index 9999.\<close>

lemma length_dec: "length (dec_digits n) = (if n < 10 then 1 else Suc (length (dec_digits (n div 10))))"
  by (simp add: dec_digits.simps [of n])

lemma gossip_name_fits: "gossip_name index = (if index < 10000 then Inr (''node-'' @ c_dec (int index)) else Inl Buffer_overflow)"
proof -
  have short: "length (dec_digits n) < Suc (Suc k) \<longleftrightarrow> n < 10 * m"
    if "\<And>n. length (dec_digits n) < Suc k \<longleftrightarrow> n < m" and "0 < m" for n k m
    using that(1) [of "n div 10"] that(2) length_dec [of n] by (cases "n < 10") (simp_all add: div_less_iff_less_mult mult.commute)
  have pos: "0 < length (dec_digits n)" for n by (subst length_dec) simp
  have one: "length (dec_digits n) < Suc 1 \<longleftrightarrow> n < 10" for n
    using length_dec [of n] pos [of "n div 10"] by (cases "n < 10") simp_all
  have "length (dec_digits n) < Suc (Suc 1) \<longleftrightarrow> n < 10 * 10" for n by (rule short [OF one]) simp
  then have "length (dec_digits n) < Suc (Suc (Suc 1)) \<longleftrightarrow> n < 10 * (10 * 10)" for n by (rule short) simp
  then have "length (dec_digits n) < Suc (Suc (Suc (Suc 1))) \<longleftrightarrow> n < 10 * (10 * (10 * 10))" for n by (rule short) simp
  moreover have num: "Suc (Suc (Suc (Suc 1))) = 5" "10 * (10 * (10 * 10)) = (10000::nat)" by simp_all
  ultimately have "length (dec_digits index) < 5 \<longleftrightarrow> index < 10000" unfolding num by blast
  then show ?thesis by (auto simp: gossip_name_def c_dec_def Let_def)
qed

text \<open>
  With slots to draw from and names that fit, the tester stops after as many iterations as it was asked for, and
  what it logs as the number of running nodes is always that number.
\<close>

definition counted :: "nat \<Rightarrow> tester_main \<Rightarrow> bool" where
  "counted max_nodes st \<longleftrightarrow> length (tm_actors st) = max_nodes \<and> tm_nbr_nodes st = int (count_list (tm_actors st) True)"

lemma tester_iteration_counts:
  assumes "counted max_nodes st" and "index < max_nodes" and "\<exists>s. name index = Inr s"
  shows "\<exists>st'. tester_iteration name index st = Inr st' \<and> counted max_nodes st'
    \<and> tm_nbr_iterations st' = tm_nbr_iterations st + 1"
proof -
  obtain actors n where t: "tester_toggle index (tm_actors st, tm_nbr_nodes st) = (actors, n)" by (rule prod.exhaust)
  have "n = int (count_list actors True)"
    using tester_toggle_count [of index "tm_actors st" "tm_nbr_nodes st"] assms t by (simp add: counted_def)
  moreover have "length actors = max_nodes" using assms t by (auto simp: counted_def tester_toggle_def split: if_splits)
  ultimately show ?thesis using assms t by (auto simp: tester_iteration_def counted_def Let_def)
qed

lemma tester_loop_counts:
  assumes "counted max_nodes st" and "\<forall>i \<in> set draws. i < max_nodes \<and> (\<exists>s. name i = Inr s)"
    and "0 < k \<longrightarrow> tm_nbr_iterations st < k \<and> k \<le> tm_nbr_iterations st + int (length draws)"
  shows "\<exists>st'. tester_loop name k draws st = Inr st' \<and> counted max_nodes st'
    \<and> tm_nbr_iterations st' = (if 0 < k then k else tm_nbr_iterations st + int (length draws))"
  using assms
proof (induction draws arbitrary: st)
  case (Cons i draws)
  obtain u where u: "tester_iteration name i st = Inr u" "counted max_nodes u" "tm_nbr_iterations u = tm_nbr_iterations st + 1"
    using tester_iteration_counts [OF Cons.prems(1), of i name] Cons.prems(2) by auto
  show ?case
  proof (cases "0 < k \<and> k \<le> tm_nbr_iterations u")
    case True
    then show ?thesis using u Cons.prems(3) by simp
  next
    case False
    have "\<exists>st'. tester_loop name k draws u = Inr st' \<and> counted max_nodes st'
        \<and> tm_nbr_iterations st' = (if 0 < k then k else tm_nbr_iterations u + int (length draws))"
      by (rule Cons.IH [OF u(2)]) (use Cons.prems u(3) False in auto)
    then show ?thesis using u False by auto
  qed
qed auto

lemma tester_run_counts:
  assumes "\<forall>i \<in> set draws. i < max_nodes \<and> (\<exists>s. name i = Inr s)" and "0 < k" and "k \<le> int (length draws)"
  shows "\<exists>st. tester_run name max_nodes k draws = Inr st \<and> tm_nbr_iterations st = k \<and> True \<notin> set (tm_actors st)"
proof -
  have zero: "count_list (replicate max_nodes False) True = 0" by (induction max_nodes) simp_all
  let ?st = "\<lparr>tm_actors = replicate max_nodes False, tm_nbr_nodes = 0, tm_nbr_iterations = 0, tm_names = [], tm_log = []\<rparr>"
  have c: "counted max_nodes ?st" by (simp add: counted_def zero)
  obtain u where "tester_loop name k draws ?st = Inr u" "tm_nbr_iterations u = k"
    using tester_loop_counts [OF c assms(1), of k] assms(2,3) by auto
  then show ?thesis by (auto simp: tester_run_def)
qed

lemma gossip_tester_stops:
  assumes "0 < max_nodes" and "max_nodes \<le> 10000" and "\<forall>i \<in> set draws. i < max_nodes" and "0 < k" and "k \<le> int (length draws)"
  shows "\<exists>st. gossip_tester max_nodes k draws = Inr st \<and> tm_nbr_iterations st = k \<and> True \<notin> set (tm_actors st)"
proof -
  have "\<forall>i \<in> set draws. i < max_nodes \<and> (\<exists>s. gossip_name i = Inr s)" using assms(2,3) by (auto simp: gossip_name_fits)
  then show ?thesis using tester_run_counts assms(1,4,5) by (simp add: gossip_tester_def)
qed

text \<open>Without nodes the gossip tester stops at its assertion; the other reads behind its empty array of slots.\<close>

lemma testers_without_nodes:
  "gossip_tester 0 k draws = Inl Assertion_failed" "beacon_tester 0 k (index # draws) = Inl Buffer_overflow"
  by (simp_all add: gossip_tester_def beacon_tester_def tester_run_def tester_iteration_def)

end
