(* ===== verification/Zyre_Selftest.thy ===== *)
theory Zyre_Selftest
  imports C_Strings
begin

text \<open>
  The drivers of the self tests (\<open>src/zyre_selftest.c\<close>, \<open>src/zyre_private_selftest.c\<close>): the table of the tests,
  the options, and which test functions a call runs. The test functions of the classes are modelled with the
  classes; here they are names.
\<close>

section \<open>The table\<close>

record test_item =
  ti_testname :: string
  ti_test :: "string option"
  ti_stable :: bool
  ti_pub :: bool
  ti_subtest :: "string option"

definition all_tests :: "bool \<Rightarrow> test_item list" where
  "all_tests draft = (if draft then
       [\<lparr>ti_testname = ''zre_msg'', ti_test = None, ti_stable = True, ti_pub = False, ti_subtest = Some ''zre_msg_test''\<rparr>,
        \<lparr>ti_testname = ''zyre_peer'', ti_test = None, ti_stable = True, ti_pub = False, ti_subtest = Some ''zyre_peer_test''\<rparr>,
        \<lparr>ti_testname = ''zyre_group'', ti_test = None, ti_stable = True, ti_pub = False, ti_subtest = Some ''zyre_group_test''\<rparr>,
        \<lparr>ti_testname = ''zyre_election'', ti_test = None, ti_stable = True, ti_pub = False, ti_subtest = Some ''zyre_election_test''\<rparr>,
        \<lparr>ti_testname = ''zyre_node'', ti_test = None, ti_stable = True, ti_pub = False, ti_subtest = Some ''zyre_node_test''\<rparr>,
        \<lparr>ti_testname = ''private_classes'', ti_test = None, ti_stable = False, ti_pub = False, ti_subtest = Some ''$ALL''\<rparr>]
     else [])
     @ [\<lparr>ti_testname = ''zyre'', ti_test = Some ''zyre_test'', ti_stable = True, ti_pub = True, ti_subtest = None\<rparr>,
        \<lparr>ti_testname = ''zyre_event'', ti_test = Some ''zyre_event_test'', ti_stable = True, ti_pub = True, ti_subtest = None\<rparr>]"

definition test_available :: "bool \<Rightarrow> string \<Rightarrow> test_item option" where
  "test_available draft testname = find (\<lambda>item. streq testname (ti_testname item)) (all_tests draft)"

section \<open>Running tests\<close>

text \<open>What a driver does, in order: a line to the output, one to the error output, or a test function with its flag.\<close>

datatype test_action = Puts string | Complain string | Run string bool

definition zyre_private_selftest :: "bool \<Rightarrow> string \<Rightarrow> test_action list" where
  "zyre_private_selftest verbose subtest =
     concat (map (\<lambda>f. if streq subtest ''$ALL'' \<or> streq subtest f then [Run f verbose] else [])
       [''zre_msg_test'', ''zyre_peer_test'', ''zyre_group_test'', ''zyre_election_test'', ''zyre_node_test''])"

text \<open>Without the draft classes a private subtest is not compiled in.\<close>

definition run_item :: "bool \<Rightarrow> bool \<Rightarrow> test_item \<Rightarrow> test_action list outcome" where
  "run_item draft verbose item = (case ti_subtest item of
     None \<Rightarrow> and_then (not_null (ti_test item)) (\<lambda>f. Inr [Run f verbose])
   | Some subtest \<Rightarrow> Inr (if draft then zyre_private_selftest verbose subtest else []))"

fun run_items :: "bool \<Rightarrow> bool \<Rightarrow> test_item list \<Rightarrow> test_action list outcome" where
  "run_items draft verbose [] = Inr []"
| "run_items draft verbose (item # items) =
     (if streq (ti_testname item) ''private_classes'' then run_items draft verbose items
      else and_then (run_item draft verbose item) (\<lambda>run.
        and_then (run_items draft verbose items) (\<lambda>rest. Inr (run @ rest))))"

definition test_runall :: "bool \<Rightarrow> bool \<Rightarrow> test_action list outcome" where
  "test_runall draft verbose = and_then (run_items draft verbose (all_tests draft)) (\<lambda>run.
     Inr ([Puts ''Running zyre selftests...''] @ run @ [Puts ''Tests passed OK'']))"

definition test_list :: "bool \<Rightarrow> test_action list" where
  "test_list draft = Puts ''Available tests:'' # map (\<lambda>item. Puts (''    '' @ ti_testname item
     @ replicate (40 - length (ti_testname item)) (CHR '' '') @ '' - ''
     @ (if ti_stable item then ''stable'' else ''draft'') @ [CHR 0x09] @ (if ti_pub item then ''public'' else ''private'')))
     (all_tests draft)"

definition test_number :: "bool \<Rightarrow> test_action list" where
  "test_number draft = [Puts (c_dec (int (length
     (filter (\<lambda>item. \<not> streq (ti_testname item) ''private_classes'') (all_tests draft)))))]"

section \<open>The main program\<close>

definition selftest_help :: "test_action list" where
  "selftest_help = map Puts [''zyre_selftest.c [options] ...'', ''  --verbose / -v         verbose test output'',
     ''  --number / -n          report number of tests'', ''  --list / -l            list all tests'',
     ''  --test / -t [name]     run only test '' @ [CHR 0x27] @ ''name'' @ [CHR 0x27],
     ''  --continue / -c        continue on exception (on Windows)'']"

text \<open>The arguments: either the program ends with an exit code, or the flag and the test are set.\<close>

fun selftest_options :: "bool \<Rightarrow> string list \<Rightarrow> bool \<times> test_item option
    \<Rightarrow> (int \<times> test_action list) + (bool \<times> test_item option)" where
  "selftest_options draft [] st = Inr st"
| "selftest_options draft (a # args) (verbose, test) =
     (if streq a ''--help'' \<or> streq a ''-h'' then Inl (0, selftest_help)
      else if streq a ''--verbose'' \<or> streq a ''-v'' then selftest_options draft args (True, test)
      else if streq a ''--number'' \<or> streq a ''-n'' then Inl (0, test_number draft)
      else if streq a ''--list'' \<or> streq a ''-l'' then Inl (0, test_list draft)
      else if streq a ''--test'' \<or> streq a ''-t'' then
        (case args of
           [] \<Rightarrow> Inl (1, [Complain ''--test needs an argument''])
         | name # args \<Rightarrow> (case test_available draft name of
             None \<Rightarrow> Inl (1, [Complain (name @ '' not valid, use --list to show tests'')])
           | Some item \<Rightarrow> selftest_options draft args (verbose, Some item)))
      else if streq a ''--continue'' \<or> streq a ''-c'' then selftest_options draft args (verbose, test)
      else Inl (1, [Puts (''Unknown option: '' @ a)]))"

definition zyre_selftest :: "bool \<Rightarrow> string list \<Rightarrow> (int \<times> test_action list) outcome" where
  "zyre_selftest draft args = (case selftest_options draft args (False, None) of
     Inl exit \<Rightarrow> Inr exit
   | Inr (verbose, Some item) \<Rightarrow> and_then (run_item draft verbose item) (\<lambda>run.
       Inr (0, Puts (''Running zyre test '' @ [CHR 0x27] @ ti_testname item @ [CHR 0x27] @ ''...'') # run))
   | Inr (verbose, None) \<Rightarrow> and_then (test_runall draft verbose) (\<lambda>out. Inr (0, out)))"

section \<open>What is run\<close>

fun runs :: "test_action list \<Rightarrow> string list" where
  "runs [] = []"
| "runs (Run f _ # as) = f # runs as"
| "runs (_ # as) = runs as"

definition test_functions :: "bool \<Rightarrow> string list" where
  "test_functions draft = (if draft then [''zre_msg_test'', ''zyre_peer_test'', ''zyre_group_test'', ''zyre_election_test'',
     ''zyre_node_test''] else []) @ [''zyre_test'', ''zyre_event_test'']"

text \<open>Without arguments every test function that is compiled in runs once, and the number the driver reports is their number.\<close>

lemma all_names: "list_all c_string (map ti_testname (all_tests draft))"
  by (simp add: all_tests_def c_string_def)

lemma runs_append [simp]: "runs (as @ bs) = runs as @ runs bs"
  by (induction as rule: runs.induct) simp_all

definition item_runs :: "bool \<Rightarrow> test_item \<Rightarrow> string list" where
  "item_runs draft item = (case run_item draft True item of Inl _ \<Rightarrow> [] | Inr run \<Rightarrow> runs run)"

lemma private_runs: "runs (zyre_private_selftest verbose subtest) = runs (zyre_private_selftest True subtest)"
  by (simp add: zyre_private_selftest_def)

lemma run_item_runs:
  "ti_test item \<noteq> None \<or> ti_subtest item \<noteq> None
     \<Longrightarrow> \<exists>run. run_item draft verbose item = Inr run \<and> runs run = item_runs draft item"
  using private_runs [of verbose] by (auto simp: run_item_def item_runs_def split: option.splits)

lemma run_items_runs:
  "list_all (\<lambda>item. ti_test item \<noteq> None \<or> ti_subtest item \<noteq> None) items
     \<Longrightarrow> \<exists>run. run_items draft verbose items = Inr run
       \<and> runs run = concat (map (item_runs draft) (filter (\<lambda>item. \<not> streq (ti_testname item) ''private_classes'') items))"
proof (induction items)
  case (Cons item items)
  obtain run where "run_item draft verbose item = Inr run" "runs run = item_runs draft item"
    using run_item_runs [of item draft verbose] Cons.prems by auto
  then show ?case using Cons by auto
qed simp

lemma all_tests_runs:
  "list_all (\<lambda>item. ti_test item \<noteq> None \<or> ti_subtest item \<noteq> None) (all_tests draft)"
  "concat (map (item_runs draft) (filter (\<lambda>item. \<not> streq (ti_testname item) ''private_classes'') (all_tests draft)))
    = test_functions draft"
proof -
  show "list_all (\<lambda>item. ti_test item \<noteq> None \<or> ti_subtest item \<noteq> None) (all_tests draft)"
    by (cases draft) (simp_all add: all_tests_def)
  have "concat (map (item_runs True) (filter (\<lambda>item. \<not> streq (ti_testname item) ''private_classes'') (all_tests True))) = test_functions True"
    "concat (map (item_runs False) (filter (\<lambda>item. \<not> streq (ti_testname item) ''private_classes'') (all_tests False))) = test_functions False"
    by code_simp+
  then show "concat (map (item_runs draft) (filter (\<lambda>item. \<not> streq (ti_testname item) ''private_classes'') (all_tests draft)))
      = test_functions draft" by (cases draft) simp_all
qed

lemma runall_runs: "\<exists>out. test_runall draft verbose = Inr out \<and> runs out = test_functions draft"
proof -
  obtain run where "run_items draft verbose (all_tests draft) = Inr run" "runs run = test_functions draft"
    using run_items_runs [OF all_tests_runs(1)] all_tests_runs(2) by metis
  then show ?thesis by (simp add: test_runall_def)
qed

lemma number_reported: "test_number draft = [Puts (c_dec (int (length (test_functions draft))))]"
proof -
  have "length (filter (\<lambda>item. \<not> streq (ti_testname item) ''private_classes'') (all_tests True)) = length (test_functions True)"
    "length (filter (\<lambda>item. \<not> streq (ti_testname item) ''private_classes'') (all_tests False)) = length (test_functions False)"
    by code_simp+
  then show ?thesis by (cases draft) (simp_all only: test_number_def)
qed

lemma test_available_listed:
  assumes "item \<in> set (all_tests draft)" shows "test_available draft (ti_testname item) = Some item"
proof -
  have "list_all (\<lambda>item. test_available True (ti_testname item) = Some item) (all_tests True)"
    "list_all (\<lambda>item. test_available False (ti_testname item) = Some item) (all_tests False)" by code_simp+
  then show ?thesis using assms by (cases draft) (auto simp: list_all_iff)
qed

text \<open>A test asked for by its name runs alone; the old name of the private tests runs all of these.\<close>

lemma item_runs_named:
  assumes "item \<in> set (all_tests draft)"
  shows "item_runs draft item = (if ti_testname item = ''private_classes'' then take 5 (test_functions draft)
    else [ti_testname item @ ''_test''])"
proof -
  have "list_all (\<lambda>item. item_runs True item = (if ti_testname item = ''private_classes'' then take 5 (test_functions True)
      else [ti_testname item @ ''_test''])) (all_tests True)"
    "list_all (\<lambda>item. item_runs False item = (if ti_testname item = ''private_classes'' then take 5 (test_functions False)
      else [ti_testname item @ ''_test''])) (all_tests False)" by code_simp+
  then show ?thesis using assms by (cases draft) (auto simp: list_all_iff)
qed

lemma named_test_runs:
  assumes "item \<in> set (all_tests draft)"
  shows "\<exists>out. zyre_selftest draft [''-t'', ti_testname item] = Inr (0, out)
    \<and> runs out = (if ti_testname item = ''private_classes'' then take 5 (test_functions draft)
        else [ti_testname item @ ''_test''])"
proof -
  have "selftest_options draft [''-t'', ti_testname item] (False, None) = Inr (False, Some item)"
    using test_available_listed [OF assms] by (simp add: streq_iff c_string_def)
  moreover obtain run where "run_item draft False item = Inr run" "runs run = item_runs draft item"
    using run_item_runs [of item draft False] all_tests_runs(1) [of draft] assms by (auto simp: list_all_iff)
  ultimately show ?thesis using item_runs_named [OF assms] by (simp add: zyre_selftest_def)
qed

lemma unknown_test_refused:
  assumes "test_available draft name = None"
  shows "zyre_selftest draft (''-t'' # name # args) = Inr (1, [Complain (name @ '' not valid, use --list to show tests'')])"
  using assms by (simp add: zyre_selftest_def streq_iff c_string_def)

end
