(* ===== verification/Zyre_Wave.thy ===== *)
theory Zyre_Wave
  imports Zyre_Prelude
begin

text \<open>
  The election of a group across its nodes. A node's part is a \<open>voter\<close>: the members it knows, the election
  it holds, the leaders it has announced, and whether it contests the group. The three handlers are those of
  \<open>src/zyre_node.c\<close> for HELLO, ELECT and LEADER, cut down to what they do to one group: the new voter, and
  what each other node is sent. That the handlers of \<open>Zyre_Node_Recv\<close> do just this is shown in
  \<open>Zyre_Wave_Refine\<close>. JOIN and LEAVE also depend on whether the node itself is in the group; they follow
  in \<open>Zyre_Wave_Leaves\<close>.

  Between the nodes run links that deliver in order and lose nothing, as the mailboxes do. A link is the
  list of all that was sent on it, and the number of messages that have arrived.
\<close>

section \<open>One node\<close>

text \<open>\<open>Greeted\<close> is a HELLO whose list of groups has this group.\<close>

datatype 'n ballot = Greeted | Elect 'n | Leader 'n

record 'n wave =
  w_caw :: "'n option"
  w_father :: "'n option"
  w_erec :: nat
  w_lrec :: nat

record 'n voter =
  v_peers :: "'n set"
  v_wave :: "'n wave option"
  v_said :: "'n list"
  v_contests :: bool

definition wave_new :: "'n wave" where
  "wave_new = \<lparr>w_caw = None, w_father = None, w_erec = 0, w_lrec = 0\<rparr>"

text \<open>What a node sends: for each other node a list of messages.\<close>

type_synonym 'n post = "'n \<Rightarrow> 'n ballot list"

definition to_all :: "'n set \<Rightarrow> 'n ballot \<Rightarrow> 'n post" where
  "to_all D m = (\<lambda>d. if d \<in> D then [m] else [])"

text \<open>A fresh election with this node as the challenger.\<close>

definition vote_start :: "'n \<Rightarrow> 'n voter \<Rightarrow> 'n voter \<times> 'n post" where
  "vote_start me v = (v\<lparr>v_wave := Some (wave_new\<lparr>w_caw := Some me\<rparr>)\<rparr>, to_all (v_peers v) (Elect me))"

text \<open>
  A peer that lists the group in its HELLO is entered; whoever contests the group challenges, even when its own
  application is not in the group, which only the handler of JOIN asks.
\<close>

definition vote_greeted :: "'n \<Rightarrow> 'n \<Rightarrow> 'n voter \<Rightarrow> 'n voter \<times> 'n post" where
  "vote_greeted me from v = (let v = v\<lparr>v_peers := insert from (v_peers v)\<rparr>
     in if v_contests v then vote_start me v else (v, \<lambda>_. []))"

definition the_wave :: "'n voter \<Rightarrow> 'n wave" where
  "the_wave v = (case v_wave v of Some w \<Rightarrow> w | None \<Rightarrow> wave_new)"

text \<open>A superior challenger's wave is adopted and spread; a message of the supported wave is counted.\<close>

definition superior :: "'n::linorder \<Rightarrow> 'n wave \<Rightarrow> bool" where
  "superior r w = (case w_caw w of None \<Rightarrow> True | Some c \<Rightarrow> r < c)"

definition adopt :: "'n::linorder \<Rightarrow> 'n \<Rightarrow> 'n wave \<Rightarrow> 'n wave" where
  "adopt from r w = (if superior r w
     then \<lparr>w_caw = Some r, w_father = Some from, w_erec = 0, w_lrec = 0\<rparr> else w)"

definition spread :: "'n::linorder \<Rightarrow> 'n \<Rightarrow> 'n voter \<Rightarrow> 'n post" where
  "spread from r v = (if superior r (the_wave v) then to_all (v_peers v - {from}) (Elect r) else (\<lambda>_. []))"

text \<open>When all members have sent it, the challenger decides and any other member echoes to its father.\<close>

definition wave_over :: "'n \<Rightarrow> 'n set \<Rightarrow> 'n wave \<Rightarrow> 'n \<Rightarrow> 'n post" where
  "wave_over me peers w r = (if w_erec w \<noteq> card peers then (\<lambda>_. [])
     else if r = me then to_all peers (Leader r)
     else case w_father w of None \<Rightarrow> (\<lambda>_. []) | Some f \<Rightarrow> to_all {f} (Elect r))"

definition vote_elect :: "'n::linorder \<Rightarrow> 'n \<Rightarrow> 'n \<Rightarrow> 'n voter \<Rightarrow> 'n voter \<times> 'n post" where
  "vote_elect me from r v =
     (let w = adopt from r (the_wave v)
      in if w_caw w = Some r then
           let w = w\<lparr>w_erec := Suc (w_erec w)\<rparr>
           in (v\<lparr>v_wave := Some w\<rparr>, \<lambda>d. spread from r v d @ wave_over me (v_peers v) w r d)
         else (v\<lparr>v_wave := Some w\<rparr>, spread from r v))"

text \<open>The supported challenger, not the leader of the message, is what is passed on.\<close>

definition vote_leader :: "'n \<Rightarrow> 'n \<Rightarrow> 'n voter \<Rightarrow> 'n voter \<times> 'n post" where
  "vote_leader me l v =
     (let w = the_wave v in
      case w_caw w of
        None \<Rightarrow> (v\<lparr>v_wave := Some w\<rparr>, \<lambda>_. [])
      | Some c \<Rightarrow>
          let spread = (if me \<noteq> l \<and> w_lrec w = 0 then to_all (v_peers v) (Leader c) else (\<lambda>_. []));
              w = w\<lparr>w_lrec := Suc (w_lrec w)\<rparr>
          in (if w_lrec w = card (v_peers v)
              then v\<lparr>v_wave := None, v_said := v_said v @ [l]\<rparr> else v\<lparr>v_wave := Some w\<rparr>, spread))"

definition vote :: "'n::linorder \<Rightarrow> 'n \<Rightarrow> 'n ballot \<Rightarrow> 'n voter \<Rightarrow> 'n voter \<times> 'n post" where
  "vote me from m = (case m of Greeted \<Rightarrow> vote_greeted me from
     | Elect r \<Rightarrow> vote_elect me from r | Leader l \<Rightarrow> vote_leader me l)"

section \<open>The nodes together\<close>

record 'n net =
  t_voter :: "'n \<Rightarrow> 'n voter"
  t_sent :: "'n \<Rightarrow> 'n \<Rightarrow> 'n ballot list"
  t_got :: "'n \<Rightarrow> 'n \<Rightarrow> nat"

text \<open>What \<open>q\<close> did: its voter, and what it sent.\<close>

definition commit :: "'n \<Rightarrow> 'n voter \<times> 'n post \<Rightarrow> 'n net \<Rightarrow> 'n net" where
  "commit q r s = s\<lparr>t_voter := (t_voter s)(q := fst r),
     t_sent := (t_sent s)(q := \<lambda>d. t_sent s q d @ snd r d)\<rparr>"

text \<open>The next message on the link from \<open>p\<close> to \<open>q\<close> arrives.\<close>

definition arrive :: "'n::linorder \<Rightarrow> 'n \<Rightarrow> 'n net \<Rightarrow> 'n net" where
  "arrive p q s = commit q (vote q p (t_sent s p q ! t_got s p q) (t_voter s q))
     (s\<lparr>t_got := (t_got s)(p := (t_got s p)(q := Suc (t_got s p q)))\<rparr>)"

definition waiting :: "'n net \<Rightarrow> 'n \<Rightarrow> 'n \<Rightarrow> bool" where
  "waiting s p q \<longleftrightarrow> t_got s p q < length (t_sent s p q)"

definition challenge :: "'n \<Rightarrow> 'n net \<Rightarrow> 'n net" where
  "challenge q s = commit q (vote_start q (t_voter s q)) s"

text \<open>
  An election in a group that does not change: every member knows all the others, and a node that contests the
  group and has not taken part yet may start one. Then messages arrive, in any order that keeps each link in order.
\<close>

definition idle :: "'n voter \<Rightarrow> bool" where
  "idle v \<longleftrightarrow> v_wave v = None \<and> v_said v = []"

definition net_initial :: "'n set \<Rightarrow> 'n net \<Rightarrow> bool" where
  "net_initial P s \<longleftrightarrow> finite P \<and> 2 \<le> card P
     \<and> (\<forall>q \<in> P. v_peers (t_voter s q) = P - {q} \<and> idle (t_voter s q))
     \<and> (\<forall>p q. t_sent s p q = [] \<and> t_got s p q = 0)"

inductive net_step :: "'n::linorder set \<Rightarrow> 'n net \<Rightarrow> 'n net \<Rightarrow> bool" for P where
  challenges: "net_step P s (challenge q s)" if "q \<in> P" and "idle (t_voter s q)" and "v_contests (t_voter s q)"
| arrives: "net_step P s (arrive p q s)" if "p \<in> P" and "q \<in> P" and "waiting s p q"

inductive_cases net_stepE: "net_step P s t"

text \<open>The nodes that started an election have sent their own challenge.\<close>

definition told :: "'n net \<Rightarrow> 'n \<Rightarrow> 'n \<Rightarrow> 'n \<Rightarrow> bool" where
  "told s p q r \<longleftrightarrow> Elect r \<in> set (t_sent s p q)"

definition heard :: "'n net \<Rightarrow> 'n \<Rightarrow> 'n \<Rightarrow> 'n \<Rightarrow> bool" where
  "heard s p q r \<longleftrightarrow> Elect r \<in> set (take (t_got s p q) (t_sent s p q))"

definition challengers :: "'n set \<Rightarrow> 'n net \<Rightarrow> 'n set" where
  "challengers P s = {c \<in> P. \<exists>q \<in> P. told s c q c}"

text \<open>A run given by the links on which messages arrive, one after the other.\<close>

definition deliveries :: "('n::linorder \<times> 'n) list \<Rightarrow> 'n net \<Rightarrow> 'n net" where
  "deliveries ls s = fold (\<lambda>(p, q). arrive p q) ls s"

end
