(* ===== verification/Zyre_Wave_Runs.thy ===== *)
theory Zyre_Wave_Runs
  imports Zyre_Wave
begin

text \<open>
  Runs of the election given by the links on which messages arrive, and one on a fixed group of three.
\<close>

section \<open>Runs given by the links on which messages arrive\<close>

fun deliverable :: "('n::linorder \<times> 'n) list \<Rightarrow> 'n net \<Rightarrow> bool" where
  "deliverable [] s \<longleftrightarrow> True"
| "deliverable ((p, q) # ls) s \<longleftrightarrow> waiting s p q \<and> deliverable ls (arrive p q s)"

lemma deliveries_steps:
  assumes "deliverable ls s" and "set ls \<subseteq> P \<times> P"
  shows "(net_step P ^^ length ls) s (deliveries ls s)"
  using assms
proof (induction ls arbitrary: s)
  case (Cons l ls)
  obtain p q where l: "l = (p, q)" by (rule prod.exhaust)
  have "net_step P s (arrive p q s)" using Cons.prems l by (intro net_step.arrives) simp_all
  moreover have "(net_step P ^^ length ls) (arrive p q s) (deliveries ls (arrive p q s))"
    using Cons.prems l by (intro Cons.IH) simp_all
  ultimately have "(net_step P ^^ Suc (length ls)) s (deliveries ls (arrive p q s))" by (rule relpowp_Suc_I2)
  then show ?case using l by (simp add: deliveries_def del: relpowp.simps)
qed (simp add: deliveries_def)

definition quiet :: "'n list \<Rightarrow> 'n net \<Rightarrow> bool" where
  "quiet ps s \<longleftrightarrow> list_all (\<lambda>p. \<not> idle (t_voter s p) \<and> list_all (\<lambda>q. \<not> waiting s p q) ps) ps"

lemma quiet_final: "quiet ps s \<Longrightarrow> \<not> net_step (set ps) s t"
  by (auto simp: quiet_def list_all_iff elim!: net_stepE)

abbreviation trio :: "string list" where
  "trio \<equiv> [''A'', ''B'', ''C'']"

section \<open>A fixed group\<close>

text \<open>Three members that know each other; B and C start an election, and B wins.\<close>

definition fixed_trio :: "string net" where
  "fixed_trio = \<lparr>t_voter = \<lambda>q. \<lparr>v_peers = if q = ''A'' then {''B'', ''C''} else if q = ''B'' then {''A'', ''C''}
       else {''A'', ''B''}, v_wave = None, v_said = [], v_contests = True\<rparr>, t_sent = \<lambda>_ _. [], t_got = \<lambda>_ _. 0\<rparr>"

lemma fixed_trio_initial: "net_initial (set trio) fixed_trio"
  by (auto simp: net_initial_def idle_def fixed_trio_def)

definition fixed_run :: "(string \<times> string) list" where
  "fixed_run = [(''B'', ''A''), (''A'', ''C''), (''B'', ''C''), (''C'', ''A''), (''C'', ''A''), (''A'', ''B''), (''C'', ''B''),
     (''C'', ''B''), (''B'', ''A''), (''A'', ''B''), (''A'', ''C''), (''B'', ''C''), (''C'', ''A''), (''C'', ''B'')]"

definition fixed_end :: "string net" where
  "fixed_end = deliveries fixed_run (challenge ''C'' (challenge ''B'' fixed_trio))"

lemma fixed_run_deliverable: "deliverable fixed_run (challenge ''C'' (challenge ''B'' fixed_trio))"
  by code_simp

lemma fixed_run_steps: "(net_step (set trio) ^^ 16) fixed_trio fixed_end"
proof -
  let ?s = "challenge ''B'' fixed_trio"
  have "net_step (set trio) fixed_trio ?s" "net_step (set trio) ?s (challenge ''C'' ?s)"
    by (rule net_step.challenges; simp add: fixed_trio_def idle_def challenge_def commit_def)+
  moreover have "(net_step (set trio) ^^ length fixed_run) (challenge ''C'' ?s) fixed_end"
    unfolding fixed_end_def by (rule deliveries_steps [OF fixed_run_deliverable]) (simp add: fixed_run_def)
  ultimately have "(net_step (set trio) ^^ Suc (Suc (length fixed_run))) fixed_trio fixed_end"
    by (blast intro: relpowp_Suc_I2)
  moreover have "Suc (Suc (length fixed_run)) = 16" by (simp add: fixed_run_def)
  ultimately show ?thesis by (simp only:)
qed

lemma fixed_run_quiet: "quiet trio fixed_end" "challengers (set trio) fixed_end = {''B'', ''C''}"
  by code_simp+

lemmas fixed_run_reached = relpowp_imp_rtranclp [OF fixed_run_steps]

end
