(* ===== verification/Zyre_Wave_Joins.thy ===== *)
theory Zyre_Wave_Joins
  imports Zyre_Wave_Runs
begin

text \<open>
  Elections while a group of three forms, whose members learn of each other in an unlucky order.
\<close>

section \<open>A group that forms\<close>

text \<open>Every member contests the group and has said so in its HELLO to every other; nothing has arrived.\<close>

definition joining :: "'n set \<Rightarrow> 'n net" where
  "joining P = \<lparr>t_voter = \<lambda>q. \<lparr>v_peers = {}, v_wave = None, v_said = [], v_contests = True\<rparr>,
     t_sent = \<lambda>p q. if p \<in> P \<and> q \<in> P \<and> p \<noteq> q then [Greeted] else [], t_got = \<lambda>_ _. 0\<rparr>"

definition acquainted :: "'n list \<Rightarrow> 'n net \<Rightarrow> bool" where
  "acquainted ps s \<longleftrightarrow> list_all (\<lambda>p. v_peers (t_voter s p) = set ps - {p}) ps"

definition stuck_run :: "(string \<times> string) list" where
  "stuck_run = [(''A'', ''C''), (''B'', ''C''), (''C'', ''A''), (''A'', ''C''), (''B'', ''A''), (''A'', ''C''), (''C'', ''A''),
     (''C'', ''A''), (''C'', ''A''), (''C'', ''B''), (''B'', ''C''), (''C'', ''B''), (''C'', ''B''), (''A'', ''B''),
     (''A'', ''B''), (''B'', ''A''), (''B'', ''C''), (''B'', ''C''), (''B'', ''C'')]"

lemma stuck_run_ends: "deliverable stuck_run (joining (set trio))" "quiet trio (deliveries stuck_run (joining (set trio)))"
  "acquainted trio (deliveries stuck_run (joining (set trio)))"
  "map (\<lambda>q. v_said (t_voter (deliveries stuck_run (joining (set trio))) q)) trio = [[], [], []]"
  by code_simp+

text \<open>C10: an election can get stuck for good while its group forms: three members contest a group, and their HELLOs,
  which make each start its election anew for each member it learns of, arrive in such an order that in the end
  everyone knows everyone, nothing is under way, and nobody has announced or ever will announce a leader.\<close>

theorem joining_gets_stuck:
  "\<exists>t. (net_step (set trio))\<^sup>*\<^sup>* (joining (set trio)) t \<and> acquainted trio t
    \<and> (\<nexists>u. net_step (set trio) t u) \<and> map (\<lambda>q. v_said (t_voter t q)) trio = [[], [], []]"
proof -
  let ?t = "deliveries stuck_run (joining (set trio))"
  have "(net_step (set trio) ^^ length stuck_run) (joining (set trio)) ?t"
    by (rule deliveries_steps [OF stuck_run_ends(1)]) (simp add: stuck_run_def)
  then have "(net_step (set trio))\<^sup>*\<^sup>* (joining (set trio)) ?t" by (rule relpowp_imp_rtranclp)
  then show ?thesis using stuck_run_ends(3,4) quiet_final [OF stuck_run_ends(2)] by (intro exI [of _ ?t] conjI) blast+
qed

definition split_run :: "(string \<times> string) list" where
  "split_run = [(''A'', ''B''), (''A'', ''C''), (''C'', ''A''), (''A'', ''C''), (''C'', ''A''), (''C'', ''A''), (''A'', ''C''),
     (''B'', ''A''), (''A'', ''B''), (''A'', ''C''), (''B'', ''A''), (''B'', ''A''), (''B'', ''C''), (''C'', ''A''),
     (''C'', ''A''), (''C'', ''A''), (''C'', ''B''), (''B'', ''A''), (''B'', ''C''), (''A'', ''C''), (''C'', ''A''),
     (''C'', ''A''), (''C'', ''B''), (''C'', ''B''), (''A'', ''B'')]"

lemma split_run_ends: "deliverable split_run (joining (set trio))" "quiet trio (deliveries split_run (joining (set trio)))"
  "acquainted trio (deliveries split_run (joining (set trio)))"
  "v_said (t_voter (deliveries split_run (joining (set trio))) ''A'') = [''B'']"
  "v_said (t_voter (deliveries split_run (joining (set trio))) ''B'') = [''A'']"
  by code_simp+

text \<open>Elections can end with two leaders while their group forms: in another order of arrivals A announces B
  as the leader and B announces A, once each, and nothing is left that could correct it.\<close>

theorem joining_splits:
  "\<exists>t. (net_step (set trio))\<^sup>*\<^sup>* (joining (set trio)) t \<and> acquainted trio t
    \<and> (\<nexists>u. net_step (set trio) t u) \<and> v_said (t_voter t ''A'') = [''B''] \<and> v_said (t_voter t ''B'') = [''A'']"
proof -
  let ?t = "deliveries split_run (joining (set trio))"
  have "(net_step (set trio) ^^ length split_run) (joining (set trio)) ?t"
    by (rule deliveries_steps [OF split_run_ends(1)]) (simp add: split_run_def)
  then have "(net_step (set trio))\<^sup>*\<^sup>* (joining (set trio)) ?t" by (rule relpowp_imp_rtranclp)
  then show ?thesis using split_run_ends(3-5) quiet_final [OF split_run_ends(2)] by (intro exI [of _ ?t] conjI) blast+
qed

end
