(* ===== verification/Zyre_Wave_Inv.thy ===== *)
theory Zyre_Wave_Inv
  imports Zyre_Wave
begin

text \<open>
  The waves of an election in a fixed group, before any of them is decided: the invariant \<open>campaign\<close>, that
  every step keeps it, and what it says when a challenger hears its own wave from everyone.
\<close>

section \<open>Links that carry falling challenges\<close>

definition falling :: "'n::linorder ballot list \<Rightarrow> bool" where
  "falling ms \<longleftrightarrow> (\<exists>rs. ms = map Elect rs \<and> sorted_wrt (>) rs)"

lemma falling_Nil [simp]: "falling []"
  by (simp add: falling_def)

lemma falling_snoc:
  assumes "falling ms" and "\<And>x. Elect x \<in> set ms \<Longrightarrow> r < x"
  shows "falling (ms @ [Elect r])"
proof -
  obtain rs where "ms = map Elect rs" "sorted_wrt (>) rs" using assms(1) by (auto simp: falling_def)
  then show ?thesis
    using assms(2) unfolding falling_def
    by (intro exI [of _ "rs @ [r]"]) (auto simp: sorted_wrt_append)
qed

lemma falling_next:
  assumes "falling ms" and "n < length ms"
  obtains r where "ms ! n = Elect r" and "Elect r \<notin> set (take n ms)"
proof -
  obtain rs where rs: "ms = map Elect rs" "sorted_wrt (>) rs" using assms(1) by (auto simp: falling_def)
  have n: "n < length rs" using assms(2) rs by simp
  have "rs ! n \<notin> set (take n rs)"
  proof
    assume "rs ! n \<in> set (take n rs)"
    then obtain i where "i < n" "rs ! i = rs ! n" by (auto simp: in_set_conv_nth)
    then show False using sorted_wrt_nth_less [OF rs(2), of i n] n by simp
  qed
  then show thesis using n rs by (intro that [of "rs ! n"]) (auto simp: take_map)
qed

text \<open>A message that is not later than all others is the last one of its link.\<close>

lemma falling_last:
  assumes "falling ms" and "Elect r \<in> set (take n ms)" and "\<And>x. Elect x \<in> set ms \<Longrightarrow> r \<le> x" and "n \<le> length ms"
  shows "n = length ms"
proof (rule ccontr)
  assume "n \<noteq> length ms"
  then have n: "n < length ms" using assms(4) by simp
  obtain rs where rs: "ms = map Elect rs" "sorted_wrt (>) rs" using assms(1) by (auto simp: falling_def)
  obtain i where i: "i < n" "rs ! i = r" using assms(2) rs n by (auto simp: in_set_conv_nth)
  have "rs ! n < r" using sorted_wrt_nth_less [OF rs(2), of i n] i n rs by simp
  moreover have "r \<le> rs ! n" using assms(3) n rs by simp
  ultimately show False by simp
qed

section \<open>The invariant\<close>

abbreviation caw_of :: "'n net \<Rightarrow> 'n \<Rightarrow> 'n option" where
  "caw_of s q \<equiv> w_caw (the_wave (t_voter s q))"

abbreviation erec_of :: "'n net \<Rightarrow> 'n \<Rightarrow> nat" where
  "erec_of s q \<equiv> w_erec (the_wave (t_voter s q))"

abbreviation father_of :: "'n net \<Rightarrow> 'n \<Rightarrow> 'n option" where
  "father_of s q \<equiv> w_father (the_wave (t_voter s q))"

definition starter :: "'n set \<Rightarrow> 'n net \<Rightarrow> 'n \<Rightarrow> bool" where
  "starter P s r \<longleftrightarrow> (\<forall>x \<in> P - {r}. told s r x r)"

text \<open>The part of a member in the wave it supports.\<close>

definition member_ok :: "'n set \<Rightarrow> 'n net \<Rightarrow> 'n \<Rightarrow> bool" where
  "member_ok P s q \<longleftrightarrow> (\<forall>r. caw_of s q = Some r \<longrightarrow> r \<in> P \<and> starter P s r
     \<and> erec_of s q = card {p \<in> P - {q}. heard s p q r}
     \<and> (q = r \<longrightarrow> father_of s q = None) \<and> (q = r \<longrightarrow> erec_of s q \<noteq> card P - 1)
     \<and> (q \<noteq> r \<longrightarrow> (\<exists>f \<in> P - {q}. father_of s q = Some f \<and> heard s f q r \<and> (\<forall>p \<in> P - {q, f}. told s q p r)
          \<and> (told s q f r \<longleftrightarrow> erec_of s q = card P - 1))))"

definition fathers :: "'n set \<Rightarrow> 'n net \<Rightarrow> 'n \<Rightarrow> ('n \<times> 'n) set" where
  "fathers P s r = {(q, f). q \<in> P \<and> caw_of s q = Some r \<and> father_of s q = Some f}"

definition voters_ok :: "'n set \<Rightarrow> 'n net \<Rightarrow> bool" where
  "voters_ok P s \<longleftrightarrow> (\<forall>q \<in> P. v_peers (t_voter s q) = P - {q} \<and> v_said (t_voter s q) = []
     \<and> w_lrec (the_wave (t_voter s q)) = 0)"

definition links_ok :: "'n::linorder set \<Rightarrow> 'n net \<Rightarrow> bool" where
  "links_ok P s \<longleftrightarrow> (\<forall>p q. falling (t_sent s p q) \<and> t_got s p q \<le> length (t_sent s p q)
     \<and> (t_sent s p q \<noteq> [] \<longrightarrow> p \<in> P \<and> q \<in> P \<and> p \<noteq> q))"

definition tellings_ok :: "'n::linorder set \<Rightarrow> 'n net \<Rightarrow> bool" where
  "tellings_ok P s \<longleftrightarrow>
     (\<forall>p q r. told s p q r \<longrightarrow> r \<in> P \<and> starter P s r \<and> (\<exists>c. caw_of s p = Some c \<and> c \<le> r))
   \<and> (\<forall>p q r. heard s p q r \<longrightarrow> (\<exists>c. caw_of s q = Some c \<and> c \<le> r))
   \<and> (\<forall>c x y r. told s c x c \<longrightarrow> told s c y r \<longrightarrow> r \<le> c)"

definition campaign :: "'n::linorder set \<Rightarrow> 'n net \<Rightarrow> bool" where
  "campaign P s \<longleftrightarrow> finite P \<and> 2 \<le> card P \<and> voters_ok P s \<and> links_ok P s \<and> tellings_ok P s
     \<and> (\<forall>q \<in> P. member_ok P s q) \<and> (\<forall>r. acyclic (fathers P s r))"

lemma heard_told: "heard s p q r \<Longrightarrow> told s p q r"
  by (auto simp: heard_def told_def dest: in_set_takeD)

lemma campaignD:
  assumes "campaign P s"
  shows "finite P" and "2 \<le> card P"
    and "q \<in> P \<Longrightarrow> v_peers (t_voter s q) = P - {q}"
    and "q \<in> P \<Longrightarrow> v_said (t_voter s q) = []"
    and "q \<in> P \<Longrightarrow> w_lrec (the_wave (t_voter s q)) = 0"
    and "falling (t_sent s p q)" and "t_got s p q \<le> length (t_sent s p q)"
    and "t_sent s p q \<noteq> [] \<Longrightarrow> p \<in> P \<and> q \<in> P \<and> p \<noteq> q"
    and "told s p q r \<Longrightarrow> r \<in> P \<and> starter P s r \<and> (\<exists>c. caw_of s p = Some c \<and> c \<le> r)"
    and "heard s p q r \<Longrightarrow> \<exists>c. caw_of s q = Some c \<and> c \<le> r"
    and "told s c x c \<Longrightarrow> told s c y r \<Longrightarrow> r \<le> c"
    and "q \<in> P \<Longrightarrow> member_ok P s q"
    and "acyclic (fathers P s r)"
  using assms unfolding campaign_def voters_ok_def links_ok_def tellings_ok_def by blast+

lemma member_okD:
  assumes "member_ok P s q" and "caw_of s q = Some r"
  shows "r \<in> P" and "starter P s r" and "erec_of s q = card {p \<in> P - {q}. heard s p q r}"
    and "q = r \<Longrightarrow> father_of s q = None" and "q = r \<Longrightarrow> erec_of s q \<noteq> card P - 1"
    and "q \<noteq> r \<Longrightarrow> \<exists>f \<in> P - {q}. father_of s q = Some f \<and> heard s f q r \<and> (\<forall>p \<in> P - {q, f}. told s q p r)
        \<and> (told s q f r \<longleftrightarrow> erec_of s q = card P - 1)"
proof -
  note all = assms(1) [unfolded member_ok_def, rule_format, OF assms(2)]
  from all show "r \<in> P" and "starter P s r" and "erec_of s q = card {p \<in> P - {q}. heard s p q r}" by simp_all
  from all have "q = r \<longrightarrow> father_of s q = None" by (elim conjE)
  moreover from all have "q = r \<longrightarrow> erec_of s q \<noteq> card P - 1" by (elim conjE)
  ultimately show "father_of s q = None" and "erec_of s q \<noteq> card P - 1" if "q = r" using that by blast+
  from all have "q \<noteq> r \<longrightarrow> (\<exists>f \<in> P - {q}. father_of s q = Some f \<and> heard s f q r
      \<and> (\<forall>p \<in> P - {q, f}. told s q p r) \<and> (told s q f r \<longleftrightarrow> erec_of s q = card P - 1))" by (elim conjE)
  then show "\<exists>f \<in> P - {q}. father_of s q = Some f \<and> heard s f q r \<and> (\<forall>p \<in> P - {q, f}. told s q p r)
      \<and> (told s q f r \<longleftrightarrow> erec_of s q = card P - 1)" if "q \<noteq> r"
    using that by (rule mp)
qed

lemma member_okI:
  assumes "caw_of s q = Some r" and "r \<in> P" and "starter P s r"
    and "erec_of s q = card {p \<in> P - {q}. heard s p q r}"
    and "q = r \<Longrightarrow> father_of s q = None \<and> erec_of s q \<noteq> card P - 1"
    and "q \<noteq> r \<Longrightarrow> \<exists>f \<in> P - {q}. father_of s q = Some f \<and> heard s f q r \<and> (\<forall>p \<in> P - {q, f}. told s q p r)
        \<and> (told s q f r \<longleftrightarrow> erec_of s q = card P - 1)"
  shows "member_ok P s q"
  unfolding member_ok_def
proof (intro allI impI)
  fix x assume "caw_of s q = Some x"
  then have x: "x = r" using assms(1) by simp
  show "x \<in> P \<and> starter P s x \<and> erec_of s q = card {p \<in> P - {q}. heard s p q x}
     \<and> (q = x \<longrightarrow> father_of s q = None) \<and> (q = x \<longrightarrow> erec_of s q \<noteq> card P - 1)
     \<and> (q \<noteq> x \<longrightarrow> (\<exists>f \<in> P - {q}. father_of s q = Some f \<and> heard s f q x \<and> (\<forall>p \<in> P - {q, f}. told s q p x)
        \<and> (told s q f x \<longleftrightarrow> erec_of s q = card P - 1)))"
    unfolding x by (intro conjI impI) (use assms in simp_all)
qed

lemma campaign_other:
  assumes "campaign P s" and "q \<in> P" shows "\<exists>x \<in> P. x \<noteq> q"
  using campaignD(1,2) [OF assms(1)] assms(2) by (metis One_nat_def card_le_Suc0_iff_eq not_less_eq_eq numeral_2_eq_2)

lemma campaign_starter:
  assumes "campaign P s" and "r \<in> P" and "starter P s r"
  shows "\<exists>c. caw_of s r = Some c \<and> c \<le> r"
  using campaign_other [OF assms(1,2)] assms(3) campaignD(9) [OF assms(1)] unfolding starter_def by blast

lemma fathers_sub: "fathers P s r \<subseteq> P \<times> UNIV"
  by (auto simp: fathers_def)

section \<open>Steps\<close>

text \<open>
  Every step of a campaign has this form: \<open>q\<close> comes to support \<open>c\<close>, tells it to the nodes of \<open>D\<close>, and
  the messages in \<open>N\<close>, of \<open>q\<close>'s links, are heard.
\<close>

definition campaign_move :: "'n::linorder set \<Rightarrow> 'n \<Rightarrow> 'n \<Rightarrow> 'n set \<Rightarrow> ('n \<times> 'n \<times> 'n) set \<Rightarrow> 'n net \<Rightarrow> 'n net \<Rightarrow> bool" where
  "campaign_move P q c D N s t \<longleftrightarrow> q \<in> P \<and> D \<subseteq> P - {q}
     \<and> (\<forall>x. x \<noteq> q \<longrightarrow> t_voter t x = t_voter s x)
     \<and> v_peers (t_voter t q) = v_peers (t_voter s q) \<and> v_said (t_voter t q) = v_said (t_voter s q)
     \<and> w_lrec (the_wave (t_voter t q)) = 0 \<and> caw_of t q = Some c
     \<and> (\<forall>a b. t_sent t a b = t_sent s a b @ (if a = q \<and> b \<in> D then [Elect c] else []))
     \<and> (\<forall>a b. t_got t a b \<le> length (t_sent s a b))
     \<and> (\<forall>a b x. heard t a b x \<longleftrightarrow> heard s a b x \<or> (a, b, x) \<in> N)
     \<and> (\<forall>(a, b, x) \<in> N. b = q \<and> c \<le> x)"

lemma campaign_moveD:
  assumes "campaign_move P q c D N s t"
  shows "q \<in> P" and "D \<subseteq> P - {q}" and "x \<noteq> q \<Longrightarrow> t_voter t x = t_voter s x"
    and "v_peers (t_voter t x) = v_peers (t_voter s x)" and "v_said (t_voter t x) = v_said (t_voter s x)"
    and "w_lrec (the_wave (t_voter t q)) = 0" and "caw_of t q = Some c"
    and "t_sent t a b = t_sent s a b @ (if a = q \<and> b \<in> D then [Elect c] else [])"
    and "t_got t a b \<le> length (t_sent s a b)"
    and "heard t a b z \<longleftrightarrow> heard s a b z \<or> (a, b, z) \<in> N"
    and "(a, b, z) \<in> N \<Longrightarrow> b = q \<and> c \<le> z"
proof -
  show "v_peers (t_voter t x) = v_peers (t_voter s x)" "v_said (t_voter t x) = v_said (t_voter s x)"
    using assms by (cases "x = q"; simp add: campaign_move_def)+
qed (use assms in \<open>auto simp: campaign_move_def\<close>)

lemma campaign_move_told:
  assumes "campaign_move P q c D N s t"
  shows "told t a b x \<longleftrightarrow> told s a b x \<or> a = q \<and> b \<in> D \<and> x = c"
  using assms by (auto simp: campaign_move_def told_def)

lemma starter_mono:
  assumes "campaign_move P q c D N s t" and "starter P s r" shows "starter P t r"
  using assms(2) campaign_move_told [OF assms(1)] by (auto simp: starter_def)

lemma campaign_move_caw:
  assumes "campaign_move P q c D N s t" and "\<And>c0. caw_of s q = Some c0 \<Longrightarrow> c \<le> c0"
    and "caw_of s x = Some b" and "b \<le> r"
  shows "\<exists>b. caw_of t x = Some b \<and> b \<le> r"
proof (cases "x = q")
  case True
  then show ?thesis using assms(2) [of b] assms(1,3,4) by (auto simp: campaign_move_def)
next
  case False
  then show ?thesis using assms(1,3,4) by (auto simp: campaign_move_def)
qed

lemma campaign_move_tellings:
  assumes "campaign P s" and mv: "campaign_move P q c D N s t"
    and less: "\<And>c0. caw_of s q = Some c0 \<Longrightarrow> c \<le> c0" and "c \<in> P" and "starter P t c"
    and own: "D \<noteq> {} \<Longrightarrow> c = q \<Longrightarrow> caw_of s q = None"
  shows "tellings_ok P t"
  unfolding tellings_ok_def
proof (intro conjI allI impI)
  note told = campaign_move_told [OF mv]
  have caw: "\<exists>b. caw_of t x = Some b \<and> b \<le> r" if "caw_of s x = Some b" "b \<le> r" for x b r
    by (rule campaign_move_caw [OF mv _ that]) (rule less)
  have q: "caw_of t q = Some c" using mv by (simp add: campaign_move_def)
  fix a b r
  show "r \<in> P" if "told t a b r"
    using that told campaignD(9) [OF assms(1)] assms(4) by blast
  show "starter P t r" if "told t a b r"
    using that told campaignD(9) [OF assms(1)] assms(5) starter_mono [OF mv] by blast
  show "\<exists>c. caw_of t a = Some c \<and> c \<le> r" if "told t a b r"
    using that told campaignD(9) [OF assms(1), of a b r] caw q by blast
  show "\<exists>c. caw_of t b = Some c \<and> c \<le> r" if "heard t a b r"
  proof -
    have "heard s a b r \<or> (b = q \<and> c \<le> r)" using that campaign_moveD(10,11) [OF mv] by blast
    then show ?thesis
    proof
      assume "heard s a b r"
      then obtain c0 where "caw_of s b = Some c0" "c0 \<le> r" using campaignD(10) [OF assms(1)] by blast
      then show ?thesis by (rule caw)
    qed (use q in simp)
  qed
  fix e x y
  assume e: "told t e x e" "told t e y r"
  have before: "\<exists>c0. caw_of s e = Some c0 \<and> c0 \<le> z" if "told s e w z" for w z
    using campaignD(9) [OF assms(1) that] by blast
  show "r \<le> e"
  proof (cases "told s e y r")
    case True
    then show ?thesis
      using e(1) told campaignD(11) [OF assms(1), of e x y r] own before by fastforce
  next
    case False
    then have r: "e = q" "y \<in> D" "r = c" using e(2) told by auto
    then show ?thesis using e(1) told before [of x e] less by force
  qed
qed

lemma acyclic_fathers_move:
  assumes "campaign P s" and mv: "campaign_move P q c D N s t"
    and "father_of t q = None \<or> (caw_of s q = Some c \<and> father_of t q = father_of s q)
      \<or> (\<exists>p. father_of t q = Some p \<and> p \<noteq> q \<and> \<not> told s q p c \<and> (\<forall>x. \<not> told s q x c))"
  shows "acyclic (fathers P t r)"
proof -
  have caw: "caw_of t q = Some c" "\<And>x. x \<noteq> q \<Longrightarrow> caw_of t x = caw_of s x \<and> father_of t x = father_of s x"
    and q: "q \<in> P" using campaign_moveD(1,3,7) [OF mv] by simp_all
  have old: "acyclic (fathers P s r)" by (rule campaignD(13) [OF assms(1)])
  show ?thesis
  proof (cases "fathers P t r \<subseteq> fathers P s r")
    case True
    then show ?thesis using old acyclic_subset by blast
  next
    case False
    then obtain a f where af: "(a, f) \<in> fathers P t r" "(a, f) \<notin> fathers P s r" by auto
    then have "a = q" using caw(2) [of a] by (cases "a = q") (auto simp: fathers_def)
    then have a: "a = q" "r = c" "father_of t q = Some f" using af(1) caw(1) by (auto simp: fathers_def)
    then have f: "f \<noteq> q" "\<And>x. \<not> told s q x c" using assms(3) af caw(1) q by (auto simp: fathers_def)
    have none: "(x, q) \<notin> fathers P s c" for x
    proof
      assume x: "(x, q) \<in> fathers P s c"
      then have "x \<in> P" "caw_of s x = Some c" "father_of s x = Some q" by (auto simp: fathers_def)
      then have "heard s q x c" using campaignD(12) [OF assms(1), of x] by (auto simp: member_ok_def split: if_splits)
      then have "told s q x c" by (rule heard_told)
      then show False using f(2) by blast
    qed
    have "(x, y) \<in> insert (q, f) (fathers P s r)" if "(x, y) \<in> fathers P t r" for x y
      using that caw(2) [of x] a(3) by (cases "x = q") (auto simp: fathers_def)
    then have "fathers P t r \<subseteq> insert (q, f) (fathers P s r)" by auto
    moreover have "(f, q) \<notin> (fathers P s r)\<^sup>*"
      using none f(1) a(2) by (metis rtranclE)
    ultimately show ?thesis using old acyclic_subset acyclic_insert by blast
  qed
qed

lemma member_ok_other:
  assumes mv: "campaign_move P q c D N s t" and "member_ok P s x" and "x \<noteq> q"
  shows "member_ok P t x"
proof -
  have v: "t_voter t x = t_voter s x" and h: "heard t p x r = heard s p x r" and l: "told t x p r = told s x p r" for p r
    using campaign_moveD(3,10,11) [OF mv] assms(3) campaign_move_told [OF mv] by blast+
  show ?thesis
    using assms(2) starter_mono [OF mv] unfolding member_ok_def v h l by blast
qed

lemma campaign_moves:
  assumes "campaign P s" and mv: "campaign_move P q c D N s t"
    and less: "\<And>c0. caw_of s q = Some c0 \<Longrightarrow> c \<le> c0" and "c \<in> P" and "starter P t c"
    and own: "D \<noteq> {} \<Longrightarrow> c = q \<Longrightarrow> caw_of s q = None"
    and new: "\<And>d. d \<in> D \<Longrightarrow> \<not> told s q d c"
    and father: "father_of t q = None \<or> (caw_of s q = Some c \<and> father_of t q = father_of s q)
      \<or> (\<exists>p. father_of t q = Some p \<and> p \<noteq> q \<and> \<not> told s q p c \<and> (\<forall>x. \<not> told s q x c))"
    and "member_ok P t q"
  shows "campaign P t"
proof -
  have "w_lrec (the_wave (t_voter t x)) = 0" if "x \<in> P" for x
    using campaign_moveD(3) [OF mv, of x] campaign_moveD(6) [OF mv] campaignD(5) [OF assms(1) that] by (cases "x = q") simp_all
  then have "voters_ok P t"
    using campaignD(3,4) [OF assms(1)] by (simp add: voters_ok_def campaign_moveD(4,5) [OF mv])
  moreover have "links_ok P t"
    unfolding links_ok_def
  proof (intro allI conjI impI)
    fix a b
    have s: "t_sent t a b = t_sent s a b @ (if a = q \<and> b \<in> D then [Elect c] else [])"
      "t_got t a b \<le> length (t_sent s a b)" "q \<in> P" "D \<subseteq> P - {q}"
      using campaign_moveD [OF mv] by blast+
    show "t_got t a b \<le> length (t_sent t a b)" using s by simp
    show "a \<in> P" "b \<in> P" "a \<noteq> b" if "t_sent t a b \<noteq> []"
      using that s campaignD(8) [OF assms(1), of a b] by (auto split: if_splits)
    show "falling (t_sent t a b)"
    proof (cases "a = q \<and> b \<in> D")
      case True
      have "c < x" if "Elect x \<in> set (t_sent s a b)" for x
      proof -
        have "told s q b x" using that True by (simp add: told_def)
        then obtain c0 where "caw_of s q = Some c0" "c0 \<le> x" using campaignD(9) [OF assms(1)] by blast
        moreover have "x \<noteq> c" using \<open>told s q b x\<close> new True by blast
        ultimately show ?thesis using less by fastforce
      qed
      then show ?thesis using s(1) True falling_snoc [OF campaignD(6) [OF assms(1)]] by auto
    qed (use s(1) campaignD(6) [OF assms(1)] in auto)
  qed
  moreover have "member_ok P t x" if "x \<in> P" for x
    using member_ok_other [OF mv campaignD(12) [OF assms(1) that]] assms(9) by blast
  ultimately show ?thesis
    using campaign_move_tellings [OF assms(1) mv less assms(4,5) own] acyclic_fathers_move [OF assms(1) mv father]
      campaignD(1,2) [OF assms(1)] unfolding campaign_def by blast
qed

section \<open>The steps of the nodes\<close>

lemma commit_simps [simp]:
  "t_voter (commit q r s) x = (if x = q then fst r else t_voter s x)"
  "t_sent (commit q r s) a b = (if a = q then t_sent s q b @ snd r b else t_sent s a b)"
  "t_got (commit q r s) = t_got s"
  by (simp_all add: commit_def)

lemma to_all_simps [simp]: "to_all D m d = (if d \<in> D then [m] else [])"
  by (simp add: to_all_def)

lemma the_wave_simps [simp]:
  "the_wave (v\<lparr>v_wave := Some w\<rparr>) = w"
  "the_wave (v\<lparr>v_peers := B\<rparr>) = the_wave v"
  by (simp_all add: the_wave_def)

lemma heard_commit:
  assumes "\<And>a b. t_got s a b \<le> length (t_sent s a b)"
  shows "heard (commit q r s) a b x = heard s a b x"
  using assms [of a b] by (cases "a = q") (simp_all add: heard_def)

lemma campaign_challenge:
  assumes "campaign P s" and "q \<in> P" and "idle (t_voter s q)"
  shows "campaign P (challenge q s)"
proof -
  let ?t = "challenge q s"
  have caw: "caw_of s q = None" using assms(3) by (simp add: idle_def the_wave_def wave_new_def)
  have peers: "v_peers (t_voter s q) = P - {q}" by (rule campaignD(3) [OF assms(1,2)])
  have voter: "t_voter ?t q = (t_voter s q)\<lparr>v_wave := Some (wave_new\<lparr>w_caw := Some q\<rparr>)\<rparr>"
    by (simp add: challenge_def vote_start_def)
  have heard: "heard ?t a b x = heard s a b x" for a b x
    unfolding challenge_def by (rule heard_commit) (rule campaignD(7) [OF assms(1)])
  have none: "\<not> told s q d x" "\<not> heard s d q x" for d x
    using campaignD(9,10) [OF assms(1)] caw by fastforce+
  have mv: "campaign_move P q q (P - {q}) {} s ?t"
    unfolding campaign_move_def heard voter using assms(2) campaignD(7) [OF assms(1)]
    by (auto simp: challenge_def vote_start_def wave_new_def peers)
  have start: "starter P ?t q" using campaign_move_told [OF mv] by (simp add: starter_def)
  have two: "2 \<le> card P" by (rule campaignD(2) [OF assms(1)])
  show ?thesis
  proof (rule campaign_moves [OF assms(1) mv _ assms(2) start])
    show "father_of ?t q = None \<or> (caw_of s q = Some q \<and> father_of ?t q = father_of s q)
      \<or> (\<exists>p. father_of ?t q = Some p \<and> p \<noteq> q \<and> \<not> told s q p q \<and> (\<forall>x. \<not> told s q x q))"
      by (simp add: voter wave_new_def)
    show "member_ok P ?t q"
      using assms(2) start none two by (simp add: member_ok_def voter heard wave_new_def)
  qed (use caw none in simp_all)
qed

text \<open>What the next message of a link is, and that it becomes heard.\<close>

lemma taken_arrive:
  assumes "\<And>a b. t_got s a b \<le> length (t_sent s a b)" and "waiting s p q"
  shows "set (take (t_got (arrive p q s) a b) (t_sent (arrive p q s) a b))
    = set (take (t_got s a b) (t_sent s a b)) \<union> (if a = p \<and> b = q then {t_sent s p q ! t_got s p q} else {})"
proof -
  have w: "t_got s p q < length (t_sent s p q)" using assms(2) by (simp add: waiting_def)
  have "t_got (arrive p q s) a b \<le> length (t_sent s a b)"
    using assms(1) [of a b] w by (cases "a = p"; cases "b = q") (simp_all add: arrive_def)
  then have "take (t_got (arrive p q s) a b) (t_sent (arrive p q s) a b) = take (t_got (arrive p q s) a b) (t_sent s a b)"
    by (cases "a = q") (simp_all add: arrive_def)
  also have "set \<dots> = set (take (t_got s a b) (t_sent s a b))
      \<union> (if a = p \<and> b = q then {t_sent s p q ! t_got s p q} else {})"
    using w by (cases "a = p"; cases "b = q") (simp_all add: arrive_def take_Suc_conv_app_nth)
  finally show ?thesis .
qed

lemma heard_arrive:
  assumes "\<And>a b. t_got s a b \<le> length (t_sent s a b)" and "waiting s p q"
  shows "heard (arrive p q s) a b x \<longleftrightarrow> heard s a b x \<or> a = p \<and> b = q \<and> t_sent s p q ! t_got s p q = Elect x"
  using taken_arrive [OF assms] by (auto simp: heard_def)

lemma campaign_next:
  assumes "campaign P s" and "waiting s p q"
  obtains r where "t_sent s p q ! t_got s p q = Elect r" and "\<not> heard s p q r" and "told s p q r"
    and "p \<in> P" and "q \<in> P" and "p \<noteq> q"
    and "arrive p q s = commit q (vote_elect q p r (t_voter s q))
      (s\<lparr>t_got := (t_got s)(p := (t_got s p)(q := Suc (t_got s p q)))\<rparr>)"
    and "\<And>a b x. heard (arrive p q s) a b x \<longleftrightarrow> heard s a b x \<or> (a, b, x) \<in> {(p, q, r)}"
    and "\<And>a b. t_got (arrive p q s) a b \<le> length (t_sent s a b)"
proof -
  have w: "t_got s p q < length (t_sent s p q)" using assms(2) by (simp add: waiting_def)
  obtain r where r: "t_sent s p q ! t_got s p q = Elect r" "Elect r \<notin> set (take (t_got s p q) (t_sent s p q))"
    using falling_next [OF campaignD(6) [OF assms(1)] w] by blast
  have "told s p q r" using r(1) w by (metis nth_mem told_def)
  moreover have "p \<in> P" "q \<in> P" "p \<noteq> q" using campaignD(8) [OF assms(1), of p q] w by force+
  moreover have "t_got (arrive p q s) a b \<le> length (t_sent s a b)" for a b
    using campaignD(7) [OF assms(1), of a b] w by (cases "a = p"; cases "b = q") (simp_all add: arrive_def)
  ultimately show thesis
  proof (intro that [of r])
    show "heard (arrive p q s) a b x \<longleftrightarrow> heard s a b x \<or> (a, b, x) \<in> {(p, q, r)}" for a b x
      using heard_arrive [OF campaignD(7) [OF assms(1)] assms(2)] r(1) by auto
  qed (use r in \<open>simp_all add: heard_def arrive_def vote_def\<close>)
qed

lemma card_others:
  assumes "campaign P s" and "q \<in> P" shows "card (v_peers (t_voter s q)) = card P - 1"
  using campaignD(1,3) [OF assms(1)] assms(2) by (simp add: card_Diff_singleton)

lemma campaign_adopt:
  assumes "campaign P s" and "waiting s p q" and "t_sent s p q ! t_got s p q = Elect r"
    and "superior r (the_wave (t_voter s q))"
  shows "campaign P (arrive p q s)"
proof -
  let ?t = "arrive p q s"
  obtain r' where r': "t_sent s p q ! t_got s p q = Elect r'" "\<not> heard s p q r'" "told s p q r'"
    "p \<in> P" "q \<in> P" "p \<noteq> q" and t: "?t = commit q (vote_elect q p r' (t_voter s q))
      (s\<lparr>t_got := (t_got s)(p := (t_got s p)(q := Suc (t_got s p q)))\<rparr>)"
    and heard: "\<And>a b x. heard ?t a b x \<longleftrightarrow> heard s a b x \<or> (a, b, x) \<in> {(p, q, r')}"
    and got: "\<And>a b. t_got ?t a b \<le> length (t_sent s a b)"
    using campaign_next [OF assms(1,2)] by blast
  have [simp]: "r' = r" using assms(3) r'(1) by simp
  let ?n = "card P - 1"
  let ?D = "P - {q, p} \<union> (if ?n = 1 then {p} else {})"
  have less: "r < c0" if "caw_of s q = Some c0" for c0
    using that assms(4) by (simp add: superior_def)
  have none: "\<not> told s q x r" "\<not> heard s x q r" for x
    using campaignD(9,10) [OF assms(1)] less by (metis leD)+
  have start: "starter P s r" "r \<in> P" using campaignD(9) [OF assms(1)] r'(3) by auto
  have rq: "r \<noteq> q" using none start(1) r'(4,6) unfolding starter_def by blast
  have peers: "v_peers (t_voter s q) = P - {q}" "card (P - {q}) = ?n"
    using campaignD(3) [OF assms(1)] card_others [OF assms(1)] r'(5) by auto
  have voter: "t_voter ?t q = (t_voter s q)\<lparr>v_wave
      := Some \<lparr>w_caw = Some r, w_father = Some p, w_erec = 1, w_lrec = 0\<rparr>\<rparr>"
    using assms(4) by (simp add: t vote_elect_def spread_def adopt_def Let_def)
  have sent: "t_sent ?t a b = t_sent s a b @ (if a = q \<and> b \<in> ?D then [Elect r] else [])" for a b
    using assms(4) rq peers by (auto simp: t vote_elect_def spread_def adopt_def wave_over_def)
  have mv: "campaign_move P q r ?D {(p, q, r)} s ?t"
    using r'(4-6) got heard by (auto simp: campaign_move_def voter sent) (auto simp: t)
  have starts: "starter P ?t r" by (rule starter_mono [OF mv start(1)])
  have "{x \<in> P - {q}. heard ?t x q r} = {p}" using none(2) r'(4,6) by (auto simp: heard)
  moreover have "told ?t q p r \<longleftrightarrow> 1 = ?n" using campaign_move_told [OF mv] none(1) by auto
  moreover have "told ?t q x r" if "x \<in> P - {q, p}" for x using campaign_move_told [OF mv] that by auto
  ultimately have "member_ok P ?t q"
    using rq start(2) starts r'(4,6) by (simp add: member_ok_def voter heard)
  then show ?thesis
    using campaign_moves [OF assms(1) mv _ start(2) starts] less none(1) rq r'(6) by (auto simp: voter less_imp_le)
qed

lemma campaign_count:
  assumes "campaign P s" and "waiting s p q" and "t_sent s p q ! t_got s p q = Elect r"
    and "caw_of s q = Some r" and "r = q \<Longrightarrow> Suc (erec_of s q) \<noteq> card P - 1"
  shows "campaign P (arrive p q s)"
proof -
  let ?t = "arrive p q s"
  obtain r' where r': "t_sent s p q ! t_got s p q = Elect r'" "\<not> heard s p q r'" "told s p q r'"
    "p \<in> P" "q \<in> P" "p \<noteq> q" and t: "?t = commit q (vote_elect q p r' (t_voter s q))
      (s\<lparr>t_got := (t_got s)(p := (t_got s p)(q := Suc (t_got s p q)))\<rparr>)"
    and heard: "\<And>a b x. heard ?t a b x \<longleftrightarrow> heard s a b x \<or> (a, b, x) \<in> {(p, q, r')}"
    and got: "\<And>a b. t_got ?t a b \<le> length (t_sent s a b)"
    using campaign_next [OF assms(1,2)] by blast
  have [simp]: "r' = r" using assms(3) r'(1) by simp
  let ?n = "card P - 1" and ?w = "the_wave (t_voter s q)"
  have peers: "v_peers (t_voter s q) = P - {q}" "card (P - {q}) = ?n"
    using campaignD(3) [OF assms(1)] card_others [OF assms(1)] r'(5) by auto
  have me: "r \<in> P" "starter P s r" "w_erec ?w = card {x \<in> P - {q}. heard s x q r}"
    and father: "q = r \<Longrightarrow> w_father ?w = None"
    "q \<noteq> r \<Longrightarrow> \<exists>f \<in> P - {q}. w_father ?w = Some f \<and> heard s f q r \<and> (\<forall>x \<in> P - {q, f}. told s q x r)
        \<and> (told s q f r \<longleftrightarrow> w_erec ?w = ?n)"
    by (fact member_okD [OF campaignD(12) [OF assms(1) r'(5)] assms(4)])+
  have nsup: "\<not> superior r ?w" using assms(4) by (simp add: superior_def)
  have voter: "t_voter ?t q = (t_voter s q)\<lparr>v_wave := Some (?w\<lparr>w_erec := Suc (w_erec ?w)\<rparr>)\<rparr>"
    using assms(4) nsup by (simp add: t vote_elect_def spread_def adopt_def Let_def)
  have fin: "finite P" by (rule campaignD(1) [OF assms(1)])
  have new: "{x \<in> P - {q}. heard ?t x q r} = insert p {x \<in> P - {q}. heard s x q r}"
    using r'(4,6) by (auto simp: heard)
  have count: "card {x \<in> P - {q}. heard ?t x q r} = Suc (w_erec ?w)"
    unfolding new me(3) using r'(2) fin by simp
  have le: "Suc (w_erec ?w) \<le> ?n"
    unfolding count [symmetric] peers(2) [symmetric] using fin by (intro card_mono) auto
  let ?D = "if q \<noteq> r \<and> Suc (w_erec ?w) = ?n then {the (w_father ?w)} else {}"
  have sent: "t_sent ?t a b = t_sent s a b @ (if a = q \<and> b \<in> ?D then [Elect r] else [])" for a b
    using assms(4,5) nsup peers father by (auto simp: t vote_elect_def spread_def adopt_def wave_over_def Let_def)
  have D: "?D \<subseteq> P - {q}" using father(2) by auto
  have lrec: "w_lrec ?w = 0" by (rule campaignD(5) [OF assms(1) r'(5)])
  have mv: "campaign_move P q r ?D {(p, q, r)} s ?t"
    unfolding campaign_move_def using r'(5) D got heard assms(4) lrec
    by (simp add: voter sent) (simp add: t)
  have starts: "starter P ?t r" by (rule starter_mono [OF mv me(2)])
  have fresh: "\<not> told s q d r" if "d \<in> ?D" for d
    using that father(2) by (auto split: if_splits)
  have now: "caw_of ?t q = Some r" "erec_of ?t q = Suc (w_erec ?w)" "father_of ?t q = w_father ?w"
    using assms(4) by (simp_all add: voter)
  have "member_ok P ?t q"
  proof (rule member_okI [OF now(1) me(1) starts])
    show "erec_of ?t q = card {x \<in> P - {q}. heard ?t x q r}" unfolding now count ..
    show "father_of ?t q = None \<and> erec_of ?t q \<noteq> card P - 1" if "q = r"
      unfolding now using father(1) [OF that] assms(5) [OF that [symmetric]] by (rule conjI)
    assume "q \<noteq> r"
    then obtain f where f: "f \<in> P - {q}" "w_father ?w = Some f" "heard s f q r" "\<forall>x \<in> P - {q, f}. told s q x r"
      "told s q f r \<longleftrightarrow> w_erec ?w = ?n" using father(2) by blast
    then have "told ?t q f r \<longleftrightarrow> Suc (w_erec ?w) = ?n"
      using campaign_move_told [OF mv] le \<open>q \<noteq> r\<close> by auto
    then show "\<exists>f \<in> P - {q}. father_of ?t q = Some f \<and> heard ?t f q r \<and> (\<forall>p \<in> P - {q, f}. told ?t q p r)
        \<and> (told ?t q f r \<longleftrightarrow> erec_of ?t q = card P - 1)"
      using f campaign_move_told [OF mv] unfolding now by (intro bexI [of _ f]) (auto simp: heard)
  qed
  then show ?thesis
    using campaign_moves [OF assms(1) mv _ me(1) starts] assms(4) fresh by (auto simp: voter split: if_splits)
qed

lemma campaign_ignore:
  assumes "campaign P s" and "waiting s p q" and "t_sent s p q ! t_got s p q = Elect r"
    and "caw_of s q = Some c" and "c < r"
  shows "campaign P (arrive p q s)"
proof -
  let ?t = "arrive p q s"
  obtain r' where r': "t_sent s p q ! t_got s p q = Elect r'" "\<not> heard s p q r'" "told s p q r'"
    "p \<in> P" "q \<in> P" "p \<noteq> q" and t: "?t = commit q (vote_elect q p r' (t_voter s q))
      (s\<lparr>t_got := (t_got s)(p := (t_got s p)(q := Suc (t_got s p q)))\<rparr>)"
    and heard: "\<And>a b x. heard ?t a b x \<longleftrightarrow> heard s a b x \<or> (a, b, x) \<in> {(p, q, r')}"
    and got: "\<And>a b. t_got ?t a b \<le> length (t_sent s a b)"
    using campaign_next [OF assms(1,2)] by blast
  have [simp]: "r' = r" using assms(3) r'(1) by simp
  let ?w = "the_wave (t_voter s q)"
  have no: "\<not> superior r ?w" "c \<noteq> r" using assms(4,5) by (simp_all add: superior_def)
  have voter: "t_voter ?t q = (t_voter s q)\<lparr>v_wave := Some ?w\<rparr>" and sent: "t_sent ?t a b = t_sent s a b" for a b
    using assms(4) no by (auto simp: t vote_elect_def spread_def adopt_def Let_def)
  have lrec: "w_lrec ?w = 0" by (rule campaignD(5) [OF assms(1) r'(5)])
  have mv: "campaign_move P q c {} {(p, q, r)} s ?t"
    unfolding campaign_move_def using r'(5) got heard assms(4,5) lrec
    by (simp add: voter sent) (simp add: t)
  have told: "told ?t a b x = told s a b x" for a b x using campaign_move_told [OF mv] by simp
  have me: "member_ok P s q" by (rule campaignD(12) [OF assms(1) r'(5)])
  note meD = member_okD [OF me assms(4)]
  then have c: "c \<in> P" "starter P s c" by simp_all
  have starts: "starter P ?t c" by (rule starter_mono [OF mv c(2)])
  have same: "heard ?t x q c = heard s x q c" for x using no(2) by (simp add: heard)
  have wave: "the_wave (t_voter ?t q) = ?w" by (simp add: voter)
  have "member_ok P ?t q"
  proof (rule member_okI [OF _ c(1) starts], unfold wave told same)
    show "father_of s q = None \<and> erec_of s q \<noteq> card P - 1" if "q = c" using meD(4,5) [OF that] by (rule conjI)
  qed (rule assms(4), fact meD(3), erule meD(6))
  then show ?thesis
    using campaign_moves [OF assms(1) mv _ c(1) starts] assms(4) by (auto simp: voter)
qed

text \<open>Until a challenger has heard its own wave from everyone, the campaign goes on.\<close>

lemma campaign_arrive:
  assumes "campaign P s" and "waiting s p q"
    and "\<not> (t_sent s p q ! t_got s p q = Elect q \<and> caw_of s q = Some q \<and> Suc (erec_of s q) = card P - 1)"
  shows "campaign P (arrive p q s)"
proof -
  obtain r where r: "t_sent s p q ! t_got s p q = Elect r" using campaign_next [OF assms(1,2)] by metis
  show ?thesis
  proof (cases "superior r (the_wave (t_voter s q))")
    case True
    then show ?thesis by (rule campaign_adopt [OF assms(1,2) r])
  next
    case False
    then obtain c where c: "caw_of s q = Some c" "c \<le> r" by (auto simp: superior_def split: option.splits)
    show ?thesis
    proof (cases "c = r")
      case True
      then show ?thesis using campaign_count [OF assms(1,2) r] c assms(3) r by auto
    qed (use campaign_ignore [OF assms(1,2) r c(1)] c(2) in simp)
  qed
qed

end
