(* ===== verification/Zyre_Wave_Decided.thy ===== *)
theory Zyre_Wave_Decided
  imports Zyre_Wave_Inv
begin

text \<open>
  What a decided wave means: every member supports it, nothing of it is under way and no lower challenge
  exists. From there on the LEADER messages of one leader spread, each member passing them on once.
\<close>

section \<open>The decision\<close>

text \<open>A challenger whom all others told its own wave has won over all others.\<close>

lemma all_support:
  assumes "campaign P s" and "r \<in> P" and "caw_of s r = Some r" and "\<And>x. x \<in> P - {r} \<Longrightarrow> told s x r r"
    and "x \<in> P"
  shows "caw_of s x = Some r"
proof (cases "x = r")
  case False
  then have "told s x r r" using assms(4,5) by simp
  then obtain c where c: "caw_of s x = Some c" "c \<le> r" using campaignD(9) [OF assms(1)] by blast
  have cP: "c \<in> P" "starter P s c" using member_okD(1,2) [OF campaignD(12) [OF assms(1,5)] c(1)] by blast+
  show ?thesis
  proof (rule ccontr)
    assume no: "caw_of s x \<noteq> Some r"
    then have "c \<noteq> r" using c by auto
    then have "told s c r c" "told s c r r" using cP assms(2,4) by (auto simp: starter_def)
    then have "r \<le> c" by (rule campaignD(11) [OF assms(1)])
    then show False using c no by simp
  qed
qed (use assms(3) in simp)

lemma fathers_finite:
  assumes "campaign P s" shows "finite (fathers P s r)"
proof (rule finite_subset)
  show "fathers P s r \<subseteq> P \<times> P"
  proof (clarsimp simp: fathers_def)
    fix q f assume q: "q \<in> P" "caw_of s q = Some r" "father_of s q = Some f"
    note ok = member_okD [OF campaignD(12) [OF assms q(1)] q(2)]
    have "q \<noteq> r" using ok(4) q(3) by auto
    then show "f \<in> P" using ok(6) q(3) by auto
  qed
qed (use campaignD(1) [OF assms] in simp)

lemma erec_full:
  assumes "campaign P s" and "q \<in> P" and "caw_of s q = Some r"
  shows "erec_of s q = card P - 1 \<longleftrightarrow> (\<forall>p \<in> P - {q}. heard s p q r)"
proof -
  have fin: "finite (P - {q})" and n: "card (P - {q}) = card P - 1"
    using campaignD(1) [OF assms(1)] assms(2) by (simp_all add: card_Diff_singleton)
  have "card {p \<in> P - {q}. heard s p q r} = card (P - {q}) \<longleftrightarrow> {p \<in> P - {q}. heard s p q r} = P - {q}"
    using card_subset_eq [OF fin] by (metis (no_types, lifting) mem_Collect_eq subsetI)
  also have "\<dots> \<longleftrightarrow> (\<forall>p \<in> P - {q}. heard s p q r)" by blast
  finally show ?thesis unfolding member_okD(3) [OF campaignD(12) [OF assms(1,2)] assms(3)] n .
qed

text \<open>Members that wait for an echo wait for one that waits: the fathers lead to the challenger.\<close>

lemma waits_for_son:
  assumes "campaign P s" and "\<And>x. x \<in> P \<Longrightarrow> caw_of s x = Some r" and "r \<in> P"
    and "\<And>q. q \<in> I \<Longrightarrow> q \<in> P \<and> (\<exists>f \<in> I. (q, f) \<in> fathers P s r)"
  shows "I = {}"
proof (rule ccontr)
  assume "I \<noteq> {}"
  moreover have "wf ((fathers P s r)\<inverse>)"
    by (rule finite_acyclic_wf_converse [OF fathers_finite [OF assms(1)] campaignD(13) [OF assms(1)]])
  ultimately obtain q where "q \<in> I" "\<And>y. (y, q) \<in> (fathers P s r)\<inverse> \<Longrightarrow> y \<notin> I"
    by (metis ex_in_conv wfE_min)
  then show False using assms(4) by blast
qed

lemma all_complete:
  assumes "campaign P s" and caw: "\<And>x. x \<in> P \<Longrightarrow> caw_of s x = Some r" and "r \<in> P"
    and told: "\<And>x. x \<in> P - {r} \<Longrightarrow> told s x r r" and "q \<in> P - {r}"
  shows "erec_of s q = card P - 1"
proof -
  let ?I = "{q \<in> P - {r}. erec_of s q \<noteq> card P - 1}"
  have "?I = {}"
  proof (rule waits_for_son [OF assms(1) caw assms(3)])
    fix q assume q: "q \<in> ?I"
    then have qP: "q \<in> P" "q \<noteq> r" by auto
    obtain f where f: "f \<in> P - {q}" "father_of s q = Some f" "\<not> told s q f r"
      using member_okD(6) [OF campaignD(12) [OF assms(1) qP(1)] caw [OF qP(1)]] q by auto
    have "f \<noteq> r" using f(3) told q by blast
    moreover have "erec_of s f \<noteq> card P - 1"
    proof -
      have "f \<in> P" "q \<in> P - {f}" "\<not> heard s q f r" using f qP(1) heard_told [of s q f r] by auto
      then show ?thesis using erec_full [OF assms(1) _ caw, of f] by blast
    qed
    ultimately show "q \<in> P \<and> (\<exists>f \<in> ?I. (q, f) \<in> fathers P s r)"
      using f q caw by (auto simp: fathers_def)
  qed
  then show ?thesis using assms(5) by blast
qed

section \<open>After the decision\<close>

definition hailed :: "'n net \<Rightarrow> 'n \<Rightarrow> 'n \<Rightarrow> 'n \<Rightarrow> bool" where
  "hailed s p q r \<longleftrightarrow> Leader r \<in> set (take (t_got s p q) (t_sent s p q))"

definition hails :: "'n set \<Rightarrow> 'n net \<Rightarrow> 'n \<Rightarrow> 'n \<Rightarrow> nat" where
  "hails P s r q = card {p \<in> P - {q}. hailed s p q r}"

text \<open>Whether a member has passed the leader on, or decided it.\<close>

definition spoke :: "'n net \<Rightarrow> 'n \<Rightarrow> 'n \<Rightarrow> bool" where
  "spoke s r q \<longleftrightarrow> q = r \<or> (\<exists>p. hailed s p q r)"

definition spent :: "nat \<Rightarrow> 'n \<Rightarrow> bool \<Rightarrow> 'n ballot list \<Rightarrow> nat \<Rightarrow> bool" where
  "spent N r b ms n \<longleftrightarrow> (\<exists>rs. ms = map Elect rs @ (if b then [Leader r] else [])
     \<and> length rs \<le> n \<and> n \<le> length ms \<and> length rs \<le> N)"

definition member_told :: "'n set \<Rightarrow> 'n \<Rightarrow> 'n net \<Rightarrow> 'n \<Rightarrow> bool" where
  "member_told P r s q \<longleftrightarrow> v_peers (t_voter s q) = P - {q}
     \<and> (if hails P s r q = card P - 1 then v_wave (t_voter s q) = None \<and> v_said (t_voter s q) = [r]
        else v_said (t_voter s q) = [] \<and> (\<exists>w. v_wave (t_voter s q) = Some w \<and> w_caw w = Some r
          \<and> w_lrec w = hails P s r q))"

definition proclaimed :: "'n::linorder set \<Rightarrow> 'n \<Rightarrow> 'n net \<Rightarrow> bool" where
  "proclaimed P r s \<longleftrightarrow> finite P \<and> 2 \<le> card P \<and> r \<in> P \<and> starter P s r
     \<and> (\<forall>p q x. told s p q x \<longrightarrow> r \<le> x)
     \<and> (\<forall>p q. \<not> (p \<in> P \<and> q \<in> P \<and> p \<noteq> q) \<longrightarrow> t_sent s p q = [] \<and> t_got s p q = 0)
     \<and> (\<forall>p \<in> P. \<forall>q \<in> P - {p}. spent (card P) r (spoke s r p) (t_sent s p q) (t_got s p q))
     \<and> (\<forall>q \<in> P. member_told P r s q)"

lemma hailed_spent:
  assumes "spent N r b (t_sent s p q) (t_got s p q)"
  shows "hailed s p q r \<longleftrightarrow> b \<and> t_got s p q = length (t_sent s p q)"
proof -
  obtain rs where rs: "t_sent s p q = map Elect rs @ (if b then [Leader r] else [])" "length rs \<le> t_got s p q"
    "t_got s p q \<le> length (t_sent s p q)" using assms by (auto simp: spent_def)
  then consider "t_got s p q = length rs" "b" | "t_got s p q = Suc (length rs)" "b" | "\<not> b" "t_got s p q = length rs"
    by (cases b) (auto simp: le_Suc_eq)
  then show ?thesis using rs(1) by cases (auto simp: hailed_def)
qed

text \<open>The campaign ends in a proclamation.\<close>

lemma campaign_decides:
  assumes "campaign P s" and "waiting s p q" and next_q: "t_sent s p q ! t_got s p q = Elect q"
    and "caw_of s q = Some q" and full: "Suc (erec_of s q) = card P - 1"
  shows "proclaimed P q (arrive p q s)"
proof -
  let ?t = "arrive p q s"
  obtain r' where r': "t_sent s p q ! t_got s p q = Elect r'" "\<not> heard s p q r'" "told s p q r'"
    "p \<in> P" "q \<in> P" "p \<noteq> q" and t: "?t = commit q (vote_elect q p r' (t_voter s q))
      (s\<lparr>t_got := (t_got s)(p := (t_got s p)(q := Suc (t_got s p q)))\<rparr>)"
    and heard: "\<And>a b x. heard ?t a b x \<longleftrightarrow> heard s a b x \<or> (a, b, x) \<in> {(p, q, r')}"
    and got: "\<And>a b. t_got ?t a b \<le> length (t_sent s a b)"
    using campaign_next [OF assms(1,2)] by blast
  have [simp]: "r' = q" using next_q r'(1) by simp
  have fin: "finite P" and two: "2 \<le> card P" using campaignD(1,2) [OF assms(1)] .
  let ?n = "card P - 1" and ?w = "the_wave (t_voter s q)"
  have peers: "v_peers (t_voter s x) = P - {x}" "card (P - {x}) = ?n" if "x \<in> P" for x
    using campaignD(3) [OF assms(1)] card_others [OF assms(1)] that by auto
  have voter: "t_voter ?t q = (t_voter s q)\<lparr>v_wave := Some (?w\<lparr>w_erec := Suc (w_erec ?w)\<rparr>)\<rparr>"
    using assms(4) by (simp add: t vote_elect_def spread_def adopt_def superior_def Let_def)
  have other: "t_voter ?t x = t_voter s x" if "x \<noteq> q" for x using that by (simp add: t)
  have sent: "t_sent ?t a b = t_sent s a b @ (if a = q \<and> b \<in> P - {q} then [Leader q] else [])" for a b
    using assms(4) full peers [OF r'(5)] by (simp add: t vote_elect_def spread_def adopt_def superior_def wave_over_def Let_def)
  have mine: "starter P s q" "w_erec ?w = card {x \<in> P - {q}. heard s x q q}"
    using member_okD(2,3) [OF campaignD(12) [OF assms(1) r'(5)] assms(4)] .
  have all: "heard ?t x q q" if "x \<in> P - {q}" for x
  proof -
    have "{x \<in> P - {q}. heard ?t x q q} = insert p {x \<in> P - {q}. heard s x q q}"
      using r'(4,6) by (auto simp: heard)
    then have "card {x \<in> P - {q}. heard ?t x q q} = card (P - {q})"
      using r'(2) fin mine(2) full peers(2) [OF r'(5)] by simp
    then have "{x \<in> P - {q}. heard ?t x q q} = P - {q}" using fin by (intro card_subset_eq) auto
    then show ?thesis using that by blast
  qed
  then have told: "told s x q q" if "x \<in> P - {q}" for x
    using that r'(3) heard_told [of s x q q] by (auto simp: heard)
  have caw: "caw_of s x = Some q" if "x \<in> P" for x
    by (rule all_support [OF assms(1) r'(5) assms(4) told that])
  have low: "q \<le> z" if "told s a b z" for a b z
  proof -
    have "t_sent s a b \<noteq> []" using that by (auto simp: told_def)
    then have "a \<in> P" using campaignD(8) [OF assms(1)] by blast
    then show ?thesis using campaignD(9) [OF assms(1) that] caw by auto
  qed
  have everywhere: "heard ?t a b q" if "a \<in> P" "b \<in> P" "a \<noteq> b" for a b
  proof (cases "b = q")
    case False
    then have "erec_of s b = ?n" using all_complete [OF assms(1) caw r'(5) told] that by blast
    then have "heard s a b q" using erec_full [OF assms(1) that(2) caw [OF that(2)]] that by blast
    then show ?thesis by (simp add: heard)
  qed (use all that in simp)
  have gone: "t_got ?t a b = length (t_sent s a b)" if "a \<in> P" "b \<in> P" "a \<noteq> b" for a b
  proof (rule falling_last [OF campaignD(6) [OF assms(1)]])
    show "Elect q \<in> set (take (t_got ?t a b) (t_sent s a b))"
      using everywhere [OF that] got [of a b] sent [of a b] by (auto simp: heard_def)
    show "q \<le> x" if "Elect x \<in> set (t_sent s a b)" for x using low that by (simp add: told_def)
  qed (rule got)
  have quiet: "Leader q \<notin> set (t_sent s a b)" for a b
    using campaignD(6) [OF assms(1), of a b] by (auto simp: falling_def)
  have hailed: "\<not> hailed ?t a b q" for a b
  proof -
    have "take (t_got ?t a b) (t_sent ?t a b) = take (t_got ?t a b) (t_sent s a b)" using got [of a b] sent by simp
    then show ?thesis using quiet by (auto simp: hailed_def dest: in_set_takeD)
  qed
  then have none: "hails P ?t q x = 0" "spoke ?t q x \<longleftrightarrow> x = q" for x by (simp_all add: hails_def spoke_def)
  have "spent (card P) q (spoke ?t q a) (t_sent ?t a b) (t_got ?t a b)" if ab: "a \<in> P" "b \<in> P - {a}" for a b
  proof -
    obtain rs where rs: "t_sent s a b = map Elect rs" "sorted_wrt (>) rs"
      using campaignD(6) [OF assms(1), of a b] by (auto simp: falling_def)
    have "distinct rs" using rs(2) by (induction rs) auto
    moreover have "set rs \<subseteq> P" using campaignD(9) [OF assms(1), of a b] rs(1) by (auto simp: told_def)
    ultimately have "length rs \<le> card P" using fin distinct_card card_mono by metis
    then show ?thesis using gone [of a b] ab rs(1) sent [of a b] by (auto simp: spent_def none)
  qed
  moreover have "member_told P q ?t x" if xP: "x \<in> P" for x
  proof -
    have "\<exists>w. v_wave (t_voter ?t x) = Some w \<and> w_caw w = Some q \<and> w_lrec w = 0"
    proof (cases "x = q")
      case True
      then show ?thesis using assms(4) campaignD(5) [OF assms(1) r'(5)] by (simp add: voter)
    next
      case False
      obtain w where w: "v_wave (t_voter s x) = Some w"
        using caw [OF xP] by (cases "v_wave (t_voter s x)") (simp_all add: the_wave_def wave_new_def)
      then show ?thesis
        using other [OF False] caw [OF xP] campaignD(5) [OF assms(1) xP] by (simp add: the_wave_def)
    qed
    moreover have "v_peers (t_voter ?t x) = v_peers (t_voter s x)" "v_said (t_voter ?t x) = v_said (t_voter s x)"
      using other [of x] by (cases "x = q"; simp add: voter)+
    ultimately show ?thesis
      using two peers(1) [OF xP] campaignD(4) [OF assms(1) xP] none(1) by (simp add: member_told_def)
  qed
  moreover have "\<not> (a \<in> P \<and> b \<in> P \<and> a \<noteq> b) \<longrightarrow> t_sent ?t a b = [] \<and> t_got ?t a b = 0" for a b
  proof
    assume "\<not> (a \<in> P \<and> b \<in> P \<and> a \<noteq> b)"
    moreover from this have "t_sent s a b = []" using campaignD(8) [OF assms(1)] by blast
    ultimately show "t_sent ?t a b = [] \<and> t_got ?t a b = 0"
      using got [of a b] sent [of a b] r'(5) by auto
  qed
  moreover have "told ?t a b z = told s a b z" for a b z by (simp add: told_def sent)
  ultimately show ?thesis
    using fin two r'(5) mine(1) low unfolding proclaimed_def starter_def by auto
qed

lemma proclaimedD:
  assumes "proclaimed P r s"
  shows "finite P" and "2 \<le> card P" and "r \<in> P" and "starter P s r" and "told s p q x \<Longrightarrow> r \<le> x"
    and "\<not> (p \<in> P \<and> q \<in> P \<and> p \<noteq> q) \<Longrightarrow> t_sent s p q = [] \<and> t_got s p q = 0"
    and "p \<in> P \<Longrightarrow> q \<in> P - {p} \<Longrightarrow> spent (card P) r (spoke s r p) (t_sent s p q) (t_got s p q)"
    and "q \<in> P \<Longrightarrow> member_told P r s q"
proof -
  note P = assms [unfolded proclaimed_def]
  from P show "finite P" "2 \<le> card P" "r \<in> P" "starter P s r" by simp_all
  from P show "r \<le> x" if "told s p q x" using that by blast
  from P have "\<forall>p q. \<not> (p \<in> P \<and> q \<in> P \<and> p \<noteq> q) \<longrightarrow> t_sent s p q = [] \<and> t_got s p q = 0" by (elim conjE)
  then show "t_sent s p q = [] \<and> t_got s p q = 0" if "\<not> (p \<in> P \<and> q \<in> P \<and> p \<noteq> q)" using that by simp
  from P have "\<forall>p \<in> P. \<forall>q \<in> P - {p}. spent (card P) r (spoke s r p) (t_sent s p q) (t_got s p q)" by (elim conjE)
  then show "spent (card P) r (spoke s r p) (t_sent s p q) (t_got s p q)" if "p \<in> P" "q \<in> P - {p}"
    using that by blast
  from P show "member_told P r s q" if "q \<in> P" using that by (elim conjE) (erule (1) bspec)
qed

lemma proclaimed_got:
  assumes "proclaimed P r s" shows "t_got s p q \<le> length (t_sent s p q)"
proof (cases "p \<in> P \<and> q \<in> P \<and> p \<noteq> q")
  case True
  then have "spent (card P) r (spoke s r p) (t_sent s p q) (t_got s p q)" by (intro proclaimedD(7) [OF assms]) auto
  then show ?thesis unfolding spent_def by blast
qed (use proclaimedD(6) [OF assms] in simp)

lemma hailed_pair:
  assumes "proclaimed P r s" and "hailed s p q x" shows "p \<in> P \<and> q \<in> P \<and> p \<noteq> q"
proof (rule ccontr)
  assume "\<not> (p \<in> P \<and> q \<in> P \<and> p \<noteq> q)"
  then have "t_sent s p q = []" using proclaimedD(6) [OF assms(1)] by blast
  then show False using assms(2) by (simp add: hailed_def)
qed

text \<open>A member that has heard of the leader from \<open>k\<close> others.\<close>

lemma hails_full:
  assumes "proclaimed P r s" and "q \<in> P"
  shows "hails P s r q = card P - 1 \<longleftrightarrow> (\<forall>p \<in> P - {q}. hailed s p q r)"
proof -
  have fin: "finite (P - {q})" and n: "card (P - {q}) = card P - 1"
    using proclaimedD(1) [OF assms(1)] assms(2) by (simp_all add: card_Diff_singleton)
  have "card {p \<in> P - {q}. hailed s p q r} = card (P - {q}) \<longleftrightarrow> {p \<in> P - {q}. hailed s p q r} = P - {q}"
    using card_subset_eq [OF fin] by (metis (no_types, lifting) mem_Collect_eq subsetI)
  also have "\<dots> \<longleftrightarrow> (\<forall>p \<in> P - {q}. hailed s p q r)" by blast
  finally show ?thesis unfolding hails_def n .
qed

lemma hails_zero:
  assumes "proclaimed P r s" shows "hails P s r q = 0 \<longleftrightarrow> (\<forall>p. \<not> hailed s p q r)"
proof -
  have "{p \<in> P - {q}. hailed s p q r} = {p. hailed s p q r}" using hailed_pair [OF assms] by blast
  moreover have "finite {p \<in> P - {q}. hailed s p q r}" using proclaimedD(1) [OF assms] by simp
  ultimately show ?thesis by (auto simp: hails_def)
qed

lemma proclaimed_arrive:
  assumes "proclaimed P r s" and "waiting s p q"
  shows "proclaimed P r (arrive p q s)"
proof -
  let ?t = "arrive p q s" and ?n = "card P - 1"
  have w: "t_got s p q < length (t_sent s p q)" using assms(2) by (simp add: waiting_def)
  have pq: "p \<in> P" "q \<in> P" "p \<noteq> q" using proclaimedD(6) [OF assms(1), of p q] w by force+
  have fin: "finite P" and two: "2 \<le> card P" using proclaimedD(1,2) [OF assms(1)] .
  obtain rs where rs: "t_sent s p q = map Elect rs @ (if spoke s r p then [Leader r] else [])"
    "length rs \<le> t_got s p q"
    using proclaimedD(7) [OF assms(1) pq(1), of q] pq by (auto simp: spent_def)
  then have msg: "t_sent s p q ! t_got s p q = Leader r" and not_yet: "\<not> hailed s p q r"
    using w by (auto simp: nth_append hailed_def split: if_splits)
  have hailed: "hailed ?t a b r \<longleftrightarrow> hailed s a b r \<or> a = p \<and> b = q" for a b
    using taken_arrive [OF proclaimed_got [OF assms(1)] assms(2), of a b] msg by (auto simp: hailed_def)
  have few: "hails P s r q \<noteq> ?n" using hails_full [OF assms(1) pq(2)] pq not_yet by blast
  then obtain v where v: "v_wave (t_voter s q) = Some v" "w_caw v = Some r" "w_lrec v = hails P s r q"
    and mine: "v_peers (t_voter s q) = P - {q}" "v_said (t_voter s q) = []"
    using proclaimedD(8) [OF assms(1) pq(2)] by (auto simp: member_told_def)
  have silent: "q \<noteq> r \<and> w_lrec v = 0 \<longleftrightarrow> \<not> spoke s r q"
    using v(3) hails_zero [OF assms(1)] by (simp add: spoke_def)
  have n: "card (P - {q}) = ?n" using fin pq by (simp add: card_Diff_singleton)
  have sent: "t_sent ?t a b = t_sent s a b @ (if a = q \<and> b \<in> P - {q} \<and> \<not> spoke s r q then [Leader r] else [])" for a b
    using silent v(1,2) mine msg by (auto simp: arrive_def vote_def vote_leader_def the_wave_def Let_def)
  have got: "t_got ?t a b = (if a = p \<and> b = q then Suc (t_got s p q) else t_got s a b)" for a b
    by (simp add: arrive_def)
  have other: "t_voter ?t x = t_voter s x" if "x \<noteq> q" for x using that by (simp add: arrive_def)
  have voter: "t_voter ?t q = (if Suc (w_lrec v) = ?n
      then (t_voter s q)\<lparr>v_wave := None, v_said := [r]\<rparr>
      else (t_voter s q)\<lparr>v_wave := Some (v\<lparr>w_lrec := Suc (w_lrec v)\<rparr>)\<rparr>)"
    using v mine msg n by (simp add: arrive_def vote_def vote_leader_def the_wave_def Let_def)
  have spoke: "spoke ?t r a \<longleftrightarrow> spoke s r a \<or> a = q" for a by (auto simp: spoke_def hailed)
  have hails_other: "hails P ?t r x = hails P s r x" if "x \<noteq> q" for x using that by (simp add: hails_def hailed)
  have "{x \<in> P - {q}. hailed ?t x q r} = insert p {x \<in> P - {q}. hailed s x q r}"
    using pq by (auto simp: hailed)
  then have hails: "hails P ?t r q = Suc (hails P s r q)" using fin not_yet by (simp add: hails_def)
  have told: "told ?t a b x = told s a b x" for a b x by (simp add: told_def sent)
  have "member_told P r ?t x" if "x \<in> P" for x
  proof (cases "x = q")
    case True
    then show ?thesis using mine v hails by (simp add: member_told_def voter)
  next
    case False
    then show ?thesis using proclaimedD(8) [OF assms(1) that] by (simp add: member_told_def other hails_other)
  qed
  moreover have "spent (card P) r (spoke ?t r a) (t_sent ?t a b) (t_got ?t a b)" if ab: "a \<in> P" "b \<in> P - {a}" for a b
  proof -
    obtain es where es: "t_sent s a b = map Elect es @ (if spoke s r a then [Leader r] else [])"
      "length es \<le> t_got s a b" "t_got s a b \<le> length (t_sent s a b)" "length es \<le> card P"
      using proclaimedD(7) [OF assms(1) ab] by (auto simp: spent_def)
    have "t_got ?t a b \<le> length (t_sent s a b)" using got es(3) w by simp
    moreover have "length es \<le> t_got ?t a b" using got [of a b] es(2) by auto
    moreover have "t_sent ?t a b = map Elect es @ (if spoke ?t r a then [Leader r] else [])"
      using es(1) sent [of a b] spoke ab by auto
    ultimately show ?thesis using es(1,4) spoke [of a] unfolding spent_def by (intro exI [of _ es]) (auto split: if_splits)
  qed
  moreover have "t_sent ?t a b = [] \<and> t_got ?t a b = 0" if "\<not> (a \<in> P \<and> b \<in> P \<and> a \<noteq> b)" for a b
    using proclaimedD(6) [OF assms(1) that] that pq sent [of a b] got [of a b] by auto
  moreover have "starter P ?t r" using proclaimedD(4) [OF assms(1)] by (simp add: starter_def told)
  ultimately show ?thesis
    using fin two proclaimedD(3,5) [OF assms(1)] unfolding proclaimed_def told by blast
qed

end
