(* ===== verification/Zyre_Wave_Props.thy ===== *)
theory Zyre_Wave_Props
  imports Zyre_Wave_Decided Zyre_Wave_Runs
begin

text \<open>
  The election of a group whose members do not change: nobody but the lowest challenger is ever announced,
  nobody waits for ever, and the messages end.
\<close>

section \<open>The invariant of all runs\<close>

definition lawful :: "'n::linorder set \<Rightarrow> 'n net \<Rightarrow> bool" where
  "lawful P s \<longleftrightarrow> campaign P s \<or> (\<exists>r. proclaimed P r s)"

lemma campaign_initial: "net_initial P s \<Longrightarrow> campaign P s"
proof -
  assume s: "net_initial P s"
  then have w: "the_wave (t_voter s q) = wave_new" if "q \<in> P" for q
    using that by (simp add: net_initial_def idle_def the_wave_def)
  then have "fathers P s r = {}" for r by (auto simp: fathers_def wave_new_def)
  moreover have "member_ok P s q" if "q \<in> P" for q using w [OF that] by (simp add: member_ok_def wave_new_def)
  ultimately show "campaign P s"
    using s w by (simp add: campaign_def net_initial_def idle_def voters_ok_def links_ok_def tellings_ok_def told_def
        heard_def wave_new_def acyclic_def)
qed

lemma proclaimed_not_idle:
  assumes "proclaimed P r s" and "q \<in> P" shows "\<not> idle (t_voter s q)"
  using proclaimedD(8) [OF assms] by (auto simp: member_told_def idle_def split: if_splits)

lemma lawful_step:
  assumes "net_step P s t" and "lawful P s" shows "lawful P t"
  using assms(1)
proof (rule net_stepE)
  fix q assume q: "t = challenge q s" "q \<in> P" "idle (t_voter s q)"
  then show ?thesis
    using assms(2) campaign_challenge proclaimed_not_idle unfolding lawful_def by blast
next
  fix p q assume "t = arrive p q s" "p \<in> P" "q \<in> P" and w: "waiting s p q"
  then show ?thesis
    using assms(2) campaign_arrive [OF _ w] campaign_decides [OF _ w] proclaimed_arrive [OF _ w]
    unfolding lawful_def by blast
qed

interpretation waves: invariant_of "net_initial P" "net_step P" "lawful P" for P :: "'n::linorder set"
proof unfold_locales
  show "lawful P s" if "net_initial P s" for s using campaign_initial [OF that] by (simp add: lawful_def)
qed (rule lawful_step)

section \<open>Only the lowest challenger wins\<close>

lemma challengers_starter:
  assumes "card P \<ge> 2" and "r \<in> P" and "starter P s r" shows "r \<in> challengers P s"
proof -
  have "\<not> P \<subseteq> {r}" using assms(1) card_mono [of "{r}" P] by force
  then obtain x where "x \<in> P - {r}" by blast
  then show ?thesis using assms(2,3) by (auto simp: challengers_def starter_def)
qed

lemma challengers_finite: "finite P \<Longrightarrow> finite (challengers P s)"
  by (simp add: challengers_def)

lemma proclaimed_lowest:
  assumes "proclaimed P r s" shows "Min (challengers P s) = r"
proof (rule Min_eqI [OF challengers_finite [OF proclaimedD(1) [OF assms]]])
  show "r \<in> challengers P s" by (rule challengers_starter [OF proclaimedD(2-4) [OF assms]])
  show "r \<le> c" if "c \<in> challengers P s" for c
    using that proclaimedD(5) [OF assms] by (auto simp: challengers_def)
qed

lemma proclaimed_said:
  assumes "proclaimed P r s" and "q \<in> P" shows "v_said (t_voter s q) \<in> {[], [r]}"
  using proclaimedD(8) [OF assms] by (simp add: member_told_def split: if_splits)

text \<open>C4: in a group whose members do not change, a member announces at most one leader in an election, and
  that is the lowest of the members that started it, whatever the number of members, whoever starts it and in
  whatever order the messages arrive; so no two members disagree.\<close>

theorem election_lowest_wins:
  assumes "net_initial P s" and "(net_step P)\<^sup>*\<^sup>* s t" and "q \<in> P"
  shows "v_said (t_voter t q) \<in> {[], [Min (challengers P t)]}"
proof -
  have "lawful P t" using waves.inv_run [OF assms(1,2)] .
  then show ?thesis
    using campaignD(4) assms(3) proclaimed_said proclaimed_lowest unfolding lawful_def by (metis insertI1)
qed

theorem election_lowest_wins_witness:
  "v_said (t_voter fixed_end ''A'') \<in> {[], [Min (challengers (set trio) fixed_end)]}"
  by (rule election_lowest_wins [OF fixed_trio_initial fixed_run_reached]) simp

section \<open>No member waits for ever\<close>

lemma quiet_campaign:
  assumes "campaign P s" and "\<And>p q. p \<in> P \<Longrightarrow> q \<in> P \<Longrightarrow> \<not> waiting s p q"
  shows "challengers P s = {}"
proof (rule ccontr)
  assume some: "challengers P s \<noteq> {}"
  define m where "m = Min (challengers P s)"
  have fin: "finite P" and two: "2 \<le> card P" using campaignD(1,2) [OF assms(1)] .
  have m: "m \<in> challengers P s" "\<And>c. c \<in> challengers P s \<Longrightarrow> m \<le> c"
    using Min_in [OF challengers_finite [OF fin] some] Min_le [OF challengers_finite [OF fin]] by (auto simp: m_def)
  then have mP: "m \<in> P" "starter P s m" using campaignD(9) [OF assms(1)] by (auto simp: challengers_def)
  have heard: "heard s p q r" if "told s p q r" for p q r
  proof -
    have "t_sent s p q \<noteq> []" using that by (auto simp: told_def)
    then have "p \<in> P" "q \<in> P" using campaignD(8) [OF assms(1)] by blast+
    then have "length (t_sent s p q) \<le> t_got s p q" using assms(2) by (simp add: waiting_def not_less)
    then show ?thesis using that by (simp add: told_def heard_def)
  qed
  have caw: "caw_of s x = Some m" if "x \<in> P" for x
  proof -
    obtain c where c: "caw_of s x = Some c" "c \<le> m"
    proof (cases "x = m")
      case True
      then show thesis using campaign_starter [OF assms(1) mP] that by blast
    next
      case False
      then have "heard s m x m" using mP(2) \<open>x \<in> P\<close> heard by (auto simp: starter_def)
      then show thesis using campaignD(10) [OF assms(1)] that by blast
    qed
    have "m \<le> c"
      using m(2) challengers_starter [OF two] member_okD(1,2) [OF campaignD(12) [OF assms(1) \<open>x \<in> P\<close>] c(1)] by blast
    then show ?thesis using c by simp
  qed
  let ?I = "{q \<in> P. erec_of s q \<noteq> card P - 1}"
  have son: "\<exists>p \<in> ?I. (p, q) \<in> fathers P s m" if q: "q \<in> ?I" for q
  proof -
    obtain p where p: "p \<in> P - {q}" "\<not> told s p q m"
      using q erec_full [OF assms(1) _ caw, of q] heard by blast
    then have "p \<noteq> m" using mP(2) q by (auto simp: starter_def)
    then obtain f where f: "f \<in> P - {p}" "father_of s p = Some f" "\<forall>x \<in> P - {p, f}. told s p x m"
      "told s p f m \<longleftrightarrow> erec_of s p = card P - 1"
      using member_okD(6) [OF campaignD(12) [OF assms(1)] caw] p(1) by blast
    have "f = q" using f(3) p q by blast
    then show ?thesis using f p caw by (auto simp: fathers_def)
  qed
  have "wf (fathers P s m)"
    by (rule finite_acyclic_wf [OF fathers_finite [OF assms(1)] campaignD(13) [OF assms(1)]])
  have "?I = {}"
  proof (rule ccontr)
    assume "?I \<noteq> {}"
    then obtain q0 where "q0 \<in> ?I" by blast
    then obtain q where "q \<in> ?I" "\<And>y. (y, q) \<in> fathers P s m \<Longrightarrow> y \<notin> ?I"
      by (rule wfE_min [OF \<open>wf (fathers P s m)\<close>]) blast
    then show False using son by blast
  qed
  then show False using member_okD(5) [OF campaignD(12) [OF assms(1) mP(1)] caw [OF mP(1)]] mP(1) by blast
qed

lemma quiet_proclaimed:
  assumes "proclaimed P r s" and "\<And>p q. p \<in> P \<Longrightarrow> q \<in> P \<Longrightarrow> \<not> waiting s p q" and "q \<in> P"
  shows "v_said (t_voter s q) = [r]"
proof -
  have reached: "hailed s a b r" if "spoke s r a" "a \<in> P" "b \<in> P - {a}" for a b
  proof -
    have sp: "spent (card P) r (spoke s r a) (t_sent s a b) (t_got s a b)"
      using proclaimedD(7) [OF assms(1) that(2,3)] .
    have "length (t_sent s a b) \<le> t_got s a b" using assms(2) that by (simp add: waiting_def not_less)
    then show ?thesis using hailed_spent [OF sp] proclaimed_got [OF assms(1), of a b] that(1) by simp
  qed
  have r: "r \<in> P" "spoke s r r" using proclaimedD(3) [OF assms(1)] by (simp_all add: spoke_def)
  have "spoke s r a" if "a \<in> P" for a
    using reached [OF r(2,1), of a] r(2) that by (cases "a = r") (auto simp: spoke_def)
  then have "\<forall>p \<in> P - {q}. hailed s p q r" using reached assms(3) by blast
  then have "hails P s r q = card P - 1" using hails_full [OF assms(1,3)] by blast
  then show ?thesis using proclaimedD(8) [OF assms(1,3)] by (simp add: member_told_def)
qed

text \<open>C5: in a group whose members do not change no election gets stuck: when no message is under way any
  more and someone has started an election, every member has announced the lowest challenger.\<close>

theorem election_never_stuck:
  assumes "net_initial P s" and "(net_step P)\<^sup>*\<^sup>* s t" and "challengers P t \<noteq> {}"
    and "\<forall>p \<in> P. \<forall>q \<in> P. \<not> waiting t p q" and "q \<in> P"
  shows "v_said (t_voter t q) = [Min (challengers P t)]"
proof -
  have "lawful P t" using waves.inv_run [OF assms(1,2)] .
  then obtain r where "proclaimed P r t" using quiet_campaign [of P t] assms(3,4) unfolding lawful_def by blast
  then show ?thesis using quiet_proclaimed [of P r t q] proclaimed_lowest assms(4,5) by blast
qed

theorem election_never_stuck_witness:
  "v_said (t_voter fixed_end ''A'') = [Min (challengers (set trio) fixed_end)]
    \<and> challengers (set trio) fixed_end = {''B'', ''C''}"
proof
  show "v_said (t_voter fixed_end ''A'') = [Min (challengers (set trio) fixed_end)]"
    using fixed_run_quiet
    by (intro election_never_stuck [OF fixed_trio_initial fixed_run_reached]) (auto simp: quiet_def)
qed (rule fixed_run_quiet)

section \<open>The messages end\<close>

definition pairs :: "'n set \<Rightarrow> ('n \<times> 'n) set" where
  "pairs P = Sigma P (\<lambda>p. P - {p})"

definition progress :: "'n set \<Rightarrow> 'n net \<Rightarrow> nat" where
  "progress P s = (\<Sum>(p, q) \<in> pairs P. t_got s p q) + card {q \<in> P. \<not> idle (t_voter s q)}"

lemma card_pairs: "finite P \<Longrightarrow> card (pairs P) = card P * (card P - 1)"
  by (simp add: pairs_def card_Diff_singleton)

lemma campaign_link_short:
  assumes "campaign P s" shows "length (t_sent s a b) \<le> card P"
proof -
  obtain rs where rs: "t_sent s a b = map Elect rs" "sorted_wrt (>) rs"
    using campaignD(6) [OF assms(1), of a b] by (auto simp: falling_def)
  have "distinct rs" using rs(2) by (induction rs) auto
  moreover have "set rs \<subseteq> P" using campaignD(9) [OF assms(1), of a b] rs(1) by (auto simp: told_def)
  ultimately have "length rs \<le> card P" using campaignD(1) [OF assms] distinct_card card_mono by metis
  then show ?thesis using rs(1) by simp
qed

lemma lawful_got:
  assumes "lawful P s" shows "t_got s p q \<le> Suc (card P)"
  using assms unfolding lawful_def
proof
  assume c: "campaign P s"
  show ?thesis using campaignD(7) [OF c, of p q] campaign_link_short [OF c, of p q] by simp
next
  assume "\<exists>r. proclaimed P r s"
  then obtain r where r: "proclaimed P r s" by blast
  show ?thesis
  proof (cases "p \<in> P \<and> q \<in> P - {p}")
    case True
    then have "spent (card P) r (spoke s r p) (t_sent s p q) (t_got s p q)" using proclaimedD(7) [OF r] by blast
    then show ?thesis by (auto simp: spent_def split: if_splits)
  qed (use proclaimedD(6) [OF r, of p q] in auto)
qed

lemma progress_bound:
  assumes "lawful P s" shows "progress P s \<le> card P * (card P - 1) * Suc (card P) + card P"
proof -
  have fin: "finite P" using assms campaignD(1) proclaimedD(1) unfolding lawful_def by blast
  have "(\<Sum>(p, q) \<in> pairs P. t_got s p q) \<le> (\<Sum>_ \<in> pairs P. Suc (card P))"
    using lawful_got [OF assms] by (intro sum_mono) auto
  then have "(\<Sum>(p, q) \<in> pairs P. t_got s p q) \<le> card P * (card P - 1) * Suc (card P)"
    using card_pairs [OF fin] by simp
  moreover have "card {q \<in> P. \<not> idle (t_voter s q)} \<le> card P" using fin by (intro card_mono) auto
  ultimately show ?thesis unfolding progress_def by simp
qed

lemma vote_not_idle: "\<not> idle v \<Longrightarrow> \<not> idle (fst (vote q p m v))"
  by (auto simp: vote_def vote_greeted_def vote_start_def vote_elect_def vote_leader_def idle_def Let_def
      split: ballot.splits option.splits)

lemma sum_count:
  fixes f :: "'b \<Rightarrow> nat"
  assumes "finite A" and "x \<in> A" shows "(\<Sum>y \<in> A. if y = x then Suc (f y) else f y) = Suc (sum f A)"
proof -
  have "(\<Sum>y \<in> A. if y = x then Suc (f y) else f y) = (\<Sum>y \<in> A. f y + (if y = x then 1 else 0))"
    by (rule sum.cong) simp_all
  then show ?thesis using assms by (simp add: sum.distrib)
qed

lemma got_arrive: "t_got (arrive p q s) a b = (if (a, b) = (p, q) then Suc (t_got s a b) else t_got s a b)"
  by (simp add: arrive_def)

lemma progress_step:
  assumes "net_step P s t" and "lawful P s" shows "progress P s < progress P t"
proof -
  have fin: "finite P" using assms(2) campaignD(1) proclaimedD(1) unfolding lawful_def by blast
  have pairs: "finite (pairs P)" using fin by (simp add: pairs_def)
  show ?thesis using assms(1)
  proof (rule net_stepE)
    fix q assume q: "t = challenge q s" "q \<in> P" "idle (t_voter s q)"
    have "{x \<in> P. \<not> idle (t_voter t x)} = insert q {x \<in> P. \<not> idle (t_voter s x)}"
      using q by (auto simp: challenge_def vote_start_def idle_def)
    then show ?thesis using q fin by (simp add: progress_def challenge_def)
  next
    fix p q assume t: "t = arrive p q s" and pq: "p \<in> P" "q \<in> P" "waiting s p q"
    have "t_sent s p q \<noteq> []" using pq(3) by (auto simp: waiting_def)
    then have "p \<noteq> q" using assms(2) campaignD(8) proclaimedD(6) unfolding lawful_def by metis
    then have "(p, q) \<in> pairs P" using pq by (simp add: pairs_def)
    then have one: "(\<Sum>x \<in> pairs P. if x = (p, q) then Suc (case x of (a, b) \<Rightarrow> t_got s a b)
        else (case x of (a, b) \<Rightarrow> t_got s a b)) = Suc (\<Sum>(a, b) \<in> pairs P. t_got s a b)"
      by (rule sum_count [OF pairs])
    have "(\<Sum>(a, b) \<in> pairs P. t_got t a b) = Suc (\<Sum>(a, b) \<in> pairs P. t_got s a b)"
      by (subst one [symmetric], rule sum.cong) (auto simp: t got_arrive split: if_splits)
    moreover have "card {x \<in> P. \<not> idle (t_voter s x)} \<le> card {x \<in> P. \<not> idle (t_voter t x)}"
      using fin vote_not_idle by (intro card_mono) (auto simp: t arrive_def)
    ultimately show ?thesis by (simp add: progress_def)
  qed
qed

text \<open>C6: an election in a group of \<open>n\<close> members whose members do not change is over after at most
  \<open>n (n - 1) (n + 1)\<close> messages and \<open>n\<close> starts: on each link go at most one ELECT for each challenger and one
  LEADER.\<close>

theorem election_ends:
  assumes "net_initial P s" and "(net_step P ^^ k) s t"
  shows "k \<le> card P * (card P - 1) * Suc (card P) + card P"
proof -
  have "lawful P t \<and> k \<le> progress P t"
    using assms(2)
  proof (induction k arbitrary: t)
    case 0
    then show ?case using assms(1) by (auto simp: lawful_def campaign_initial)
  next
    case (Suc k)
    then obtain u where u: "(net_step P ^^ k) s u" "net_step P u t" by auto
    then show ?case using Suc.IH [OF u(1)] progress_step [OF u(2)] lawful_step [OF u(2)] by force
  qed
  then show ?thesis using progress_bound by (metis order.trans)
qed

theorem election_ends_witness:
  "(16 :: nat) \<le> card (set trio) * (card (set trio) - 1) * Suc (card (set trio)) + card (set trio)"
  by (rule election_ends [OF fixed_trio_initial fixed_run_steps])

end
