(* ===== verification/Zyre_Wave_Leaves.thy ===== *)
theory Zyre_Wave_Leaves
  imports Zyre_Wave_Props
begin

text \<open>
  Elections when members join and leave. A node's part grows by the leader it follows and whether its own
  application is in the group; besides the messages of \<open>Zyre_Wave\<close> it hears that a peer joins the group or
  leaves it (the handlers of JOIN and LEAVE in \<open>src/zyre_node.c\<close>) and notices that one is gone
  (\<open>zyre_node_remove_peer\<close>). Only a node that contests the group ever starts an election. That the node's
  operations do just this is shown in \<open>Zyre_Leave_Refine\<close>.
\<close>

section \<open>One node\<close>

record 'n seat =
  s_voter :: "'n voter"
  s_leader :: "'n option"
  s_member :: bool

datatype 'n notice = Ballot "'n ballot" | Joins | Left

text \<open>A node restarts elections only in a group it is in and contests; HELLO asks for the contest alone.\<close>

definition seat_contests :: "'n seat \<Rightarrow> bool" where
  "seat_contests st \<longleftrightarrow> s_member st \<and> v_contests (s_voter st)"

definition seat_start :: "'n \<Rightarrow> 'n seat \<Rightarrow> 'n seat \<times> 'n post" where
  "seat_start me st = (case vote_start me (s_voter st) of (v, out) \<Rightarrow> (st\<lparr>s_voter := v, s_leader := None\<rparr>, out))"

definition enseat :: "'n \<Rightarrow> 'n seat \<Rightarrow> 'n seat" where
  "enseat k st = st\<lparr>s_voter := (s_voter st)\<lparr>v_peers := insert k (v_peers (s_voter st))\<rparr>\<rparr>"

definition seat_joined :: "'n \<Rightarrow> 'n \<Rightarrow> 'n seat \<Rightarrow> 'n seat \<times> 'n post" where
  "seat_joined me from st = (let st = enseat from st in
     if seat_contests st then seat_start me st else (st, \<lambda>_. []))"

text \<open>The node counts as alone when its group holds so many peers.\<close>

definition seat_restart :: "'n \<Rightarrow> nat \<Rightarrow> 'n seat \<Rightarrow> 'n seat \<times> 'n post" where
  "seat_restart me alone st = (let v = s_voter st in
     if card (v_peers v) = alone
     then (st\<lparr>s_voter := v\<lparr>v_wave := None, v_said := v_said v @ [me]\<rparr>, s_leader := None\<rparr>, \<lambda>_. [])
     else seat_start me st)"

definition unseat :: "'n \<Rightarrow> 'n seat \<Rightarrow> 'n seat" where
  "unseat k st = st\<lparr>s_voter := (s_voter st)\<lparr>v_peers := v_peers (s_voter st) - {k}\<rparr>\<rparr>"

text \<open>A LEAVE restarts the election only when the leader leaves; an election that runs goes on.\<close>

definition seat_left :: "'n \<Rightarrow> 'n \<Rightarrow> 'n seat \<Rightarrow> 'n seat \<times> 'n post" where
  "seat_left me from st = (let st = unseat from st in
     if seat_contests st \<and> s_leader st = Some from then seat_restart me 0 st else (st, \<lambda>_. []))"

text \<open>The removal of a peer also restarts an election that runs, whoever the peer is, and before it leaves.\<close>

definition seat_running :: "'n seat \<Rightarrow> bool" where
  "seat_running st = (case v_wave (s_voter st) of None \<Rightarrow> False
     | Some w \<Rightarrow> w_lrec w \<noteq> card (v_peers (s_voter st)))"

definition seat_gone :: "'n \<Rightarrow> 'n \<Rightarrow> 'n seat \<Rightarrow> 'n seat \<times> 'n post" where
  "seat_gone me gone st = (if seat_contests st \<and> (seat_running st \<or> s_leader st = Some gone)
     then seat_restart me 1 st else (st, \<lambda>_. []))"

definition seat_lost :: "'n \<Rightarrow> 'n \<Rightarrow> 'n seat \<Rightarrow> 'n seat \<times> 'n post" where
  "seat_lost me gone st = (case seat_gone me gone st of (st, out) \<Rightarrow> (unseat gone st, out))"

text \<open>The messages of the election. Announcing another node makes it the leader to follow.\<close>

definition seat_ballot :: "'n::linorder \<Rightarrow> 'n \<Rightarrow> 'n ballot \<Rightarrow> 'n seat \<Rightarrow> 'n seat \<times> 'n post" where
  "seat_ballot me from m st = (case vote me from m (s_voter st) of (v, out) \<Rightarrow>
     (st\<lparr>s_voter := v, s_leader := (case m of
          Greeted \<Rightarrow> if v_contests v then None else s_leader st
        | Elect r \<Rightarrow> s_leader st
        | Leader l \<Rightarrow> if v_said v \<noteq> v_said (s_voter st) \<and> l \<noteq> me then Some l else s_leader st)\<rparr>, out))"

definition seat_hear :: "'n::linorder \<Rightarrow> 'n \<Rightarrow> 'n notice \<Rightarrow> 'n seat \<Rightarrow> 'n seat \<times> 'n post" where
  "seat_hear me from n st = (case n of Ballot m \<Rightarrow> seat_ballot me from m st
     | Joins \<Rightarrow> seat_joined me from st | Left \<Rightarrow> seat_left me from st)"

section \<open>The nodes together\<close>

record 'n hall =
  h_seat :: "'n \<Rightarrow> 'n seat"
  h_sent :: "'n \<Rightarrow> 'n \<Rightarrow> 'n notice list"
  h_got :: "'n \<Rightarrow> 'n \<Rightarrow> nat"
  h_stopped :: "'n list"

definition hall_commit :: "'n \<Rightarrow> 'n seat \<times> 'n post \<Rightarrow> 'n hall \<Rightarrow> 'n hall" where
  "hall_commit q r s = s\<lparr>h_seat := (h_seat s)(q := fst r),
     h_sent := (h_sent s)(q := \<lambda>d. h_sent s q d @ map Ballot (snd r d))\<rparr>"

definition hall_waiting :: "'n hall \<Rightarrow> 'n \<Rightarrow> 'n \<Rightarrow> bool" where
  "hall_waiting s p q \<longleftrightarrow> h_got s p q < length (h_sent s p q)"

definition hall_arrive :: "'n::linorder \<Rightarrow> 'n \<Rightarrow> 'n hall \<Rightarrow> 'n hall" where
  "hall_arrive p q s = hall_commit q (seat_hear q p (h_sent s p q ! h_got s p q) (h_seat s q))
     (s\<lparr>h_got := (h_got s)(p := (h_got s p)(q := Suc (h_got s p q)))\<rparr>)"

text \<open>The application of \<open>q\<close> joins or leaves the group: all the others are told.\<close>

definition hall_join :: "'n set \<Rightarrow> 'n \<Rightarrow> 'n hall \<Rightarrow> 'n hall" where
  "hall_join P q s = s\<lparr>h_seat := (h_seat s)(q := (h_seat s q)\<lparr>s_member := True\<rparr>),
     h_sent := (h_sent s)(q := \<lambda>d. h_sent s q d @ (if d \<in> P - {q} then [Joins] else []))\<rparr>"

definition hall_leave :: "'n set \<Rightarrow> 'n \<Rightarrow> 'n hall \<Rightarrow> 'n hall" where
  "hall_leave P q s = s\<lparr>h_seat := (h_seat s)(q := (h_seat s q)\<lparr>s_member := False\<rparr>),
     h_sent := (h_sent s)(q := \<lambda>d. h_sent s q d @ (if d \<in> P - {q} then [Left] else []))\<rparr>"

text \<open>\<open>p\<close> stops; each other node finds out for itself, and reads nothing more of what \<open>p\<close> sent.\<close>

definition hall_stop :: "'n \<Rightarrow> 'n hall \<Rightarrow> 'n hall" where
  "hall_stop p s = s\<lparr>h_stopped := p # h_stopped s\<rparr>"

definition hall_lose :: "'n \<Rightarrow> 'n \<Rightarrow> 'n hall \<Rightarrow> 'n hall" where
  "hall_lose p q s = hall_commit q (seat_lost q p (h_seat s q))
     (s\<lparr>h_got := (h_got s)(p := (h_got s p)(q := length (h_sent s p q)))\<rparr>)"

inductive hall_step :: "'n::linorder set \<Rightarrow> 'n hall \<Rightarrow> 'n hall \<Rightarrow> bool" for P where
  arrives: "hall_step P s (hall_arrive p q s)"
    if "p \<in> P" and "q \<in> P" and "q \<notin> set (h_stopped s)" and "hall_waiting s p q"
| joins: "hall_step P s (hall_join P q s)" if "q \<in> P" and "q \<notin> set (h_stopped s)" and "\<not> s_member (h_seat s q)"
| leaves: "hall_step P s (hall_leave P q s)" if "q \<in> P" and "q \<notin> set (h_stopped s)" and "s_member (h_seat s q)"
| stops: "hall_step P s (hall_stop p s)" if "p \<in> P" and "p \<notin> set (h_stopped s)"
| loses: "hall_step P s (hall_lose p q s)"
    if "p \<in> set (h_stopped s)" and "q \<in> P" and "q \<notin> set (h_stopped s)" and "p \<in> v_peers (s_voter (h_seat s q))"

inductive_cases hall_stepE: "hall_step P s t"

text \<open>
  A group whose election is over: everyone follows the leader, who follows nobody. The members of \<open>C\<close>
  contest the group.
\<close>

definition settled :: "'n set \<Rightarrow> 'n set \<Rightarrow> 'n \<Rightarrow> 'n hall" where
  "settled P C l = \<lparr>h_seat = \<lambda>q. \<lparr>s_voter = \<lparr>v_peers = P - {q}, v_wave = None, v_said = [l], v_contests = q \<in> C\<rparr>,
       s_leader = if q = l then None else Some l, s_member = True\<rparr>,
     h_sent = \<lambda>_ _. [], h_got = \<lambda>_ _. 0, h_stopped = []\<rparr>"

section \<open>Runs given by their steps\<close>

datatype 'n move = Arrive 'n 'n | Join 'n | Leave 'n | Stop 'n | Lose 'n 'n

fun hall_move :: "'n::linorder set \<Rightarrow> 'n move \<Rightarrow> 'n hall \<Rightarrow> 'n hall" where
  "hall_move P (Arrive p q) s = hall_arrive p q s"
| "hall_move P (Join q) s = hall_join P q s"
| "hall_move P (Leave q) s = hall_leave P q s"
| "hall_move P (Stop p) s = hall_stop p s"
| "hall_move P (Lose p q) s = hall_lose p q s"

fun hall_movable :: "'n::linorder list \<Rightarrow> 'n move \<Rightarrow> 'n hall \<Rightarrow> bool" where
  "hall_movable P (Arrive p q) s \<longleftrightarrow> p \<in> set P \<and> q \<in> set P \<and> q \<notin> set (h_stopped s) \<and> hall_waiting s p q"
| "hall_movable P (Join q) s \<longleftrightarrow> q \<in> set P \<and> q \<notin> set (h_stopped s) \<and> \<not> s_member (h_seat s q)"
| "hall_movable P (Leave q) s \<longleftrightarrow> q \<in> set P \<and> q \<notin> set (h_stopped s) \<and> s_member (h_seat s q)"
| "hall_movable P (Stop p) s \<longleftrightarrow> p \<in> set P \<and> p \<notin> set (h_stopped s)"
| "hall_movable P (Lose p q) s \<longleftrightarrow> p \<in> set (h_stopped s) \<and> q \<in> set P \<and> q \<notin> set (h_stopped s)
     \<and> p \<in> v_peers (s_voter (h_seat s q))"

definition hall_run :: "'n::linorder list \<Rightarrow> 'n move list \<Rightarrow> 'n hall \<Rightarrow> 'n hall" where
  "hall_run P ms s = fold (hall_move (set P)) ms s"

fun hall_runnable :: "'n::linorder list \<Rightarrow> 'n move list \<Rightarrow> 'n hall \<Rightarrow> bool" where
  "hall_runnable P [] s \<longleftrightarrow> True"
| "hall_runnable P (m # ms) s \<longleftrightarrow> hall_movable P m s \<and> hall_runnable P ms (hall_move (set P) m s)"

lemma hall_movable_step: "hall_movable P m s \<Longrightarrow> hall_step (set P) s (hall_move (set P) m s)"
  by (cases m) (auto intro: hall_step.intros)

lemma hall_run_steps: "hall_runnable P ms s \<Longrightarrow> (hall_step (set P))\<^sup>*\<^sup>* s (hall_run P ms s)"
proof (induction ms arbitrary: s)
  case (Cons m ms)
  then have "hall_step (set P) s (hall_move (set P) m s)"
    "(hall_step (set P))\<^sup>*\<^sup>* (hall_move (set P) m s) (hall_run P ms (hall_move (set P) m s))"
    using hall_movable_step by auto
  then show ?case by (simp add: hall_run_def converse_rtranclp_into_rtranclp)
qed (simp add: hall_run_def)

text \<open>Nothing is left to arrive or to be noticed.\<close>

definition hall_quiet :: "'n list \<Rightarrow> 'n hall \<Rightarrow> bool" where
  "hall_quiet P s \<longleftrightarrow> list_all (\<lambda>q. q \<in> set (h_stopped s)
     \<or> list_all (\<lambda>p. \<not> hall_waiting s p q \<and> \<not> (p \<in> set (h_stopped s) \<and> p \<in> v_peers (s_voter (h_seat s q)))) P) P"

section \<open>A leader that leaves, a leader that stops\<close>

definition leave_run :: "string move list" where
  "leave_run = [Leave ''A'', Arrive ''A'' ''B'', Arrive ''B'' ''C'', Arrive ''A'' ''C'', Arrive ''C'' ''B'',
     Arrive ''C'' ''A'', Arrive ''A'' ''B'', Arrive ''B'' ''C'', Arrive ''C'' ''B'', Arrive ''B'' ''C'']"

lemma leave_run_ends:
  "hall_runnable trio leave_run (settled (set trio) (set trio) ''A'')"
  "hall_quiet trio (hall_run trio leave_run (settled (set trio) (set trio) ''A''))"
  "v_said (s_voter (h_seat (hall_run trio leave_run (settled (set trio) (set trio) ''A'')) ''B'')) = [''A'', ''C'']"
  "v_said (s_voter (h_seat (hall_run trio leave_run (settled (set trio) (set trio) ''A'')) ''C'')) = [''A'', ''B'']"
  by code_simp+

definition stop_run :: "string move list" where
  "stop_run = [Stop ''A'', Lose ''A'' ''B'', Arrive ''B'' ''C'', Lose ''A'' ''C'', Arrive ''C'' ''B'']"

lemma stop_run_ends:
  "hall_runnable trio stop_run (settled (set trio) (set trio) ''A'')"
  "hall_quiet trio (hall_run trio stop_run (settled (set trio) (set trio) ''A''))"
  "h_stopped (hall_run trio stop_run (settled (set trio) (set trio) ''A'')) = [''A'']"
  "map (\<lambda>q. v_said (s_voter (h_seat (hall_run trio stop_run (settled (set trio) (set trio) ''A'')) q))) [''B'', ''C''] = [[''A''], [''A'']]"
  "map (\<lambda>q. s_leader (h_seat (hall_run trio stop_run (settled (set trio) (set trio) ''A'')) q)) [''B'', ''C''] = [None, None]"
  by code_simp+

text \<open>C13: when the leader of a settled group of three, which all contest, leaves it, the two that stay can end up announcing each other:
  one of them hears of the new election before it hears that the leader has left.\<close>

theorem leaving_leader_splits:
  "\<exists>t. (hall_step (set trio))\<^sup>*\<^sup>* (settled (set trio) (set trio) ''A'') t \<and> hall_quiet trio t
    \<and> v_said (s_voter (h_seat t ''B'')) = [''A'', ''C''] \<and> v_said (s_voter (h_seat t ''C'')) = [''A'', ''B'']"
  using leave_run_ends(2-4) hall_run_steps [OF leave_run_ends(1)] by blast

text \<open>C14: when the leader of such a group stops, the election that should replace it can get stuck: one node notices first and
  challenges, and the other, which joins in, throws the election away when it notices too.\<close>

theorem stopped_leader_gets_stuck:
  "\<exists>t. (hall_step (set trio))\<^sup>*\<^sup>* (settled (set trio) (set trio) ''A'') t \<and> hall_quiet trio t \<and> h_stopped t = [''A'']
    \<and> map (\<lambda>q. v_said (s_voter (h_seat t q))) [''B'', ''C''] = [[''A''], [''A'']]
    \<and> map (\<lambda>q. s_leader (h_seat t q)) [''B'', ''C''] = [None, None]"
proof -
  let ?t = "hall_run trio stop_run (settled (set trio) (set trio) ''A'')"
  show ?thesis
    using stop_run_ends(2-5) hall_run_steps [OF stop_run_ends(1)] by (intro exI [of _ ?t] conjI)
qed

end
