(* ===== verification/Zyre_Wave_Pair.thy ===== *)
theory Zyre_Wave_Pair
  imports Zyre_Wave_Leaves
begin

text \<open>
  Two nodes that form a group: each hears only one other, so the order of arrivals decides at most who is
  elected, and the election that three members can lose ends well if the two met before either was in the
  group, or both were.
\<close>

section \<open>Forming a group\<close>

text \<open>
  The nodes of \<open>P\<close> have found each other, and each has sent its HELLO to every other. Those of \<open>M\<close> were in
  the group and list it in their HELLO; the others may still join it. Those of \<open>C\<close> contest it.
\<close>

definition meeting :: "'n set \<Rightarrow> 'n set \<Rightarrow> 'n set \<Rightarrow> 'n hall" where
  "meeting P M C = \<lparr>h_seat = \<lambda>q. \<lparr>s_voter = \<lparr>v_peers = {}, v_wave = None, v_said = [], v_contests = q \<in> C\<rparr>,
       s_leader = None, s_member = q \<in> M\<rparr>,
     h_sent = \<lambda>p q. if p \<in> M \<and> p \<in> P \<and> q \<in> P \<and> p \<noteq> q then [Ballot Greeted] else [],
     h_got = \<lambda>_ _. 0, h_stopped = []\<rparr>"

inductive form_step :: "'n::linorder set \<Rightarrow> 'n hall \<Rightarrow> 'n hall \<Rightarrow> bool" for P where
  form_joins: "form_step P s (hall_join P q s)" if "q \<in> P" and "\<not> s_member (h_seat s q)"
| form_arrives: "form_step P s (hall_arrive p q s)" if "p \<in> P" and "q \<in> P" and "hall_waiting s p q"

inductive_cases form_stepE: "form_step P s t"

text \<open>The nodes that have challenged in their own name.\<close>

definition starters :: "'n set \<Rightarrow> 'n hall \<Rightarrow> 'n set" where
  "starters P s = {c \<in> P. \<exists>d \<in> P. Ballot (Elect c) \<in> set (h_sent s c d)}"

section \<open>Two nodes\<close>

text \<open>The seats of two nodes, how many messages each has heard, and what each has sent.\<close>

definition duo :: "'n \<Rightarrow> 'n \<Rightarrow> 'n seat \<Rightarrow> 'n seat \<Rightarrow> nat \<Rightarrow> nat \<Rightarrow> 'n notice list \<Rightarrow> 'n notice list \<Rightarrow> 'n hall \<Rightarrow> bool" where
  "duo x y sx sy gx gy mx my s \<longleftrightarrow> x \<noteq> y \<and> h_seat s x = sx \<and> h_seat s y = sy \<and> h_got s y x = gx \<and> h_got s x y = gy
     \<and> h_sent s x y = mx \<and> h_sent s y x = my \<and> h_sent s x x = [] \<and> h_sent s y y = []"

lemma duo_swap: "duo x y sx sy gx gy mx my s \<longleftrightarrow> duo y x sy sx gy gx my mx s"
  by (auto simp: duo_def)

lemma duo_arrive:
  assumes "duo x y sx sy gx gy mx my s" and "seat_hear y x (mx ! gy) sy = (sy', out)" and "out y = []"
  shows "duo x y sx sy' gx (Suc gy) mx (my @ map Ballot (out x)) (hall_arrive x y s)"
  using assms by (auto simp: duo_def hall_arrive_def hall_commit_def)

lemma duo_join:
  "duo x y sx sy gx gy mx my s
     \<Longrightarrow> duo x y sx (sy\<lparr>s_member := True\<rparr>) gx gy mx (my @ [Joins]) (hall_join {x, y} y s)"
  by (auto simp: duo_def hall_join_def)

text \<open>A step of the two is an arrival at one of them or its joining.\<close>

lemma duo_step:
  assumes "form_step {x, y} s t" and "duo x y sx sy gx gy mx my s"
  obtains "t = hall_arrive x y s" and "gy < length mx" | "t = hall_arrive y x s" and "gx < length my"
    | "t = hall_join {x, y} y s" and "\<not> s_member sy" | "t = hall_join {x, y} x s" and "\<not> s_member sx"
  using assms(1)
proof (rule form_stepE)
  fix q assume "t = hall_join {x, y} q s" "q \<in> {x, y}" "\<not> s_member (h_seat s q)"
  then show thesis using that(3,4) assms(2) by (auto simp: duo_def)
next
  fix p q assume "t = hall_arrive p q s" "p \<in> {x, y}" "q \<in> {x, y}" "hall_waiting s p q"
  then show thesis using that(1,2) assms(2) by (auto simp: duo_def hall_waiting_def)
qed

lemma duo_quiet:
  assumes "\<nexists>u. form_step {x, y} s u" and "duo x y sx sy gx gy mx my s"
  shows "length mx \<le> gy" "length my \<le> gx" "s_member sx" "s_member sy"
proof -
  have "\<not> hall_waiting s x y" "\<not> hall_waiting s y x" "s_member (h_seat s x)" "s_member (h_seat s y)"
    using assms(1) form_step.intros [of _ "{x, y}"] by blast+
  then show "length mx \<le> gy" "length my \<le> gx" "s_member sx" "s_member sy"
    using assms(2) by (simp_all add: duo_def hall_waiting_def)
qed

definition seat_of :: "'n set \<Rightarrow> 'n wave option \<Rightarrow> 'n list \<Rightarrow> 'n option \<Rightarrow> bool \<Rightarrow> 'n seat" where
  "seat_of peers w said l mine = \<lparr>s_voter = \<lparr>v_peers = peers, v_wave = w, v_said = said, v_contests = True\<rparr>,
     s_leader = l, s_member = mine\<rparr>"

lemmas hear_simps = seat_hear_def seat_ballot_def seat_joined_def seat_start_def enseat_def seat_contests_def seat_of_def
  vote_def vote_greeted_def vote_start_def vote_elect_def vote_leader_def adopt_def superior_def spread_def the_wave_def
  wave_over_def to_all_def wave_new_def Let_def

lemma upto_nat: "i \<le> 3 \<Longrightarrow> i = 0 \<or> i = 1 \<or> i = 2 \<or> i = (3 :: nat)" "i \<le> 4 \<Longrightarrow> i = 0 \<or> i = 1 \<or> i = 2 \<or> i = 3 \<or> i = (4 :: nat)"
  by auto

section \<open>Both are in the group when they hear of each other\<close>

text \<open>
  Both were in the group when they met, and \<open>m\<close> is the greeting, or both join it before the other's JOIN, which
  \<open>m\<close> then is, has arrived. The lower one, \<open>a\<close>, and the other, \<open>b\<close>, after so many messages.
\<close>

definition lower_seat :: "'n \<Rightarrow> 'n \<Rightarrow> nat \<Rightarrow> 'n seat" where
  "lower_seat a b i = (if i = 0 then seat_of {} None [] None True
     else seat_of {b} (if i = 4 then None else Some \<lparr>w_caw = Some a, w_father = None, w_erec = (if i = 3 then 1 else 0), w_lrec = 0\<rparr>)
       (if i = 4 then [a] else []) None True)"

definition upper_seat :: "'n \<Rightarrow> 'n \<Rightarrow> nat \<Rightarrow> 'n seat" where
  "upper_seat a b j = (if j = 0 then seat_of {} None [] None True
     else seat_of {a} (if j = 3 then None else if j = 1 then Some (wave_new\<lparr>w_caw := Some b\<rparr>)
         else Some \<lparr>w_caw = Some a, w_father = Some a, w_erec = 1, w_lrec = 0\<rparr>)
       (if j = 3 then [a] else []) (if j = 3 then Some a else None) True)"

definition lower_sent :: "'n notice \<Rightarrow> 'n \<Rightarrow> nat \<Rightarrow> 'n notice list" where
  "lower_sent m a i = take (if i = 0 then 1 else if i \<le> 2 then 2 else 3) [m, Ballot (Elect a), Ballot (Leader a)]"

definition upper_sent :: "'n notice \<Rightarrow> 'n \<Rightarrow> 'n \<Rightarrow> nat \<Rightarrow> 'n notice list" where
  "upper_sent m a b j = take (Suc j) [m, Ballot (Elect b), Ballot (Elect a), Ballot (Leader a)]"

definition crossed :: "'n notice \<Rightarrow> 'n::linorder \<Rightarrow> 'n \<Rightarrow> 'n hall \<Rightarrow> bool" where
  "crossed m a b s \<longleftrightarrow> a < b \<and> m \<in> {Joins, Ballot Greeted} \<and> (\<exists>i j. i \<le> 4 \<and> j \<le> 3
     \<and> i \<le> length (upper_sent m a b j) \<and> j \<le> length (lower_sent m a i)
     \<and> duo a b (lower_seat a b i) (upper_seat a b j) i j (lower_sent m a i) (upper_sent m a b j) s)"

lemma crossedI:
  assumes "a < b" and "m \<in> {Joins, Ballot Greeted}" and "i \<le> 4" and "j \<le> 3"
    and "i \<le> length (upper_sent m a b j)" and "j \<le> length (lower_sent m a i)"
    and "duo a b (lower_seat a b i) (upper_seat a b j) i j (lower_sent m a i) (upper_sent m a b j) s"
  shows "crossed m a b s"
  using assms unfolding crossed_def by blast

lemma lower_hears:
  assumes "a < b" and "m \<in> {Joins, Ballot Greeted}" and "i \<le> 3"
  shows "\<exists>out. seat_hear a b (upper_sent m a b 3 ! i) (lower_seat a b i) = (lower_seat a b (Suc i), out) \<and> out a = []
    \<and> lower_sent m a i @ map Ballot (out b) = lower_sent m a (Suc i)"
proof -
  have ne: "a \<noteq> b" "b \<noteq> a" "(b < a) = False" using assms(1) by auto
  have m: "m = Joins \<or> m = Ballot Greeted" using assms(2) by simp
  show ?thesis using upto_nat(1) [OF assms(3)] m
    by (elim disjE) (simp_all add: lower_seat_def upper_sent_def lower_sent_def hear_simps ne assms(1))
qed

lemma upper_hears:
  assumes "a < b" and "m \<in> {Joins, Ballot Greeted}" and "j \<le> 2"
  shows "\<exists>out. seat_hear b a (lower_sent m a 3 ! j) (upper_seat a b j) = (upper_seat a b (Suc j), out) \<and> out b = []
    \<and> upper_sent m a b j @ map Ballot (out a) = upper_sent m a b (Suc j)"
proof -
  have ne: "a \<noteq> b" "b \<noteq> a" "(b < a) = False" using assms(1) by auto
  have m: "m = Joins \<or> m = Ballot Greeted" using assms(2) by simp
  have "j = 0 \<or> j = 1 \<or> j = 2" using assms(3) by auto
  then show ?thesis using m
    by (elim disjE) (simp_all add: upper_seat_def upper_sent_def lower_sent_def hear_simps ne assms(1))
qed

lemma crossed_nth:
  "i < length (upper_sent m a b j) \<Longrightarrow> j \<le> 3 \<Longrightarrow> upper_sent m a b j ! i = upper_sent m a b 3 ! i"
  "j < length (lower_sent m a i) \<Longrightarrow> lower_sent m a i ! j = lower_sent m a 3 ! j"
  by (simp_all add: upper_sent_def lower_sent_def del: take_Suc_Cons)

lemma sent_lengths:
  "j \<le> 3 \<Longrightarrow> length (upper_sent m a b j) = Suc j" "length (lower_sent m a i) = (if i = 0 then 1 else if i \<le> 2 then 2 else 3)"
  by (auto simp: upper_sent_def lower_sent_def)

lemma crossed_step:
  assumes "form_step {a, b} s t" and "crossed m a b s"
  shows "crossed m a b t"
proof -
  obtain i j where ab: "a < b" "m \<in> {Joins, Ballot Greeted}" and ij: "i \<le> 4" "j \<le> 3"
    "i \<le> length (upper_sent m a b j)" "j \<le> length (lower_sent m a i)"
    and d: "duo a b (lower_seat a b i) (upper_seat a b j) i j (lower_sent m a i) (upper_sent m a b j) s"
    using assms(2) unfolding crossed_def by blast
  from assms(1) d show ?thesis
  proof (cases rule: duo_step)
    case 1
    then have j: "j \<le> 2" using ij by (auto simp: sent_lengths split: if_splits)
    obtain out where out: "seat_hear b a (lower_sent m a i ! j) (upper_seat a b j) = (upper_seat a b (Suc j), out)" "out b = []"
      "upper_sent m a b j @ map Ballot (out a) = upper_sent m a b (Suc j)"
      using upper_hears [OF ab j] crossed_nth(2) [OF 1(2)] by auto
    show ?thesis unfolding 1(1)
      using duo_arrive [OF d out(1,2)] 1(2) ij j unfolding out(3)
      by (intro crossedI [OF ab, where i = i and j = "Suc j"]) (simp_all add: sent_lengths)
  next
    case 2
    then have i: "i \<le> 3" using ij by (auto simp: sent_lengths)
    obtain out where out: "seat_hear a b (upper_sent m a b j ! i) (lower_seat a b i) = (lower_seat a b (Suc i), out)" "out a = []"
      "lower_sent m a i @ map Ballot (out b) = lower_sent m a (Suc i)"
      using lower_hears [OF ab i] crossed_nth(1) [OF 2(2) ij(2)] by auto
    have "duo b a (upper_seat a b j) (lower_seat a b (Suc i)) j (Suc i) (upper_sent m a b j) (lower_sent m a (Suc i)) (hall_arrive b a s)"
      using duo_arrive [OF d [THEN duo_swap [THEN iffD1]] out(1,2)] unfolding out(3) .
    then have "duo a b (lower_seat a b (Suc i)) (upper_seat a b j) (Suc i) j (lower_sent m a (Suc i)) (upper_sent m a b j) t"
      unfolding 2(1) by (rule duo_swap [THEN iffD1])
    then show ?thesis
      using 2(2) ij i by (intro crossedI [OF ab, where i = "Suc i" and j = j]) (auto simp: sent_lengths split: if_splits)
  next
    case 3
    then show ?thesis by (simp add: upper_seat_def seat_of_def split: if_splits)
  next
    case 4
    then show ?thesis by (simp add: lower_seat_def seat_of_def split: if_splits)
  qed
qed

section \<open>One is in the group before the other\<close>

text \<open>
  The JOIN of \<open>x\<close> arrives while \<open>y\<close> is not in the group yet, so \<open>y\<close> does not challenge; \<open>x\<close> does
  when \<open>y\<close> has joined. The first joiner after \<open>i\<close> messages; the late one after \<open>k\<close> events, the second of
  which is its own joining.
\<close>

definition first_seat :: "'n \<Rightarrow> 'n \<Rightarrow> nat \<Rightarrow> 'n seat" where
  "first_seat x y i = (if i = 0 then seat_of {} None [] None True
     else seat_of {y} (if i = 3 then None else Some \<lparr>w_caw = Some x, w_father = None, w_erec = (if i = 2 then 1 else 0), w_lrec = 0\<rparr>)
       (if i = 3 then [x] else []) None True)"

definition late_seat :: "'n \<Rightarrow> nat \<Rightarrow> 'n seat" where
  "late_seat x k = (if k = 0 then seat_of {} None [] None False
     else seat_of {x} (if k = 3 then Some \<lparr>w_caw = Some x, w_father = Some x, w_erec = 1, w_lrec = 0\<rparr> else None)
       (if k = 4 then [x] else []) (if k = 4 then Some x else None) (2 \<le> k))"

definition wave_msgs :: "'n \<Rightarrow> 'n notice list" where
  "wave_msgs x = [Joins, Ballot (Elect x), Ballot (Leader x)]"

definition late_got :: "nat \<Rightarrow> nat" where
  "late_got k = (if k \<le> 1 then k else k - 1)"

definition first_sent :: "'n \<Rightarrow> nat \<Rightarrow> 'n notice list" where
  "first_sent x i = take (Suc i) (wave_msgs x)"

definition late_sent :: "'n \<Rightarrow> nat \<Rightarrow> 'n notice list" where
  "late_sent x k = take (k - 1) (wave_msgs x)"

definition in_turn :: "'n \<Rightarrow> 'n \<Rightarrow> 'n hall \<Rightarrow> bool" where
  "in_turn x y s \<longleftrightarrow> (\<exists>i k. i \<le> 3 \<and> k \<le> 4 \<and> i \<le> length (late_sent x k) \<and> late_got k \<le> length (first_sent x i)
     \<and> duo x y (first_seat x y i) (late_seat x k) i (late_got k) (first_sent x i) (late_sent x k) s)"

lemma turn_lengths:
  "i \<le> 3 \<Longrightarrow> length (first_sent x i) = min 3 (Suc i)" "k \<le> 4 \<Longrightarrow> length (late_sent x k) = k - 1"
  by (auto simp: first_sent_def late_sent_def wave_msgs_def)

lemma turn_nth:
  "j < length (first_sent x i) \<Longrightarrow> first_sent x i ! j = wave_msgs x ! j"
  "i < length (late_sent x k) \<Longrightarrow> late_sent x k ! i = wave_msgs x ! i"
  by (simp_all add: first_sent_def late_sent_def)

lemma in_turnI:
  assumes "i \<le> 3" and "k \<le> 4" and "i \<le> k - 1" and "late_got k \<le> min 3 (Suc i)"
    and "duo x y (first_seat x y i) (late_seat x k) i (late_got k) (first_sent x i) (late_sent x k) s"
  shows "in_turn x y s"
  using assms turn_lengths unfolding in_turn_def by metis

lemma first_hears:
  assumes "x \<noteq> y" and "i \<le> 2"
  shows "\<exists>out. seat_hear x y (wave_msgs x ! i) (first_seat x y i) = (first_seat x y (Suc i), out) \<and> out x = []
    \<and> first_sent x i @ map Ballot (out y) = first_sent x (Suc i)"
proof -
  have ne: "x \<noteq> y" "y \<noteq> x" using assms(1) by auto
  have "i = 0 \<or> i = 1 \<or> i = 2" using assms(2) by auto
  then show ?thesis
    by (elim disjE) (simp_all add: first_seat_def first_sent_def wave_msgs_def hear_simps ne)
qed

lemma late_hears:
  assumes "x \<noteq> y" and "k = 0 \<or> k = 2 \<or> k = 3"
  shows "\<exists>out. seat_hear y x (wave_msgs x ! late_got k) (late_seat x k) = (late_seat x (Suc k), out) \<and> out y = []
    \<and> late_sent x k @ map Ballot (out x) = late_sent x (Suc k)"
proof -
  have ne: "x \<noteq> y" "y \<noteq> x" using assms(1) by auto
  show ?thesis using assms(2)
    by (elim disjE) (simp_all add: late_seat_def late_sent_def late_got_def wave_msgs_def hear_simps ne)
qed

text \<open>The late one joins: before it has heard of the other the two JOINs cross.\<close>

definition crossing :: "'n::linorder \<Rightarrow> 'n \<Rightarrow> 'n hall \<Rightarrow> bool" where
  "crossing x y s \<longleftrightarrow> crossed Joins (min x y) (max x y) s"

lemma crossing_start:
  assumes "duo x y (seat_of {} None [] None True) (seat_of {} None [] None True) 0 0 [Joins] [Joins] s"
  shows "crossing x y s"
proof (cases "x < y")
  case True
  then show ?thesis using assms unfolding crossing_def
    by (intro crossedI [where i = 0 and j = 0]) (simp_all add: lower_seat_def upper_seat_def lower_sent_def upper_sent_def)
next
  case False
  then have "y < x" using assms by (auto simp: duo_def)
  then have mm: "min x y = y" "max x y = x" by (auto simp: min_def max_def)
  then show ?thesis using assms [unfolded duo_swap [of x]] \<open>y < x\<close> unfolding crossing_def mm
    by (intro crossedI [where i = 0 and j = 0])
      (simp_all add: lower_seat_def upper_seat_def lower_sent_def upper_sent_def)
qed

lemma in_turn_step:
  assumes "form_step {x, y} s t" and "in_turn x y s"
  shows "in_turn x y t \<or> crossing x y t"
proof -
  obtain i k where ik: "i \<le> 3" "k \<le> 4" "i \<le> k - 1" "late_got k \<le> min 3 (Suc i)"
    and d: "duo x y (first_seat x y i) (late_seat x k) i (late_got k) (first_sent x i) (late_sent x k) s"
    using assms(2) turn_lengths unfolding in_turn_def by metis
  have ne: "x \<noteq> y" using d by (simp add: duo_def)
  from assms(1) d show ?thesis
  proof (cases rule: duo_step)
    case 1
    then have k: "k = 0 \<or> k = 2 \<or> k = 3" using ik turn_lengths(1) [OF ik(1), of x] by (auto simp: late_got_def split: if_splits)
    obtain out where out: "seat_hear y x (first_sent x i ! late_got k) (late_seat x k) = (late_seat x (Suc k), out)" "out y = []"
      "late_sent x k @ map Ballot (out x) = late_sent x (Suc k)"
      using late_hears [OF ne k] turn_nth(1) [OF 1(2)] by auto
    have "Suc (late_got k) = late_got (Suc k)" using k by (auto simp: late_got_def)
    then have "duo x y (first_seat x y i) (late_seat x (Suc k)) i (late_got (Suc k)) (first_sent x i) (late_sent x (Suc k)) t"
      using duo_arrive [OF d out(1,2)] unfolding out(3) 1(1) by simp
    moreover have "late_got (Suc k) \<le> min 3 (Suc i)"
      using 1(2) k turn_lengths(1) [OF ik(1), of x] by (auto simp: late_got_def)
    ultimately have "in_turn x y t" using ik k by (intro in_turnI [where i = i and k = "Suc k"]) auto
    then show ?thesis ..
  next
    case 2
    then have i: "i \<le> 2" "i < k - 1" using ik turn_lengths(2) [OF ik(2), of x] by auto
    obtain out where out: "seat_hear x y (late_sent x k ! i) (first_seat x y i) = (first_seat x y (Suc i), out)" "out x = []"
      "first_sent x i @ map Ballot (out y) = first_sent x (Suc i)"
      using first_hears [OF ne i(1)] turn_nth(2) [OF 2(2)] by auto
    have "duo x y (first_seat x y (Suc i)) (late_seat x k) (Suc i) (late_got k) (first_sent x (Suc i)) (late_sent x k) t"
      using duo_arrive [OF d [THEN duo_swap [THEN iffD1]] out(1,2)] unfolding out(3) 2(1) by (rule duo_swap [THEN iffD1])
    then have "in_turn x y t" using ik i by (intro in_turnI [where i = "Suc i" and k = k]) auto
    then show ?thesis ..
  next
    case 3
    then have k: "k \<le> 1" by (simp add: late_seat_def seat_of_def split: if_splits)
    then have i: "i = 0" using ik(3) by simp
    note joined = duo_join [OF d, folded 3(1)]
    show ?thesis
    proof (cases "k = 0")
      case True
      have "duo x y (seat_of {} None [] None True) (seat_of {} None [] None True) 0 0 [Joins] [Joins] t"
        using joined True i
        by (simp add: first_seat_def late_seat_def seat_of_def first_sent_def late_sent_def late_got_def wave_msgs_def)
      then show ?thesis by (intro disjI2 crossing_start)
    next
      case False
      then have "k = 1" using k by simp
      then have "duo x y (first_seat x y 0) (late_seat x 2) 0 (late_got 2) (first_sent x 0) (late_sent x 2) t"
        using joined i by (simp add: late_seat_def seat_of_def late_sent_def late_got_def wave_msgs_def)
      then have "in_turn x y t" by (intro in_turnI [where i = 0 and k = 2]) (simp_all add: late_got_def)
      then show ?thesis ..
    qed
  next
    case 4
    then show ?thesis by (simp add: first_seat_def seat_of_def split: if_splits)
  qed
qed

section \<open>What comes of it\<close>

definition fresh :: "'n \<Rightarrow> 'n \<Rightarrow> 'n hall \<Rightarrow> bool" where
  "fresh x y s \<longleftrightarrow> duo x y (seat_of {} None [] None False) (seat_of {} None [] None False) 0 0 [] [] s"

lemma fresh_join:
  assumes "fresh x y s" shows "in_turn y x (hall_join {x, y} y s)"
proof -
  have "duo x y (late_seat y 0) (first_seat y x 0) 0 (late_got 0) [] (first_sent y 0) (hall_join {x, y} y s)"
    using duo_join [OF assms [unfolded fresh_def]]
    by (simp add: late_seat_def first_seat_def seat_of_def first_sent_def late_got_def wave_msgs_def)
  then have "duo y x (first_seat y x 0) (late_seat y 0) 0 (late_got 0) (first_sent y 0) (late_sent y 0) (hall_join {x, y} y s)"
    unfolding duo_swap [of x] by (simp add: late_sent_def late_got_def)
  then show ?thesis by (intro in_turnI [where i = 0 and k = 0]) (simp_all add: late_got_def)
qed

lemma fresh_step:
  assumes "form_step {x, y} s t" and "fresh x y s"
  shows "in_turn x y t \<or> in_turn y x t"
proof -
  have swapped: "fresh y x s" using assms(2) by (simp add: fresh_def duo_swap [of x])
  from assms(1) assms(2) [unfolded fresh_def] show ?thesis
    by (cases rule: duo_step) (use fresh_join [OF assms(2)] fresh_join [OF swapped] in \<open>auto simp: insert_commute\<close>)
qed

text \<open>All that two nodes can come to that were not in the group when they met, or were.\<close>

definition forming :: "'n::linorder set \<Rightarrow> 'n \<Rightarrow> 'n \<Rightarrow> 'n hall \<Rightarrow> bool" where
  "forming M x y s \<longleftrightarrow> (if M = {} then fresh x y s \<or> in_turn x y s \<or> in_turn y x s \<or> crossing x y s
     else crossed (Ballot Greeted) (min x y) (max x y) s)"

lemma min_max_pair: "{min x y, max x y} = {x, y}" for x y :: "'n::linorder"
  by (auto simp: min_def max_def)

lemma forming_step:
  assumes "form_step {x, y} s t" and "forming M x y s" shows "forming M x y t"
proof -
  have cross: "crossed m (min x y) (max x y) s \<Longrightarrow> crossed m (min x y) (max x y) t" for m
    using crossed_step [of "min x y" "max x y" s t m] assms(1) unfolding min_max_pair by blast
  have other: "form_step {y, x} s t" using assms(1) by (simp add: insert_commute)
  have sym: "crossing y x t \<longleftrightarrow> crossing x y t" by (simp add: crossing_def min.commute max.commute)
  show ?thesis
    using assms(2) cross fresh_step [OF assms(1)] in_turn_step [OF assms(1)] in_turn_step [OF other] sym
    unfolding forming_def crossing_def by (auto split: if_splits)
qed

lemma forming_initial:
  assumes "x \<noteq> y" and "M = {} \<or> M = {x, y}" shows "forming M x y (meeting {x, y} M {x, y})"
proof -
  have "crossed (Ballot Greeted) a b (meeting {a, b} {a, b} {a, b})" if "a < b" for a b :: 'a
    using that by (intro crossedI [where i = 0 and j = 0])
      (auto simp: duo_def meeting_def seat_of_def lower_seat_def upper_seat_def lower_sent_def upper_sent_def)
  from this [of "min x y" "max x y"] have "crossed (Ballot Greeted) (min x y) (max x y) (meeting {x, y} {x, y} {x, y})"
    using assms(1) unfolding min_max_pair by (metis linorder_neqE max.strict_coboundedI1 max.strict_order_iff min.strict_order_iff max.commute min.commute)
  moreover have "fresh x y (meeting {x, y} {} {x, y})"
    using assms(1) by (simp add: fresh_def duo_def meeting_def seat_of_def)
  ultimately show ?thesis using assms(2) by (auto simp: forming_def)
qed

interpretation pair: invariant_of "\<lambda>s. x \<noteq> y \<and> (M = {} \<or> M = {x, y}) \<and> s = meeting {x, y} M {x, y}"
  "form_step {x, y}" "forming M x y" for M and x y :: "'n::linorder"
  by unfold_locales (auto intro: forming_initial forming_step)

text \<open>The node \<open>l\<close> is the only one announced so far, it is the lowest that has challenged, and it is announced in the end.\<close>

definition agreed :: "'n::linorder set \<Rightarrow> 'n \<Rightarrow> 'n hall \<Rightarrow> bool" where
  "agreed P l s \<longleftrightarrow> l \<in> P \<and> (\<forall>q \<in> P. v_said (s_voter (h_seat s q)) \<in> {[], [l]}
       \<and> (v_said (s_voter (h_seat s q)) \<noteq> [] \<longrightarrow> Min (starters P s) = l))
     \<and> ((\<nexists>u. form_step P s u) \<longrightarrow> (\<forall>q \<in> P. v_said (s_voter (h_seat s q)) = [l]
         \<and> s_leader (h_seat s q) = (if q = l then None else Some l)))"

lemma duo_starters:
  assumes "duo x y sx sy gx gy mx my s"
  shows "starters {x, y} s = (if Ballot (Elect x) \<in> set mx then {x} else {}) \<union> (if Ballot (Elect y) \<in> set my then {y} else {})"
  using assms by (auto simp: starters_def duo_def)

lemma crossed_agreed:
  assumes "crossed m a b s" shows "agreed {a, b} a s"
proof -
  obtain i j where ab: "a < b" "m \<in> {Joins, Ballot Greeted}" and ij: "i \<le> 4" "j \<le> 3"
    "i \<le> length (upper_sent m a b j)" "j \<le> length (lower_sent m a i)"
    and d: "duo a b (lower_seat a b i) (upper_seat a b j) i j (lower_sent m a i) (upper_sent m a b j) s"
    using assms unfolding crossed_def by blast
  have seats: "h_seat s a = lower_seat a b i" "h_seat s b = upper_seat a b j" using d by (simp_all add: duo_def)
  have said: "v_said (s_voter (lower_seat a b i)) = (if i = 4 then [a] else [])"
    "v_said (s_voter (upper_seat a b j)) = (if j = 3 then [a] else [])"
    by (simp_all add: lower_seat_def upper_seat_def seat_of_def)
  have late: "2 \<le> i \<and> 2 \<le> j" if "i = 4 \<or> j = 3"
    using that ij by (auto simp: sent_lengths split: if_splits)
  have st: "Min (starters {a, b} s) = a" if "2 \<le> i \<and> 2 \<le> j"
  proof -
    have "Ballot (Elect a) \<in> set (lower_sent m a i)" "Ballot (Elect b) \<in> set (upper_sent m a b j)"
      using that by (simp_all add: lower_sent_def upper_sent_def numeral_2_eq_2 take_Cons')
    then have "starters {a, b} s = {a, b}" using duo_starters [OF d] by auto
    then show ?thesis using ab(1) by simp
  qed
  have done_: "i = 4 \<and> j = 3" if "\<nexists>u. form_step {a, b} s u"
    using duo_quiet(1,2) [OF that d] ij by (auto simp: sent_lengths split: if_splits)
  show ?thesis unfolding agreed_def
    using seats said late st done_ ab(1) by (auto simp: lower_seat_def upper_seat_def seat_of_def split: if_splits)
qed

lemma in_turn_agreed:
  assumes "in_turn x y s" shows "agreed {x, y} x s"
proof -
  obtain i k where ik: "i \<le> 3" "k \<le> 4" "i \<le> k - 1" "late_got k \<le> min 3 (Suc i)"
    and d: "duo x y (first_seat x y i) (late_seat x k) i (late_got k) (first_sent x i) (late_sent x k) s"
    using assms turn_lengths unfolding in_turn_def by metis
  have ne: "x \<noteq> y" using d by (simp add: duo_def)
  have seats: "h_seat s x = first_seat x y i" "h_seat s y = late_seat x k" using d by (simp_all add: duo_def)
  have said: "v_said (s_voter (first_seat x y i)) = (if i = 3 then [x] else [])"
    "v_said (s_voter (late_seat x k)) = (if k = 4 then [x] else [])"
    by (simp_all add: first_seat_def late_seat_def seat_of_def)
  have st: "Min (starters {x, y} s) = x" if "i = 3 \<or> k = 4"
  proof -
    have "2 \<le> i" using that ik by (auto simp: late_got_def)
    then have "Ballot (Elect x) \<in> set (first_sent x i)"
      by (simp add: first_sent_def wave_msgs_def numeral_2_eq_2 take_Cons')
    moreover have "Ballot (Elect y) \<notin> set (late_sent x k)"
      using ne by (auto simp: late_sent_def wave_msgs_def dest: in_set_takeD)
    ultimately have "starters {x, y} s = {x}" using duo_starters [OF d] by auto
    then show ?thesis by simp
  qed
  have done_: "i = 3 \<and> k = 4" if "\<nexists>u. form_step {x, y} s u"
  proof -
    have "min 3 (Suc i) \<le> late_got k" "k - 1 \<le> i" "s_member (late_seat x k)"
      using duo_quiet [OF that d] ik by (simp_all add: turn_lengths)
    then show ?thesis using ik by (auto simp: late_got_def late_seat_def seat_of_def split: if_splits)
  qed
  show ?thesis unfolding agreed_def
    using seats said st done_ ne by (auto simp: first_seat_def late_seat_def seat_of_def split: if_splits)
qed

lemma fresh_agreed:
  assumes "fresh x y s" and "l \<in> {x, y}" shows "agreed {x, y} l s"
proof -
  have "\<not> s_member (h_seat s x)" using assms by (simp add: fresh_def duo_def seat_of_def)
  then have "\<exists>u. form_step {x, y} s u" using form_joins [of x "{x, y}" s] by blast
  then show ?thesis using assms unfolding agreed_def by (auto simp: fresh_def duo_def seat_of_def)
qed

lemma forming_agreed:
  assumes "forming M x y s"
  shows "\<exists>l. agreed {x, y} l s" "M \<noteq> {} \<Longrightarrow> agreed {x, y} (min x y) s"
proof -
  have cross: "agreed {x, y} (min x y) s" if "crossed m (min x y) (max x y) s" for m
    using crossed_agreed [OF that] unfolding min_max_pair .
  have swap: "in_turn y x s \<Longrightarrow> agreed {x, y} y s" using in_turn_agreed [of y x s] by (simp add: insert_commute)
  show "\<exists>l. agreed {x, y} l s"
    using assms cross swap in_turn_agreed [of x y s] fresh_agreed [of x y s x]
    unfolding forming_def crossing_def by (metis (no_types) insertI1)
  show "agreed {x, y} (min x y) s" if "M \<noteq> {}" using assms cross that by (auto simp: forming_def)
qed

text \<open>When both have joined and nothing waits, both have announced the same one of the two.\<close>

lemma pair_settled:
  assumes "x \<noteq> y" and "M = {} \<or> M = {x, y}" and "(form_step {x, y})\<^sup>*\<^sup>* (meeting {x, y} M {x, y}) t"
    and "\<nexists>u. form_step {x, y} t u"
  shows "\<exists>l \<in> {x, y}. v_said (s_voter (h_seat t x)) = [l] \<and> v_said (s_voter (h_seat t y)) = [l]"
proof -
  have t: "forming M x y t" using assms(1-3) by (auto intro: pair.inv_run)
  then obtain l where l: "agreed {x, y} l t" using forming_agreed(1) by blast
  then show ?thesis using assms(4) by (auto simp: agreed_def)
qed



section \<open>Runs\<close>

fun form_runnable :: "'n::linorder list \<Rightarrow> 'n move list \<Rightarrow> 'n hall \<Rightarrow> bool" where
  "form_runnable P [] s \<longleftrightarrow> True"
| "form_runnable P (m # ms) s \<longleftrightarrow> (case m of Arrive p q \<Rightarrow> True | Join q \<Rightarrow> True | _ \<Rightarrow> False)
     \<and> hall_movable P m s \<and> form_runnable P ms (hall_move (set P) m s)"

lemma form_run_steps: "form_runnable P ms s \<Longrightarrow> (form_step (set P))\<^sup>*\<^sup>* s (hall_run P ms s)"
proof (induction ms arbitrary: s)
  case (Cons m ms)
  then have "form_step (set P) s (hall_move (set P) m s)"
    by (cases m) (auto intro: form_step.intros)
  moreover have "(form_step (set P))\<^sup>*\<^sup>* (hall_move (set P) m s) (hall_run P ms (hall_move (set P) m s))"
    using Cons by simp
  ultimately show ?case by (simp add: hall_run_def converse_rtranclp_into_rtranclp)
qed (simp add: hall_run_def)

text \<open>All have joined, and nothing waits.\<close>

definition formed :: "'n list \<Rightarrow> 'n hall \<Rightarrow> bool" where
  "formed P s \<longleftrightarrow> list_all (\<lambda>q. s_member (h_seat s q) \<and> list_all (\<lambda>p. \<not> hall_waiting s p q) P) P"

lemma formed_final: "formed P s \<Longrightarrow> \<not> form_step (set P) s t"
  by (auto simp: formed_def list_all_iff elim!: form_stepE)

abbreviation couple :: "string list" where
  "couple \<equiv> [''A'', ''B'']"





text \<open>
  With one node in the group and the other not when they meet, the election can get stuck for good. B lists the
  group in its HELLO; A, which contests the group but is not in it yet, challenges all the same. B takes the
  challenge up while it knows no other member, so it does not answer; when A then joins, B starts afresh with its own
  challenge, which A ignores, as B is higher.
\<close>

definition outsider_run :: "string move list" where
  "outsider_run = [Arrive ''B'' ''A'', Arrive ''A'' ''B'', Join ''A'', Arrive ''A'' ''B'', Arrive ''B'' ''A'']"

lemma outsider_gets_stuck:
  "\<exists>t. (form_step (set couple))\<^sup>*\<^sup>* (meeting (set couple) {''B''} (set couple)) t \<and> (\<nexists>u. form_step (set couple) t u)
    \<and> map (\<lambda>q. v_said (s_voter (h_seat t q))) couple = [[], []] \<and> map (\<lambda>q. s_leader (h_seat t q)) couple = [None, None]"
proof -
  let ?t = "hall_run couple outsider_run (meeting (set couple) {''B''} (set couple))"
  have run: "form_runnable couple outsider_run (meeting (set couple) {''B''} (set couple))" by code_simp
  have "formed couple ?t" "map (\<lambda>q. v_said (s_voter (h_seat ?t q))) couple = [[], []]"
    "map (\<lambda>q. s_leader (h_seat ?t q)) couple = [None, None]" by code_simp+
  then show ?thesis using form_run_steps [OF run] formed_final [of couple ?t] by (intro exI [of _ ?t] conjI) blast+
qed

text \<open>
  With only one node contesting the group there may be no election at all: A, which does not contest it, joins first,
  and B, which does, has heard so when it joins; nobody ever challenges.
\<close>

definition silent_run :: "string move list" where
  "silent_run = [Join ''A'', Arrive ''A'' ''B'', Join ''B'', Arrive ''B'' ''A'']"

lemma lone_contester_silent:
  "\<exists>t. (form_step (set couple))\<^sup>*\<^sup>* (meeting (set couple) {} {''B''}) t \<and> (\<nexists>u. form_step (set couple) t u)
    \<and> map (\<lambda>q. v_said (s_voter (h_seat t q))) couple = [[], []]"
proof -
  let ?t = "hall_run couple silent_run (meeting (set couple) {} {''B''})"
  have run: "form_runnable couple silent_run (meeting (set couple) {} {''B''})" by code_simp
  have "formed couple ?t" "map (\<lambda>q. v_said (s_voter (h_seat ?t q))) couple = [[], []]" by code_simp+
  then show ?thesis using form_run_steps [OF run] formed_final [of couple ?t] by (intro exI [of _ ?t] conjI) blast+
qed

end
