(* ===== verification/Zyre_Father_Props.thy ===== *)
theory Zyre_Father_Props
  imports Zyre_Removal
begin

text \<open>
  The father of an election: a node keeps a pointer to the peer it took a wave from, and nothing clears it
  when that peer is removed, unless the node takes part in the contest itself.
\<close>

section \<open>A wave is taken over\<close>

lemma forward_yields:
  assumes "node_ok self" and "set ks \<subseteq> set (zhash_keys (n_peers self))"
  shows "yields (each (elect_forward env m k) ks self)
    (\<lambda>s. \<exists>h. s = self\<lparr>n_heap := h\<rparr> \<and> same_objects (n_heap self) h)"
proof (rule yields_each)
  fix j s assume j: "j \<in> set ks" and "\<exists>h. s = self\<lparr>n_heap := h\<rparr> \<and> same_objects (n_heap self) h"
  then obtain h where s: "s = self\<lparr>n_heap := h\<rparr>" "same_objects (n_heap self) h" by blast
  have ok: "node_ok s" using steadyD(3) [OF steady_heap [OF s(2)] assms(1)] s(1) by simp
  obtain a where "(j, a) \<in> set (n_peers s)" using j assms(2) s(1) by (auto simp: zhash_keys_def)
  then obtain p where p: "zhash_lookup (n_peers s) j = Some a" "n_heap s a = Some p" "peer_ok p"
    using peer_lookup_iff [OF ok] filed_peer [OF ok] by metis
  obtain p' where send: "node_peer_send env a (zre_msg_dup (env_rank env) m) s = Inr (s\<lparr>n_heap := (n_heap s)(a \<mapsto> p')\<rparr>)"
    by (rule node_send_live [of s a p env "zre_msg_dup (env_rank env) m", OF p(2,3)])
  have "same_objects (n_heap s) ((n_heap s)(a \<mapsto> p'))"
    using ensuresD [OF steady_peer_send send] by (simp add: steady_def)
  then have "\<exists>h. s\<lparr>n_heap := (n_heap s)(a \<mapsto> p')\<rparr> = self\<lparr>n_heap := h\<rparr> \<and> same_objects (n_heap self) h"
    using s same_objects_trans by (intro exI [of _ "(n_heap s)(a \<mapsto> p')"]) simp
  then show "yields (elect_forward env m k j s) (\<lambda>s. \<exists>h. s = self\<lparr>n_heap := h\<rparr> \<and> same_objects (n_heap self) h)"
    using s p(1) send by (auto simp: elect_forward_def)
next
  show "\<exists>h. self = self\<lparr>n_heap := h\<rparr> \<and> same_objects (n_heap self) h"
    by (rule exI [of _ "n_heap self"]) simp
qed

definition wave_of :: "string \<Rightarrow> addr \<Rightarrow> zyre_election" where
  "wave_of c f = zyre_election_increment_erec (election_adopt zyre_election_new c f)"

lemma put_group_again: "put_group k v (put_group k w self\<lparr>n_heap := h\<rparr>) = put_group k v (self\<lparr>n_heap := h\<rparr>)"
  "put_group k v (put_group k w self) = put_group k v self"
proof -
  have "zhash_alter k v (zhash_alter k w gs) = zhash_alter k v gs" for gs :: "zyre_group zhash"
    by (simp add: zhash_alter_def)
  then show "put_group k v (put_group k w self\<lparr>n_heap := h\<rparr>) = put_group k v (self\<lparr>n_heap := h\<rparr>)"
    "put_group k v (put_group k w self) = put_group k v self"
    by (simp_all add: put_group_def)
qed

lemma elect_adopted:
  assumes "node_ok self" and "zhash_lookup (n_peer_groups self) (m_group msg) = Some g"
    and "g_election g = None" and "n_heap self f = Some p" and "1 < zhash_size (g_peers g)"
  obtains h where "same_objects (n_heap self) h"
    and "recv_peer_elect env f msg self = Inr (put_group (m_group msg)
      (g\<lparr>g_election := Some (wave_of (m_challenger_id msg) f)\<rparr>) (self\<lparr>n_heap := h\<rparr>))"
proof -
  let ?name = "m_group msg" and ?c = "m_challenger_id msg"
  let ?e = "election_adopt zyre_election_new ?c f"
  let ?s = "put_group ?name (g\<lparr>g_election := Some ?e\<rparr>) self"
  have g: "group_ok (n_peers self) g" using group_ok_lookup [OF node_okD(3) [OF assms(1)] assms(2)] .
  then have ok: "node_ok ?s" using steadyD(3) [OF steady_group assms(1)] by simp
  have "set (zyre_group_peers g) \<subseteq> set (zhash_keys (n_peers ?s))"
    using g by (auto simp: group_ok_def zhash_keys_def zyre_group_peers_def put_group_def)
  then obtain h where h: "each (elect_forward env (zre_msg_set_group
        (zre_msg_set_challenger_id (zre_msg_set_id zre_msg_new ZRE_MSG_ELECT) ?c) ?name) (zyre_peer_identity p))
      (zyre_group_peers g) ?s = Inr (?s\<lparr>n_heap := h\<rparr>)"
    "same_objects (n_heap ?s) h"
    using forward_yields [OF ok, of "zyre_group_peers g" env] by (force simp: yields_def)
  have e: "e_caw ?e = Some ?c" "e_erec ?e = 0"
    by (simp_all add: election_adopt_def zyre_simps zyre_election_reset_def)
  have superior: "zyre_election_challenger_superior zyre_election_new ?c"
    by (simp add: zyre_election_challenger_superior_def zyre_election_new_def)
  have heap: "n_heap (put_group n x t) = n_heap t" for n x t by (simp add: put_group_def)
  have "unat (1 :: 32 word) \<noteq> zhash_size (g_peers g)" using assms(5) by simp
  moreover have "elect_challenge env f ?c ?name (g\<lparr>g_election := Some zyre_election_new\<rparr>) zyre_election_new
      (put_group ?name (g\<lparr>g_election := Some zyre_election_new\<rparr>) self) = Inr (?e, ?s\<lparr>n_heap := h\<rparr>)"
    using h(1) e(1) assms(4)
    by (simp add: elect_challenge_def superior Let_def zyre_group_set_election_def put_group_again
        zyre_election_build_elect_msg_def node_peer_def heap zyre_group_peers_def)
  ultimately have "recv_peer_elect env f msg self = Inr (put_group ?name
      (g\<lparr>g_election := Some (wave_of ?c f)\<rparr>) (self\<lparr>n_heap := h\<rparr>))"
    using assms(2,3) e
    by (simp add: recv_peer_elect_def zyre_node_require_peer_group_def zyre_group_require_election_def Let_def
        zyre_election_supporting_challenger_def streq_def [symmetric] zyre_group_set_election_def put_group_again
        wave_of_def zyre_election_increment_erec_def zyre_election_erec_complete_def)
  moreover have "same_objects (n_heap self) h" using h(2) by (simp add: put_group_def)
  ultimately show thesis by (rule that [rotated])
qed

section \<open>The pointer is followed\<close>

lemma wave_of_sel:
  "e_caw (wave_of c f) = Some c" "e_father (wave_of c f) = Some f" "e_erec (wave_of c f) = 1"
  by (simp_all add: wave_of_def election_adopt_def zyre_simps zyre_election_reset_def)

lemma strcmp_refl [simp]: "strcmp s s = 0"
  by (induction s) simp_all

lemma elect_freed_father:
  assumes "zhash_lookup (n_peer_groups self) (m_group msg) = Some g"
    and "g_election g = Some (wave_of (m_challenger_id msg) f)" and "n_heap self f = None"
    and "zhash_size (g_peers g) = 2" and "\<not> streq (m_challenger_id msg) (uu_str (n_uuid self))"
  shows "recv_peer_elect env other msg self = Inl Use_after_free"
proof -
  have "unat (1 + 1 :: 32 word) = 2" by simp
  then show ?thesis using assms
    by (simp add: recv_peer_elect_def zyre_node_require_peer_group_def zyre_group_require_election_def Let_def
        elect_challenge_def zyre_election_challenger_superior_def wave_of_sel zyre_election_supporting_challenger_def
        zyre_election_increment_erec_def zyre_election_erec_complete_def zyre_group_set_election_def
        elect_complete_def put_group_def zyre_election_build_elect_msg_def node_peer_send_def node_on_heap_def
        heap_peer_send_def on_peer_def deref_def)
qed

lemma zhash_size_delete:
  assumes "wf_zhash h" and "(k, v) \<in> set h"
  shows "Suc (zhash_size (zhash_delete k h)) = zhash_size h"
  using assms
proof (induction h)
  case (Cons e h)
  have "zhash_delete k h = h" if "fst e = k"
  proof -
    have "\<forall>x \<in> set h. fst x \<noteq> k" using that Cons.prems(1) by (metis distinct.simps(2) image_eqI list.map(2) set_map wf_zhash_def)
    then show ?thesis by (simp add: zhash_delete_def filter_id_conv)
  qed
  then show ?case using Cons by (auto simp: zhash_size_def zhash_delete_def wf_zhash_def)
qed simp

text \<open>C29: a node keeps a pointer to a peer it has freed. In any group of three peers in which the node does
  not contest and no election runs: a member sends ELECT for some other node, it is removed as an expired
  peer is, and then the next ELECT for that node, from any peer, completes the wave and makes
  the handler send its echo to the removed peer.\<close>

theorem stale_father_used:
  assumes "node_ok self" and "uncontested self"
    and "zhash_lookup (n_peer_groups self) (m_group msg) = Some g" and "g_election g = None"
    and "zhash_size (g_peers g) = 3" and "(k, f) \<in> set (g_peers g)"
    and "\<not> streq (m_challenger_id msg) (uu_str (n_uuid self))"
  shows "\<exists>s t. recv_peer_elect env f msg self = Inr s \<and> zyre_node_remove_peer env f s = Inr t
    \<and> recv_peer_elect env other msg t = Inl Use_after_free"
proof -
  have g: "wf_zhash (g_peers g)" "set (g_peers g) \<subseteq> set (n_peers self)" "\<not> g_contest g"
    using group_ok_lookup [OF node_okD(3) [OF assms(1)] assms(3)] uncontestedD [OF assms(2)] assms(3)
    by (auto simp: group_ok_def dest: zhash_lookup_SomeD)
  then obtain p where p: "n_heap self f = Some p" "zyre_peer_identity p = k"
    using filed_peer [OF assms(1)] assms(6) by blast
  let ?g = "g\<lparr>g_election := Some (wave_of (m_challenger_id msg) f)\<rparr>"
  obtain h where h: "same_objects (n_heap self) h"
    "recv_peer_elect env f msg self = Inr (put_group (m_group msg) ?g (self\<lparr>n_heap := h\<rparr>))" (is "_ = Inr ?s")
    using elect_adopted [OF assms(1,3,4) p(1), of env] assms(5) by auto
  have s: "node_ok ?s" "uncontested ?s" "zhash_lookup (n_peer_groups ?s) (m_group msg) = Some ?g" "n_uuid ?s = n_uuid self"
  proof -
    show "node_ok ?s" using ensuresD [OF safe_elect [OF assms(1)] h(2)] by (rule safeD(2))
    show "uncontested ?s" using assms(2) g(3) by (intro uncontested_put) (simp_all add: uncontested_def)
    show "zhash_lookup (n_peer_groups ?s) (m_group msg) = Some ?g" using assms(3)
      by (simp add: put_group_def zhash_lookup_alter)
  qed (simp add: put_group_def)
  obtain q where q: "n_heap ?s f = Some q" "zyre_peer_identity q = k"
    using same_objects_uuid [OF h(1), of f] p by (auto simp: put_group_def zyre_peer_identity_def)
  obtain groups where groups: "zyre_node_remove_peer env f ?s = Inr (without_peer env f q groups ?s)" (is "_ = Inr ?t")
    "groups_without k ?s groups"
    using remove_peer_exact [OF s(1,2) q(1), of env] q(2) by blast
  have grp: "zhash_lookup (n_peer_groups ?t) (m_group msg) = Some (?g\<lparr>g_peers := zhash_delete k (g_peers g)\<rparr>)"
    using groups(2) s(3) by (simp add: groups_without_def without_peer_def without_member_def)
  have "zhash_size (zhash_delete k (g_peers g)) = 2" using zhash_size_delete [OF g(1) assms(6)] assms(5) by simp
  moreover have "n_heap ?t f = None" "n_uuid ?t = n_uuid self" using s(4) by (simp_all add: without_peer_def)
  ultimately have "recv_peer_elect env other msg ?t = Inl Use_after_free"
    using grp assms(7) by (intro elect_freed_father [where g = "?g\<lparr>g_peers := zhash_delete k (g_peers g)\<rparr>"]) simp_all
  then show ?thesis using h(2) groups(1) by blast
qed

text \<open>Three peers, known but not connected to, in one group.\<close>

definition trio_group :: zyre_group where
  "trio_group = (zyre_group_new ''A'')\<lparr>g_peers := [(''1'', 0), (''2'', 1), (''3'', 2)]\<rparr>"

definition trio_node :: zyre_node where
  "trio_node = boot_node\<lparr>n_uuid := \<lparr>uu_data = [], uu_str = ''9''\<rparr>, n_next := 3,
     n_heap := [0 \<mapsto> zyre_peer_init \<lparr>uu_data = [], uu_str = ''1''\<rparr>,
       1 \<mapsto> zyre_peer_init \<lparr>uu_data = [], uu_str = ''2''\<rparr>, 2 \<mapsto> zyre_peer_init \<lparr>uu_data = [], uu_str = ''3''\<rparr>],
     n_peers := [(''1'', 0), (''2'', 1), (''3'', 2)], n_peer_groups := [(''A'', trio_group)]\<rparr>"

lemma trio_ok: "node_ok trio_node" "uncontested trio_node"
  by (auto simp: node_ok_def uncontested_def trio_node_def trio_group_def zyre_group_new_def filed_def wf_zhash_def
      heap_ok_def groups_ok_def group_ok_def zyre_peer_init_def peer_ok_def)

theorem stale_father_used_witness:
  "\<exists>s t. recv_peer_elect run_env 0 (zre_msg_new\<lparr>m_group := ''A'', m_challenger_id := ''0''\<rparr>) trio_node = Inr s
    \<and> zyre_node_remove_peer run_env 0 s = Inr t
    \<and> recv_peer_elect run_env 1 (zre_msg_new\<lparr>m_group := ''A'', m_challenger_id := ''0''\<rparr>) t = Inl Use_after_free"
  by (rule stale_father_used [OF trio_ok, where g = trio_group and k = "''1''"])
    (simp_all add: trio_node_def trio_group_def zyre_group_new_def zhash_lookup_def zhash_size_def zre_msg_new_def)

end
