(* ===== verification/Zyre_Wave_Refine.thy ===== *)
theory Zyre_Wave_Refine
  imports Zyre_Father_Props Zyre_Wave
begin

text \<open>
  The node's handlers of ELECT and LEADER and its start of an election do to one group what the voter of
  \<open>Zyre_Wave\<close> does, and send the same messages to the same members.
\<close>

section \<open>The voter in a node\<close>

text \<open>The election as a wave: counters as numbers, the father by the identity of its object.\<close>

definition wave_in :: "peer_heap \<Rightarrow> zyre_election \<Rightarrow> string wave" where
  "wave_in heap e = \<lparr>w_caw = e_caw e,
     w_father = Option.bind (e_father e) (\<lambda>a. map_option zyre_peer_identity (heap a)),
     w_erec = unat (e_erec e), w_lrec = unat (e_lrec e)\<rparr>"

definition voter_in :: "peer_heap \<Rightarrow> zyre_group \<Rightarrow> string list \<Rightarrow> string voter" where
  "voter_in heap g said = \<lparr>v_peers = set (zyre_group_peers g),
     v_wave = map_option (wave_in heap) (g_election g), v_said = said, v_contests = g_contest g\<rparr>"

text \<open>What a voter sends goes out as these messages. A greeting is part of a HELLO, which no handler here sends.\<close>

fun ballot_msg :: "string \<Rightarrow> string ballot \<Rightarrow> zre_msg" where
  "ballot_msg name Greeted = zre_msg_set_groups (zre_msg_set_id zre_msg_new ZRE_MSG_HELLO) (Some [name])"
| "ballot_msg name (Elect r) = zre_msg_set_group
     (zre_msg_set_challenger_id (zre_msg_set_id zre_msg_new ZRE_MSG_ELECT) r) name"
| "ballot_msg name (Leader l) = zre_msg_set_group
     (zre_msg_set_leader_id (zre_msg_set_id zre_msg_new ZRE_MSG_LEADER) l) name"

lemma ballot_msg_dup [simp]: "zre_msg_dup rank (ballot_msg name b) = ballot_msg name b"
  by (cases b) (simp_all add: zre_msg_dup_def zre_msg_new_def zyre_simps field256_def)

text \<open>The objects of \<open>h'\<close> are those of \<open>h\<close> after each was sent what is for its peer.\<close>

definition posted :: "env \<Rightarrow> string \<Rightarrow> string post \<Rightarrow> peer_heap \<Rightarrow> peer_heap \<Rightarrow> bool" where
  "posted env name out h h' \<longleftrightarrow> (\<forall>a. case h a of None \<Rightarrow> h' a = None
     | Some p \<Rightarrow> \<exists>p'. h' a = Some p' \<and> p_uuid p' = p_uuid p
         \<and> peer_send_all env p (map (ballot_msg name) (out (zyre_peer_identity p))) = Inr p')"

lemma posted_None: "posted env name out h h' \<Longrightarrow> h a = None \<Longrightarrow> h' a = None"
  unfolding posted_def by (drule spec [of _ a]) simp

lemma posted_Some:
  assumes "posted env name out h h'" and "h a = Some p"
  obtains p' where "h' a = Some p'" and "p_uuid p' = p_uuid p"
    and "peer_send_all env p (map (ballot_msg name) (out (zyre_peer_identity p))) = Inr p'"
proof -
  have "case h a of None \<Rightarrow> h' a = None | Some p \<Rightarrow> \<exists>p'. h' a = Some p' \<and> p_uuid p' = p_uuid p
      \<and> peer_send_all env p (map (ballot_msg name) (out (zyre_peer_identity p))) = Inr p'"
    using assms(1) unfolding posted_def by (rule spec)
  then show thesis using assms(2) that by auto
qed

lemma postedI:
  assumes "\<And>a. h a = None \<Longrightarrow> h' a = None"
    and "\<And>a p. h a = Some p \<Longrightarrow> \<exists>p'. h' a = Some p' \<and> p_uuid p' = p_uuid p
      \<and> peer_send_all env p (map (ballot_msg name) (out (zyre_peer_identity p))) = Inr p'"
  shows "posted env name out h h'"
  using assms by (simp add: posted_def split: option.split)

lemma peer_send_all_append:
  "peer_send_all env p (ms @ ms') = and_then (peer_send_all env p ms) (\<lambda>p. peer_send_all env p ms')"
  by (induction ms arbitrary: p) (auto simp: and_then_def split: sum.split prod.split)

lemma peer_send_all_one:
  "zyre_peer_send env p m = Inr (rc, p') \<Longrightarrow> peer_send_all env p [m] = Inr p'"
  by simp

lemma posted_nothing [simp]: "posted env name (\<lambda>_. []) h h"
  by (rule postedI) simp_all

lemma posted_append:
  assumes "posted env name o1 h h1" and "posted env name o2 h1 h2"
  shows "posted env name (\<lambda>d. o1 d @ o2 d) h h2"
proof (rule postedI)
  show "h2 a = None" if "h a = None" for a
    using posted_None [OF assms(2) posted_None [OF assms(1) that]] .
  fix a p assume "h a = Some p"
  with assms(1) obtain p1 where p1: "h1 a = Some p1" "p_uuid p1 = p_uuid p"
    "peer_send_all env p (map (ballot_msg name) (o1 (zyre_peer_identity p))) = Inr p1" by (rule posted_Some)
  obtain p2 where "h2 a = Some p2" "p_uuid p2 = p_uuid p1"
    "peer_send_all env p1 (map (ballot_msg name) (o2 (zyre_peer_identity p1))) = Inr p2"
    by (rule posted_Some [OF assms(2) p1(1)])
  then show "\<exists>p'. h2 a = Some p' \<and> p_uuid p' = p_uuid p \<and> peer_send_all env p
      (map (ballot_msg name) (o1 (zyre_peer_identity p) @ o2 (zyre_peer_identity p))) = Inr p'"
    using p1 by (simp add: peer_send_all_append zyre_peer_identity_def)
qed

lemma posted_identity:
  assumes "posted env name out h h'"
  shows "map_option zyre_peer_identity (h' a) = map_option zyre_peer_identity (h a)"
proof (cases "h a")
  case None
  then show ?thesis using posted_None [OF assms] by simp
next
  case (Some p)
  with assms show ?thesis by (rule posted_Some) (simp add: Some zyre_peer_identity_def)
qed

lemma wave_in_posted: "posted env name out h h' \<Longrightarrow> wave_in h' e = wave_in h e"
  by (simp add: wave_in_def posted_identity)

lemma peer_send_all_ok: "peer_ok p \<Longrightarrow> peer_send_all env p ms = Inr p' \<Longrightarrow> peer_ok p'"
  by (induction ms arbitrary: p) (auto dest!: peer_send_cases)

lemma posted_same_objects:
  assumes "posted env name out h h'"
  shows "same_objects h h'"
proof -
  have "heap_ok h'" if "heap_ok h" unfolding heap_ok_def
  proof (intro allI impI)
    fix a q assume q: "h' a = Some q"
    then obtain p where p: "h a = Some p" using posted_None [OF assms] by (cases "h a") auto
    with assms show "peer_ok q"
      by (rule posted_Some) (use q peer_send_all_ok heap_okD [OF that p] in auto)
  qed
  moreover have "map_option p_uuid (h' a) = map_option p_uuid (h a)" for a
  proof (cases "h a")
    case (Some p)
    with assms show ?thesis by (rule posted_Some) (simp add: Some)
  qed (use posted_None [OF assms] in simp)
  ultimately show ?thesis by (simp add: same_objects_def fun_eq_iff)
qed

section \<open>Sending to members\<close>

text \<open>One message for one peer.\<close>

lemma posted_one:
  assumes "node_ok self" and "n_heap self a = Some p"
  obtains p' where "node_peer_send env a (ballot_msg name b) self = Inr (self\<lparr>n_heap := (n_heap self)(a \<mapsto> p')\<rparr>)"
    and "posted env name (to_all {zyre_peer_identity p} b) (n_heap self) ((n_heap self)(a \<mapsto> p'))"
proof -
  have ok: "peer_ok p" using heap_okD [OF node_okD(2) [OF assms(1)] assms(2)] .
  obtain p' where p': "zyre_peer_send env p (ballot_msg name b) = Inr (0, p')"
    "node_peer_send env a (ballot_msg name b) self = Inr (self\<lparr>n_heap := (n_heap self)(a \<mapsto> p')\<rparr>)"
    by (rule node_send_live [OF assms(2) ok])
  have other: "zyre_peer_identity q \<noteq> zyre_peer_identity p" if "n_heap self c = Some q" "c \<noteq> a" for c q
  proof -
    have "(zyre_peer_identity q, c) \<in> set (n_peers self)" "(zyre_peer_identity p, a) \<in> set (n_peers self)"
      using peer_identity_filed [OF assms(1)] assms(2) that(1) by blast+
    then show ?thesis using that(2) peer_lookup_iff [OF assms(1)] by (metis option.inject)
  qed
  show thesis
  proof (rule that [OF p'(2)], rule postedI)
    show "((n_heap self)(a \<mapsto> p')) c = None" if "n_heap self c = None" for c using that assms(2) by auto
    fix c q assume c: "n_heap self c = Some q"
    show "\<exists>q'. ((n_heap self)(a \<mapsto> p')) c = Some q' \<and> p_uuid q' = p_uuid q \<and> peer_send_all env q
        (map (ballot_msg name) (to_all {zyre_peer_identity p} b (zyre_peer_identity q))) = Inr q'"
    proof (cases "c = a")
      case True
      then show ?thesis using c assms(2) p'(1) peer_send_cases [OF p'(1)] by (simp add: to_all_def)
    next
      case False
      then show ?thesis using c other [OF c False] by (simp add: to_all_def)
    qed
  qed
qed

text \<open>One after the other to some of the peers.\<close>

lemma to_all_insert: "k \<notin> D \<Longrightarrow> (\<lambda>d. to_all {k} b d @ to_all D b d) = to_all (insert k D) b"
  by (auto simp: to_all_def)

lemma posted_node_ok: "posted env name out (n_heap self) h \<Longrightarrow> node_ok self \<Longrightarrow> node_ok (self\<lparr>n_heap := h\<rparr>)"
  using steadyD(3) [OF steady_heap [OF posted_same_objects]] .

lemma posted_forward:
  assumes "node_ok self" and "set ks \<subseteq> set (zhash_keys (n_peers self))" and "distinct ks"
  shows "\<exists>h. each (elect_forward env (ballot_msg name b) from) ks self = Inr (self\<lparr>n_heap := h\<rparr>)
    \<and> posted env name (to_all {k \<in> set ks. \<not> streq k from} b) (n_heap self) h"
  using assms
proof (induction ks arbitrary: self)
  case Nil
  show ?case by (rule exI [of _ "n_heap self"]) (simp add: to_all_def)
next
  case (Cons k ks)
  have ks: "set ks \<subseteq> set (zhash_keys (n_peers self))" "distinct ks" "k \<notin> set ks" using Cons.prems by simp_all
  show ?case
  proof (cases "streq k from")
    case True
    then have "{x \<in> set (k # ks). \<not> streq x from} = {x \<in> set ks. \<not> streq x from}" by auto
    moreover have "elect_forward env (ballot_msg name b) from k self = Inr self" using True by (simp add: elect_forward_def)
    ultimately show ?thesis using Cons.IH [OF Cons.prems(1) ks(1,2)] by simp
  next
    case False
    obtain a where "(k, a) \<in> set (n_peers self)" using Cons.prems(2) by (auto simp: zhash_keys_def)
    then obtain p where p: "zhash_lookup (n_peers self) k = Some a" "n_heap self a = Some p" "zyre_peer_identity p = k"
      using peer_lookup_iff [OF Cons.prems(1)] filed_peer [OF Cons.prems(1)] by metis
    obtain p' where p': "node_peer_send env a (ballot_msg name b) self = Inr (self\<lparr>n_heap := (n_heap self)(a \<mapsto> p')\<rparr>)"
      "posted env name (to_all {k} b) (n_heap self) ((n_heap self)(a \<mapsto> p'))"
      using posted_one [OF Cons.prems(1) p(2), of env name b] p(3) by metis
    let ?s = "self\<lparr>n_heap := (n_heap self)(a \<mapsto> p')\<rparr>"
    have sub: "set ks \<subseteq> set (zhash_keys (n_peers ?s))" using ks(1) by simp
    obtain h where h: "each (elect_forward env (ballot_msg name b) from) ks ?s = Inr (?s\<lparr>n_heap := h\<rparr>)"
      "posted env name (to_all {k \<in> set ks. \<not> streq k from} b) (n_heap ?s) h"
      using Cons.IH [OF posted_node_ok [OF p'(2) Cons.prems(1)] sub ks(2)] by blast
    have "{x \<in> set (k # ks). \<not> streq x from} = insert k {x \<in> set ks. \<not> streq x from}" using False by auto
    moreover have "posted env name (\<lambda>d. to_all {k} b d @ to_all {x \<in> set ks. \<not> streq x from} b d) (n_heap self) h"
      by (rule posted_append [OF p'(2)]) (use h(2) in simp)
    ultimately have "posted env name (to_all {x \<in> set (k # ks). \<not> streq x from} b) (n_heap self) h"
      using to_all_insert [of k "{x \<in> set ks. \<not> streq x from}" b] ks(3) by simp
    moreover have "elect_forward env (ballot_msg name b) from k self = Inr ?s"
      using False p(1) p'(1) by (simp add: elect_forward_def)
    ultimately show ?thesis using h(1) by (intro exI [of _ h]) simp
  qed
qed

text \<open>To all members of a group.\<close>

lemma posted_group:
  assumes "node_ok self" and "group_ok (n_peers self) g"
  obtains h where "node_group_send env g (ballot_msg name b) self = Inr (self\<lparr>n_heap := h\<rparr>)"
    and "posted env name (to_all (set (zyre_group_peers g)) b) (n_heap self) h"
proof -
  have filed: "filed (n_heap self) (g_peers g)" using group_ok_filed [OF node_okD(1) [OF assms(1)] assms(2)] .
  obtain h where h: "zyre_group_send env g (ballot_msg name b) (n_heap self) = Inr h"
    "\<And>k a p. (k, a) \<in> set (g_peers g) \<Longrightarrow> n_heap self a = Some p \<Longrightarrow>
        \<exists>p'. h a = Some p' \<and> zyre_peer_send env p (zre_msg_dup (env_rank env) (ballot_msg name b)) = Inr (0, p')"
    "\<And>c. c \<notin> snd ` set (g_peers g) \<Longrightarrow> h c = n_heap self c"
    "same_objects (n_heap self) h"
    using group_send_result [OF filed node_okD(2) [OF assms(1)], of env "ballot_msg name b"] by metis
  have "posted env name (to_all (set (zyre_group_peers g)) b) (n_heap self) h"
  proof (rule postedI)
    show "h a = None" if "n_heap self a = None" for a using same_objects_live [OF h(4)] that by blast
    fix a p assume a: "n_heap self a = Some p"
    have id: "(zyre_peer_identity p, a) \<in> set (n_peers self)" by (rule peer_identity_filed [OF assms(1) a])
    show "\<exists>p'. h a = Some p' \<and> p_uuid p' = p_uuid p \<and> peer_send_all env p
        (map (ballot_msg name) (to_all (set (zyre_group_peers g)) b (zyre_peer_identity p))) = Inr p'"
    proof (cases "a \<in> snd ` set (g_peers g)")
      case True
      then obtain k where k: "(k, a) \<in> set (g_peers g)" by auto
      then have "zyre_peer_identity p = k" using filedD [OF filed k] a by (auto simp: zyre_peer_identity_def)
      then have "zyre_peer_identity p \<in> set (zyre_group_peers g)"
        using k by (force simp: zyre_group_peers_def zhash_keys_def)
      then show ?thesis using h(2) [OF k a] by (auto simp: to_all_def dest: peer_send_cases)
    next
      case False
      have "zyre_peer_identity p \<notin> set (zyre_group_peers g)"
      proof
        assume "zyre_peer_identity p \<in> set (zyre_group_peers g)"
        then obtain c where c: "(zyre_peer_identity p, c) \<in> set (g_peers g)"
          by (auto simp: zyre_group_peers_def zhash_keys_def)
        then have "(zyre_peer_identity p, c) \<in> set (n_peers self)" using assms(2) by (auto simp: group_ok_def)
        then have "c = a" using id peer_lookup_iff [OF assms(1)] by (metis option.inject)
        then show False using False c by force
      qed
      then show ?thesis using h(3) [OF False] a by (simp add: to_all_def)
    qed
  qed
  then show thesis using h(1) by (intro that [of h]) (simp_all add: node_group_send_def node_on_heap_def)
qed

section \<open>Starting an election\<close>

text \<open>
  In the node \<open>t\<close> the group has become what the voter's step \<open>r\<close> makes of it, the members were sent what
  it says, and nothing else has changed in \<open>self\<close>.
\<close>

definition votes :: "env \<Rightarrow> string \<Rightarrow> string list \<Rightarrow> zyre_group \<Rightarrow> zyre_node \<Rightarrow> string voter \<times> string post
    \<Rightarrow> zyre_node \<Rightarrow> bool" where
  "votes env name said g self r t \<longleftrightarrow> (\<exists>g' h. t = put_group name g' (self\<lparr>n_heap := h\<rparr>)
     \<and> g_peers g' = g_peers g \<and> g_contest g' = g_contest g
     \<and> voter_in h g' said = fst r \<and> posted env name (snd r) (n_heap self) h)"

lemma put_group_heap: "(put_group name g self)\<lparr>n_heap := h\<rparr> = put_group name g (self\<lparr>n_heap := h\<rparr>)"
  "n_heap (put_group name g self) = n_heap self" "n_peers (put_group name g self) = n_peers self"
  "n_uuid (put_group name g self) = n_uuid self" "n_name (put_group name g self) = n_name self"
  by (simp_all add: put_group_def)

lemma put_group_twice: "put_group k v (put_group k w self) = put_group k v self"
  by (simp add: put_group_def zhash_alter_def)

lemma put_group_ok: "node_ok self \<Longrightarrow> group_ok (n_peers self) g \<Longrightarrow> node_ok (put_group name g self)"
  using steadyD(3) [OF steady_group] by simp

lemma start_election_result:
  assumes "node_ok self" and "group_ok (n_peers self) g"
  obtains e h where "start_election env g name self
      = Inr (put_group name (g\<lparr>g_election := Some e, g_leader := None\<rparr>) (self\<lparr>n_heap := h\<rparr>))"
    and "wave_in h e = wave_new\<lparr>w_caw := Some (uu_str (n_uuid self))\<rparr>"
    and "posted env name (to_all (set (zyre_group_peers g)) (Elect (uu_str (n_uuid self)))) (n_heap self) h"
proof -
  let ?me = "uu_str (n_uuid self)"
  let ?e = "zyre_election_set_caw zyre_election_new ?me"
  let ?g = "g\<lparr>g_election := Some ?e, g_leader := None\<rparr>"
  have g: "group_ok (n_peers (put_group name ?g self)) ?g" "node_ok (put_group name ?g self)"
    using assms put_group_ok by (simp_all add: put_group_heap)
  obtain h where h: "node_group_send env ?g (ballot_msg name (Elect ?me)) (put_group name ?g self)
      = Inr ((put_group name ?g self)\<lparr>n_heap := h\<rparr>)"
    "posted env name (to_all (set (zyre_group_peers ?g)) (Elect ?me)) (n_heap (put_group name ?g self)) h"
    by (rule posted_group [OF g(2,1)])
  have "start_election env g name self = Inr (put_group name ?g (self\<lparr>n_heap := h\<rparr>))"
    using h(1) by (simp add: start_election_def zyre_election_build_elect_msg_def zyre_election_set_caw_def Let_def
        put_group_heap zyre_group_set_election_def zyre_group_set_leader_def)
  moreover have "wave_in h ?e = wave_new\<lparr>w_caw := Some ?me\<rparr>"
    by (simp add: wave_in_def wave_new_def zyre_election_new_def zyre_simps)
  ultimately show thesis using h(2) by (intro that [of ?e h]) (simp_all add: zyre_group_peers_def put_group_heap)
qed

lemma start_election_votes:
  assumes "node_ok self" and "group_ok (n_peers self) g"
  shows "\<exists>t. start_election env g name self = Inr t
    \<and> votes env name said g self (vote_start (uu_str (n_uuid self)) (voter_in (n_heap self) g said)) t"
proof -
  obtain e h where e: "start_election env g name self
      = Inr (put_group name (g\<lparr>g_election := Some e, g_leader := None\<rparr>) (self\<lparr>n_heap := h\<rparr>))"
    "wave_in h e = wave_new\<lparr>w_caw := Some (uu_str (n_uuid self))\<rparr>"
    "posted env name (to_all (set (zyre_group_peers g)) (Elect (uu_str (n_uuid self)))) (n_heap self) h"
    by (rule start_election_result [OF assms])
  then show ?thesis unfolding votes_def
    by (intro exI [of _ "put_group name (g\<lparr>g_election := Some e, g_leader := None\<rparr>) (self\<lparr>n_heap := h\<rparr>)"] conjI
        exI [of _ "g\<lparr>g_election := Some e, g_leader := None\<rparr>"] exI [of _ h])
      (simp_all add: vote_start_def voter_in_def zyre_group_peers_def)
qed

section \<open>ELECT\<close>

lemma unat_next: "x + 1 \<noteq> 0 \<Longrightarrow> unat (x + 1) = Suc (unat x)" for x :: "32 word"
  using unatSuc [of x] by (simp add: add.commute)

lemma card_group_peers: "group_ok peers g \<Longrightarrow> card (set (zyre_group_peers g)) = zhash_size (g_peers g)"
  using distinct_card [of "map fst (g_peers g)"]
  by (simp add: group_ok_def wf_zhash_def zyre_group_peers_def zhash_keys_def zhash_size_def)

lemma the_wave_voter_in: "the_wave (voter_in heap g said)
    = wave_in heap (case g_election g of Some e \<Rightarrow> e | None \<Rightarrow> zyre_election_new)"
  by (cases "g_election g") (simp_all add: voter_in_def the_wave_def wave_in_def wave_new_def zyre_election_new_def)

lemma wave_in_increment: "wave_in heap (zyre_election_increment_erec e) = (wave_in heap e)\<lparr>w_erec
    := unat (e_erec (zyre_election_increment_erec e))\<rparr>"
  by (simp add: wave_in_def zyre_election_increment_erec_def)

text \<open>The election and the voter agree on which challenger is superior.\<close>

lemma superior_in:
  assumes "c_string r" and "\<And>c. e_caw e = Some c \<Longrightarrow> c_string c"
  shows "zyre_election_challenger_superior e r = superior r (wave_in heap e)"
  using assms by (cases "e_caw e") (simp_all add: zyre_election_challenger_superior_def superior_def wave_in_def strcmp_less)

lemma elect_challenge_votes:
  assumes "node_ok self" and g: "group_ok (n_peers self) g" and p: "n_heap self a = Some p"
    and "c_string r" and "\<And>c. e_caw e = Some c \<Longrightarrow> c_string c"
    and "\<forall>k \<in> set (zyre_group_peers g). c_string k" and "c_string (zyre_peer_identity p)"
    and "g_election g = Some e"
  obtains e' h where "elect_challenge env a r name g e (put_group name g self)
      = Inr (e', put_group name (g\<lparr>g_election := Some e'\<rparr>) (self\<lparr>n_heap := h\<rparr>))"
    and "wave_in h e' = adopt (zyre_peer_identity p) r (wave_in (n_heap self) e)"
    and "posted env name (if superior r (wave_in (n_heap self) e)
        then to_all (set (zyre_group_peers g) - {zyre_peer_identity p}) (Elect r) else (\<lambda>_. [])) (n_heap self) h"
    and "e_father e' = (if superior r (wave_in (n_heap self) e) then Some a else e_father e)"
proof (cases "superior r (wave_in (n_heap self) e)")
  case False
  moreover have "g\<lparr>g_election := Some e\<rparr> = g" using assms(8) by simp
  ultimately show thesis
    using superior_in [OF assms(4,5)]
    by (intro that [of e "n_heap self"]) (simp_all add: elect_challenge_def adopt_def)
next
  case True
  let ?k = "zyre_peer_identity p" and ?e = "election_adopt e r a"
  let ?g = "zyre_group_set_election g (Some ?e)"
  have ok: "node_ok (put_group name ?g (put_group name g self))"
    using put_group_ok assms(1) g by (simp add: put_group_heap)
  have "set (zyre_group_peers g) \<subseteq> set (zhash_keys (n_peers (put_group name ?g (put_group name g self))))"
    "distinct (zyre_group_peers g)"
    using g by (auto simp: group_ok_def zhash_keys_def zyre_group_peers_def put_group_heap wf_zhash_def)
  then obtain h where h: "each (elect_forward env (ballot_msg name (Elect r)) ?k) (zyre_group_peers g)
      (put_group name ?g (put_group name g self)) = Inr ((put_group name ?g (put_group name g self))\<lparr>n_heap := h\<rparr>)"
    "posted env name (to_all {k \<in> set (zyre_group_peers g). \<not> streq k ?k} (Elect r))
      (n_heap (put_group name ?g (put_group name g self))) h"
    using posted_forward [OF ok] by blast
  have "{k \<in> set (zyre_group_peers g). \<not> streq k ?k} = set (zyre_group_peers g) - {?k}"
    using assms(6,7) streq_iff by auto
  then have post: "posted env name (to_all (set (zyre_group_peers g) - {?k}) (Elect r)) (n_heap self) h"
    using h(2) by (simp add: put_group_heap)
  have caw: "e_caw ?e = Some r" "e_father ?e = Some a" "e_erec ?e = 0" "e_lrec ?e = 0"
    by (simp_all add: election_adopt_def zyre_simps zyre_election_reset_def)
  have "map_option zyre_peer_identity (h a) = Some ?k" using posted_identity [OF post] p by simp
  then have "wave_in h ?e = adopt ?k r (wave_in (n_heap self) e)"
    using True caw by (simp add: wave_in_def adopt_def)
  moreover have "elect_challenge env a r name g e (put_group name g self)
      = Inr (?e, put_group name (g\<lparr>g_election := Some ?e\<rparr>) (self\<lparr>n_heap := h\<rparr>))"
    using True superior_in [OF assms(4,5)] h(1) caw(1) p
    by (simp add: elect_challenge_def Let_def zyre_election_build_elect_msg_def node_peer_def put_group_heap
        put_group_twice zyre_group_set_election_def)
  ultimately show thesis using True post caw(2) by (intro that [of ?e h]) simp_all
qed

text \<open>The second half of the handler: the message is counted, and the wave may be over.\<close>

lemma elect_complete_votes:
  assumes "node_ok self" and "group_ok (n_peers self) g" and "e_caw e = Some r" and "c_string r"
    and "c_string (uu_str (n_uuid self))" and "unat (e_erec e) = zhash_size (g_peers g)"
    and "r \<noteq> uu_str (n_uuid self) \<Longrightarrow> \<exists>f p. e_father e = Some f \<and> n_heap self f = Some p"
  shows "\<exists>h. elect_complete env name g e self = Inr (self\<lparr>n_heap := h\<rparr>) \<and> posted env name
    (wave_over (uu_str (n_uuid self)) (set (zyre_group_peers g)) (wave_in (n_heap self) e) r) (n_heap self) h"
proof -
  let ?over = "wave_over (uu_str (n_uuid self)) (set (zyre_group_peers g)) (wave_in (n_heap self) e) r"
  have full: "w_erec (wave_in (n_heap self) e) = card (set (zyre_group_peers g))"
    using assms(6) card_group_peers [OF assms(2)] by (simp add: wave_in_def)
  show ?thesis
  proof (cases "r = uu_str (n_uuid self)")
    case True
    obtain h where "node_group_send env g (ballot_msg name (Leader r)) self = Inr (self\<lparr>n_heap := h\<rparr>)"
      "posted env name (to_all (set (zyre_group_peers g)) (Leader r)) (n_heap self) h"
      by (rule posted_group [OF assms(1,2)])
    moreover have "?over = to_all (set (zyre_group_peers g)) (Leader r)" using full True by (simp add: wave_over_def)
    ultimately show ?thesis using True assms(3)
      by (intro exI [of _ h]) (simp add: elect_complete_def zyre_election_build_leader_msg_def)
  next
    case False
    then obtain f p where f: "e_father e = Some f" "n_heap self f = Some p" using assms(7) by blast
    obtain p' where p': "node_peer_send env f (ballot_msg name (Elect r)) self
        = Inr (self\<lparr>n_heap := (n_heap self)(f \<mapsto> p')\<rparr>)"
      "posted env name (to_all {zyre_peer_identity p} (Elect r)) (n_heap self) ((n_heap self)(f \<mapsto> p'))"
      by (rule posted_one [OF assms(1) f(2)])
    have "?over = to_all {zyre_peer_identity p} (Elect r)"
      using full f False by (simp add: wave_over_def) (simp add: wave_in_def)
    moreover have "\<not> streq r (uu_str (n_uuid self))" using False streq_iff [OF assms(4,5)] by simp
    then have "elect_complete env name g e self = Inr (self\<lparr>n_heap := (n_heap self)(f \<mapsto> p')\<rparr>)"
      using assms(3) f(1) p'(1) by (simp add: elect_complete_def zyre_election_build_elect_msg_def)
    ultimately show ?thesis using p'(2) by (intro exI [of _ "(n_heap self)(f \<mapsto> p')"]) simp
  qed
qed

lemma elect_counted_votes:
  assumes ok: "node_ok self" and g: "group_ok (n_peers self) g" and caw: "e_caw e = Some r" and "c_string r"
    and "c_string (uu_str (n_uuid self))" and room: "e_erec e + 1 \<noteq> 0"
    and father: "r \<noteq> uu_str (n_uuid self) \<Longrightarrow> \<exists>f p. e_father e = Some f \<and> n_heap self f = Some p"
    and e2: "e2 = zyre_election_increment_erec e" and g2: "g2 = g\<lparr>g_election := Some e2\<rparr>"
    and w: "w = (wave_in (n_heap self) e)\<lparr>w_erec := Suc (unat (e_erec e))\<rparr>"
  shows "\<exists>h. (if zyre_election_erec_complete e2 (zhash_size (g_peers g2))
      then elect_complete env name g2 e2 (put_group name g2 self) else Inr (put_group name g2 self))
      = Inr (put_group name g2 (self\<lparr>n_heap := h\<rparr>))
    \<and> wave_in h e2 = w \<and> posted env name (wave_over (uu_str (n_uuid self)) (set (zyre_group_peers g)) w r) (n_heap self) h"
proof -
  let ?s = "put_group name g2 self"
  have ok2: "node_ok ?s" "group_ok (n_peers ?s) g2" using put_group_ok [OF ok] g by (simp_all add: g2 put_group_heap)
  have erec: "unat (e_erec e2) = Suc (unat (e_erec e))" using unat_next [OF room] by (simp add: e2 zyre_simps)
  have wave: "wave_in (n_heap self) e2 = w" using erec by (simp add: w e2 wave_in_def zyre_simps)
  have peers: "g_peers g2 = g_peers g" "zyre_group_peers g2 = zyre_group_peers g" by (simp_all add: g2 zyre_group_peers_def)
  show ?thesis
  proof (cases "zyre_election_erec_complete e2 (zhash_size (g_peers g2))")
    case True
    then have "\<exists>h. elect_complete env name g2 e2 ?s = Inr (?s\<lparr>n_heap := h\<rparr>) \<and> posted env name
        (wave_over (uu_str (n_uuid ?s)) (set (zyre_group_peers g2)) (wave_in (n_heap ?s) e2) r) (n_heap ?s) h"
      using caw assms(4,5) father
      by (intro elect_complete_votes [OF ok2]) (simp_all add: e2 zyre_simps put_group_heap)
    then show ?thesis using True wave wave_in_posted peers(2) by (auto simp: put_group_heap)
  next
    case False
    then have "w_erec w \<noteq> card (set (zyre_group_peers g))"
      using erec card_group_peers [OF g] peers by (simp add: w zyre_election_erec_complete_def)
    then have "wave_over (uu_str (n_uuid self)) (set (zyre_group_peers g)) w r = (\<lambda>_. [])" by (simp add: wave_over_def)
    then show ?thesis using False wave by (intro exI [of _ "n_heap self"]) simp
  qed
qed

text \<open>
  The group is contested by well-formed names, the counters have room, and a node that supports another
  challenger still knows the peer it took the wave from.
\<close>

definition voting :: "zyre_node \<Rightarrow> zyre_group \<Rightarrow> bool" where
  "voting self g \<longleftrightarrow> c_string (uu_str (n_uuid self)) \<and> (\<forall>k \<in> set (zyre_group_peers g). c_string k)
     \<and> (case g_election g of None \<Rightarrow> True | Some e \<Rightarrow>
          e_erec e + 1 \<noteq> 0 \<and> e_lrec e + 1 \<noteq> 0
          \<and> (case e_caw e of None \<Rightarrow> True | Some c \<Rightarrow> c_string c
               \<and> (c \<noteq> uu_str (n_uuid self) \<longrightarrow> (\<exists>f p. e_father e = Some f \<and> n_heap self f = Some p))))"

lemma adopt_caw: "w_caw (adopt k r w) = (case w_caw w of None \<Rightarrow> Some r | Some c \<Rightarrow> Some (min r c))"
  by (auto simp: adopt_def superior_def min_def split: option.split)

text \<open>The election of the group, made if there was none.\<close>

definition required :: "zyre_group \<Rightarrow> zyre_election \<Rightarrow> zyre_group \<Rightarrow> bool" where
  "required g e g1 \<longleftrightarrow> zyre_group_require_election g = (e, g1)
     \<and> e = (case g_election g of Some e \<Rightarrow> e | None \<Rightarrow> zyre_election_new) \<and> g1 = g\<lparr>g_election := Some e\<rparr>"

lemma required_cases: obtains e g1 where "required g e g1"
  by (rule that [of "case g_election g of Some e \<Rightarrow> e | None \<Rightarrow> zyre_election_new"
        "g\<lparr>g_election := Some (case g_election g of Some e \<Rightarrow> e | None \<Rightarrow> zyre_election_new)\<rparr>"])
    (simp add: required_def zyre_group_require_election_def split: option.split)

lemma requiredD:
  assumes "required g e g1" and "voting self g"
  shows "g_election g1 = Some e" and "g_peers g1 = g_peers g" and "g_contest g1 = g_contest g"
    and "c_string (uu_str (n_uuid self))" and "\<forall>k \<in> set (zyre_group_peers g). c_string k" and "e_erec e + 1 \<noteq> 0"
    and "e_caw e = Some c \<Longrightarrow> c_string c"
    and "e_caw e = Some c \<Longrightarrow> c \<noteq> uu_str (n_uuid self) \<Longrightarrow> \<exists>f p. e_father e = Some f \<and> n_heap self f = Some p"
    and "e_lrec e + 1 \<noteq> 0" and "zyre_group_require_election g = (e, g1)"
  using assms by (auto simp: required_def voting_def zyre_election_new_def split: option.splits)

text \<open>C7: the handler of ELECT does to a group what \<open>vote_elect\<close> does to a voter: it supports the same
  challenger, counts the same messages and sends the same messages to the same members; the node keeps
  all else. The sender is a known peer, and the group is one the node knows.\<close>

theorem recv_elect_votes:
  assumes "node_ok self" and "zhash_lookup (n_peer_groups self) (m_group msg) = Some g" and "voting self g"
    and "n_heap self a = Some p" and "c_string (zyre_peer_identity p)" and "c_string (m_challenger_id msg)"
  shows "\<exists>t. recv_peer_elect env a msg self = Inr t \<and> votes env (m_group msg) said g self
    (vote_elect (uu_str (n_uuid self)) (zyre_peer_identity p) (m_challenger_id msg) (voter_in (n_heap self) g said)) t"
proof -
  let ?name = "m_group msg" and ?r = "m_challenger_id msg" and ?k = "zyre_peer_identity p"
  let ?me = "uu_str (n_uuid self)" and ?v = "voter_in (n_heap self) g said"
  obtain e g1 where required: "required g e g1" by (rule required_cases)
  note req = requiredD [OF required assms(3)]
  have ok: "group_ok (n_peers self) g1"
    using group_ok_lookup [OF node_okD(3) [OF assms(1)] assms(2)] req(2) by (simp add: group_ok_def)
  let ?w = "wave_in (n_heap self) e"
  let ?w' = "adopt ?k ?r ?w" and ?post = "spread ?k ?r ?v"
  have wave: "the_wave ?v = ?w" using required by (simp add: the_wave_voter_in required_def)
  have names: "\<forall>k \<in> set (zyre_group_peers g1). c_string k" using req(2,5) by (simp add: zyre_group_peers_def)
  have spread: "?post = (if superior ?r ?w then to_all (set (zyre_group_peers g1) - {?k}) (Elect ?r) else (\<lambda>_. []))"
    using req(2) by (simp add: spread_def wave) (simp add: voter_in_def zyre_group_peers_def)
  obtain e' h where ch: "elect_challenge env a ?r ?name g1 e (put_group ?name g1 self)
      = Inr (e', put_group ?name (g1\<lparr>g_election := Some e'\<rparr>) (self\<lparr>n_heap := h\<rparr>))" "wave_in h e' = ?w'"
    "posted env ?name ?post (n_heap self) h" "e_father e' = (if superior ?r ?w then Some a else e_father e)"
    unfolding spread by (rule elect_challenge_votes [OF assms(1) ok assms(4,6) req(7) names assms(5) req(1)])
  let ?s = "self\<lparr>n_heap := h\<rparr>"
  have oks: "node_ok ?s" using posted_node_ok [OF ch(3) assms(1)] .
  have fields: "e_caw e' = w_caw ?w'" "unat (e_erec e') = w_erec ?w'" unfolding ch(2) [symmetric] by (simp_all add: wave_in_def)
  have live: "\<exists>q'. h f = Some q'" if "n_heap self f = Some q" for f q using posted_Some [OF ch(3) that] by blast
  have start: "recv_peer_elect env a msg self = and_then (zyre_election_supporting_challenger e' ?r) (\<lambda>supporting.
      if supporting then
        let e2 = zyre_election_increment_erec e'; g2 = g1\<lparr>g_election := Some e2\<rparr> in
        if zyre_election_erec_complete e2 (zhash_size (g_peers g2))
        then elect_complete env ?name g2 e2 (put_group ?name g2 ?s) else Inr (put_group ?name g2 ?s)
      else Inr (put_group ?name (g1\<lparr>g_election := Some e'\<rparr>) ?s))"
    using assms(2) required ch(1) by (simp add: required_def recv_peer_elect_def zyre_node_require_peer_group_def
        zyre_group_set_election_def put_group_twice Let_def cong: if_cong)
  show ?thesis
  proof (cases "e_caw e' = Some ?r")
    case False
    moreover have "w_caw ?w = e_caw e" by (simp add: wave_in_def)
    ultimately obtain c where c: "e_caw e' = Some c" "c_string c" "c \<noteq> ?r"
      using req(7) fields(1) that by (cases "e_caw e") (auto simp: adopt_caw min_def split: if_splits)
    have "vote_elect ?me ?k ?r ?v = (?v\<lparr>v_wave := Some ?w'\<rparr>, ?post)"
      using False fields(1) by (simp add: vote_elect_def wave Let_def)
    then have "votes env ?name said g self (vote_elect ?me ?k ?r ?v) (put_group ?name (g1\<lparr>g_election := Some e'\<rparr>) ?s)"
      unfolding votes_def using ch(2,3) req(2,3)
      by (intro exI [of _ "g1\<lparr>g_election := Some e'\<rparr>"] exI [of _ h]) (simp add: voter_in_def zyre_group_peers_def)
    then show ?thesis
      using start c strcmp_zero [OF c(2) assms(6)] by (simp add: zyre_election_supporting_challenger_def)
  next
    case True
    let ?w2 = "?w'\<lparr>w_erec := Suc (w_erec ?w')\<rparr>" and ?e2 = "zyre_election_increment_erec e'"
    have room: "e_erec e' + 1 \<noteq> 0"
      using fields(2) req(6)
      by (cases "superior ?r ?w") (simp_all add: adopt_def unat_eq_0, simp add: wave_in_def word_unat_eq_iff [symmetric])
    have father: "\<exists>f q. e_father e' = Some f \<and> n_heap ?s f = Some q" if "?r \<noteq> ?me"
      using ch(4) live assms(4) req(8) [of ?r] True fields(1) that
      by (cases "superior ?r ?w") (auto simp: adopt_def wave_in_def)
    obtain h2 where h2: "(if zyre_election_erec_complete ?e2 (zhash_size (g_peers (g1\<lparr>g_election := Some ?e2\<rparr>)))
        then elect_complete env ?name (g1\<lparr>g_election := Some ?e2\<rparr>) ?e2 (put_group ?name (g1\<lparr>g_election := Some ?e2\<rparr>) ?s)
        else Inr (put_group ?name (g1\<lparr>g_election := Some ?e2\<rparr>) ?s))
        = Inr (put_group ?name (g1\<lparr>g_election := Some ?e2\<rparr>) (?s\<lparr>n_heap := h2\<rparr>))" "wave_in h2 ?e2 = ?w2"
      "posted env ?name (wave_over (uu_str (n_uuid ?s)) (set (zyre_group_peers g1)) ?w2 ?r) (n_heap ?s) h2"
      using elect_counted_votes [OF oks, of g1 e' ?r ?e2 "g1\<lparr>g_election := Some ?e2\<rparr>" ?w2 env ?name]
        ok True assms(6) req(4) room father ch(2) fields(2) by auto
    have post: "posted env ?name (\<lambda>d. ?post d @ wave_over ?me (v_peers ?v) ?w2 ?r d) (n_heap self) h2"
      by (rule posted_append [OF ch(3)]) (use h2(3) req(2) in \<open>simp add: voter_in_def zyre_group_peers_def\<close>)
    have "vote_elect ?me ?k ?r ?v = (?v\<lparr>v_wave := Some ?w2\<rparr>, \<lambda>d. ?post d @ wave_over ?me (v_peers ?v) ?w2 ?r d)"
      using True fields(1) by (simp add: vote_elect_def wave Let_def)
    then have "votes env ?name said g self (vote_elect ?me ?k ?r ?v)
        (put_group ?name (g1\<lparr>g_election := Some ?e2\<rparr>) (self\<lparr>n_heap := h2\<rparr>))"
      unfolding votes_def using post h2(2) req(2,3)
      by (intro exI [of _ "g1\<lparr>g_election := Some ?e2\<rparr>"] exI [of _ h2]) (simp add: voter_in_def zyre_group_peers_def)
    then show ?thesis using start True h2(1) by (simp add: zyre_election_supporting_challenger_def Let_def)
  qed
qed

section \<open>LEADER\<close>

text \<open>As \<open>votes\<close>, with the announcement the voter makes: the LEADER event with the identity of the leader.\<close>

definition votes_leader :: "env \<Rightarrow> string \<Rightarrow> string list \<Rightarrow> string \<Rightarrow> zyre_group \<Rightarrow> zyre_node \<Rightarrow> string voter \<times> string post
    \<Rightarrow> zyre_node \<Rightarrow> bool" where
  "votes_leader env name said l g self r t \<longleftrightarrow> (\<exists>g' h s. t = put_group name g' s
     \<and> g_peers g' = g_peers g \<and> g_contest g' = g_contest g \<and> posted env name (snd r) (n_heap self) h
     \<and> (if v_said (fst r) = said then s = self\<lparr>n_heap := h\<rparr> \<and> voter_in h g' said = fst r
        else v_said (fst r) = said @ [l] \<and> voter_in h g' (said @ [l]) = fst r
          \<and> (\<exists>nm. s = zyre_node_leader_peer_group l nm name (self\<lparr>n_heap := h\<rparr>))))"

lemma leader_announce_put: "zyre_node_leader_peer_group i nm name (put_group name g s)
    = put_group name g (zyre_node_leader_peer_group i nm name s)"
  by (simp add: zyre_node_leader_peer_group_def outbox_send_def outbox_sendm_def put_group_def)

lemma leader_decided_votes:
  assumes "node_ok self" and "c_string l" and "c_string (uu_str (n_uuid self))"
    and "l = uu_str (n_uuid self) \<or> l \<in> set (zhash_keys (n_peers self))"
  obtains g' nm where "leader_decided name g l self = Inr (g', zyre_node_leader_peer_group l nm name self)"
    and "g_peers g' = g_peers g" and "g_contest g' = g_contest g"
proof (cases "l = uu_str (n_uuid self)")
  case True
  then show thesis by (intro that [of g "n_name self"]) (simp_all add: leader_decided_def)
next
  case False
  then obtain a where "(l, a) \<in> set (n_peers self)" using assms(4) by (auto simp: zhash_keys_def)
  then obtain p where "zhash_lookup (n_peers self) l = Some a" "n_heap self a = Some p" "zyre_peer_identity p = l"
    using peer_lookup_iff [OF assms(1)] filed_peer [OF assms(1)] by metis
  then show thesis using False streq_iff [OF assms(2,3)]
    by (intro that [of "zyre_group_set_leader g (Some a)" "zyre_peer_name p"])
      (simp_all add: leader_decided_def node_peer_def zyre_group_set_leader_def)
qed

text \<open>The first half of the handler: the supported challenger is passed on, once.\<close>

lemma leader_passed_votes:
  assumes "node_ok self" and "group_ok (n_peers self) g" and "e_caw e = Some c"
    and "c_string l" and "c_string (uu_str (n_uuid self))"
  obtains h where "(if \<not> streq (uu_str (n_uuid self)) l \<and> \<not> zyre_election_lrec_started e
      then and_then (zyre_election_build_leader_msg e) (\<lambda>m. node_group_send env g (zre_msg_set_group m name) self)
      else Inr self) = Inr (self\<lparr>n_heap := h\<rparr>)"
    and "posted env name (if uu_str (n_uuid self) \<noteq> l \<and> w_lrec (wave_in (n_heap self) e) = 0
      then to_all (set (zyre_group_peers g)) (Leader c) else (\<lambda>_. [])) (n_heap self) h"
proof -
  have passes: "\<not> streq (uu_str (n_uuid self)) l \<and> \<not> zyre_election_lrec_started e
      \<longleftrightarrow> uu_str (n_uuid self) \<noteq> l \<and> w_lrec (wave_in (n_heap self) e) = 0"
    using streq_iff [OF assms(5,4)] by (simp add: zyre_election_lrec_started_def wave_in_def unat_eq_0 word_gt_0)
  show thesis
  proof (cases "uu_str (n_uuid self) \<noteq> l \<and> w_lrec (wave_in (n_heap self) e) = 0")
    case True
    obtain h where "node_group_send env g (ballot_msg name (Leader c)) self = Inr (self\<lparr>n_heap := h\<rparr>)"
      "posted env name (to_all (set (zyre_group_peers g)) (Leader c)) (n_heap self) h"
      by (rule posted_group [OF assms(1,2)])
    then show thesis using True passes assms(3)
      by (intro that [of h]) (simp_all add: zyre_election_build_leader_msg_def)
  next
    case False
    then show thesis using passes by (intro that [of "n_heap self"]) auto
  qed
qed

text \<open>C8: the handler of LEADER does to a group what \<open>vote_leader\<close> does to a voter: it counts the same
  messages, passes the leader on to the same members, and announces the leader exactly when the voter does.
  The leader is this node or a peer it knows.\<close>

theorem recv_leader_votes:
  assumes "node_ok self" and "zhash_lookup (n_peer_groups self) (m_group msg) = Some g" and "voting self g"
    and "c_string (m_leader_id msg)"
    and "m_leader_id msg = uu_str (n_uuid self) \<or> m_leader_id msg \<in> set (zhash_keys (n_peers self))"
  shows "\<exists>t. recv_peer_leader env msg self = Inr t \<and> votes_leader env (m_group msg) said (m_leader_id msg) g self
    (vote_leader (uu_str (n_uuid self)) (m_leader_id msg) (voter_in (n_heap self) g said)) t"
proof -
  let ?name = "m_group msg" and ?l = "m_leader_id msg"
  let ?me = "uu_str (n_uuid self)" and ?v = "voter_in (n_heap self) g said"
  obtain e g1 where required: "required g e g1" by (rule required_cases)
  note req = requiredD [OF required assms(3)]
  have ok: "group_ok (n_peers self) g" using group_ok_lookup [OF node_okD(3) [OF assms(1)] assms(2)] .
  let ?w = "wave_in (n_heap self) e" and ?s1 = "put_group ?name g1 self"
  have wave: "the_wave ?v = ?w" using required by (simp add: the_wave_voter_in required_def)
  have ok1: "node_ok ?s1" "group_ok (n_peers ?s1) g1"
    using put_group_ok [OF assms(1)] ok req(2) by (simp_all add: group_ok_def put_group_heap)
  have peers: "zyre_group_peers g1 = zyre_group_peers g" "g_peers g1 = g_peers g" "g_contest g1 = g_contest g"
    using req(2,3) by (simp_all add: zyre_group_peers_def)
  show ?thesis
  proof (cases "e_caw e")
    case None
    have "recv_peer_leader env msg self = Inr ?s1"
      using None assms(2) required by (simp add: required_def recv_peer_leader_def zyre_node_require_peer_group_def Let_def)
    moreover have "votes_leader env ?name said ?l g self (vote_leader ?me ?l ?v) ?s1"
      unfolding votes_leader_def using None wave req(1-3)
      by (intro exI [of _ g1] exI [of _ "n_heap self"] exI [of _ self])
        (simp add: vote_leader_def wave_in_def voter_in_def zyre_group_peers_def)
    ultimately show ?thesis by blast
  next
    case (Some c)
    let ?spread = "if ?me \<noteq> ?l \<and> w_lrec ?w = 0 then to_all (set (zyre_group_peers g)) (Leader c) else (\<lambda>_. [])"
    have "c_string (uu_str (n_uuid ?s1))" using req(4) by (simp add: put_group_heap)
    then obtain h where "(if \<not> streq (uu_str (n_uuid ?s1)) ?l \<and> \<not> zyre_election_lrec_started e
        then and_then (zyre_election_build_leader_msg e) (\<lambda>m. node_group_send env g1 (zre_msg_set_group m ?name) ?s1)
        else Inr ?s1) = Inr (?s1\<lparr>n_heap := h\<rparr>)"
      "posted env ?name (if uu_str (n_uuid ?s1) \<noteq> ?l \<and> w_lrec (wave_in (n_heap ?s1) e) = 0
        then to_all (set (zyre_group_peers g1)) (Leader c) else (\<lambda>_. [])) (n_heap ?s1) h"
      by (rule leader_passed_votes [OF ok1 Some assms(4)])
    note h = this [unfolded put_group_heap peers(1)]
    let ?e = "zyre_election_set_leader (zyre_election_increment_lrec e) ?l" and ?s = "self\<lparr>n_heap := h\<rparr>"
    have oks: "node_ok ?s" using posted_node_ok [OF h(2) assms(1)] .
    have lrec: "unat (e_lrec ?e) = Suc (w_lrec ?w)"
      using req(9) by (simp add: zyre_simps wave_in_def unat_next)
    have wave2: "wave_in h ?e = ?w\<lparr>w_lrec := Suc (w_lrec ?w)\<rparr>"
      using lrec posted_identity [OF h(2)] by (simp add: wave_in_def zyre_simps)
    have size: "card (set (zyre_group_peers g)) = zhash_size (g_peers g)" by (rule card_group_peers [OF ok])
    have vote: "vote_leader ?me ?l ?v = (if Suc (w_lrec ?w) = card (set (zyre_group_peers g))
        then ?v\<lparr>v_wave := None, v_said := said @ [?l]\<rparr>
        else ?v\<lparr>v_wave := Some (?w\<lparr>w_lrec := Suc (w_lrec ?w)\<rparr>)\<rparr>, ?spread)"
      using Some by (simp add: vote_leader_def wave Let_def) (simp add: wave_in_def voter_in_def)
    have run: "recv_peer_leader env msg self = (if Suc (w_lrec ?w) = card (set (zyre_group_peers g))
        then and_then (leader_decided ?name g1 ?l (put_group ?name g1 ?s)) (\<lambda>(g, self).
          Inr (put_group ?name (zyre_group_set_election g None) self))
        else Inr (put_group ?name (g1\<lparr>g_election := Some ?e\<rparr>) ?s))"
      using Some assms(2) req(10) size lrec peers h(1)
      by (simp add: recv_peer_leader_def zyre_node_require_peer_group_def zyre_election_lrec_complete_def Let_def
          put_group_heap put_group_twice zyre_group_set_election_def)
    show ?thesis
    proof (cases "Suc (w_lrec ?w) = card (set (zyre_group_peers g))")
      case False
      then have "votes_leader env ?name said ?l g self (vote_leader ?me ?l ?v) (put_group ?name (g1\<lparr>g_election := Some ?e\<rparr>) ?s)"
        unfolding votes_leader_def vote using h(2) peers(2,3) wave2
        by (intro exI [of _ "g1\<lparr>g_election := Some ?e\<rparr>"] exI [of _ h] exI [of _ ?s])
          (simp add: voter_in_def zyre_group_peers_def)
      then show ?thesis using run False by auto
    next
      case True
      have "node_ok (put_group ?name g1 ?s)" using put_group_ok [OF oks] ok1(2) by (simp add: put_group_heap)
      then obtain g' nm where d: "leader_decided ?name g1 ?l (put_group ?name g1 ?s)
          = Inr (g', zyre_node_leader_peer_group ?l nm ?name (put_group ?name g1 ?s))"
        "g_peers g' = g_peers g1" "g_contest g' = g_contest g1"
        by (rule leader_decided_votes [OF _ assms(4), where name = ?name and g = g1])
          (use req(4) assms(5) in \<open>simp_all add: put_group_heap\<close>)
      have "recv_peer_leader env msg self = Inr (put_group ?name (g'\<lparr>g_election := None\<rparr>)
          (zyre_node_leader_peer_group ?l nm ?name ?s))"
        using run True d(1) by (simp add: leader_announce_put put_group_twice zyre_group_set_election_def)
      moreover have "votes_leader env ?name said ?l g self (vote_leader ?me ?l ?v)
          (put_group ?name (g'\<lparr>g_election := None\<rparr>) (zyre_node_leader_peer_group ?l nm ?name ?s))"
        unfolding votes_leader_def vote using True h(2) d(2,3) peers(2,3)
        by (intro exI [of _ "g'\<lparr>g_election := None\<rparr>"] exI [of _ h] exI [of _ "zyre_node_leader_peer_group ?l nm ?name ?s"])
          (auto simp: voter_in_def zyre_group_peers_def)
      ultimately show ?thesis by blast
    qed
  qed
qed

text \<open>A node with three peers in a group; 1 challenges, and later LEADER messages name it.\<close>

lemma trio_lookup: "zhash_lookup (n_peer_groups trio_node) ''A'' = Some trio_group"
  by (simp add: trio_node_def zhash_lookup_def)

lemma trio_voting: "voting trio_node trio_group"
  by (simp add: voting_def trio_node_def trio_group_def zyre_group_new_def zyre_group_peers_def zhash_keys_def c_string_def)

lemma trio_peer: "n_heap trio_node 0 = Some (zyre_peer_init \<lparr>uu_data = [], uu_str = ''1''\<rparr>)"
  by (simp add: trio_node_def)

theorem recv_elect_votes_witness:
  "\<exists>t. recv_peer_elect run_env 0 (zre_msg_new\<lparr>m_group := ''A'', m_challenger_id := ''1''\<rparr>) trio_node = Inr t
    \<and> votes run_env (m_group (zre_msg_new\<lparr>m_group := ''A'', m_challenger_id := ''1''\<rparr>)) [] trio_group trio_node
      (vote_elect (uu_str (n_uuid trio_node)) (zyre_peer_identity (zyre_peer_init \<lparr>uu_data = [], uu_str = ''1''\<rparr>))
        (m_challenger_id (zre_msg_new\<lparr>m_group := ''A'', m_challenger_id := ''1''\<rparr>))
        (voter_in (n_heap trio_node) trio_group [])) t"
  by (rule recv_elect_votes [OF trio_ok(1) _ trio_voting trio_peer])
    (simp_all add: trio_lookup zyre_peer_init_def zyre_peer_identity_def c_string_def)

theorem recv_leader_votes_witness:
  "\<exists>t. recv_peer_leader run_env (zre_msg_new\<lparr>m_group := ''A'', m_leader_id := ''1''\<rparr>) trio_node = Inr t
    \<and> votes_leader run_env (m_group (zre_msg_new\<lparr>m_group := ''A'', m_leader_id := ''1''\<rparr>)) []
      (m_leader_id (zre_msg_new\<lparr>m_group := ''A'', m_leader_id := ''1''\<rparr>)) trio_group trio_node
      (vote_leader (uu_str (n_uuid trio_node)) (m_leader_id (zre_msg_new\<lparr>m_group := ''A'', m_leader_id := ''1''\<rparr>))
        (voter_in (n_heap trio_node) trio_group [])) t"
  by (rule recv_leader_votes [OF trio_ok(1) _ trio_voting])
    (simp add: trio_lookup, simp_all add: trio_node_def zhash_keys_def c_string_def)

section \<open>HELLO\<close>

lemma put_group_same:
  assumes "node_ok self" and "zhash_lookup (n_peer_groups self) name = Some g"
  shows "put_group name g self = self"
proof -
  have wf: "wf_zhash (n_peer_groups self)" using node_okD(3) [OF assms(1)] by (simp add: groups_ok_def)
  have "zhash_alter name g (n_peer_groups self) = n_peer_groups self"
    unfolding zhash_alter_def
  proof (rule map_idI)
    fix e assume e: "e \<in> set (n_peer_groups self)"
    obtain k v where kv: "e = (k, v)" by (rule prod.exhaust)
    then have "zhash_lookup (n_peer_groups self) k = Some v" using e zhash_lookup_iff [OF wf] by simp
    then show "(if fst e = name then (name, g) else e) = e" using assms(2) kv by auto
  qed
  then show ?thesis by (simp add: put_group_def)
qed

text \<open>A peer is entered in a group that the node knows; the application is told.\<close>

lemma join_entered:
  assumes "node_ok self" and "zhash_lookup (n_peer_groups self) name = Some g" and "n_heap self a = Some p"
  obtains g' s where "zyre_node_join_peer_group env a name self = Inr (g', s)"
    and "n_outbox s = n_outbox self @ group_event_frames ''JOIN'' p name"
    and "node_ok s" and "zhash_lookup (n_peer_groups s) name = Some g'" and "group_ok (n_peers s) g'"
    and "uu_str (n_uuid s) = uu_str (n_uuid self)" and "n_own_groups s = n_own_groups self"
    and "g_contest g' = g_contest g" and "g_leader g' = g_leader g" and "g_election g' = g_election g"
    and "set (zyre_group_peers g') = insert (zyre_peer_identity p) (set (zyre_group_peers g))"
    and "\<exists>n. n_heap s = (n_heap self)(a \<mapsto> p\<lparr>p_status := n\<rparr>) \<and> n = p_status p + 1"
proof -
  let ?p = "p\<lparr>p_status := p_status p + 1\<rparr>" and ?k = "zyre_peer_identity p"
  let ?g = "g\<lparr>g_peers := zhash_insert (env_rank env) ?k a (g_peers g)\<rparr>"
  let ?s = "outbox_send name (outbox_sendm (zyre_peer_name p) (outbox_sendm ?k
     (outbox_sendm ''JOIN'' (put_group name ?g (self\<lparr>n_heap := (n_heap self)(a \<mapsto> ?p)\<rparr>)))))"
  have join: "zyre_node_join_peer_group env a name self = Inr (?g, ?s)"
    using assms(2,3) by (simp add: zyre_node_join_peer_group_def zyre_node_require_peer_group_def zyre_group_join_def
        Let_def node_peer_def put_group_def put_peer_def zyre_peer_set_status_def zyre_peer_identity_def zyre_peer_name_def)
  have st: "safe self ?s" using ensuresD [OF steady_join join] assms(1) by (intro safeI) simp_all
  then have ok: "node_ok ?s" by (rule safeD(2))
  have look: "zhash_lookup (n_peer_groups ?s) name = Some ?g"
    using assms(2) by (simp add: put_group_def zhash_lookup_alter outbox_send_def outbox_sendm_def)
  then have okg: "group_ok (n_peers ?s) ?g" using group_ok_lookup [OF node_okD(3) [OF ok]] by blast
  have wf: "wf_zhash (g_peers g)" using group_ok_lookup [OF node_okD(3) [OF assms(1)] assms(2)] by (simp add: group_ok_def)
  have peers: "set (zyre_group_peers ?g) = insert ?k (set (zyre_group_peers g))"
    using zhash_lookup_SomeD [of "g_peers g" ?k] wf
    by (cases "zhash_lookup (g_peers g) ?k") (force simp: zyre_group_peers_def zhash_keys_def set_zhash_insert)+
  show thesis
    by (rule that [OF join _ ok look okg _ _ _ _ _ peers])
      (simp_all add: put_group_def group_event_frames_def outbox_send_def outbox_sendm_def)
qed

lemma identity_status:
  "heap a = Some p \<Longrightarrow>
     map_option zyre_peer_identity ((heap(a \<mapsto> p\<lparr>p_status := n\<rparr>)) c) = map_option zyre_peer_identity (heap c)"
  by (simp add: zyre_peer_identity_def)

lemma wave_in_status: "heap a = Some p \<Longrightarrow> wave_in (heap(a \<mapsto> p\<lparr>p_status := n\<rparr>)) = wave_in heap"
  by (simp add: fun_eq_iff wave_in_def identity_status del: fun_upd_apply)

text \<open>C9: when the HELLO of a peer lists a group, the node enters the peer, tells the application, and, if it
  contests the group, starts an election of its own in place of any that runs, without asking whether its own
  application is in the group: \<open>vote_greeted\<close>. The group is one the node knows.\<close>

theorem hello_join_votes:
  assumes "node_ok self" and "zhash_lookup (n_peer_groups self) name = Some g" and "n_heap self a = Some p"
  shows "\<exists>g' s t. zyre_node_join_peer_group env a name self = Inr (g', s)
    \<and> n_outbox s = n_outbox self @ group_event_frames ''JOIN'' p name
    \<and> hello_join env a name self = Inr t
    \<and> votes env name said g' s (vote_greeted (uu_str (n_uuid self)) (zyre_peer_identity p) (voter_in (n_heap self) g said)) t"
proof -
  obtain g' s where s: "zyre_node_join_peer_group env a name self = Inr (g', s)"
    "n_outbox s = n_outbox self @ group_event_frames ''JOIN'' p name" "node_ok s"
    "zhash_lookup (n_peer_groups s) name = Some g'" "group_ok (n_peers s) g'" "uu_str (n_uuid s) = uu_str (n_uuid self)"
    "g_contest g' = g_contest g" "g_election g' = g_election g"
    "set (zyre_group_peers g') = insert (zyre_peer_identity p) (set (zyre_group_peers g))"
    "\<exists>n. n_heap s = (n_heap self)(a \<mapsto> p\<lparr>p_status := n\<rparr>) \<and> n = p_status p + 1"
    by (rule join_entered [OF assms])
  let ?me = "uu_str (n_uuid self)" and ?v = "voter_in (n_heap self) g said"
  have v: "voter_in (n_heap s) g' said = ?v\<lparr>v_peers := insert (zyre_peer_identity p) (v_peers ?v)\<rparr>"
    using s(7-10) wave_in_status [where heap = "n_heap self" and a = a, OF assms(3)] by (auto simp: voter_in_def)
  have run: "hello_join env a name self = (if g_contest g then start_election env g' name s else Inr s)"
    using s(1,4,7) by (simp add: hello_join_def zyre_node_require_peer_group_def zyre_group_contest_def)
  have "\<exists>t. hello_join env a name self = Inr t \<and> votes env name said g' s (vote_greeted ?me (zyre_peer_identity p) ?v) t"
  proof (cases "g_contest g")
    case True
    then have "vote_greeted ?me (zyre_peer_identity p) ?v = vote_start ?me (voter_in (n_heap s) g' said)"
      unfolding v by (simp add: vote_greeted_def voter_in_def)
    then show ?thesis using run True start_election_votes [OF s(3,5), of env name said] s(6) by auto
  next
    case False
    then have "vote_greeted ?me (zyre_peer_identity p) ?v = (voter_in (n_heap s) g' said, \<lambda>_. [])"
      unfolding v by (simp add: vote_greeted_def voter_in_def)
    then have "votes env name said g' s (vote_greeted ?me (zyre_peer_identity p) ?v) s"
      unfolding votes_def using put_group_same [OF s(3,4)] by (intro exI [of _ g'] exI [of _ "n_heap s"]) simp
    then show ?thesis using run False by auto
  qed
  then show ?thesis using s(1,2) by blast
qed

theorem hello_join_votes_witness:
  "\<exists>g' s t. zyre_node_join_peer_group run_env 0 ''A'' (put_group ''A'' (trio_group\<lparr>g_contest := True\<rparr>) trio_node) = Inr (g', s)
    \<and> n_outbox s = n_outbox (put_group ''A'' (trio_group\<lparr>g_contest := True\<rparr>) trio_node)
        @ group_event_frames ''JOIN'' (zyre_peer_init \<lparr>uu_data = [], uu_str = ''1''\<rparr>) ''A''
    \<and> hello_join run_env 0 ''A'' (put_group ''A'' (trio_group\<lparr>g_contest := True\<rparr>) trio_node) = Inr t
    \<and> votes run_env ''A'' [] g' s (vote_greeted (uu_str (n_uuid (put_group ''A'' (trio_group\<lparr>g_contest := True\<rparr>) trio_node)))
        (zyre_peer_identity (zyre_peer_init \<lparr>uu_data = [], uu_str = ''1''\<rparr>))
        (voter_in (n_heap (put_group ''A'' (trio_group\<lparr>g_contest := True\<rparr>) trio_node)) (trio_group\<lparr>g_contest := True\<rparr>) [])) t"
proof (rule hello_join_votes)
  have "group_ok (n_peers trio_node) (trio_group\<lparr>g_contest := True\<rparr>)"
    using group_ok_lookup [OF node_okD(3) [OF trio_ok(1)] trio_lookup] by simp
  then show "node_ok (put_group ''A'' (trio_group\<lparr>g_contest := True\<rparr>) trio_node)" by (rule put_group_ok [OF trio_ok(1)])
qed (use trio_peer trio_lookup in \<open>simp_all add: put_group_def zhash_lookup_alter\<close>)

end
