(* ===== verification/Zyre_Wave_Regroup.thy ===== *)
theory Zyre_Wave_Regroup
  imports Zyre_Wave_Leaves
begin

text \<open>
  When does the election after the leader has left go well? When each member hears that the leader has left
  before it hears of the new election: then the members that stay run an election of a fixed group among
  themselves, to which the results of \<open>Zyre_Wave_Props\<close> apply.
\<close>

section \<open>The handlers and what has been announced before\<close>

lemma vote_said:
  "vote me k m (v\<lparr>v_said := xs @ v_said v\<rparr>)
     = (case vote me k m v of (w, out) \<Rightarrow> (w\<lparr>v_said := xs @ v_said w\<rparr>, out))"
  by (cases m) (auto simp: vote_def vote_greeted_def vote_start_def vote_elect_def vote_leader_def the_wave_def spread_def
      Let_def split: option.split)

lemma vote_said_grows:
  "v_said (fst (vote me k m v)) = v_said v
     \<or> (\<exists>l. m = Leader l \<and> v_said (fst (vote me k m v)) = v_said v @ [l])"
  by (cases m) (auto simp: vote_def vote_greeted_def vote_start_def vote_elect_def vote_leader_def Let_def split: option.split)

lemma vote_not_greeted: "Greeted \<notin> set (snd (vote me k m v) d)"
  by (cases m) (auto simp: vote_def vote_greeted_def vote_start_def vote_elect_def vote_leader_def spread_def wave_over_def
      to_all_def Let_def split: option.split if_splits)

lemma vote_contests: "v_contests (fst (vote me k m v)) = v_contests v"
  by (cases m) (auto simp: vote_def vote_greeted_def vote_start_def vote_elect_def vote_leader_def Let_def split: option.split)

lemma vote_tells:
  "Elect r \<in> set (snd (vote me k m v) d) \<Longrightarrow> m = Elect r \<or> r = me \<and> v_contests v"
  by (cases m) (auto simp: vote_def vote_greeted_def vote_start_def vote_elect_def vote_leader_def spread_def wave_over_def
      to_all_def Let_def split: option.splits if_splits)

text \<open>Only nodes that contest the group are ever challengers.\<close>

definition contested :: "'n set \<Rightarrow> 'n net \<Rightarrow> bool" where
  "contested C s \<longleftrightarrow> (\<forall>q. v_contests (t_voter s q) \<longleftrightarrow> q \<in> C) \<and> (\<forall>p q r. told s p q r \<longrightarrow> r \<in> C)"

lemma contested_step:
  assumes "net_step P s t" and "contested C s" shows "contested C t"
  using assms(1)
proof (rule net_stepE)
  fix q assume "t = challenge q s" "q \<in> P" "idle (t_voter s q)" "v_contests (t_voter s q)"
  then show ?thesis using assms(2)
    by (auto simp: contested_def challenge_def vote_start_def commit_def told_def to_all_def split: if_splits)
next
  fix p q assume t: "t = arrive p q s" and w: "waiting s p q"
  let ?r = "vote q p (t_sent s p q ! t_got s p q) (t_voter s q)"
  have "t_sent s p q ! t_got s p q \<in> set (t_sent s p q)" using w by (simp add: waiting_def)
  then have "r \<in> C" if "Elect r \<in> set (snd ?r d)" for r d
    using vote_tells [OF that] assms(2) by (auto simp: contested_def told_def)
  then show ?thesis using assms(2) vote_contests [of q p "t_sent s p q ! t_got s p q" "t_voter s q"]
    by (auto simp: contested_def told_def t arrive_def commit_def)
qed

interpretation contest: invariant_of "contested C" "net_step P" "contested C" for P C :: "'n::linorder set"
  by unfold_locales (auto intro: contested_step)

lemma lawful_said: "lawful P s \<Longrightarrow> q \<in> P \<Longrightarrow> length (v_said (t_voter s q)) \<le> 1"
  using campaignD(4) proclaimed_said unfolding lawful_def by fastforce

section \<open>The members that stay as a group of their own\<close>

text \<open>The leader a member follows that has announced these since the old leader left.\<close>

definition follow :: "'n set \<Rightarrow> 'n \<Rightarrow> 'n \<Rightarrow> 'n list \<Rightarrow> 'n option" where
  "follow C l me said = (if said \<noteq> [] \<and> last said \<noteq> me then Some (last said)
     else if me \<in> C then None else Some l)"

text \<open>
  Whoever has heard that the leader left is a member that has challenged, if it contests the group, and waits
  otherwise; the links between the members carry the same messages.
\<close>

definition seat_like :: "'n set \<Rightarrow> 'n set \<Rightarrow> 'n \<Rightarrow> 'n \<Rightarrow> nat \<Rightarrow> 'n seat \<Rightarrow> 'n voter \<Rightarrow> bool" where
  "seat_like P C l q got st v \<longleftrightarrow> (if got = 0
     then st = \<lparr>s_voter = \<lparr>v_peers = P - {q}, v_wave = None, v_said = [l], v_contests = q \<in> C\<rparr>, s_leader = Some l, s_member = True\<rparr>
       \<and> v = \<lparr>v_peers = P - {l} - {q}, v_wave = None, v_said = [], v_contests = q \<in> C\<rparr>
     else v_contests v = (q \<in> C) \<and> st = \<lparr>s_voter = v\<lparr>v_said := l # v_said v\<rparr>, s_leader = follow C l q (v_said v), s_member = True\<rparr>)"

definition regrouped :: "'n::linorder set \<Rightarrow> 'n set \<Rightarrow> 'n \<Rightarrow> 'n hall \<Rightarrow> 'n net \<Rightarrow> bool" where
  "regrouped P C l h u \<longleftrightarrow> (\<forall>q \<in> P - {l}. h_sent h l q = [Left]
     \<and> seat_like P C l q (h_got h l q) (h_seat h q) (t_voter u q)
     \<and> (h_got h l q \<noteq> 0 \<longrightarrow> q \<in> C \<longrightarrow> (\<forall>d \<in> P - {l} - {q}. told u q d q))
     \<and> (\<forall>p \<in> P - {l}. h_sent h p q = map Ballot (t_sent u p q) \<and> h_got h p q = t_got u p q
          \<and> Greeted \<notin> set (t_sent u p q)))"

lemma regroupedD:
  assumes "regrouped P C l h u" and "q \<in> P - {l}"
  shows "h_sent h l q = [Left]" "seat_like P C l q (h_got h l q) (h_seat h q) (t_voter u q)"
    "h_got h l q \<noteq> 0 \<Longrightarrow> q \<in> C \<Longrightarrow> d \<in> P - {l} - {q} \<Longrightarrow> told u q d q"
    "p \<in> P - {l} \<Longrightarrow> h_sent h p q = map Ballot (t_sent u p q)"
    "p \<in> P - {l} \<Longrightarrow> h_got h p q = t_got u p q"
    "p \<in> P - {l} \<Longrightarrow> Greeted \<notin> set (t_sent u p q)"
  using assms unfolding regrouped_def by blast+

text \<open>Messages between those who have heard of it, or the news of it.\<close>

inductive regroup_step :: "'n::linorder set \<Rightarrow> 'n \<Rightarrow> 'n hall \<Rightarrow> 'n hall \<Rightarrow> bool" for P l where
  news: "regroup_step P l h (hall_arrive l q h)" if "q \<in> P - {l}" and "hall_waiting h l q"
| votes: "regroup_step P l h (hall_arrive p q h)"
    if "p \<in> P - {l}" and "q \<in> P - {l}" and "hall_waiting h p q" and "h_got h l q \<noteq> 0"

inductive_cases regroup_stepE: "regroup_step P l h k"

text \<open>A member's step on both sides.\<close>

lemma regrouped_step:
  assumes re: "regrouped P C l h u" and q: "q \<in> P - {l}" and member: "p \<in> P"
    and seat: "seat_like P C l q (h_got h l q + (if p = l then 1 else 0)) (fst r) (fst w)" and out: "snd r = snd w"
    and told: "\<And>d. p = l \<Longrightarrow> q \<in> C \<Longrightarrow> d \<in> P - {l} - {q} \<Longrightarrow> Elect q \<in> set (snd w d)"
    and ballots: "\<And>d. Greeted \<notin> set (snd w d)"
    and heard: "p = l \<or> h_got h l q \<noteq> 0"
    and h': "h' = hall_commit q r (h\<lparr>h_got := (h_got h)(p := (h_got h p)(q := Suc (h_got h p q)))\<rparr>)"
    and u': "u' = commit q w (if p = l then u else u\<lparr>t_got := (t_got u)(p := (t_got u p)(q := Suc (t_got u p q)))\<rparr>)"
  shows "regrouped P C l h' u'"
  unfolding regrouped_def
proof (intro ballI conjI impI)
  fix x assume x: "x \<in> P - {l}"
  note D = regroupedD [OF re x]
  show "h_sent h' l x = [Left]" using D(1) q by (auto simp: h' hall_commit_def)
  show "seat_like P C l x (h_got h' l x) (h_seat h' x) (t_voter u' x)"
    using D(2) seat by (auto simp: h' u' hall_commit_def commit_def)
  show "told u' x d x" if "h_got h' l x \<noteq> 0" "x \<in> C" "d \<in> P - {l} - {x}" for d
  proof (cases "x = q")
    case True
    then show ?thesis using told that(2,3) heard D(3) [OF _ that(2,3)] by (auto simp: u' commit_def told_def)
  next
    case False
    then have "h_got h l x \<noteq> 0" using that(1) by (auto simp: h' hall_commit_def split: if_splits)
    then show ?thesis using D(3) [OF _ that(2,3)] False by (simp add: u' commit_def told_def)
  qed
  fix k assume k: "k \<in> P - {l}"
  show "h_sent h' k x = map Ballot (t_sent u' k x)" using D(4) [OF k] out by (auto simp: h' u' hall_commit_def commit_def)
  show "h_got h' k x = t_got u' k x" using D(5) [OF k] k by (auto simp: h' u' hall_commit_def commit_def)
  show "Greeted \<notin> set (t_sent u' k x)" using D(6) [OF k] ballots by (auto simp: u' commit_def)
qed

text \<open>The news that the leader left makes a member challenge that contests the group, and only that one.\<close>

lemma commit_nothing: "commit q (t_voter u q, \<lambda>_. []) u = u"
  by (simp add: commit_def fun_upd_idem)

lemma regrouped_news:
  assumes "regrouped P C l h u" and "q \<in> P - {l}" and "l \<in> P" and "hall_waiting h l q"
    and "P - {l} - {q} \<noteq> {}" and "finite P"
  shows "if q \<in> C then idle (t_voter u q) \<and> v_contests (t_voter u q) \<and> regrouped P C l (hall_arrive l q h) (challenge q u)
    else regrouped P C l (hall_arrive l q h) u"
proof -
  note D = regroupedD [OF assms(1,2)]
  have zero: "h_got h l q = 0" using assms(4) D(1) by (simp add: hall_waiting_def)
  have seat: "h_seat h q = \<lparr>s_voter = \<lparr>v_peers = P - {q}, v_wave = None, v_said = [l], v_contests = q \<in> C\<rparr>,
      s_leader = Some l, s_member = True\<rparr>"
    and voter: "t_voter u q = \<lparr>v_peers = P - {l} - {q}, v_wave = None, v_said = [], v_contests = q \<in> C\<rparr>"
    using D(2) zero by (simp_all add: seat_like_def)
  have sets: "P - {q} - {l} = P - {l} - {q}" "card (P - {l} - {q}) \<noteq> 0" using assms(5,6) by (auto simp: card_eq_0_iff)
  have arrive: "hall_arrive l q h = hall_commit q (seat_hear q l Left (h_seat h q))
      (h\<lparr>h_got := (h_got h)(l := (h_got h l)(q := Suc (h_got h l q)))\<rparr>)"
    using D(1) zero by (simp add: hall_arrive_def)
  show ?thesis
  proof (cases "q \<in> C")
    case True
    let ?v = "\<lparr>v_peers = P - {l} - {q}, v_wave = Some (wave_new\<lparr>w_caw := Some q\<rparr>), v_said = [], v_contests = True\<rparr>"
    have left: "seat_hear q l Left (h_seat h q) = (\<lparr>s_voter = ?v\<lparr>v_said := [l]\<rparr>, s_leader = None, s_member = True\<rparr>,
        to_all (P - {l} - {q}) (Elect q))"
      using sets True by (simp add: seat_hear_def seat_left_def unseat_def seat seat_contests_def seat_restart_def seat_start_def vote_start_def)
    have start: "vote_start q (t_voter u q) = (?v, to_all (P - {l} - {q}) (Elect q))"
      using True by (simp add: vote_start_def voter)
    have "regrouped P C l (hall_arrive l q h) (challenge q u)"
    proof (rule regrouped_step [OF assms(1-3)])
      show "challenge q u = commit q (vote_start q (t_voter u q)) (if l = l then u else u\<lparr>t_got := (t_got u)(l := (t_got u l)(q := Suc (t_got u l q)))\<rparr>)"
        by (simp add: challenge_def)
    qed (use arrive True in \<open>auto simp: left start seat_like_def follow_def to_all_def\<close>)
    then show ?thesis using True by (simp add: voter idle_def)
  next
    case False
    have left: "seat_hear q l Left (h_seat h q) = (\<lparr>s_voter = \<lparr>v_peers = P - {l} - {q}, v_wave = None, v_said = [l],
        v_contests = False\<rparr>, s_leader = Some l, s_member = True\<rparr>, \<lambda>_. [])"
      using sets False by (simp add: seat_hear_def seat_left_def unseat_def seat seat_contests_def)
    have "regrouped P C l (hall_arrive l q h) u"
    proof (rule regrouped_step [OF assms(1-3), where w = "(t_voter u q, \<lambda>_. [])"])
      show "u = commit q (t_voter u q, \<lambda>_. []) (if l = l then u else u\<lparr>t_got := (t_got u)(l := (t_got u l)(q := Suc (t_got u l q)))\<rparr>)"
        by (simp add: commit_nothing)
    qed (use arrive False in \<open>auto simp: left voter seat_like_def follow_def\<close>)
    then show ?thesis using False by simp
  qed
qed

text \<open>A message among those who have heard it is a message of the election.\<close>

lemma regrouped_votes:
  assumes "regrouped P C l h u" and "p \<in> P - {l}" and "q \<in> P - {l}" and "hall_waiting h p q" and "h_got h l q \<noteq> 0"
    and "length (v_said (t_voter (arrive p q u) q)) \<le> 1"
  shows "waiting u p q \<and> regrouped P C l (hall_arrive p q h) (arrive p q u)"
proof -
  note D = regroupedD [OF assms(1,3)]
  have w: "waiting u p q" using assms(4) D(4,5) [OF assms(2)] by (simp add: hall_waiting_def waiting_def)
  let ?m = "t_sent u p q ! t_got u p q"
  let ?v = "t_voter u q" and ?w = "vote q p ?m (t_voter u q)"
  have mem: "?m \<in> set (t_sent u p q)" using w by (simp add: waiting_def)
  have msg: "?m \<noteq> Greeted" using mem D(6) [OF assms(2)] by metis
  have head: "h_sent h p q ! h_got h p q = Ballot ?m" using D(4,5) [OF assms(2)] w by (simp add: waiting_def)
  have seat: "h_seat h q = \<lparr>s_voter = ?v\<lparr>v_said := l # v_said ?v\<rparr>, s_leader = follow C l q (v_said ?v), s_member = True\<rparr>"
    using D(2) assms(5) by (simp add: seat_like_def)
  obtain v' out where vote: "?w = (v', out)" by (rule prod.exhaust)
  have "length (v_said v') \<le> 1" using assms(6) vote by (simp add: arrive_def commit_def)
  then have "v_said v' = v_said ?v \<or> (\<exists>k. ?m = Leader k \<and> v_said ?v = [] \<and> v_said v' = [k])"
    using vote_said_grows [of q p ?m ?v] vote by (cases "v_said ?v") auto
  then have "\<forall>k. ?m = Leader k \<longrightarrow> (if v_said v' \<noteq> v_said ?v \<and> k \<noteq> q then Some k else follow C l q (v_said ?v)) = follow C l q (v_said v')"
    and "\<forall>r. ?m = Elect r \<longrightarrow> follow C l q (v_said ?v) = follow C l q (v_said v')"
    by (auto simp: follow_def)
  then have hear: "seat_hear q p (Ballot ?m) (h_seat h q) = (\<lparr>s_voter = v'\<lparr>v_said := l # v_said v'\<rparr>,
      s_leader = follow C l q (v_said v'), s_member = True\<rparr>, out)"
    using vote_said [where me = q and k = p and m = ?m and v = ?v and xs = "[l]"] vote msg
    by (cases ?m) (auto simp: seat_hear_def seat_ballot_def seat split: if_splits)
  have "v_contests v' = (q \<in> C)" using vote_contests [of q p ?m ?v] vote D(2) assms(5) by (simp add: seat_like_def)
  note here = this hear
  have "regrouped P C l (hall_arrive p q h) (arrive p q u)"
  proof (rule regrouped_step [OF assms(1,3)])
    show "p \<in> P" using assms(2) by simp
    show "hall_arrive p q h = hall_commit q (seat_hear q p (Ballot ?m) (h_seat h q))
        (h\<lparr>h_got := (h_got h)(p := (h_got h p)(q := Suc (h_got h p q)))\<rparr>)"
      using head by (simp add: hall_arrive_def)
    show "arrive p q u = commit q ?w (if p = l then u else u\<lparr>t_got := (t_got u)(p := (t_got u p)(q := Suc (t_got u p q)))\<rparr>)"
      using assms(2) by (simp add: arrive_def)
  qed (use assms(2,5) vote_not_greeted [of q p ?m ?v] in \<open>auto simp: here vote seat_like_def\<close>)
  then show ?thesis using w by simp
qed

section \<open>A new leader\<close>

lemma some_other:
  assumes "2 \<le> card A" shows "A - {x} \<noteq> {}"
proof
  assume "A - {x} = {}"
  then have "A \<subseteq> {x}" by blast
  then have "card A \<le> card {x}" by (rule card_mono [rotated]) simp
  then show False using assms by simp
qed

lemma regroup_run:
  assumes "(regroup_step P l)\<^sup>*\<^sup>* h k" and "regrouped P C l h u" and "net_initial (P - {l}) u0"
    and "(net_step (P - {l}))\<^sup>*\<^sup>* u0 u" and "l \<in> P"
  shows "\<exists>w. (net_step (P - {l}))\<^sup>*\<^sup>* u0 w \<and> regrouped P C l k w"
  using assms(1)
proof (induction rule: rtranclp_induct)
  case base
  then show ?case using assms(2,4) by blast
next
  case (step y z)
  obtain w where w: "(net_step (P - {l}))\<^sup>*\<^sup>* u0 w" "regrouped P C l y w" using step.IH by blast
  have fin: "finite P" "2 \<le> card (P - {l})" using assms(3) by (simp_all add: net_initial_def)
  show ?case using step.hyps(2)
  proof (rule regroup_stepE)
    fix q assume z: "z = hall_arrive l q y" and "q \<in> P" "q \<noteq> l" and wait: "hall_waiting y l q"
    then have q: "q \<in> P - {l}" "hall_waiting y l q" by simp_all
    note news = regrouped_news [OF w(2) q(1) assms(5) q(2) some_other [OF fin(2)] fin(1)]
    show ?thesis
    proof (cases "q \<in> C")
      case True
      with news have "idle (t_voter w q)" "v_contests (t_voter w q)" "regrouped P C l z (challenge q w)" using z by simp_all
      then show ?thesis using w(1) net_step.challenges [OF q(1)] by (blast intro: rtranclp.rtrancl_into_rtrancl)
    next
      case False
      then show ?thesis using news w(1) z by auto
    qed
  next
    fix p q assume z: "z = hall_arrive p q y" and "p \<in> P" "p \<noteq> l" "q \<in> P" "q \<noteq> l"
      and "hall_waiting y p q" "0 < h_got y l q"
    then have pq: "p \<in> P - {l}" "q \<in> P - {l}" "hall_waiting y p q" "h_got y l q \<noteq> 0" by simp_all
    have "waiting w p q" using regroupedD(4,5) [OF w(2) pq(2,1)] pq(3) by (simp add: hall_waiting_def waiting_def)
    then have step: "net_step (P - {l}) w (arrive p q w)" by (rule net_step.arrives [OF pq(1,2)])
    with w(1) have reach: "(net_step (P - {l}))\<^sup>*\<^sup>* u0 (arrive p q w)" by (rule rtranclp.rtrancl_into_rtrancl)
    have "regrouped P C l z (arrive p q w)"
      using regrouped_votes [OF w(2) pq lawful_said [OF waves.inv_run [OF assms(3) reach] pq(2)]] z by blast
    then show ?thesis using reach by blast
  qed
qed

lemma no_contest:
  assumes "net_initial Q u" and "\<forall>q \<in> Q. \<not> v_contests (t_voter u q)" and "(net_step Q)\<^sup>*\<^sup>* u w"
  shows "w = u"
  using assms(3)
proof (cases rule: converse_rtranclpE)
  case (step y)
  from step(1) show ?thesis
    by (rule net_stepE) (use assms(1,2) in \<open>auto simp: net_initial_def waiting_def\<close>)
qed simp

text \<open>The members that stay have challenged when all have heard, if they contest the group.\<close>

lemma regrouped_challengers:
  assumes "regrouped P C l t w" and "\<And>x. x \<in> P - {l} \<Longrightarrow> h_got t l x \<noteq> 0" and "2 \<le> card (P - {l})" and "contested C w"
  shows "challengers (P - {l}) w = C \<inter> (P - {l})"
proof -
  have "x \<in> challengers (P - {l}) w" if x: "x \<in> C" "x \<in> P - {l}" for x
  proof -
    obtain d where d: "d \<in> P - {l} - {x}" using some_other [OF assms(3), of x] by blast
    have "told w x d x" by (rule regroupedD(3) [OF assms(1) x(2) assms(2) [OF x(2)] x(1) d])
    then show ?thesis using x d by (auto simp: challengers_def)
  qed
  then show ?thesis using assms(4) by (auto simp: challengers_def contested_def)
qed

text \<open>C12: when the leader of a settled group of three or more leaves it, and every other member hears so before it
  hears of the new election, then, in whatever order the messages arrive, everyone who stays ends up with the lowest
  of those members that stay and contest the group as the new leader: each announces it, once, and each but it follows
  it. If none of those who stay contests the group, nobody announces anyone, and everyone still has the old leader.\<close>

theorem leaving_leader_replaced:
  assumes "finite P" and "3 \<le> card P" and "l \<in> P"
    and "(regroup_step P l)\<^sup>*\<^sup>* (hall_leave P l (settled P C l)) t"
    and "\<forall>p \<in> P. \<forall>q \<in> P. \<not> hall_waiting t p q" and "q \<in> P - {l}"
  shows "if C \<inter> (P - {l}) = {}
    then v_said (s_voter (h_seat t q)) = [l] \<and> s_leader (h_seat t q) = Some l
    else v_said (s_voter (h_seat t q)) = [l, Min (C \<inter> (P - {l}))]
      \<and> s_leader (h_seat t q) = (if q = Min (C \<inter> (P - {l})) then None else Some (Min (C \<inter> (P - {l}))))"
proof -
  let ?Q = "P - {l}"
  let ?u = "\<lparr>t_voter = \<lambda>q. \<lparr>v_peers = ?Q - {q}, v_wave = None, v_said = [], v_contests = q \<in> C\<rparr>,
    t_sent = \<lambda>_ _. [], t_got = \<lambda>_ _. 0\<rparr>"
  have two: "2 \<le> card ?Q" using assms(1-3) by simp
  have init: "net_initial ?Q ?u" using assms(1) two by (simp add: net_initial_def idle_def)
  have "regrouped P C l (hall_leave P l (settled P C l)) ?u"
    using assms(3) by (auto simp: regrouped_def seat_like_def hall_leave_def settled_def)
  then obtain w where w: "(net_step ?Q)\<^sup>*\<^sup>* ?u w" "regrouped P C l t w"
    using regroup_run [OF assms(4) _ init _ assms(3)] by blast
  have news: "h_got t l x \<noteq> 0" if "x \<in> ?Q" for x
  proof -
    have "\<not> hall_waiting t l x" using assms(3,5) that by blast
    then show ?thesis using regroupedD(1) [OF w(2) that] by (auto simp: hall_waiting_def)
  qed
  have quiet: "\<not> waiting w p x" if "p \<in> ?Q" "x \<in> ?Q" for p x
  proof -
    have "\<not> hall_waiting t p x" using assms(5) that by blast
    then show ?thesis using regroupedD(4,5) [OF w(2) that(2,1)] by (simp add: hall_waiting_def waiting_def)
  qed
  have "contested C ?u" by (simp add: contested_def told_def)
  then have ch: "challengers ?Q w = C \<inter> ?Q"
    using regrouped_challengers [OF w(2) news two] contest.inv_run [OF _ w(1)] by blast
  note seat = regroupedD(2) [OF w(2) assms(6)] news [OF assms(6)]
  show ?thesis
  proof (cases "C \<inter> ?Q = {}")
    case True
    then have "w = ?u" by (intro no_contest [OF init _ w(1)]) auto
    then show ?thesis using seat True assms(6) by (auto simp: seat_like_def follow_def)
  next
    case False
    have "lawful ?Q w" using waves.inv_run [OF init w(1)] .
    then obtain r where r: "proclaimed ?Q r w"
      using quiet_campaign [of ?Q w] quiet ch False unfolding lawful_def by blast
    then have "r = Min (C \<inter> ?Q)" using proclaimed_lowest [OF r] ch by simp
    moreover have "Min (C \<inter> ?Q) \<in> C" using Min_in [of "C \<inter> ?Q"] False assms(1) by blast
    moreover have "v_said (t_voter w q) = [r]" using quiet_proclaimed [OF r quiet assms(6)] by blast
    ultimately show ?thesis using seat False by (auto simp: seat_like_def follow_def)
  qed
qed

text \<open>A run given by the links on which messages arrive.\<close>

fun regroup_runnable :: "'n::linorder list \<Rightarrow> 'n \<Rightarrow> ('n \<times> 'n) list \<Rightarrow> 'n hall \<Rightarrow> bool" where
  "regroup_runnable P l [] h \<longleftrightarrow> True"
| "regroup_runnable P l ((p, q) # ls) h \<longleftrightarrow> p \<in> set P \<and> q \<in> set P \<and> q \<noteq> l \<and> hall_waiting h p q
     \<and> (p = l \<or> h_got h l q \<noteq> 0) \<and> regroup_runnable P l ls (hall_arrive p q h)"

lemma regroup_run_steps:
  "regroup_runnable P l ls h \<Longrightarrow> (regroup_step (set P) l)\<^sup>*\<^sup>* h (fold (\<lambda>(p, q). hall_arrive p q) ls h)"
proof (induction ls arbitrary: h)
  case (Cons x ls)
  obtain p q where x: "x = (p, q)" by (rule prod.exhaust)
  have "regroup_step (set P) l h (hall_arrive p q h)"
    using Cons.prems x by (cases "p = l") (simp_all add: regroup_step.intros)
  then show ?case using Cons.IH [of "hall_arrive p q h"] Cons.prems x by (simp add: converse_rtranclp_into_rtranclp)
qed simp

text \<open>Of four members A leads and B does not contest; when A has left, C and D elect C.\<close>

abbreviation quartet :: "string list" where
  "quartet \<equiv> [''A'', ''B'', ''C'', ''D'']"

abbreviation quartet_contest :: "string set" where
  "quartet_contest \<equiv> {''A'', ''C'', ''D''}"

definition regroup_links :: "(string \<times> string) list" where
  "regroup_links = [(''A'', ''B''), (''A'', ''C''), (''A'', ''D''), (''C'', ''B''), (''C'', ''D''), (''D'', ''B''),
     (''D'', ''C''), (''B'', ''D''), (''D'', ''B''), (''D'', ''C''), (''B'', ''C''), (''C'', ''B''),
     (''C'', ''D''), (''D'', ''B''), (''D'', ''C''), (''B'', ''C''), (''B'', ''D'')]"

definition regroup_end :: "string hall" where
  "regroup_end = fold (\<lambda>(p, q). hall_arrive p q) regroup_links
     (hall_leave (set quartet) ''A'' (settled (set quartet) quartet_contest ''A''))"

lemma regroup_end_facts:
  "regroup_runnable quartet ''A'' regroup_links (hall_leave (set quartet) ''A'' (settled (set quartet) quartet_contest ''A''))"
  "\<forall>p \<in> set quartet. \<forall>q \<in> set quartet. \<not> hall_waiting regroup_end p q"
  by code_simp+

lemma quartet_lowest: "quartet_contest \<inter> (set quartet - {''A''}) \<noteq> {}" "Min (quartet_contest \<inter> (set quartet - {''A''})) = ''C''"
  by code_simp+

theorem leaving_leader_replaced_witness:
  "v_said (s_voter (h_seat regroup_end ''B'')) = [''A'', ''C''] \<and> s_leader (h_seat regroup_end ''B'') = Some ''C''"
proof -
  have "(regroup_step (set quartet) ''A'')\<^sup>*\<^sup>* (hall_leave (set quartet) ''A'' (settled (set quartet) quartet_contest ''A'')) regroup_end"
    unfolding regroup_end_def by (rule regroup_run_steps [OF regroup_end_facts(1)])
  from leaving_leader_replaced [OF _ _ _ this regroup_end_facts(2), of "''B''"]
  show ?thesis using quartet_lowest by simp
qed

end
