(* ===== verification/Zyre_Leave_Refine.thy ===== *)
theory Zyre_Leave_Refine
  imports Zyre_Wave_Refine Zyre_Wave_Leaves
begin

text \<open>
  The node's handlers of HELLO, JOIN and LEAVE and the restart of elections when a peer is removed do to one group
  what a seat of \<open>Zyre_Wave_Leaves\<close> does, be the group contested or not, and the application in it or not. A
  removal can make a node the leader while another member is there.
\<close>

section \<open>The seat in a node\<close>

definition seat_in :: "peer_heap \<Rightarrow> zyre_group \<Rightarrow> string list \<Rightarrow> bool \<Rightarrow> string seat" where
  "seat_in heap g said mine = \<lparr>s_voter = voter_in heap g said,
     s_leader = Option.bind (g_leader g) (\<lambda>a. map_option zyre_peer_identity (heap a)), s_member = mine\<rparr>"

text \<open>As \<open>votes\<close>, with the announcement the node makes of itself.\<close>

definition seats :: "env \<Rightarrow> string \<Rightarrow> string list \<Rightarrow> bool \<Rightarrow> zyre_group \<Rightarrow> zyre_node \<Rightarrow> string seat \<times> string post
    \<Rightarrow> zyre_node \<Rightarrow> bool" where
  "seats env name said mine g self r t \<longleftrightarrow> (\<exists>g' h s. t = put_group name g' s
     \<and> g_peers g' = g_peers g \<and> g_contest g' = g_contest g \<and> posted env name (snd r) (n_heap self) h
     \<and> (if v_said (s_voter (fst r)) = said then s = self\<lparr>n_heap := h\<rparr> \<and> seat_in h g' said mine = fst r
        else seat_in h g' (said @ [uu_str (n_uuid self)]) mine = fst r
          \<and> s = zyre_node_leader_peer_group (uu_str (n_uuid self)) (n_name self) name (self\<lparr>n_heap := h\<rparr>)))"

lemma seat_in_voter [simp]: "s_voter (seat_in heap g said mine) = voter_in heap g said"
  by (simp add: seat_in_def)

lemma voter_in_peers: "v_peers (voter_in heap g said) = set (zyre_group_peers g)"
  by (simp add: voter_in_def)

text \<open>The leader is a live peer, as long as its removal from the group or from the node has restarted the election.\<close>

definition leader_lives :: "zyre_node \<Rightarrow> zyre_group \<Rightarrow> bool" where
  "leader_lives self g \<longleftrightarrow> (\<forall>l. g_leader g = Some l
     \<longrightarrow> (\<exists>q. n_heap self l = Some q \<and> c_string (zyre_peer_identity q)))"

lemma leader_is_seat:
  assumes "leader_lives self g" and "c_string k"
  shows "leader_is k g self = Inr (s_leader (seat_in (n_heap self) g said mine) = Some k)"
proof (cases "g_leader g")
  case (Some l)
  then obtain q where "n_heap self l = Some q" "c_string (zyre_peer_identity q)" using assms(1) by (auto simp: leader_lives_def)
  then show ?thesis using Some streq_iff assms(2)
    by (simp add: leader_is_def zyre_group_leader_def node_peer_def seat_in_def)
qed (simp add: leader_is_def zyre_group_leader_def seat_in_def)

lemma elect_again_seats:
  assumes "node_ok self" and "group_ok (n_peers self) g"
  shows "\<exists>t. elect_again env alone g name self = Inr t
    \<and> seats env name said mine g self (seat_restart (uu_str (n_uuid self)) alone (seat_in (n_heap self) g said mine)) t"
proof -
  let ?me = "uu_str (n_uuid self)" and ?v = "voter_in (n_heap self) g said"
  let ?g = "g\<lparr>g_election := None\<rparr>"
  have size: "length (zyre_group_peers ?g) = card (v_peers ?v)"
    using card_group_peers [OF assms(2)] by (simp add: voter_in_peers zyre_group_peers_def zhash_size_def zhash_keys_def)
  show ?thesis
  proof (cases "card (v_peers ?v) = alone")
    case True
    let ?s = "zyre_node_leader_peer_group ?me (n_name self) name self"
    have "elect_again env alone g name self = Inr (put_group name (?g\<lparr>g_leader := None\<rparr>) ?s)"
      using True size by (simp add: elect_again_def zyre_group_set_election_def zyre_group_set_leader_def leader_announce_put)
    moreover have "seats env name said mine g self (seat_restart ?me alone (seat_in (n_heap self) g said mine))
        (put_group name (?g\<lparr>g_leader := None\<rparr>) ?s)"
      unfolding seats_def using True
      by (intro exI [of _ "?g\<lparr>g_leader := None\<rparr>"] exI [of _ "n_heap self"] exI [of _ ?s])
        (simp add: seat_restart_def seat_in_def voter_in_def zyre_group_peers_def)
    ultimately show ?thesis by blast
  next
    case False
    have "group_ok (n_peers self) ?g" using assms(2) by (simp add: group_ok_def)
    then obtain e h where e: "start_election env ?g name self
        = Inr (put_group name (?g\<lparr>g_election := Some e, g_leader := None\<rparr>) (self\<lparr>n_heap := h\<rparr>))"
      "wave_in h e = wave_new\<lparr>w_caw := Some ?me\<rparr>"
      "posted env name (to_all (set (zyre_group_peers ?g)) (Elect ?me)) (n_heap self) h"
      by (rule start_election_result [OF assms(1)])
    have "elect_again env alone g name self
        = Inr (put_group name (?g\<lparr>g_election := Some e, g_leader := None\<rparr>) (self\<lparr>n_heap := h\<rparr>))"
      using False size e(1) by (simp add: elect_again_def zyre_group_set_election_def)
    moreover have "seats env name said mine g self (seat_restart ?me alone (seat_in (n_heap self) g said mine))
        (put_group name (?g\<lparr>g_election := Some e, g_leader := None\<rparr>) (self\<lparr>n_heap := h\<rparr>))"
      unfolding seats_def using False e(2,3)
      by (intro exI [of _ "?g\<lparr>g_election := Some e, g_leader := None\<rparr>"] exI [of _ h] exI [of _ "self\<lparr>n_heap := h\<rparr>"])
        (simp add: seat_restart_def seat_start_def seat_in_def vote_start_def voter_in_def zyre_group_peers_def)
    ultimately show ?thesis by blast
  qed
qed

section \<open>The removal of a peer\<close>

text \<open>C16: when a peer is removed, the node does to a group it is in what \<open>seat_gone\<close> does: it restarts the election
  when it contests the group and one is running, whoever the peer is, or the peer led the group.\<close>

theorem remove_restart_seats:
  assumes "node_ok self" and "zhash_lookup (n_peer_groups self) name = Some g"
    and "leader_lives self g" and "c_string k"
  shows "\<exists>t. remove_restart env k name self = Inr t \<and> seats env name said True g self
    (seat_gone (uu_str (n_uuid self)) k (seat_in (n_heap self) g said True)) t"
proof -
  let ?st = "seat_in (n_heap self) g said True"
  have ok: "group_ok (n_peers self) g" using group_ok_lookup [OF node_okD(3) [OF assms(1)] assms(2)] .
  have running: "seat_running ?st \<longleftrightarrow> (case g_election g of Some e \<Rightarrow> \<not> zyre_election_lrec_complete e (zhash_size (g_peers g))
      | None \<Rightarrow> False)"
    using card_group_peers [OF ok]
    by (simp add: seat_running_def voter_in_def wave_in_def zyre_election_lrec_complete_def split: option.split)
  have mine: "seat_contests ?st \<longleftrightarrow> g_contest g" by (simp add: seat_contests_def seat_in_def voter_in_def)
  have run: "remove_restart env k name self = (if g_contest g \<and> (seat_running ?st \<or> s_leader ?st = Some k)
      then elect_again env 1 g name self else Inr self)"
    using assms(2) leader_is_seat [OF assms(3,4), where said = said and mine = True] running
    by (auto simp: remove_restart_def zyre_node_require_peer_group_def zyre_group_contest_def zyre_group_election_def
        split: option.splits)
  show ?thesis
  proof (cases "g_contest g \<and> (seat_running ?st \<or> s_leader ?st = Some k)")
    case True
    show ?thesis using elect_again_seats [OF assms(1) ok] run True mine by (auto simp: seat_gone_def)
  next
    case False
    have "put_group name g self = self"
      by (rule put_group_same [OF assms(1,2)])
    then have "seats env name said True g self (seat_gone (uu_str (n_uuid self)) k ?st) self"
      unfolding seats_def using False
      by (intro exI [of _ g] exI [of _ "n_heap self"] exI [of _ self]) (auto simp: seat_gone_def mine voter_in_def)
    then show ?thesis using run False by auto
  qed
qed

text \<open>Then the peer is taken from every group, this one too.\<close>

lemma seat_in_leave:
  assumes "heap a = Some p"
  shows "seat_in (heap(a \<mapsto> p\<lparr>p_status := n\<rparr>)) (g\<lparr>g_peers := zhash_delete k (g_peers g)\<rparr>) said mine
    = unseat k (seat_in heap g said mine)"
  unfolding seat_in_def unseat_def voter_in_def identity_status [where heap = heap and a = a, OF assms]
    wave_in_status [where heap = heap and a = a, OF assms]
  by (auto simp: zyre_group_peers_def zhash_keys_def zhash_delete_def)

lemma delete_peer_unseats:
  assumes "n_heap self a = Some p"
  obtains h g' where "zyre_node_delete_peer a (name, g) self = Inr (put_group name g' (self\<lparr>n_heap := h\<rparr>))"
    and "seat_in h g' said mine = unseat (zyre_peer_identity p) (seat_in (n_heap self) g said mine)"
  using that seat_in_leave [where heap = "n_heap self" and a = a, OF assms] assms
  by (simp add: zyre_node_delete_peer_def zyre_group_leave_def put_peer_def zyre_peer_set_status_def)

text \<open>C17: while an election runs in a group of two, the removal of a peer that is not in the group at all makes the node
  announce itself as the leader and drop the election, although the other member is still there: the node counts the
  members to find out whether it is alone, as if the peer that is removed were one of them.\<close>

theorem removal_makes_leader:
  assumes "node_ok self" and "zhash_lookup (n_peer_groups self) name = Some g" and "g_contest g"
    and "leader_lives self g" and "c_string k" and "zyre_group_peers g = [q]" and "q \<noteq> k"
    and "g_election g = Some e" and "e_lrec e = 0"
  shows "\<exists>t g'. remove_restart env k name self = Inr t \<and> zhash_lookup (n_peer_groups t) name = Some g'
    \<and> n_outbox t = n_outbox (zyre_node_leader_peer_group (uu_str (n_uuid self)) (n_name self) name self)
    \<and> zyre_group_peers g' = [q] \<and> g_election g' = None \<and> g_leader g' = None"
proof -
  let ?me = "uu_str (n_uuid self)"
  let ?g = "g\<lparr>g_election := None, g_leader := None\<rparr>"
  let ?t = "zyre_node_leader_peer_group ?me (n_name self) name (put_group name ?g self)"
  obtain b where b: "leader_is k g self = Inr b" using leader_is_seat [OF assms(4,5)] by blast
  have "length (map fst (g_peers g)) = 1" using assms(6) by (simp add: zyre_group_peers_def zhash_keys_def)
  then have "zhash_size (g_peers g) = 1" by (simp add: zhash_size_def)
  then have "remove_restart env k name self = elect_again env 1 g name self"
    using assms(2,3,8,9) b by (simp add: remove_restart_def zyre_node_require_peer_group_def zyre_group_contest_def
        zyre_group_election_def zyre_election_lrec_complete_def)
  also have "\<dots> = Inr ?t"
    using assms(6) by (simp add: elect_again_def zyre_group_set_election_def zyre_group_set_leader_def zyre_group_peers_def)
  finally have "remove_restart env k name self = Inr ?t" .
  moreover have "zhash_lookup (n_peer_groups ?t) name = Some ?g"
    using assms(2) by (simp add: zyre_node_leader_peer_group_def put_group_def zhash_lookup_alter)
  moreover have "n_outbox ?t = n_outbox (zyre_node_leader_peer_group ?me (n_name self) name self)"
    by (simp add: zyre_node_leader_peer_group_def put_group_def outbox_send_def outbox_sendm_def)
  ultimately show ?thesis using assms(6) by (auto simp: zyre_group_peers_def)
qed

section \<open>JOIN and HELLO\<close>

lemma start_election_seats:
  assumes "node_ok self" and "group_ok (n_peers self) g"
  shows "\<exists>t. start_election env g name self = Inr t
    \<and> seats env name said mine g self (seat_start (uu_str (n_uuid self)) (seat_in (n_heap self) g said mine)) t"
proof -
  obtain e h where e: "start_election env g name self
      = Inr (put_group name (g\<lparr>g_election := Some e, g_leader := None\<rparr>) (self\<lparr>n_heap := h\<rparr>))"
    "wave_in h e = wave_new\<lparr>w_caw := Some (uu_str (n_uuid self))\<rparr>"
    "posted env name (to_all (set (zyre_group_peers g)) (Elect (uu_str (n_uuid self)))) (n_heap self) h"
    by (rule start_election_result [OF assms])
  then show ?thesis unfolding seats_def
    by (intro exI [of _ "put_group name (g\<lparr>g_election := Some e, g_leader := None\<rparr>) (self\<lparr>n_heap := h\<rparr>)"] conjI
        exI [of _ "g\<lparr>g_election := Some e, g_leader := None\<rparr>"] exI [of _ h] exI [of _ "self\<lparr>n_heap := h\<rparr>"])
      (simp_all add: seat_start_def vote_start_def seat_in_def voter_in_def zyre_group_peers_def)
qed

text \<open>A peer is entered, and an election starts or not.\<close>

definition seat_maybe :: "bool \<Rightarrow> 'n \<Rightarrow> 'n seat \<Rightarrow> 'n seat \<times> 'n post" where
  "seat_maybe starts me st = (if starts then seat_start me st else (st, \<lambda>_. []))"

lemma entered_seats:
  assumes "node_ok self" and "zhash_lookup (n_peer_groups self) name = Some g" and "n_heap self a = Some p"
  obtains g' s where "zyre_node_join_peer_group env a name self = Inr (g', s)"
    and "n_outbox s = n_outbox self @ group_event_frames ''JOIN'' p name"
    and "zhash_lookup (n_peer_groups s) name = Some g'" and "n_own_groups s = n_own_groups self"
    and "g_contest g' = g_contest g" and "n_heap s a = Some (p\<lparr>p_status := p_status p + 1\<rparr>)"
    and "\<forall>starts. \<exists>t. (if starts then start_election env g' name s else Inr s) = Inr t
       \<and> seats env name said mine g' s (seat_maybe starts (uu_str (n_uuid self))
           (enseat (zyre_peer_identity p) (seat_in (n_heap self) g said mine))) t"
proof -
  obtain g' s where s: "zyre_node_join_peer_group env a name self = Inr (g', s)"
    "n_outbox s = n_outbox self @ group_event_frames ''JOIN'' p name" "node_ok s"
    "zhash_lookup (n_peer_groups s) name = Some g'" "group_ok (n_peers s) g'" "uu_str (n_uuid s) = uu_str (n_uuid self)"
    "n_own_groups s = n_own_groups self"
    "g_contest g' = g_contest g" "g_leader g' = g_leader g" "g_election g' = g_election g"
    "set (zyre_group_peers g') = insert (zyre_peer_identity p) (set (zyre_group_peers g))"
    "\<exists>n. n_heap s = (n_heap self)(a \<mapsto> p\<lparr>p_status := n\<rparr>) \<and> n = p_status p + 1"
    by (rule join_entered [OF assms])
  then have h: "n_heap s = (n_heap self)(a \<mapsto> p\<lparr>p_status := p_status p + 1\<rparr>)" by simp
  let ?st = "enseat (zyre_peer_identity p) (seat_in (n_heap self) g said mine)"
  have st: "seat_in (n_heap s) g' said mine = ?st"
    unfolding seat_in_def enseat_def voter_in_def s(8-11)
    unfolding h identity_status [where heap = "n_heap self" and a = a, OF assms(3)]
      wave_in_status [where heap = "n_heap self" and a = a, OF assms(3)]
    by simp
  have "\<exists>t. (if starts then start_election env g' name s else Inr s) = Inr t
        \<and> seats env name said mine g' s (seat_maybe starts (uu_str (n_uuid self)) ?st) t" for starts
  proof (cases starts)
    case True
    then show ?thesis
      using start_election_seats [OF s(3,5), of env name said mine] unfolding st s(6) by (simp add: seat_maybe_def)
  next
    case False
    have "seats env name said mine g' s (?st, \<lambda>_. []) s"
      unfolding seats_def using st put_group_same [OF s(3,4)]
      by (intro exI [of _ g'] exI [of _ "n_heap s"] exI [of _ s]) (simp add: enseat_def voter_in_def)
    then show ?thesis using False by (simp add: seat_maybe_def)
  qed
  moreover have "n_heap s a = Some (p\<lparr>p_status := p_status p + 1\<rparr>)" by (simp add: h)
  ultimately show thesis by (intro that [of g' s] s allI)
qed

text \<open>C28: when a peer joins a group the node enters it, tells the application, and, exactly when it is in the
  group itself and contests it, starts an election of its own in place of any that runs, with no leader until it is
  over: \<open>seat_joined\<close>. The group is one the node knows, and the peer's status in the message is the one expected.\<close>

theorem recv_join_seats:
  assumes "node_ok self" and "zhash_lookup (n_peer_groups self) (m_group msg) = Some g"
    and "n_heap self a = Some p" and "m_status msg = p_status p + 1"
  shows "\<exists>g' s t. zyre_node_join_peer_group env a (m_group msg) self = Inr (g', s)
    \<and> n_outbox s = n_outbox self @ group_event_frames ''JOIN'' p (m_group msg)
    \<and> recv_peer_join env a msg self = Inr t
    \<and> seats env (m_group msg) said (zlist_exists (n_own_groups self) (m_group msg)) g' s
        (seat_joined (uu_str (n_uuid self)) (zyre_peer_identity p)
          (seat_in (n_heap self) g said (zlist_exists (n_own_groups self) (m_group msg)))) t"
proof -
  let ?name = "m_group msg" and ?mine = "zlist_exists (n_own_groups self) (m_group msg)"
  obtain g' s where s: "zyre_node_join_peer_group env a ?name self = Inr (g', s)"
    "n_outbox s = n_outbox self @ group_event_frames ''JOIN'' p ?name"
    "zhash_lookup (n_peer_groups s) ?name = Some g'" "n_own_groups s = n_own_groups self"
    "g_contest g' = g_contest g" "n_heap s a = Some (p\<lparr>p_status := p_status p + 1\<rparr>)"
    and t: "\<forall>starts. \<exists>t. (if starts then start_election env g' ?name s else Inr s) = Inr t
       \<and> seats env ?name said ?mine g' s (seat_maybe starts (uu_str (n_uuid self))
           (enseat (zyre_peer_identity p) (seat_in (n_heap self) g said ?mine))) t"
    by (rule entered_seats [where env = env and said = said and mine = ?mine, OF assms(1-3)])
  have "recv_peer_join env a msg self = (if ?mine \<and> g_contest g then start_election env g' ?name s else Inr s)"
    using s(1,3-6) assms(4)
    by (simp add: recv_peer_join_def node_peer_def zyre_node_require_peer_group_def zyre_group_contest_def)
  moreover have "seat_joined (uu_str (n_uuid self)) (zyre_peer_identity p) (seat_in (n_heap self) g said ?mine)
      = seat_maybe (?mine \<and> g_contest g) (uu_str (n_uuid self))
          (enseat (zyre_peer_identity p) (seat_in (n_heap self) g said ?mine))"
    by (simp add: seat_joined_def seat_maybe_def seat_contests_def enseat_def seat_in_def voter_in_def Let_def)
  ultimately show ?thesis using s(1,2) spec [OF t, of "?mine \<and> g_contest g"] by simp
qed

text \<open>The same for a group that a HELLO lists, with no question whether the node is in it itself.\<close>

lemma hello_join_seats:
  assumes "node_ok self" and "zhash_lookup (n_peer_groups self) name = Some g" and "n_heap self a = Some p"
  shows "\<exists>g' s t. zyre_node_join_peer_group env a name self = Inr (g', s) \<and> hello_join env a name self = Inr t
    \<and> seats env name said mine g' s
        (seat_ballot (uu_str (n_uuid self)) (zyre_peer_identity p) Greeted (seat_in (n_heap self) g said mine)) t"
proof -
  obtain g' s where s: "zyre_node_join_peer_group env a name self = Inr (g', s)"
    "zhash_lookup (n_peer_groups s) name = Some g'" "g_contest g' = g_contest g"
    and t: "\<forall>starts. \<exists>t. (if starts then start_election env g' name s else Inr s) = Inr t
       \<and> seats env name said mine g' s (seat_maybe starts (uu_str (n_uuid self))
           (enseat (zyre_peer_identity p) (seat_in (n_heap self) g said mine))) t"
    by (rule entered_seats [where env = env and said = said and mine = mine, OF assms])
  have "hello_join env a name self = (if g_contest g then start_election env g' name s else Inr s)"
    using s(1-3) by (simp add: hello_join_def zyre_node_require_peer_group_def zyre_group_contest_def)
  moreover have "seat_ballot (uu_str (n_uuid self)) (zyre_peer_identity p) Greeted (seat_in (n_heap self) g said mine)
      = seat_maybe (g_contest g) (uu_str (n_uuid self)) (enseat (zyre_peer_identity p) (seat_in (n_heap self) g said mine))"
    by (simp add: seat_ballot_def seat_maybe_def seat_start_def enseat_def vote_def vote_greeted_def seat_in_def
        voter_in_def vote_start_def)
  ultimately show ?thesis using s(1) spec [OF t, of "g_contest g"] by simp
qed

section \<open>LEAVE\<close>

text \<open>C15: when a member leaves a group the node takes it out, tells the application, and restarts the
  election exactly when it is in the group itself, contests it, and the member led it: \<open>seat_left\<close>.\<close>

theorem recv_leave_seats:
  assumes "node_ok self" and "zhash_lookup (n_peer_groups self) (m_group msg) = Some g"
    and "leader_lives self g" and "n_heap self a = Some p" and "c_string (zyre_peer_identity p)"
    and "m_status msg = p_status p + 1"
  shows "\<exists>g' s t. zyre_node_leave_peer_group env a (m_group msg) self = Inr (g', s)
    \<and> n_outbox s = n_outbox self @ group_event_frames ''LEAVE'' p (m_group msg)
    \<and> recv_peer_leave env a msg self = Inr t
    \<and> seats env (m_group msg) said (zlist_exists (n_own_groups self) (m_group msg)) g' s
        (seat_left (uu_str (n_uuid self)) (zyre_peer_identity p)
          (seat_in (n_heap self) g said (zlist_exists (n_own_groups self) (m_group msg)))) t"
proof -
  let ?name = "m_group msg" and ?k = "zyre_peer_identity p" and ?me = "uu_str (n_uuid self)"
  let ?mine = "zlist_exists (n_own_groups self) ?name"
  let ?p = "p\<lparr>p_status := p_status p + 1\<rparr>"
  let ?h = "(n_heap self)(a \<mapsto> ?p)"
  let ?g = "g\<lparr>g_peers := zhash_delete ?k (g_peers g)\<rparr>"
  let ?s = "outbox_send ?name (outbox_sendm (zyre_peer_name p) (outbox_sendm ?k
     (outbox_sendm ''LEAVE'' (put_group ?name ?g (self\<lparr>n_heap := ?h\<rparr>)))))"
  have leave: "zyre_node_leave_peer_group env a ?name self = Inr (?g, ?s)"
    using assms(2,4) by (simp add: zyre_node_leave_peer_group_def zyre_node_require_peer_group_def zyre_group_leave_def
        Let_def node_peer_def put_group_def put_peer_def zyre_peer_set_status_def zyre_peer_identity_def zyre_peer_name_def)
  have st: "safe self ?s" using ensuresD [OF steady_leave leave] assms(1) by (intro safeI) simp_all
  then have ok: "node_ok ?s" by (rule safeD(2))
  have look: "zhash_lookup (n_peer_groups ?s) ?name = Some ?g"
    using assms(2) by (simp add: put_group_def zhash_lookup_alter outbox_send_def outbox_sendm_def)
  then have okg: "group_ok (n_peers ?s) ?g" using group_ok_lookup [OF node_okD(3) [OF ok]] by blast
  have s: "n_heap ?s = ?h" "uu_str (n_uuid ?s) = ?me" "n_own_groups ?s = n_own_groups self"
    by (simp_all add: put_group_def outbox_send_def outbox_sendm_def)
  have out: "n_outbox ?s = n_outbox self @ group_event_frames ''LEAVE'' p ?name"
    by (simp add: put_group_def group_event_frames_def outbox_send_def outbox_sendm_def)
  have seat: "seat_in (n_heap ?s) ?g said ?mine = unseat ?k (seat_in (n_heap self) g said ?mine)"
    unfolding s by (rule seat_in_leave [where heap = "n_heap self" and a = a, OF assms(4)])
  have lives: "leader_lives ?s ?g"
    using assms(3,4) unfolding leader_lives_def s by (auto simp: zyre_peer_identity_def)
  note led = leader_is_seat [OF lives assms(5), where said = said and mine = ?mine, unfolded seat]
  have st: "recv_peer_leave env a msg self = (if ?mine \<and> g_contest g \<and> s_leader (unseat ?k (seat_in (n_heap self) g said ?mine)) = Some ?k
      then elect_again env 0 ?g ?name ?s else Inr ?s)"
    by (cases "g_contest g")
      (use leave assms(6) led s in \<open>simp_all add: recv_peer_leave_def node_peer_def zyre_group_contest_def zyre_peer_identity_def\<close>)
  let ?st = "unseat ?k (seat_in (n_heap self) g said ?mine)"
  have left: "seat_left ?me ?k (seat_in (n_heap self) g said ?mine)
      = (if ?mine \<and> g_contest g \<and> s_leader ?st = Some ?k then seat_restart ?me 0 ?st else (?st, \<lambda>_. []))"
    by (simp add: seat_left_def seat_contests_def unseat_def seat_in_def voter_in_def Let_def)
  show ?thesis
  proof (cases "?mine \<and> g_contest g \<and> s_leader ?st = Some ?k")
    case True
    obtain t where "elect_again env 0 ?g ?name ?s = Inr t"
      "seats env ?name said ?mine ?g ?s (seat_restart ?me 0 ?st) t"
      using elect_again_seats [OF ok okg, where said = said and mine = ?mine, unfolded seat s(2)] by blast
    then show ?thesis using leave st left True out by auto
  next
    case False
    have "seats env ?name said ?mine ?g ?s (?st, \<lambda>_. []) ?s"
      unfolding seats_def using seat put_group_same [OF ok look]
      by (intro exI [of _ ?g] exI [of _ "n_heap ?s"] exI [of _ ?s]) (simp add: unseat_def voter_in_def seat_in_def)
    then show ?thesis using leave st left False out by auto
  qed
qed

section \<open>On concrete input\<close>

text \<open>A node that follows peer 1 in a contested group of three peers, and one that holds an election with peer 2 only.\<close>

definition led_group :: zyre_group where
  "led_group = trio_group\<lparr>g_contest := True, g_leader := Some 0\<rparr>"

definition led_node :: zyre_node where
  "led_node = put_group ''A'' led_group (trio_node\<lparr>n_own_groups := [''A'']\<rparr>)"

definition pair_group :: zyre_group where
  "pair_group = trio_group\<lparr>g_peers := [(''2'', 1)], g_contest := True, g_election := Some zyre_election_new\<rparr>"

definition pair_node :: zyre_node where
  "pair_node = put_group ''A'' pair_group (trio_node\<lparr>n_own_groups := [''A'']\<rparr>)"

lemma led_ok: "node_ok led_node" "node_ok pair_node"
  by (auto simp: node_ok_def led_node_def led_group_def pair_node_def pair_group_def trio_node_def trio_group_def
      zyre_group_new_def filed_def wf_zhash_def heap_ok_def groups_ok_def group_ok_def zyre_peer_init_def peer_ok_def
      put_group_def zhash_alter_def)

lemma led_lookup:
  "zhash_lookup (n_peer_groups led_node) ''A'' = Some led_group" "zhash_lookup (n_peer_groups pair_node) ''A'' = Some pair_group"
  "g_contest led_group" "g_contest pair_group" "leader_lives led_node led_group" "leader_lives pair_node pair_group"
  "n_heap led_node 0 = Some (zyre_peer_init \<lparr>uu_data = [], uu_str = ''1''\<rparr>)"
  by (simp_all add: led_node_def led_group_def pair_node_def pair_group_def trio_node_def trio_group_def put_group_def
      zhash_alter_def zhash_lookup_def leader_lives_def zyre_group_new_def zyre_peer_init_def zyre_peer_identity_def
      c_string_def)

theorem remove_restart_seats_witness:
  "\<exists>t. remove_restart run_env ''1'' ''A'' led_node = Inr t \<and> seats run_env ''A'' [] True led_group led_node
    (seat_gone (uu_str (n_uuid led_node)) ''1'' (seat_in (n_heap led_node) led_group [] True)) t"
  by (rule remove_restart_seats [OF led_ok(1) led_lookup(1,5)]) (simp add: c_string_def)

theorem removal_makes_leader_witness:
  "\<exists>t g'. remove_restart run_env ''1'' ''A'' pair_node = Inr t \<and> zhash_lookup (n_peer_groups t) ''A'' = Some g'
    \<and> n_outbox t = n_outbox (zyre_node_leader_peer_group (uu_str (n_uuid pair_node)) (n_name pair_node) ''A'' pair_node)
    \<and> zyre_group_peers g' = [''2''] \<and> g_election g' = None \<and> g_leader g' = None"
  by (rule removal_makes_leader [OF led_ok(2) led_lookup(2,4,6), where e = zyre_election_new])
    (simp_all add: c_string_def pair_group_def zyre_group_peers_def zhash_keys_def zyre_election_new_def)

theorem recv_join_seats_witness:
  "\<exists>g' s t. zyre_node_join_peer_group run_env 0 (m_group (zre_msg_new\<lparr>m_group := ''A'', m_status := 1\<rparr>)) led_node = Inr (g', s)
    \<and> n_outbox s = n_outbox led_node @ group_event_frames ''JOIN'' (zyre_peer_init \<lparr>uu_data = [], uu_str = ''1''\<rparr>)
        (m_group (zre_msg_new\<lparr>m_group := ''A'', m_status := 1\<rparr>))
    \<and> recv_peer_join run_env 0 (zre_msg_new\<lparr>m_group := ''A'', m_status := 1\<rparr>) led_node = Inr t
    \<and> seats run_env (m_group (zre_msg_new\<lparr>m_group := ''A'', m_status := 1\<rparr>)) []
        (zlist_exists (n_own_groups led_node) (m_group (zre_msg_new\<lparr>m_group := ''A'', m_status := 1\<rparr>))) g' s
        (seat_joined (uu_str (n_uuid led_node)) (zyre_peer_identity (zyre_peer_init \<lparr>uu_data = [], uu_str = ''1''\<rparr>))
          (seat_in (n_heap led_node) led_group []
            (zlist_exists (n_own_groups led_node) (m_group (zre_msg_new\<lparr>m_group := ''A'', m_status := 1\<rparr>))))) t"
  by (rule recv_join_seats [OF led_ok(1) _ led_lookup(7)]) (simp_all add: led_lookup zyre_peer_init_def)

theorem recv_leave_seats_witness:
  "\<exists>g' s t. zyre_node_leave_peer_group run_env 0 (m_group (zre_msg_new\<lparr>m_group := ''A'', m_status := 1\<rparr>)) led_node = Inr (g', s)
    \<and> n_outbox s = n_outbox led_node @ group_event_frames ''LEAVE'' (zyre_peer_init \<lparr>uu_data = [], uu_str = ''1''\<rparr>)
        (m_group (zre_msg_new\<lparr>m_group := ''A'', m_status := 1\<rparr>))
    \<and> recv_peer_leave run_env 0 (zre_msg_new\<lparr>m_group := ''A'', m_status := 1\<rparr>) led_node = Inr t
    \<and> seats run_env (m_group (zre_msg_new\<lparr>m_group := ''A'', m_status := 1\<rparr>)) []
        (zlist_exists (n_own_groups led_node) (m_group (zre_msg_new\<lparr>m_group := ''A'', m_status := 1\<rparr>))) g' s
        (seat_left (uu_str (n_uuid led_node)) (zyre_peer_identity (zyre_peer_init \<lparr>uu_data = [], uu_str = ''1''\<rparr>))
          (seat_in (n_heap led_node) led_group []
            (zlist_exists (n_own_groups led_node) (m_group (zre_msg_new\<lparr>m_group := ''A'', m_status := 1\<rparr>))))) t"
  by (rule recv_leave_seats [OF led_ok(1) _ led_lookup(5,7)])
    (simp_all add: led_lookup zyre_peer_init_def zyre_peer_identity_def c_string_def)

end
