(* ===== verification/Zyre_Talk_Props.thy ===== *)
theory Zyre_Talk_Props
  imports Zyre_Membership_Props Zyre_Event_Props
begin

text \<open>
  From application to application: whatever one application joins, leaves, whispers and shouts, the
  application of another node reads as events, in the same order and with the same content, after its node
  has read the messages.
\<close>

section \<open>What is said and what is heard\<close>

datatype call = Own own_call | Whisper_call string "byte list list" | Shout_call string "byte list list"

fun call_frames :: "call \<Rightarrow> zframe list" where
  "call_frames (Own c) = call_request c"
| "call_frames (Whisper_call peer content) = zyre_whisper peer content"
| "call_frames (Shout_call name content) = zyre_shout name content"

fun call_ok :: "call \<Rightarrow> bool" where
  "call_ok (Own c) \<longleftrightarrow> field_ok (call_name c)"
| "call_ok (Whisper_call peer content) \<longleftrightarrow> c_string peer \<and> content \<noteq> []"
| "call_ok (Shout_call name content) \<longleftrightarrow> field_ok name \<and> content \<noteq> []"

fun view_step :: "call \<Rightarrow> string list \<times> byte \<Rightarrow> string list \<times> byte" where
  "view_step (Own c) view = own_step c view"
| "view_step _ view = view"

text \<open>
  The messages for the node \<open>k\<close>, which is in the groups \<open>G\<close>, and the events its application gets of a peer
  with identity \<open>u\<close> and name \<open>nm\<close>.
\<close>

fun call_message :: "string \<Rightarrow> (string \<Rightarrow> bool) \<Rightarrow> call \<Rightarrow> string list \<times> byte \<Rightarrow> zre_msg list" where
  "call_message k G (Own c) view = own_message c view"
| "call_message k G (Whisper_call peer content) view = (if peer = k then [whisper_message content] else [])"
| "call_message k G (Shout_call name content) view = (if G name then [shout_message name content] else [])"

fun call_events :: "string \<Rightarrow> (string \<Rightarrow> bool) \<Rightarrow> string \<Rightarrow> string \<Rightarrow> call \<Rightarrow> string list \<times> byte \<Rightarrow> zyre_event list" where
  "call_events k G u nm (Own c) view = (if own_message c view = [] then []
     else [(event_of (call_event c) u nm)\<lparr>ev_group := Some (call_name c)\<rparr>])"
| "call_events k G u nm (Whisper_call peer content) view = (if peer = k
     then [(event_of ''WHISPER'' u nm)\<lparr>ev_msg := Some content\<rparr>] else [])"
| "call_events k G u nm (Shout_call name content) view = (if G name
     then [(event_of ''SHOUT'' u nm)\<lparr>ev_group := Some name, ev_msg := Some content\<rparr>] else [])"

fun call_messages :: "string \<Rightarrow> (string \<Rightarrow> bool) \<Rightarrow> call list \<Rightarrow> string list \<times> byte \<Rightarrow> zre_msg list" where
  "call_messages k G [] view = []"
| "call_messages k G (c # cs) view = call_message k G c view @ call_messages k G cs (view_step c view)"

fun heard_events :: "string \<Rightarrow> (string \<Rightarrow> bool) \<Rightarrow> string \<Rightarrow> string \<Rightarrow> call list \<Rightarrow> string list \<times> byte \<Rightarrow> zyre_event list" where
  "heard_events k G u nm [] view = []"
| "heard_events k G u nm (c # cs) view = call_events k G u nm c view @ heard_events k G u nm cs (view_step c view)"

lemma own_ok_view_step: "own_ok view \<Longrightarrow> call_ok c \<Longrightarrow> own_ok (view_step c view)"
  by (cases c) (auto simp: field_ok_def intro: own_ok_step)

section \<open>The sender\<close>

definition speak :: "env \<Rightarrow> call list \<Rightarrow> zyre_node \<Rightarrow> zyre_node outcome" where
  "speak env = each (\<lambda>c. zyre_node_recv_api env (request_of (call_frames c)))"

lemma dup_plain:
  assumes "sendable m" and "m_headers m = None" and "m_headers_bytes m = 0"
  shows "zre_msg_dup r m = m"
proof -
  have "fields_ok m" using assms(1) by (simp add: sendable_def)
  then show ?thesis using assms(2,3) by (intro zre_msg.equality) (simp_all add: zre_msg_dup_fields)
qed

lemma whisper_dup [simp]: "zre_msg_dup r (whisper_message content) = whisper_message content"
  using messages_sendable by (intro dup_plain) (simp_all add: whisper_message_def zre_msg_new_def)

lemma shout_dup [simp]: "field_ok name \<Longrightarrow> zre_msg_dup r (shout_message name content) = shout_message name content"
  using messages_sendable by (intro dup_plain) (simp_all add: shout_message_def zre_msg_new_def)

lemma whisper_wrote:
  assumes "node_ok self" and "c_string peer" and "content \<noteq> []" and "\<forall>q. \<not> env_full env q"
    and "(k, a) \<in> set (n_peers self)" and "n_heap self a = Some p" and "p_connected p"
  shows "\<exists>h p' fs. zyre_node_recv_api env (request_of (zyre_whisper peer content)) self = Inr (self\<lparr>n_heap := h\<rparr>)
    \<and> same_objects (n_heap self) h \<and> h a = Some p' \<and> wrote fs (if peer = k then [whisper_message content] else []) p p'"
proof -
  have look: "zhash_lookup (n_peers self) k = Some a" using peer_lookup_iff [OF assms(1)] assms(5) by simp
  have pok: "peer_ok p" using heap_okD [OF node_okD(2) [OF assms(1)] assms(6)] .
  have req: "request_of (zyre_whisper peer content) = str_bytes ''WHISPER'' # str_bytes peer # content"
    using assms(3) zmsg_recv_msg [of content "[]"] by (simp add: request_of_def zyre_whisper_def)
  show ?thesis
  proof (cases "zhash_lookup (n_peers self) peer")
    case None
    then have "zyre_node_recv_api env (request_of (zyre_whisper peer content)) self = Inr (self\<lparr>n_heap := n_heap self\<rparr>)"
      by (simp add: req assms(2) api_whisper_def)
    moreover have "peer \<noteq> k" using None look by auto
    ultimately show ?thesis using assms(6) wrote_nothing [OF assms(7) pok]
      by (intro exI [of _ "n_heap self"] exI [of _ p] exI [of _ "[]"]) simp
  next
    case (Some b)
    then obtain q where q: "n_heap self b = Some q" "peer_ok q"
      using filed_peer [OF assms(1)] zhash_lookup_SomeD by metis
    obtain q' where q': "zyre_peer_send env q (whisper_message content) = Inr (0, q')"
      "heap_peer_send env (whisper_message content) b (n_heap self) = Inr ((n_heap self)(b \<mapsto> q'))"
      using heap_peer_send_live [of "n_heap self" b q, OF q] by metis
    let ?h = "(n_heap self)(b \<mapsto> q')"
    have sent: "zyre_node_recv_api env (request_of (zyre_whisper peer content)) self = Inr (self\<lparr>n_heap := ?h\<rparr>)"
      using q'(2) Some
      by (simp add: req assms(2) api_whisper_def node_peer_send_def node_on_heap_def whisper_message_def zyre_simps)
    have same: "same_objects (n_heap self) ?h" using ensuresD [OF heap_peer_send_keeps q'(2)] .
    show ?thesis
    proof (cases "peer = k")
      case True
      then have "b = a" using Some look by simp
      then have "q = p" using q(1) assms(6) by simp
      then obtain fs where "wrote fs [whisper_message content] p q'"
        using peer_send_wrote [OF assms(7) pok assms(4)] q'(1) by blast
      then show ?thesis using sent same True \<open>b = a\<close> by (intro exI [of _ ?h] exI [of _ q'] exI [of _ fs]) simp
    next
      case False
      then have "b \<noteq> a" using Some look peer_lookup_iff [OF assms(1)] filed_addr_unique [OF node_okD(1) [OF assms(1)]] by metis
      then show ?thesis using sent same False assms(6) wrote_nothing [OF assms(7) pok]
        by (intro exI [of _ ?h] exI [of _ p] exI [of _ "[]"]) simp
    qed
  qed
qed

lemma shout_wrote:
  assumes "node_ok self" and "field_ok name" and "content \<noteq> []" and "\<forall>q. \<not> env_full env q"
    and "(k, a) \<in> set (n_peers self)" and "n_heap self a = Some p" and "p_connected p"
  shows "\<exists>h p' fs. zyre_node_recv_api env (request_of (zyre_shout name content)) self = Inr (self\<lparr>n_heap := h\<rparr>)
    \<and> same_objects (n_heap self) h \<and> h a = Some p'
    \<and> wrote fs (if member self k name then [shout_message name content] else []) p p'"
proof -
  have pok: "peer_ok p" using heap_okD [OF node_okD(2) [OF assms(1)] assms(6)] .
  have c: "c_string name" and f: "field256 name = name" using assms(2) by (simp_all add: field_ok_def)
  have req: "request_of (zyre_shout name content) = str_bytes ''SHOUT'' # str_bytes name # content"
    using assms(3) zmsg_recv_msg [of content "[]"] by (simp add: request_of_def zyre_shout_def)
  show ?thesis
  proof (cases "zhash_lookup (n_peer_groups self) name")
    case None
    then have "zyre_node_recv_api env (request_of (zyre_shout name content)) self = Inr (self\<lparr>n_heap := n_heap self\<rparr>)"
      by (simp add: req c api_shout_def)
    moreover have "\<not> member self k name" using None by (simp add: member_def)
    ultimately show ?thesis using assms(6) wrote_nothing [OF assms(7) pok]
      by (intro exI [of _ "n_heap self"] exI [of _ p] exI [of _ "[]"]) simp
  next
    case (Some g)
    have g: "group_ok (n_peers self) g" by (rule group_ok_lookup [OF node_okD(3) [OF assms(1)] Some])
    then have filed: "filed (n_heap self) (g_peers g)" by (rule group_ok_filed [OF node_okD(1) [OF assms(1)]])
    let ?m = "zre_msg_dup (env_rank env) (shout_message name content)"
    obtain h where h: "zyre_group_send env g (shout_message name content) (n_heap self) = Inr h"
      "same_objects (n_heap self) h"
      "\<And>k a p. (k, a) \<in> set (g_peers g) \<Longrightarrow> n_heap self a = Some p \<Longrightarrow> \<exists>p'. h a = Some p' \<and> zyre_peer_send env p ?m = Inr (0, p')"
      "\<And>b. b \<notin> snd ` set (g_peers g) \<Longrightarrow> h b = n_heap self b"
      by (rule group_send_result [OF filed node_okD(2) [OF assms(1)], of env "shout_message name content"]) (rule that)
    have sent: "zyre_node_recv_api env (request_of (zyre_shout name content)) self = Inr (self\<lparr>n_heap := h\<rparr>)"
      using h(1) Some by (simp add: req c api_shout_def node_group_send_def node_on_heap_def shout_message_def zyre_simps f)
    have mem: "member self k name \<longleftrightarrow> k \<in> fst ` set (g_peers g)"
      using Some zhash_lookup_None [of "g_peers g" k] by (auto simp: member_def)
    have sub: "set (g_peers g) \<subseteq> set (n_peers self)" using g by (simp add: group_ok_def)
    show ?thesis
    proof (cases "member self k name")
      case True
      then obtain b where b: "(k, b) \<in> set (g_peers g)" using mem by auto
      then have "b = a" using sub assms(5) peer_lookup_iff [OF assms(1)] by (metis option.inject subsetD)
      then obtain p' where p': "h a = Some p'" "zyre_peer_send env p ?m = Inr (0, p')" using h(3) b assms(6) by blast
      obtain fs where "wrote fs [?m] p p'" using peer_send_wrote [OF assms(7) pok assms(4) p'(2)] by blast
      then have "wrote fs [shout_message name content] p p'" using assms(2) by simp
      then show ?thesis using sent h(2) p'(1) True by (intro exI [of _ h] exI [of _ p'] exI [of _ fs]) simp
    next
      case False
      have "a \<notin> snd ` set (g_peers g)"
      proof
        assume "a \<in> snd ` set (g_peers g)"
        then obtain j where j: "(j, a) \<in> set (g_peers g)" by auto
        then have "j = k" using sub assms(5) filed_addr_unique [OF node_okD(1) [OF assms(1)]] by blast
        then show False using False mem j by force
      qed
      then have "h a = Some p" using h(4) assms(6) by simp
      then show ?thesis using sent h(2) False wrote_nothing [OF assms(7) pok]
        by (intro exI [of _ h] exI [of _ p] exI [of _ "[]"]) simp
    qed
  qed
qed

lemma speak_one:
  assumes "node_ok self" and "own_ok (own_view self)" and "call_ok c" and "\<forall>q. \<not> env_full env q"
    and "(k, a) \<in> set (n_peers self)" and "n_heap self a = Some p" and "p_connected p"
  obtains s p' fs where "zyre_node_recv_api env (request_of (call_frames c)) self = Inr s" and "node_ok s"
    and "n_peers s = n_peers self" and "n_peer_groups s = n_peer_groups self"
    and "own_view s = view_step c (own_view self)" and "n_heap s a = Some p'"
    and "wrote fs (map (zre_msg_dup (env_rank env)) (call_message k (member self k) c (own_view self))) p p'"
proof (cases c)
  case (Own own)
  have f: "field_ok (call_name own)" using assms(3) Own by simp
  show thesis
    by (rule call_refines [OF assms(1,2) f assms(4-7)]) (rule that, simp_all add: Own)
next
  case (Whisper_call peer content)
  obtain h p' fs where h: "zyre_node_recv_api env (request_of (zyre_whisper peer content)) self = Inr (self\<lparr>n_heap := h\<rparr>)"
    "same_objects (n_heap self) h" "h a = Some p'" "wrote fs (if peer = k then [whisper_message content] else []) p p'"
    using whisper_wrote [OF assms(1) _ _ assms(4-7), of peer content] assms(3) Whisper_call by auto
  then show thesis using steadyD(3) [OF steady_heap [OF h(2)]] assms(1) Whisper_call
    by (intro that [of "self\<lparr>n_heap := h\<rparr>" p' fs]) (auto simp: own_view_def)
next
  case (Shout_call name content)
  have f: "field_ok name" using assms(3) Shout_call by simp
  obtain h p' fs where h: "zyre_node_recv_api env (request_of (zyre_shout name content)) self = Inr (self\<lparr>n_heap := h\<rparr>)"
    "same_objects (n_heap self) h" "h a = Some p'" "wrote fs (if member self k name then [shout_message name content] else []) p p'"
    using shout_wrote [OF assms(1) f _ assms(4-7), of content] assms(3) Shout_call by auto
  then show thesis using steadyD(3) [OF steady_heap [OF h(2)]] assms(1) Shout_call f
    by (intro that [of "self\<lparr>n_heap := h\<rparr>" p' fs]) (auto simp: own_view_def)
qed

lemma speak_refines:
  assumes "node_ok self" and "own_ok (own_view self)" and "\<forall>c \<in> set calls. call_ok c" and "\<forall>q. \<not> env_full env q"
    and "(k, a) \<in> set (n_peers self)" and "n_heap self a = Some p" and "p_connected p"
  shows "\<exists>s p' fs. speak env calls self = Inr s \<and> own_view s = fold view_step calls (own_view self)
    \<and> n_heap s a = Some p'
    \<and> wrote fs (map (zre_msg_dup (env_rank env)) (call_messages k (member self k) calls (own_view self))) p p'"
  using assms
proof (induction calls arbitrary: self p)
  case Nil
  have "wrote [] [] p p" using wrote_nothing Nil heap_okD [OF node_okD(2) [OF Nil(1)]] by simp
  then show ?case using Nil by (auto simp: speak_def)
next
  case (Cons c calls)
  let ?dup = "map (zre_msg_dup (env_rank env))"
  have c: "call_ok c" using Cons.prems(3) by simp
  obtain s q fs where s: "zyre_node_recv_api env (request_of (call_frames c)) self = Inr s" "node_ok s"
    "n_peers s = n_peers self" "n_peer_groups s = n_peer_groups self" "own_view s = view_step c (own_view self)"
    "n_heap s a = Some q" "wrote fs (?dup (call_message k (member self k) c (own_view self))) p q"
    by (rule speak_one [OF Cons.prems(1,2) c Cons.prems(4-7)])
  have "member s k = member self k" using member_cong [OF s(4)] by (simp add: fun_eq_iff)
  moreover have "own_ok (own_view s)" using s(5) own_ok_view_step [OF Cons.prems(2) c] by simp
  moreover have "p_connected q" using s(7) by (simp add: wrote_def)
  ultimately obtain t r gs where t: "speak env calls s = Inr t" "own_view t = fold view_step calls (own_view s)"
    "n_heap t a = Some r" "wrote gs (?dup (call_messages k (member self k) calls (own_view s))) q r"
    using Cons.IH [of s q] s(2,3,6) Cons.prems(3-5) by auto
  have "speak env (c # calls) self = Inr t" using s(1) t(1) by (simp add: speak_def)
  moreover have "wrote (fs @ gs) (?dup (call_messages k (member self k) (c # calls) (own_view self))) p r"
    using wrote_trans [OF s(7) t(4)] s(5) by simp
  ultimately show ?case using t(2,3) s(5) by auto
qed

section \<open>The reader\<close>

text \<open>The application reads so many events.\<close>

fun read_events :: "(byte list \<Rightarrow> string zhash option) \<Rightarrow> nat \<Rightarrow> zframe list \<Rightarrow> (zyre_event list \<times> zframe list) outcome" where
  "read_events unpack 0 inbox = Inr ([], inbox)"
| "read_events unpack (Suc n) inbox = and_then (zyre_event_new unpack inbox) (\<lambda>(event, inbox).
     and_then (read_events unpack n inbox) (\<lambda>(events, inbox). Inr (event # events, inbox)))"

text \<open>The frames are those of these events, wherever they stand.\<close>

definition shown :: "(byte list \<Rightarrow> string zhash option) \<Rightarrow> zframe list \<Rightarrow> zyre_event list \<Rightarrow> bool" where
  "shown unpack fs events \<longleftrightarrow> (\<forall>later. read_events unpack (length events) (fs @ later) = Inr (events, later))"

lemma shown_nothing [simp]: "shown unpack [] []"
  by (simp add: shown_def)

lemma read_events_append:
  assumes "read_events unpack (length es) fs = Inr (es, gs)" and "read_events unpack n gs = Inr (hs, later)"
  shows "read_events unpack (length es + n) fs = Inr (es @ hs, later)"
  using assms by (induction es arbitrary: fs) auto

lemma shown_append: "shown unpack fs es \<Longrightarrow> shown unpack gs hs \<Longrightarrow> shown unpack (fs @ gs) (es @ hs)"
  by (simp add: shown_def read_events_append)

lemma shown_one: "(\<And>later. zyre_event_new unpack (fs @ later) = Inr (e, later)) \<Longrightarrow> shown unpack fs [e]"
  by (simp add: shown_def)

text \<open>A picture of a peer that includes its name.\<close>

definition pictures :: "string \<Rightarrow> string list \<times> byte \<Rightarrow> 16 word \<Rightarrow> string \<Rightarrow> zyre_node \<Rightarrow> bool" where
  "pictures nm view k ident self \<longleftrightarrow> mirrors view k ident self
     \<and> (\<exists>p. known_peer self ident = Some p \<and> zyre_peer_name p = nm)"

text \<open>One WHISPER or SHOUT, read from the inbox.\<close>

lemma recv_talk:
  assumes "node_ok self" and "uncontested self" and "pictures nm view k ident self"
    and "zre_msg_recv (env_rank env) True zre_msg_new (n_inbox self) = (0, msg, rest)"
    and "m_routing_id msg = Some (b # d)" and "length d = 16" and "ident = uu_str (env_uuid_of env d)"
    and kind: "m_id msg = ZRE_MSG_WHISPER \<or> m_id msg = ZRE_MSG_SHOUT"
    and "m_content msg = Some content" and "content \<noteq> []" and "m_sequence msg = k + 1"
  obtains s where "zyre_node_recv_peer env self = Inr s" and "node_ok s" and "uncontested s"
    and "pictures nm view (k + 1) ident s" and "n_inbox s = rest"
    and "n_outbox s = n_outbox self @ (if m_id msg = ZRE_MSG_WHISPER then whisper_frames ident nm content
        else shout_frames ident nm (m_group msg) content)"
proof -
  obtain a p where p: "zhash_lookup (n_peers self) ident = Some a" "n_heap self a = Some p" "p_ready p"
    "p_status p = snd view" "p_want_sequence p = k" "\<And>name. member self ident name \<longleftrightarrow> name \<in> set (fst view)"
    "zyre_peer_name p = nm"
    using assms(3) by (auto simp: pictures_def mirrors_def known_peer_def)
  let ?u = "env_uuid_of env d" and ?q = "p\<lparr>p_want_sequence := k + 1\<rparr>"
  let ?i = "self\<lparr>n_inbox := rest\<rparr>"
  let ?t = "?i\<lparr>n_heap := put_peer a ?q (n_heap self)\<rparr>"
  let ?fs = "if m_id msg = ZRE_MSG_WHISPER then whisper_frames ident nm content
        else shout_frames ident nm (m_group msg) content"
  let ?s = "?t\<lparr>n_outbox := n_outbox self @ ?fs\<rparr>"
  have same: "same_objects (n_heap ?i) (put_peer a ?q (n_heap self))"
    using same_objects_put [of "n_heap self" a p ?q] p(2) by simp
  have "node_ok ?t" using steadyD(3) [OF steady_heap [OF same]] assms(1) by simp
  then have ok: "node_ok ?s" by (simp add: node_ok_def)
  have tq: "n_heap ?t a = Some ?q" "zyre_peer_name ?q = nm" using p(7) by (simp_all add: put_peer_def zyre_peer_name_def)
  have cmd: "recv_peer_command env a ?u msg ?t = Inr (Some a, ?s)"
    using kind talk_written [OF tq(1) assms(9,10), of ?u] tq(2) assms(7) by (auto simp: recv_peer_command_def)
  have sq: "n_heap ?s a = Some ?q" by (simp add: put_peer_def)
  obtain t1 t2 j where r: "node_refresh env a ?s = Inr (?s\<lparr>n_ticks := j, n_heap := (n_heap ?s)(a \<mapsto>
      ?q\<lparr>p_evasive_at := t1, p_expired_at := t2\<rparr>)\<rparr>)" (is "_ = Inr ?r")
    using refresh_live [OF sq, of env] by blast
  have eq: "zyre_node_recv_peer env self = Inr ?r"
    using p(1,2,3,5) cmd r kind assms(4-7,11)
    by (auto simp: zyre_node_recv_peer_def recv_from_def recv_ready_def node_peer_def zyre_peer_ready_def
        zyre_peer_messages_lost_def)
  have "node_ok ?r" by (rule steadyD(3) [OF ensuresD [OF steady_refresh r] ok])
  moreover have "pictures nm view (k + 1) ident ?r"
    using p by (simp add: pictures_def mirrors_def known_peer_def member_def zyre_peer_name_def)
  moreover have "uncontested ?r" using assms(2) by (simp add: uncontested_def)
  ultimately show thesis by (intro that [OF eq]) simp_all
qed

lemma received_talk:
  assumes "sendable m" and "m_headers m = None" and "m_id m = ZRE_MSG_WHISPER \<or> m_id m = ZRE_MSG_SHOUT"
    and "m_content m = Some content"
    and "msg = zre_msg_received rank rid (zre_msg_set_sequence (zre_msg_dup r m) k)"
  shows "m_id msg = m_id m" "m_content msg = Some content" "m_sequence msg = k" "m_routing_id msg = Some rid"
    "m_id m = ZRE_MSG_SHOUT \<Longrightarrow> m_group msg = m_group m"
proof -
  have "fields_ok m" using assms(1) by (simp add: sendable_def)
  then have "msg = zre_msg_received rank rid (zre_msg_set_sequence m k)"
    using received_dup [OF _ assms(2)] assms(5) by simp
  then show "m_id msg = m_id m" "m_content msg = Some content" "m_sequence msg = k" "m_routing_id msg = Some rid"
    "m_id m = ZRE_MSG_SHOUT \<Longrightarrow> m_group msg = m_group m"
    using assms(3,4)
    by (auto simp: zre_msg_received_def store_fields_def zyre_simps Let_def sent_content_def have_content_def)
qed

lemma group_event_read:
  assumes "c_string (zyre_peer_identity p)" and "c_string (zyre_peer_name p)" and "c_string name"
  shows "zyre_event_new unpack (group_event_frames (call_event c) p name @ later)
    = Inr ((event_of (call_event c) (zyre_peer_identity p) (zyre_peer_name p))\<lparr>ev_group := Some name\<rparr>, later)"
  using assms by (cases c) (simp_all add: group_event_frames_def event_new_multipart zyre_event_parse_def event_of_def
      c_string_def del: multipart.simps)

text \<open>A message of any call.\<close>

lemma recv_call:
  assumes "node_ok self" and "uncontested self" and pic: "pictures nm view n ident self" and "own_ok view" and "call_ok c"
    and m: "call_message k G c view = [m]"
    and recv: "zre_msg_recv (env_rank env) True zre_msg_new (n_inbox self)
      = (0, zre_msg_received (env_rank env) (b # d) (zre_msg_set_sequence (zre_msg_dup r m) (n + 1)), rest)"
    and "length d = 16" and "ident = uu_str (env_uuid_of env d)" and "c_string nm" and "c_string ident"
  obtains s fs where "zyre_node_recv_peer env self = Inr s" and "node_ok s" and "uncontested s"
    and "pictures nm (view_step c view) (n + 1) ident s" and "n_inbox s = rest" and "n_outbox s = n_outbox self @ fs"
    and "shown unpack fs (call_events k G ident nm c view)"
proof (cases c)
  case (Own own)
  have name: "field_ok (call_name own)" and m': "own_message own view = [m]" using assms(5) m Own by simp_all
  then obtain i st where i: "m = status_msg i (call_name own) st" "i = ZRE_MSG_JOIN \<or> i = ZRE_MSG_LEAVE"
    using own_message_cases [of own view] by auto
  note f = received_status_msg [OF name i(2) refl, of "env_rank env" "b # d" r st "n + 1"]
  obtain p where p: "mirrors view n ident self" "known_peer self ident = Some p" "zyre_peer_name p = nm"
    using pic by (auto simp: pictures_def)
  have sel: "m_id m = i" "m_group m = call_name own" "m_status m = st" by (simp_all add: i(1) status_msg_def)
  obtain s where s: "zyre_node_recv_peer env self = Inr s" "node_ok s" "uncontested s"
    "mirrors (own_step own view) (n + 1) ident s" "n_inbox s = rest"
    "\<And>q. known_peer self ident = Some q \<Longrightarrow>
      n_outbox s = n_outbox self @ group_event_frames (call_event own) q (call_name own)
      \<and> (\<exists>q'. known_peer s ident = Some q' \<and> p_name q' = p_name q)"
    by (rule recv_announcement [OF assms(1,2) p(1) assms(4) m' recv [unfolded i(1)] f(5) assms(8,9)])
      (use f sel in \<open>simp_all add: i(1) [symmetric]\<close>)
  have id: "zyre_peer_identity p = ident"
    using p(2) filed_peer [OF assms(1)] zhash_lookup_SomeD by (fastforce simp: known_peer_def bind_eq_Some_conv)
  have "shown unpack (group_event_frames (call_event own) p (call_name own)) (call_events k G ident nm c view)"
    using group_event_read [of p "call_name own" unpack own] assms(10,11) id p(3) name m' Own
    by (simp add: shown_one field_ok_def)
  moreover have "pictures nm (view_step c view) (n + 1) ident s"
    using s(4,6) p(2,3) Own by (auto simp: pictures_def zyre_peer_name_def)
  ultimately show thesis using s(6) [OF p(2)] by (intro that [OF s(1-3) _ s(5)]) auto
next
  case (Whisper_call peer content)
  then have m': "m = whisper_message content" "peer = k" "content \<noteq> []" using m assms(5) by (auto split: if_splits)
  let ?msg = "zre_msg_received (env_rank env) (b # d) (zre_msg_set_sequence (zre_msg_dup r m) (n + 1))"
  have sel: "m_id m = ZRE_MSG_WHISPER" "m_content m = Some content" by (simp_all add: m'(1) whisper_message_def)
  have plain: "sendable m" "m_headers m = None" "m_id m = ZRE_MSG_WHISPER \<or> m_id m = ZRE_MSG_SHOUT"
    using messages_sendable m'(1) sel(1) by simp_all
  note f = received_talk [OF plain sel(2) refl, of "env_rank env" "b # d" r "n + 1"]
  have kind: "m_id ?msg = ZRE_MSG_WHISPER" using f(1) sel(1) by simp
  obtain s where s: "zyre_node_recv_peer env self = Inr s" "node_ok s" "uncontested s" "pictures nm view (n + 1) ident s"
    "n_inbox s = rest" "n_outbox s = n_outbox self @ whisper_frames ident nm content"
    by (rule recv_talk [OF assms(1,2) pic recv f(4) assms(8,9) _ f(2) m'(3) f(3)]) (use kind sel in simp_all)
  have "shown unpack (whisper_frames ident nm content) (call_events k G ident nm c view)"
    using talk_read(1) [OF assms(11,10), of "[]"] m'(2) Whisper_call by (simp add: shown_one c_string_def)
  then show thesis using s Whisper_call by (intro that) simp_all
next
  case (Shout_call name content)
  then have m': "m = shout_message name content" "G name" "content \<noteq> []" "field_ok name"
    using m assms(5) by (auto split: if_splits)
  let ?msg = "zre_msg_received (env_rank env) (b # d) (zre_msg_set_sequence (zre_msg_dup r m) (n + 1))"
  have sel: "m_id m = ZRE_MSG_SHOUT" "m_content m = Some content" "m_group m = name"
    by (simp_all add: m'(1) shout_message_def)
  have plain: "sendable m" "m_headers m = None" "m_id m = ZRE_MSG_WHISPER \<or> m_id m = ZRE_MSG_SHOUT"
    using messages_sendable m'(1,4) sel(1) by simp_all
  note f = received_talk [OF plain sel(2) refl, of "env_rank env" "b # d" r "n + 1"]
  have kind: "m_id ?msg = ZRE_MSG_SHOUT" "m_group ?msg = name" using f(1,5) sel(1,3) by simp_all
  obtain s where s: "zyre_node_recv_peer env self = Inr s" "node_ok s" "uncontested s" "pictures nm view (n + 1) ident s"
    "n_inbox s = rest" "n_outbox s = n_outbox self @ shout_frames ident nm name content"
    by (rule recv_talk [OF assms(1,2) pic recv f(4) assms(8,9) _ f(2) m'(3) f(3)]) (use kind sel in simp_all)
  have "shown unpack (shout_frames ident nm name content) (call_events k G ident nm c view)"
    using talk_read(2) [OF assms(11,10), of name] m'(2,4) Shout_call by (simp add: shown_one field_ok_def)
  then show thesis using s Shout_call by (intro that) simp_all
qed

lemma call_message_cases:
  "call_message k G c view = [] \<and> call_events k G u nm c view = [] \<and> view_step c view = view
    \<or> (\<exists>m. call_message k G c view = [m])"
proof (cases c)
  case (Own own)
  then show ?thesis using own_message_cases [of own view] by auto
qed auto

lemma call_message_sendable:
  assumes "call_ok c" and "call_message k G c view = [m]"
  shows "sendable (zre_msg_set_sequence (zre_msg_dup r m) n)"
proof (cases c)
  case (Own own)
  then obtain i st where "m = status_msg i (call_name own) st" "i = ZRE_MSG_JOIN \<or> i = ZRE_MSG_LEAVE"
    using own_message_cases [of own view] assms(2) by auto
  then show ?thesis using sendable_dup [OF status_msg_sendable(1)] assms(1) Own by simp
qed (use assms messages_sendable sendable_dup in \<open>auto split: if_splits\<close>)

lemma recv_calls:
  assumes "node_ok self" and "uncontested self" and "pictures nm view n (uu_str (env_uuid_of env d)) self"
    and "own_ok view" and "\<forall>c \<in> set calls. call_ok c" and "length d = 16"
    and "carries fs (numbered n (map (zre_msg_dup r) (call_messages k G calls view)))"
    and "n_inbox self = router_view (b # d) True fs" and "c_string nm" and "c_string (uu_str (env_uuid_of env d))"
  shows "\<exists>s out. recv_turns env (length (call_messages k G calls view)) self = Inr s \<and> n_inbox s = []
    \<and> n_outbox s = n_outbox self @ out
    \<and> shown unpack out (heard_events k G (uu_str (env_uuid_of env d)) nm calls view)
    \<and> pictures nm (fold view_step calls view) (n + of_nat (length (call_messages k G calls view)))
        (uu_str (env_uuid_of env d)) s"
  using assms
proof (induction calls arbitrary: self view n fs)
  case (Cons c calls)
  let ?u = "uu_str (env_uuid_of env d)"
  have c: "call_ok c" and step: "own_ok (view_step c view)"
    using Cons.prems(4,5) own_ok_view_step by auto
  show ?case
  proof (cases "call_message k G c view = []")
    case True
    then have same: "view_step c view = view" "call_events k G ?u nm c view = []"
      using call_message_cases [of k G c view] by auto
    then have "call_messages k G (c # calls) view = call_messages k G calls view"
      "heard_events k G ?u nm (c # calls) view = heard_events k G ?u nm calls view" using True by simp_all
    then show ?thesis using Cons.IH [OF Cons.prems(1-4) _ Cons.prems(6) _ Cons.prems(8-10)] Cons.prems(5,7) same(1)
      by simp
  next
    case False
    then obtain m where m: "call_message k G c view = [m]" using call_message_cases [of k G c view] by blast
    let ?m = "zre_msg_set_sequence (zre_msg_dup r m) (n + 1)"
    have "carries fs (?m # numbered (n + 1) (map (zre_msg_dup r) (call_messages k G calls (view_step c view))))"
      using Cons.prems(7) m by simp
    then obtain gs where gs: "carries gs (numbered (n + 1) (map (zre_msg_dup r) (call_messages k G calls (view_step c view))))"
      "zre_msg_recv (env_rank env) True zre_msg_new (router_view (b # d) True fs)
        = (0, zre_msg_received (env_rank env) (b # d) ?m, router_view (b # d) True gs)"
      using recv_carried [OF _ call_message_sendable [OF c m]] by metis
    obtain s out where s: "zyre_node_recv_peer env self = Inr s" "node_ok s" "uncontested s"
      "pictures nm (view_step c view) (n + 1) ?u s" "n_inbox s = router_view (b # d) True gs"
      "n_outbox s = n_outbox self @ out" "shown unpack out (call_events k G ?u nm c view)"
      by (rule recv_call [OF Cons.prems(1-4) c m _ Cons.prems(6) refl Cons.prems(9,10), of b r "router_view (b # d) True gs" unpack])
        (use gs(2) Cons.prems(8) in simp_all)
    have rest: "\<forall>c \<in> set calls. call_ok c" using Cons.prems(5) by simp
    obtain t out' where t: "recv_turns env (length (call_messages k G calls (view_step c view))) s = Inr t" "n_inbox t = []"
      "n_outbox t = n_outbox s @ out'" "shown unpack out' (heard_events k G ?u nm calls (view_step c view))"
      "pictures nm (fold view_step calls (view_step c view))
        (n + 1 + of_nat (length (call_messages k G calls (view_step c view)))) ?u t"
      using Cons.IH [OF s(2-4) step rest Cons.prems(6) gs(1) s(5) Cons.prems(9,10)] by blast
    have "recv_turns env (length (call_messages k G (c # calls) view)) self = Inr t" using s(1) t(1) m by simp
    moreover have "n_outbox t = n_outbox self @ out @ out'" using s(6) t(3) by simp
    moreover have "shown unpack (out @ out') (heard_events k G ?u nm (c # calls) view)"
      using shown_append [OF s(7) t(4)] by simp
    moreover have "pictures nm (fold view_step (c # calls) view)
        (n + of_nat (length (call_messages k G (c # calls) view))) ?u t"
      using t(5) m by (simp add: add.assoc)
    ultimately show ?thesis using t(2) by blast
  qed
qed auto

section \<open>Both together\<close>

text \<open>C3: what one application says another one hears. The node \<open>reader\<close> has the right picture of the node
  \<open>sender\<close>: its name, groups, status and message count. Then after any joins, leaves, whispers and shouts of
  the sender's application, when the reader has read the messages written for it, its outbox holds exactly the
  events of these calls, in order: JOIN and LEAVE for each group really joined or left, each whisper to this
  node and each shout to a group it is in, with the frames as they were sent, and nothing else; and the picture
  is right again. No step fails, over any number of calls. The calls have valid names, and each whisper and shout
  has at least one frame; the mailboxes accept what is sent, and the reader contests no group.\<close>

theorem talk_is_heard:
  assumes "node_ok sender" and "own_ok (own_view sender)" and "\<forall>c \<in> set calls. call_ok c"
    and "\<forall>q. \<not> env_full env q" and "(k, a) \<in> set (n_peers sender)" and "n_heap sender a = Some p" and "p_connected p"
    and "node_ok reader" and "uncontested reader" and "length d = 16" and "n_inbox reader = []"
    and "pictures nm (own_view sender) (p_sent_sequence p) (uu_str (env_uuid_of env' d)) reader"
    and "c_string nm" and "c_string (uu_str (env_uuid_of env' d))"
    and "es = heard_events k (member sender k) (uu_str (env_uuid_of env' d)) nm calls (own_view sender)"
  shows "\<exists>s p' mb fs n r out. speak env calls sender = Inr s
    \<and> n_heap s a = Some p' \<and> p_mailbox p = Some mb \<and> p_mailbox p' = Some (mb\<lparr>mb_frames := mb_frames mb @ fs\<rparr>)
    \<and> recv_turns env' n (reader\<lparr>n_inbox := router_view (b # d) True fs\<rparr>) = Inr r \<and> n_inbox r = []
    \<and> n_outbox r = n_outbox reader @ out
    \<and> (\<forall>later. read_events unpack (length es) (out @ later) = Inr (es, later))
    \<and> pictures nm (own_view s) (p_sent_sequence p') (uu_str (env_uuid_of env' d)) r"
proof -
  let ?ms = "call_messages k (member sender k) calls (own_view sender)" and ?u = "uu_str (env_uuid_of env' d)"
  obtain s p' fs where s: "speak env calls sender = Inr s" "own_view s = fold view_step calls (own_view sender)"
    "n_heap s a = Some p'" "wrote fs (map (zre_msg_dup (env_rank env)) ?ms) p p'"
    using speak_refines [OF assms(1-7)] by blast
  obtain mb where mb: "p_mailbox p = Some mb" "p_mailbox p' = Some (mb\<lparr>mb_frames := mb_frames mb @ fs\<rparr>)"
    and fs: "carries fs (numbered (p_sent_sequence p) (map (zre_msg_dup (env_rank env)) ?ms))"
    and sent: "p_sent_sequence p' = p_sent_sequence p + of_nat (length ?ms)"
    using s(4) by (auto simp: wrote_def)
  let ?r = "reader\<lparr>n_inbox := router_view (b # d) True fs\<rparr>"
  have r: "node_ok ?r" "uncontested ?r" "pictures nm (own_view sender) (p_sent_sequence p) ?u ?r"
    using assms(8,9,12) by (simp_all add: uncontested_def pictures_def mirrors_def member_def known_peer_def)
  have inbox: "n_inbox ?r = router_view (b # d) True fs" by simp
  obtain r out where "recv_turns env' (length ?ms) ?r = Inr r" "n_inbox r = []" "n_outbox r = n_outbox ?r @ out"
    "shown unpack out es" "pictures nm (own_view s) (p_sent_sequence p') ?u r"
    using recv_calls [OF r assms(2,3,10) fs inbox assms(13,14), of unpack] unfolding s(2) sent assms(15) by blast
  moreover have "n_outbox ?r = n_outbox reader" by simp
  ultimately show ?thesis
    unfolding shown_def using s(1,3) mb by (intro exI [of _ s] exI [of _ p'] exI [of _ mb] exI [of _ fs]) auto
qed

text \<open>Calls of the node that its peer knows as 7, to the node it knows as 7, a member of A.\<close>

definition talk_calls :: "call list" where
  "talk_calls = [Own (Join_call ''B''), Whisper_call ''7'' [[1], [2]], Shout_call ''A'' [[3]], Whisper_call ''8'' [[4]],
     Own (Leave_call ''A''), Shout_call ''B'' [[5]]]"

lemma sample_name_run:
  "case actor_run run_env sample_events sample_start of Inl e \<Rightarrow> False
   | Inr s \<Rightarrow> map_option zyre_peer_name (n_heap s 0) = Some ''n''"
  by code_simp

lemma sample_node_name: "n_heap sample_node 0 = Some p \<Longrightarrow> zyre_peer_name p = ''n''"
  using sample_name_run by (auto simp: sample_node_def split: sum.splits)

lemma talk_events: "heard_events ''7'' (\<lambda>g. g = ''A'') ''7'' ''n'' talk_calls ([''A''], 1)
  = [(event_of ''JOIN'' ''7'' ''n'')\<lparr>ev_group := Some ''B''\<rparr>, (event_of ''WHISPER'' ''7'' ''n'')\<lparr>ev_msg := Some [[1], [2]]\<rparr>,
     (event_of ''SHOUT'' ''7'' ''n'')\<lparr>ev_group := Some ''A'', ev_msg := Some [[3]]\<rparr>,
     (event_of ''LEAVE'' ''7'' ''n'')\<lparr>ev_group := Some ''A''\<rparr>]"
  by (simp add: talk_calls_def)

theorem talk_is_heard_witness:
  "\<exists>(p::zyre_peer) s p' mb fs n r out. speak run_env talk_calls sample_sender = Inr s
    \<and> n_heap s 0 = Some p' \<and> p_mailbox p = Some mb \<and> p_mailbox p' = Some (mb\<lparr>mb_frames := mb_frames mb @ fs\<rparr>)
    \<and> recv_turns run_env n (sample_node\<lparr>n_inbox := router_view (1 # (55 # replicate 15 0)) True fs\<rparr>) = Inr r
    \<and> n_inbox r = [] \<and> n_outbox r = n_outbox sample_node @ out
    \<and> read_events (\<lambda>_. None) 4 out
      = Inr ([(event_of ''JOIN'' ''7'' ''n'')\<lparr>ev_group := Some ''B''\<rparr>, (event_of ''WHISPER'' ''7'' ''n'')\<lparr>ev_msg := Some [[1], [2]]\<rparr>,
          (event_of ''SHOUT'' ''7'' ''n'')\<lparr>ev_group := Some ''A'', ev_msg := Some [[3]]\<rparr>,
          (event_of ''LEAVE'' ''7'' ''n'')\<lparr>ev_group := Some ''A''\<rparr>], [])"
proof -
  obtain p where p: "n_heap sample_node 0 = Some p" "p_ready p" "p_connected p" "p_want_sequence p = 1" "p_status p = 1"
    "p_sent_sequence p = 1" by (rule sample_node_peer)
  obtain g where g: "n_peer_groups sample_node = [(''A'', g)]" "g_peers g = [(''7'', 0)]" by (rule sample_node_group)
  have ok: "node_ok sample_node" by (rule reachable_ok [OF sample_node_reachable])
  let ?es = "heard_events ''7'' (member sample_sender ''7'') (uu_str (env_uuid_of run_env (55 # replicate 15 0))) ''n''
      talk_calls (own_view sample_sender)"
  have "member sample_sender ''7'' = (\<lambda>n. n = ''A'')"
    using g by (auto simp: fun_eq_iff sample_sender_def member_def zhash_lookup_def)
  then have es: "?es = heard_events ''7'' (\<lambda>g. g = ''A'') ''7'' ''n'' talk_calls ([''A''], 1)"
    by (simp add: uuid_7 own_view_def sample_sender_def)
  have "\<exists>s p' mb fs n r out. speak run_env talk_calls sample_sender = Inr s
    \<and> n_heap s 0 = Some p' \<and> p_mailbox p = Some mb \<and> p_mailbox p' = Some (mb\<lparr>mb_frames := mb_frames mb @ fs\<rparr>)
    \<and> recv_turns run_env n (sample_node\<lparr>n_inbox := router_view (1 # (55 # replicate 15 0)) True fs\<rparr>) = Inr r
    \<and> n_inbox r = [] \<and> n_outbox r = n_outbox sample_node @ out
    \<and> (\<forall>later. read_events (\<lambda>_. None) (length ?es) (out @ later) = Inr (?es, later))
    \<and> pictures ''n'' (own_view s) (p_sent_sequence p') (uu_str (env_uuid_of run_env (55 # replicate 15 0))) r"
  proof (rule talk_is_heard [where k = "''7''"])
    show "pictures ''n'' (own_view sample_sender) (p_sent_sequence p) (uu_str (env_uuid_of run_env (55 # replicate 15 0))) sample_node"
      unfolding uuid_7 pictures_def mirrors_def using p g sample_node_name [OF p(1)]
      by (simp add: own_view_def sample_sender_def member_def sample_node_sel zhash_lookup_def known_peer_def)
    show "n_heap sample_sender 0 = Some p" using p by (simp add: sample_sender_def)
    show "c_string (uu_str (env_uuid_of run_env (55 # replicate 15 0)))" unfolding uuid_7 by (simp add: c_string_def)
  qed (use ok p in \<open>simp_all add: sample_sender_def sample_node_sel sample_node_uncontested own_ok_def own_view_def
      talk_calls_def field_ok_def c_string_def run_env_def sample_env_def\<close>)
  then obtain s p' mb fs n r out where r: "speak run_env talk_calls sample_sender = Inr s" "n_heap s 0 = Some p'"
    "p_mailbox p = Some mb" "p_mailbox p' = Some (mb\<lparr>mb_frames := mb_frames mb @ fs\<rparr>)"
    "recv_turns run_env n (sample_node\<lparr>n_inbox := router_view (1 # (55 # replicate 15 0)) True fs\<rparr>) = Inr r"
    "n_inbox r = []" "n_outbox r = n_outbox sample_node @ out"
    "\<forall>later. read_events (\<lambda>_. None) (length ?es) (out @ later) = Inr (?es, later)" by blast
  have four: "length (heard_events ''7'' (\<lambda>g. g = ''A'') ''7'' ''n'' talk_calls ([''A''], 1)) = 4"
    unfolding talk_events by simp
  have "read_events (\<lambda>_. None) (length ?es) (out @ []) = Inr (?es, [])" using r(8) by (rule spec)
  then have "read_events (\<lambda>_. None) 4 out = Inr (heard_events ''7'' (\<lambda>g. g = ''A'') ''7'' ''n'' talk_calls ([''A''], 1), [])"
    unfolding es four append_Nil2 .
  then show ?thesis using r(1-7) unfolding talk_events by blast
qed

end
