(* ===== verification/Zre_Msg_Test.thy ===== *)
theory Zre_Msg_Test
  imports Zre_Msg_Zpl_Props Zyre_Peer_Props
begin

text \<open>
  The self test of \<open>src/zre_msg.c\<close>: for each kind of message, set the fields, write the object as a
  configuration tree, send it twice over a pair of sockets, receive it twice into the same object, read it
  from the tree, and compare the fields each time. The test passes, whatever the environment.
\<close>

section \<open>The frame of the test\<close>

abbreviation (input) MAX_INSTANCE :: nat where "MAX_INSTANCE \<equiv> 3"

text \<open>
  The object under test, and what the DEALER has written and the ROUTER has not yet read. The ROUTER puts
  the routing id it has given the DEALER in front of each message.
\<close>

type_synonym msg_test = "zre_msg \<times> zframe list"

text \<open>A case of the test: what it sets, and what it reads and asserts.\<close>

type_synonym msg_case = "(zre_msg \<Rightarrow> zre_msg) \<times> (zre_msg \<Rightarrow> zre_msg outcome)"

definition test_send :: "env \<Rightarrow> byte list \<Rightarrow> msg_test \<Rightarrow> msg_test outcome" where
  "test_send env rid s = (case s of (self, wire) \<Rightarrow>
     and_then (zre_msg_send (env_full env) (env_junk env) False self [])
       (\<lambda>(rc, self, frames). Inr (self, wire @ routed rid frames)))"

text \<open>The first instances receive, the last one reads the tree; its copy is destroyed.\<close>

definition test_instance :: "env \<Rightarrow> 'c config_ops \<Rightarrow> 'c \<Rightarrow> (zre_msg \<Rightarrow> zre_msg outcome) \<Rightarrow> nat \<Rightarrow> msg_test
    \<Rightarrow> msg_test outcome" where
  "test_instance env ops config check i s = (case s of (self, wire) \<Rightarrow>
     if i < MAX_INSTANCE - 1 then
       (case zre_msg_recv (env_rank env) True self wire of (rc, self, wire) \<Rightarrow>
          assert_that (m_routing_id self \<noteq> None) (and_then (check self) (\<lambda>self. Inr (self, wire))))
     else
       and_then (zre_msg_new_zpl ops (env_rank env) config) (\<lambda>copy.
         case copy of None \<Rightarrow> Inl Assertion_failed
         | Some copy \<Rightarrow> and_then (check copy) (\<lambda>_. Inr (self, wire))))"

definition test_message :: "env \<Rightarrow> 'c config_ops \<Rightarrow> byte list \<Rightarrow> msg_case \<Rightarrow> msg_test \<Rightarrow> msg_test outcome" where
  "test_message env ops rid c s = (case (c, s) of ((prepare, check), self, wire) \<Rightarrow>
     let self = prepare self
     in and_then (zre_msg_zpl ops self) (\<lambda>config.
        and_then (test_send env rid (self, wire)) (\<lambda>s.
        and_then (test_send env rid s)
          (each (test_instance env ops config check) [0..<MAX_INSTANCE]))))"

section \<open>The cases\<close>

abbreviation (input) life :: string where "life \<equiv> ''Life is short but Now lasts for ever''"

definition hello_case :: "(string \<Rightarrow> nat) \<Rightarrow> msg_case" where
  "hello_case rank =
     (\<lambda>self. let self = zre_msg_set_id self ZRE_MSG_HELLO;
                 self = zre_msg_set_sequence self 123;
                 self = zre_msg_set_endpoint self life;
                 self = zre_msg_set_groups self (Some [''Name: Brutus'', ''Age: 43'']);
                 self = zre_msg_set_status self 123;
                 self = zre_msg_set_name self life
             in zre_msg_set_headers self (Some (zhash_insert rank ''Name'' ''Brutus'' [])),
      \<lambda>self. assert_that (m_sequence self = 123) (assert_that (streq (m_endpoint self) life)
        (case zre_msg_get_groups self of (groups, self) \<Rightarrow>
         and_then (case groups of None \<Rightarrow> Inl Assertion_failed | Some groups \<Rightarrow> Inr groups) (\<lambda>groups.
         assert_that (length groups = 2) (assert_that (streq (groups ! 0) ''Name: Brutus'')
         (assert_that (streq (groups ! 1) ''Age: 43'')
         (assert_that (m_status self = 123) (assert_that (streq (m_name self) life)
         (case zre_msg_get_headers self of (headers, self) \<Rightarrow>
          and_then (not_null headers) (\<lambda>headers.
          assert_that (zhash_size headers = 1) (assert_that (streq (snd (headers ! 0)) ''Brutus'')
          (assert_that (streq (fst (headers ! 0)) ''Name'') (Inr self)))))))))))))"

text \<open>The content is made empty, given to the object, and the frame added there.\<close>

definition set_captcha :: "zre_msg \<Rightarrow> zre_msg" where
  "set_captcha self = (let self = zre_msg_set_content self (Some [])
     in self\<lparr>m_content := map_option (\<lambda>content. content @ [str_bytes ''Captcha Diem'']) (m_content self)\<rparr>)"

definition check_captcha :: "zre_msg \<Rightarrow> zre_msg outcome" where
  "check_captcha self = and_then (not_null (m_content self)) (\<lambda>content.
     assert_that (length content = 1) (assert_that (streq (cstr (hd content)) ''Captcha Diem'')
       (Inr (self\<lparr>m_content := Some (tl content)\<rparr>))))"

definition whisper_case :: msg_case where
  "whisper_case =
     (\<lambda>self. let self = zre_msg_set_id self ZRE_MSG_WHISPER;
                 self = zre_msg_set_sequence self 123
             in set_captcha self,
      \<lambda>self. assert_that (m_sequence self = 123) (check_captcha self))"

definition shout_case :: msg_case where
  "shout_case =
     (\<lambda>self. let self = zre_msg_set_id self ZRE_MSG_SHOUT;
                 self = zre_msg_set_sequence self 123;
                 self = zre_msg_set_group self life
             in set_captcha self,
      \<lambda>self. assert_that (m_sequence self = 123) (assert_that (streq (m_group self) life) (check_captcha self)))"

definition join_case :: msg_case where
  "join_case =
     (\<lambda>self. let self = zre_msg_set_id self ZRE_MSG_JOIN;
                 self = zre_msg_set_sequence self 123;
                 self = zre_msg_set_group self life
             in zre_msg_set_status self 123,
      \<lambda>self. assert_that (m_sequence self = 123) (assert_that (streq (m_group self) life)
        (assert_that (m_status self = 123) (Inr self))))"

definition leave_case :: msg_case where
  "leave_case =
     (\<lambda>self. let self = zre_msg_set_id self ZRE_MSG_LEAVE;
                 self = zre_msg_set_sequence self 123;
                 self = zre_msg_set_group self life
             in zre_msg_set_status self 123,
      \<lambda>self. assert_that (m_sequence self = 123) (assert_that (streq (m_group self) life)
        (assert_that (m_status self = 123) (Inr self))))"

definition ping_case :: msg_case where
  "ping_case = (\<lambda>self. zre_msg_set_sequence (zre_msg_set_id self ZRE_MSG_PING) 123,
     \<lambda>self. assert_that (m_sequence self = 123) (Inr self))"

definition ping_ok_case :: msg_case where
  "ping_ok_case = (\<lambda>self. zre_msg_set_sequence (zre_msg_set_id self ZRE_MSG_PING_OK) 123,
     \<lambda>self. assert_that (m_sequence self = 123) (Inr self))"

definition elect_case :: msg_case where
  "elect_case =
     (\<lambda>self. let self = zre_msg_set_id self ZRE_MSG_ELECT;
                 self = zre_msg_set_sequence self 123;
                 self = zre_msg_set_group self life
             in zre_msg_set_challenger_id self life,
      \<lambda>self. assert_that (m_sequence self = 123) (assert_that (streq (m_group self) life)
        (assert_that (streq (m_challenger_id self) life) (Inr self))))"

definition leader_case :: msg_case where
  "leader_case =
     (\<lambda>self. let self = zre_msg_set_id self ZRE_MSG_LEADER;
                 self = zre_msg_set_sequence self 123;
                 self = zre_msg_set_group self life
             in zre_msg_set_leader_id self life,
      \<lambda>self. assert_that (m_sequence self = 123) (assert_that (streq (m_group self) life)
        (assert_that (streq (m_leader_id self) life) (Inr self))))"

definition goodbye_case :: msg_case where
  "goodbye_case = (\<lambda>self. zre_msg_set_sequence (zre_msg_set_id self ZRE_MSG_GOODBYE) 123,
     \<lambda>self. assert_that (m_sequence self = 123) (Inr self))"

definition zre_msg_test :: "env \<Rightarrow> 'c config_ops \<Rightarrow> byte list \<Rightarrow> msg_test outcome" where
  "zre_msg_test env ops rid = each (test_message env ops rid)
     [hello_case (env_rank env), whisper_case, shout_case, join_case, leave_case, ping_case, ping_ok_case,
      elect_case, leader_case, goodbye_case] (zre_msg_new, [])"

section \<open>The test passes\<close>

lemma count_headers_same:
  "zre_msg_put (zre_msg_count_headers m) = zre_msg_put m" "sent_content (zre_msg_count_headers m) = sent_content m"
  by (simp_all add: zre_msg_put_def put_hello_def sent_content_def have_content_def zre_msg_count_headers_def
      split: option.split)

lemma test_send_wire:
  assumes "\<forall>q. \<not> env_full env q"
  obtains tail where "test_send env rid (m, wire) = Inr (zre_msg_count_headers m,
      wire @ routed rid (multipart ((zre_msg_put m @ tail) # sent_content m)))"
proof -
  obtain tail where "zre_msg_send (env_full env) (env_junk env) False m []
      = Inr (0, zre_msg_count_headers m, [] @ multipart ((zre_msg_put m @ tail) # sent_content m))"
    using assms by (rule zre_msg_send_frames)
  then show thesis by (intro that [of tail]) (simp add: test_send_def)
qed

lemma routing_id_stored [simp]: "m_routing_id (store_fields rank m c x) = m_routing_id x"
  by (simp add: store_fields_def Let_def)

text \<open>An instance that receives, and one that reads the tree.\<close>

lemma test_instance_recv:
  assumes "sendable m" and "i < 2"
    and "check (store_fields (env_rank env) m (sent_content m) (x\<lparr>m_routing_id := Some rid\<rparr>)) = Inr y"
  shows "test_instance env ops config check i
      (x, routed rid (multipart ((zre_msg_put m @ tail) # sent_content m)) @ rest) = Inr (y, rest)"
  using recv_sent_into [OF assms(1), of "env_rank env" x rid tail rest] assms(2,3)
  by (simp add: test_instance_def routed_def)

lemma test_message_passes:
  assumes ops: "config_laws ops" and open_wire: "\<forall>q. \<not> env_full env q"
    and m: "sendable (prepare self)" "zpl_able (prepare self)"
    and first: "check (store_fields (env_rank env) (prepare self) (sent_content (prepare self))
        ((zre_msg_count_headers (zre_msg_count_headers (prepare self)))\<lparr>m_routing_id := Some rid\<rparr>)) = Inr x"
    and again: "check (store_fields (env_rank env) (prepare self) (sent_content (prepare self))
        (x\<lparr>m_routing_id := Some rid\<rparr>)) = Inr y"
    and copied: "check (zpl_copy (env_rank env) (prepare self)) = Inr z"
  shows "test_message env ops rid (prepare, check) (self, []) = Inr (y, [])"
proof -
  let ?m = "prepare self"
  obtain root where root: "zre_msg_zpl ops ?m = Inr root"
    "zre_msg_new_zpl ops (env_rank env) root = Inr (Some (zpl_copy (env_rank env) ?m))"
    using zpl_written_read [OF ops m(2)] by blast
  obtain t1 where s1: "test_send env rid (?m, []) = Inr (zre_msg_count_headers ?m,
      [] @ routed rid (multipart ((zre_msg_put ?m @ t1) # sent_content ?m)))"
    by (rule test_send_wire [OF open_wire])
  let ?wire = "routed rid (multipart ((zre_msg_put ?m @ t1) # sent_content ?m))"
  obtain t2 where s2: "test_send env rid (zre_msg_count_headers ?m, ?wire)
      = Inr (zre_msg_count_headers (zre_msg_count_headers ?m),
          ?wire @ routed rid (multipart ((zre_msg_put ?m @ t2) # sent_content ?m)) @ [])"
    using test_send_wire [OF open_wire, of rid "zre_msg_count_headers ?m" ?wire]
    by (metis append_Nil2 count_headers_same)
  have i1: "test_instance env ops root check 0 (zre_msg_count_headers (zre_msg_count_headers ?m),
      ?wire @ routed rid (multipart ((zre_msg_put ?m @ t2) # sent_content ?m)) @ [])
      = Inr (x, routed rid (multipart ((zre_msg_put ?m @ t2) # sent_content ?m)) @ [])"
    by (rule test_instance_recv [where check = check, OF m(1) _ first]) simp
  have i2: "test_instance env ops root check 1 (x, routed rid (multipart ((zre_msg_put ?m @ t2) # sent_content ?m)) @ [])
      = Inr (y, [])"
    by (rule test_instance_recv [where check = check, OF m(1) _ again]) simp
  have i3: "test_instance env ops root check 2 (y, []) = Inr (y, [])"
    using root(2) copied by (simp add: test_instance_def)
  have "[0..<3] = [0, 1, 2 :: nat]" by (simp add: upt_rec)
  then show ?thesis
    using root(1) s1 s2 i1 i2 i3 by (simp add: test_message_def Let_def del: append_assoc append_Nil2)
qed

text \<open>Between the cases the object holds neither groups nor headers.\<close>

definition between :: "zre_msg \<Rightarrow> bool" where
  "between self \<longleftrightarrow> fields_ok self \<and> m_groups self = None \<and> m_headers self = None"

lemma life_ok: "field_ok life"
  by (simp add: field_ok_def c_string_def)

lemmas case_simps = between_def sendable_def zpl_able_def fields_ok_def store_fields_def zpl_copy_def
  zre_msg_count_headers_def zyre_simps have_content_def sent_content_def Let_def

definition passes :: "env \<Rightarrow> 'c config_ops \<Rightarrow> byte list \<Rightarrow> msg_case \<Rightarrow> bool" where
  "passes env ops rid c \<longleftrightarrow> (\<forall>self. between self \<longrightarrow>
     (\<exists>y. test_message env ops rid c (self, []) = Inr (y, []) \<and> between y))"

lemma passesI:
  assumes "config_laws ops" and "\<forall>q. \<not> env_full env q"
    and "\<And>self. between self \<Longrightarrow> \<exists>x y z. sendable (prepare self) \<and> zpl_able (prepare self)
      \<and> check (store_fields (env_rank env) (prepare self) (sent_content (prepare self))
          ((zre_msg_count_headers (zre_msg_count_headers (prepare self)))\<lparr>m_routing_id := Some rid\<rparr>)) = Inr x
      \<and> check (store_fields (env_rank env) (prepare self) (sent_content (prepare self))
          (x\<lparr>m_routing_id := Some rid\<rparr>)) = Inr y \<and> check (zpl_copy (env_rank env) (prepare self)) = Inr z \<and> between y"
  shows "passes env ops rid (prepare, check)"
  unfolding passes_def using assms(3) test_message_passes [OF assms(1,2)] by metis

lemma brutus_table:
  "zhash_insert rank ''Name'' ''Brutus'' [] = [(''Name'', ''Brutus'')]"
  "recv_headers rank [(''Name'', ''Brutus'')] = [(''Name'', ''Brutus'')]"
  "zpl_table rank [(''Name'', ''Brutus'')] = [(''Name'', ''Brutus'')]"
  by (simp_all add: zhash_insert_def zhash_arrange_def recv_headers_def zpl_table_def zhash_update_def)

lemma brutus_ok:
  "wf_zhash [(''Name'', ''Brutus'')]" "entry_ok (''Name'', ''Brutus'')" "simple_key ''Name''"
  "long_ok ''Name: Brutus''" "long_ok ''Age: 43''"
  by (simp_all add: wf_zhash_def entry_ok_def short_ok_def long_ok_def simple_key_def c_string_def)

lemma hello_passes:
  assumes "config_laws ops" and "\<forall>q. \<not> env_full env q"
  shows "passes env ops rid (hello_case (env_rank env))"
  unfolding hello_case_def using life_ok
  by (intro passesI [OF assms]) (simp add: case_simps brutus_table brutus_ok msg_list_def zhash_size_def)

lemma captcha: "cstr (str_bytes ''Captcha Diem'') = ''Captcha Diem''"
  by code_simp

lemma other_cases_pass:
  assumes "config_laws ops" and "\<forall>q. \<not> env_full env q"
  shows "passes env ops rid whisper_case" "passes env ops rid shout_case" "passes env ops rid join_case"
    "passes env ops rid leave_case" "passes env ops rid ping_case" "passes env ops rid ping_ok_case"
    "passes env ops rid elect_case" "passes env ops rid leader_case" "passes env ops rid goodbye_case"
  unfolding whisper_case_def shout_case_def join_case_def leave_case_def ping_case_def ping_ok_case_def
    elect_case_def leader_case_def goodbye_case_def
  using life_ok
  by (intro passesI [OF assms]; simp add: case_simps set_captcha_def check_captcha_def captcha)+

lemma passes_each:
  assumes "\<forall>c \<in> set cs. passes env ops rid c" and "between self"
  shows "\<exists>y. each (test_message env ops rid) cs (self, []) = Inr (y, [])"
  using assms
proof (induction cs arbitrary: self)
  case (Cons c cs)
  then obtain y where "test_message env ops rid c (self, []) = Inr (y, [])" "between y"
    by (auto simp: passes_def)
  then show ?case using Cons.IH [of y] Cons.prems(1) by simp
qed simp

text \<open>The self test of the message class passes: for every order of hash tables, every content of fresh
  memory, every routing id, and any configuration trees that keep their laws, no assertion of the test fails
  and nothing is left on the sockets.\<close>

theorem zre_msg_test_passes:
  assumes "config_laws ops" and "\<forall>q. \<not> env_full env q"
  shows "\<exists>self. zre_msg_test env ops rid = Inr (self, [])"
  unfolding zre_msg_test_def
  by (rule passes_each [of _ env ops rid])
    (use hello_passes [OF assms] other_cases_pass [OF assms] in \<open>simp_all add: between_def zre_msg_new_def fields_ok_def\<close>)

theorem zre_msg_test_passes_witness: "\<exists>self. zre_msg_test sample_env tree_ops [0, 1, 2, 3, 4] = Inr (self, [])"
  by (rule zre_msg_test_passes) (simp_all add: sample_env_def)

end
