(* ===== verification/Zyre_Peer_Test.thy ===== *)
theory Zyre_Peer_Test
  imports Zyre_Peer_Props Zyre_Group_Props
begin

text \<open>
  The self tests of \<open>src/zyre_peer.c\<close> and \<open>src/zyre_group.c\<close>: a peer connects to a mailbox of the test, a
  HELLO is sent to it, directly or as the only member of a group, and read from the mailbox. Both tests pass
  where a mailbox can be made and connected.
\<close>

section \<open>The tests\<close>

text \<open>The HELLO of the tests, and what they do with what arrives in the mailbox they have bound.\<close>

definition test_hello :: "string \<Rightarrow> zre_msg" where
  "test_hello endpoint = zre_msg_set_endpoint (zre_msg_set_id zre_msg_new ZRE_MSG_HELLO) endpoint"

definition test_mailbox :: "env \<Rightarrow> zyre_peer \<Rightarrow> zre_msg outcome" where
  "test_mailbox env peer = and_then (not_null (p_mailbox peer)) (\<lambda>mb.
     case zre_msg_recv (env_rank env) False zre_msg_new (mb_frames mb) of (rc, msg, _) \<Rightarrow>
       assert_that (rc = 0) (Inr msg))"

definition zyre_peer_test :: "env \<Rightarrow> zuuid \<Rightarrow> zuuid \<Rightarrow> bool \<Rightarrow> zre_msg outcome" where
  "zyre_peer_test env you me verbose =
     (let peer = (zyre_peer_init you)\<lparr>p_verbose := verbose\<rparr>
      in assert_that (\<not> zyre_peer_connected peer)
        (and_then (zyre_peer_connect env peer me ''inproc://selftest-zyre_peer'' 30000) (\<lambda>(rc, peer).
         assert_that (rc = 0) (assert_that (zyre_peer_connected peer)
        (let peer = zyre_peer_set_name peer ''peer''
         in assert_that (streq (zyre_peer_name peer) ''peer'')
           (and_then (zyre_peer_send env peer (test_hello ''inproc://selftest-zyre_peer'')) (\<lambda>(rc, peer).
            assert_that (rc = 0) (test_mailbox env peer))))))))"

text \<open>The peer is the only object of the heap.\<close>

definition zyre_group_test :: "env \<Rightarrow> zuuid \<Rightarrow> zuuid \<Rightarrow> zre_msg outcome" where
  "zyre_group_test env you me =
     (let group = zyre_group_new ''tests'';
          peer = zyre_peer_init you
      in assert_that (\<not> zyre_peer_connected peer)
        (and_then (zyre_peer_connect env peer me ''inproc://selftest-zyre_group'' 30000) (\<lambda>(rc, peer).
         assert_that (rc = 0) (assert_that (zyre_peer_connected peer)
        (and_then (zyre_group_join env group 0 [0 \<mapsto> peer]) (\<lambda>(group, heap).
         and_then (zyre_group_send env group (test_hello ''inproc://selftest-zyre_group'') heap) (\<lambda>heap.
         and_then (deref 0 heap) (test_mailbox env))))))))"

section \<open>They pass\<close>

text \<open>The mailbox can be made, and takes the endpoint and all frames.\<close>

definition test_env :: "env \<Rightarrow> string \<Rightarrow> bool" where
  "test_env env endpoint \<longleftrightarrow> env_dealer env \<and> env_connect env endpoint \<and> env_link_local env endpoint = None
     \<and> (\<forall>q. \<not> env_full env q)"

lemma test_hello_sendable:
  assumes "c_string endpoint" shows "sendable (zre_msg_set_sequence (test_hello endpoint) n)"
  using field_ok_field256 [OF assms]
  by (simp add: sendable_def test_hello_def zyre_simps zre_msg_new_def fields_ok_def)

lemma test_hello_dup: "zre_msg_dup rank (test_hello endpoint) = test_hello endpoint"
  by (simp add: zre_msg_dup_def test_hello_def zyre_simps zre_msg_new_def field256_def)

text \<open>What the test finds in the mailbox after one HELLO.\<close>

definition read_hello :: "string \<Rightarrow> zre_msg" where
  "read_hello endpoint = (test_hello endpoint)\<lparr>m_sequence := 1, m_groups := Some [], m_headers := Some []\<rparr>"

lemma send_test_hello:
  assumes "p_connected p" and "p_mailbox p = Some mb" and "mb_frames mb = []" and "p_sent_sequence p = 0"
    and "\<forall>q. \<not> env_full env q" and "c_string endpoint"
  shows "\<exists>p'. zyre_peer_send env p (test_hello endpoint) = Inr (0, p') \<and> test_mailbox env p' = Inr (read_hello endpoint)"
proof -
  let ?m = "zre_msg_set_sequence (test_hello endpoint) 1"
  obtain tail where t: "zre_msg_send (env_full env) (env_junk env) False ?m []
      = Inr (0, zre_msg_count_headers ?m, [] @ multipart ((zre_msg_put ?m @ tail) # sent_content ?m))"
    using assms(5) by (rule zre_msg_send_frames)
  have c: "\<not> have_content ?m" "sent_content ?m = []"
    by (simp_all add: have_content_def sent_content_def test_hello_def zyre_simps)
  have "zre_msg_recv (env_rank env) False zre_msg_new (multipart [zre_msg_put ?m @ tail])
      = (0, store_fields (env_rank env) ?m [] zre_msg_new, [])"
    using recv_frame_put [OF test_hello_sendable [OF assms(6), of 1], of "env_rank env" zre_msg_new False "[]" tail] c(1)
    by (simp add: zre_msg_recv_def recv_data_def recv_content_def)
  moreover have "store_fields (env_rank env) ?m [] zre_msg_new = read_hello endpoint"
    by (simp add: store_fields_def read_hello_def test_hello_def zyre_simps zre_msg_new_def Let_def msg_list_def recv_headers_def)
  ultimately show ?thesis using assms(1-4) t c by (simp add: zyre_peer_send_def test_mailbox_def)
qed

lemma test_connect:
  assumes "test_env env endpoint" and "length endpoint < NI_MAXHOST" and "\<not> p_connected p" and "p_server_key p = None"
    and "p_sent_sequence p = 0"
  shows "\<exists>p' mb. zyre_peer_connect env p me endpoint 30000 = Inr (0, p') \<and> p_connected p' \<and> p_mailbox p' = Some mb
    \<and> mb_frames mb = [] \<and> p_sent_sequence p' = 0 \<and> p_uuid p' = p_uuid p \<and> p_status p' = p_status p"
  using assms by (simp add: zyre_peer_connect_def connect_endpoint_def test_env_def Let_def)

lemma test_endpoints:
  "c_string ''inproc://selftest-zyre_peer''" "c_string ''inproc://selftest-zyre_group''"
  "length ''inproc://selftest-zyre_peer'' < NI_MAXHOST" "length ''inproc://selftest-zyre_group'' < NI_MAXHOST"
  by (simp_all add: c_string_def)

text \<open>The self test of the peer class passes, and what it reads from the mailbox is its own HELLO, numbered 1.\<close>

theorem zyre_peer_test_passes:
  assumes "test_env env ''inproc://selftest-zyre_peer''"
  shows "zyre_peer_test env you me verbose = Inr (read_hello ''inproc://selftest-zyre_peer'')"
proof -
  let ?p = "(zyre_peer_init you)\<lparr>p_verbose := verbose\<rparr>" and ?e = "''inproc://selftest-zyre_peer''"
  have p: "\<not> p_connected ?p" "p_server_key ?p = None" "p_sent_sequence ?p = 0" by (simp_all add: zyre_peer_init_def)
  obtain q mb where q: "zyre_peer_connect env ?p me ?e 30000 = Inr (0, q)" "p_connected q" "p_mailbox q = Some mb"
    "mb_frames mb = []" "p_sent_sequence q = 0"
    using test_connect [OF assms test_endpoints(3) p] by blast
  obtain r where "zyre_peer_send env (zyre_peer_set_name q ''peer'') (test_hello ?e) = Inr (0, r)"
    "test_mailbox env r = Inr (read_hello ?e)"
    using send_test_hello [of "zyre_peer_set_name q ''peer''" mb env ?e] q assms test_endpoints(1)
    by (auto simp: zyre_simps test_env_def)
  then show ?thesis using p q
    by (simp add: zyre_peer_test_def zyre_peer_connected_def) (simp add: zyre_peer_set_name_def zyre_peer_name_def)
qed

theorem zyre_peer_test_passes_witness:
  "zyre_peer_test sample_env \<lparr>uu_data = [1], uu_str = ''01''\<rparr> \<lparr>uu_data = [2], uu_str = ''02''\<rparr> False
    = Inr (read_hello ''inproc://selftest-zyre_peer'')"
  by (rule zyre_peer_test_passes) (simp add: test_env_def sample_env_def)

text \<open>The self test of the group class passes: the one member gets the HELLO sent to the group.\<close>

theorem zyre_group_test_passes:
  assumes "test_env env ''inproc://selftest-zyre_group''"
  shows "zyre_group_test env you me = Inr (read_hello ''inproc://selftest-zyre_group'')"
proof -
  let ?p = "zyre_peer_init you" and ?e = "''inproc://selftest-zyre_group''"
  have p: "\<not> p_connected ?p" "p_server_key ?p = None" "p_sent_sequence ?p = 0" by (simp_all add: zyre_peer_init_def)
  obtain q mb where q: "zyre_peer_connect env ?p me ?e 30000 = Inr (0, q)" "p_connected q" "p_mailbox q = Some mb"
    "mb_frames mb = []" "p_sent_sequence q = 0"
    using test_connect [OF assms test_endpoints(4) p] by blast
  let ?q = "zyre_peer_set_status q (p_status q + 1)"
  obtain r where "zyre_peer_send env ?q (test_hello ?e) = Inr (0, r)" "test_mailbox env r = Inr (read_hello ?e)"
    using send_test_hello [of ?q mb env ?e] q assms test_endpoints(2) by (auto simp: zyre_simps test_env_def)
  then show ?thesis using p q
    by (simp add: zyre_group_test_def zyre_peer_connected_def zyre_group_join_def zyre_group_new_def Let_def
        zhash_insert_def zhash_arrange_def zyre_group_send_def s_peer_send_def heap_peer_send_def on_peer_def
        put_peer_def test_hello_dup)
qed

theorem zyre_group_test_passes_witness:
  "zyre_group_test sample_env \<lparr>uu_data = [1], uu_str = ''01''\<rparr> \<lparr>uu_data = [2], uu_str = ''02''\<rparr>
    = Inr (read_hello ''inproc://selftest-zyre_group'')"
  by (rule zyre_group_test_passes) (simp add: test_env_def sample_env_def)

end
