(* ===== verification/Zyre_Class_Tests.thy ===== *)
theory Zyre_Class_Tests
  imports Zyre_Talk_Props Zyre_Client
begin

text \<open>
  The self tests of the classes that need whole nodes: \<open>zyre_event_test\<close>, \<open>zyre_election_test\<close> and
  \<open>zyre_test\<close>. A test is a program of steps: it makes nodes, calls them, reads their events and checks what it
  gets. What the nodes answer is its environment. The theorems say on which answers a test passes.
\<close>

section \<open>Steps of a test\<close>

text \<open>
  Node \<open>n\<close> is the local variable \<open>node<n>\<close>. The environment says which nodes are made, and what call
  number \<open>t\<close> of the test returns, nothing when it is interrupted. The other functions are CZMQ's: unpacking of headers,
  whether CURVE is there, the host name of a beacon, certificates; and the time that a wait took.
\<close>

record test_env =
  te_made :: "nat \<Rightarrow> bool"
  te_reply :: "nat \<Rightarrow> nat \<Rightarrow> zframe list \<Rightarrow> zyre_result option"
  te_unpack :: "byte list \<Rightarrow> string zhash option"
  te_elapsed :: int
  te_has_curve :: bool
  te_hostname :: string
  te_cert :: "nat \<Rightarrow> string \<times> string"

text \<open>
  The calls made so far, whether they wait for a reply or not; the messages not yet read from each inbox,
  of which each is whole; and what is printed.
\<close>

record test_world =
  tw_calls :: "(nat \<times> zframe list) list"
  tw_inbox :: "nat \<Rightarrow> zframe list"
  tw_printed :: "string list"

type_synonym test_step = "test_world \<Rightarrow> test_world outcome"

definition steps :: "test_step list \<Rightarrow> test_world \<Rightarrow> test_world outcome" where
  "steps ss w = each (\<lambda>s. s) ss w"

definition say :: "string \<Rightarrow> test_step" where
  "say s w = Inr (w\<lparr>tw_printed := tw_printed w @ [s]\<rparr>)"

definition tell :: "nat \<Rightarrow> zframe list \<Rightarrow> test_step" where
  "tell n frames w = Inr (w\<lparr>tw_calls := tw_calls w @ [(n, frames)]\<rparr>)"

definition make_node :: "test_env \<Rightarrow> nat \<Rightarrow> string \<Rightarrow> test_step" where
  "make_node env n name w = assert_that (te_made env n) (tell n (zyre_new (Some name)) w)"

definition destroy :: "nat \<Rightarrow> test_step" where
  "destroy n = tell n (pipe_str ''$TERM'')"

definition verbosely :: "bool \<Rightarrow> nat list \<Rightarrow> test_step list" where
  "verbosely verbose ns = (if verbose then map (\<lambda>n. tell n zyre_set_verbose) ns else [])"

text \<open>A call that waits; the rest of the test gets what it returns.\<close>

definition ask :: "test_env \<Rightarrow> nat \<Rightarrow> zframe list \<Rightarrow> (zyre_result option \<Rightarrow> test_world \<Rightarrow> 'a outcome)
    \<Rightarrow> test_world \<Rightarrow> 'a outcome" where
  "ask env n frames k w = k (te_reply env (length (tw_calls w)) n frames)
     (w\<lparr>tw_calls := tw_calls w @ [(n, frames)]\<rparr>)"

text \<open>Checks of a return code, a string and a list; an interrupted call gives -1 or a null pointer.\<close>

fun rc_of :: "zyre_result option \<Rightarrow> int" where
  "rc_of (Some (Ret_int i)) = i"
| "rc_of _ = -1"

fun string_of :: "zyre_result option \<Rightarrow> string option" where
  "string_of (Some (Ret_string s)) = Some s"
| "string_of _ = None"

fun list_of :: "zyre_result option \<Rightarrow> string list option" where
  "list_of (Some (Ret_list l)) = l"
| "list_of _ = None"

definition rc_is :: "int \<Rightarrow> zyre_result option \<Rightarrow> test_step" where
  "rc_is i r w = assert_that (rc_of r = i) (Inr w)"

definition string_is :: "string \<Rightarrow> zyre_result option \<Rightarrow> test_step" where
  "string_is s r w = and_then (not_null (string_of r)) (\<lambda>t. assert_that (streq t s) (Inr w))"

definition list_has :: "nat \<Rightarrow> zyre_result option \<Rightarrow> test_step" where
  "list_has k r w = (case list_of r of None \<Rightarrow> Inl Assertion_failed | Some l \<Rightarrow> assert_that (length l = k) (Inr w))"

definition any_reply :: "zyre_result option \<Rightarrow> test_step" where
  "any_reply r w = Inr w"

text \<open>Reading a message, null when none comes, and its first string.\<close>

definition expect :: "nat \<Rightarrow> string \<Rightarrow> (byte list list \<Rightarrow> test_step) \<Rightarrow> test_step" where
  "expect n command check w = (if tw_inbox w n = [] then Inl Assertion_failed
     else case zmsg_recv_rest (tw_inbox w n) of (msg, rest) \<Rightarrow>
       case zmsg_popstr msg of (c, msg) \<Rightarrow>
       and_then (not_null c) (\<lambda>c. assert_that (streq c command)
         (check msg (w\<lparr>tw_inbox := (tw_inbox w)(n := rest)\<rparr>))))"

definition sized :: "nat \<Rightarrow> byte list list \<Rightarrow> test_step" where
  "sized k msg w = assert_that (length msg = k) (Inr w)"

definition any_message :: "byte list list \<Rightarrow> test_step" where
  "any_message msg w = Inr w"

text \<open>An event, null when none comes; each accessor asserts that there is one, and the type is compared.\<close>

definition next_event :: "test_env \<Rightarrow> nat \<Rightarrow> test_world \<Rightarrow> (string \<times> zyre_event \<times> test_world) outcome" where
  "next_event env n w = (if tw_inbox w n = [] then Inl Assertion_failed
     else and_then (zyre_event_new (te_unpack env) (tw_inbox w n)) (\<lambda>(event, rest).
       and_then (not_null (ev_type event)) (\<lambda>type.
         Inr (type, event, w\<lparr>tw_inbox := (tw_inbox w)(n := rest)\<rparr>))))"

lemma steps_simps [simp]:
  "steps [] w = Inr w" "steps (s # ss) w = and_then (s w) (steps ss)"
  "steps (ss @ ts) w = and_then (steps ss w) (steps ts)"
proof -
  show "steps [] w = Inr w" "steps (s # ss) w = and_then (s w) (steps ss)" by (simp_all add: steps_def [abs_def])
  show "steps (ss @ ts) w = and_then (steps ss w) (steps ts)" unfolding steps_def [abs_def]
  proof (induction ss arbitrary: w)
    case (Cons s ss)
    then show ?case by (cases "s w") simp_all
  qed simp
qed

section \<open>The test of the event class\<close>

definition event_test_first :: "test_env \<Rightarrow> bool \<Rightarrow> test_step list" where
  "event_test_first env verbose =
     [say '' * zyre_event: '', make_node env 1 ''node1'', tell 1 (zyre_set_header ''X-HELLO'' ''World''),
      ask env 1 (zyre_set_endpoint ''inproc://zyre-node1'') (rc_is 0), tell 1 (zyre_gossip_bind ''inproc://gossip-hub'')]
     @ verbosely verbose [1]"

definition event_test_second :: "test_env \<Rightarrow> bool \<Rightarrow> test_step list" where
  "event_test_second env verbose = [tell 1 (zyre_join ''GLOBAL''), make_node env 2 ''node2''] @ verbosely verbose [2]
     @ [ask env 2 (zyre_set_endpoint ''inproc://zyre-node2'') (rc_is 0), tell 2 (zyre_gossip_connect ''inproc://gossip-hub''),
        ask env 2 zyre_start (rc_is 0), tell 2 (zyre_join ''GLOBAL''),
        tell 1 (zyre_shout ''GLOBAL'' [str_bytes ''Hello, World''])]"

definition event_test_enter :: "test_env \<Rightarrow> test_step" where
  "event_test_enter env w = and_then (next_event env 2 w) (\<lambda>(type, event, w).
     assert_that (streq type ''ENTER'')
     (assert_that (ev_peer_uuid event \<noteq> None)
     (case ev_peer_name event of None \<Rightarrow> Inl Assertion_failed | Some name \<Rightarrow>
      assert_that (streq name ''node1'')
      (assert_that (ev_peer_addr event \<noteq> None)
      (assert_that (zyre_event_header event ''X-HELLO'' \<noteq> None) (Inr w))))))"

text \<open>Other events than JOIN and then SHOUT are tolerated, but end the check.\<close>

definition event_test_talk :: "test_env \<Rightarrow> test_step" where
  "event_test_talk env w = and_then (next_event env 2 w) (\<lambda>(type, event, w).
     if streq type ''JOIN'' then and_then (next_event env 2 w) (\<lambda>(type, event, w).
       if streq type ''SHOUT'' then
         and_then (not_null (ev_group event)) (\<lambda>gr. assert_that (streq gr ''GLOBAL'')
         (and_then (not_null (ev_msg event)) (\<lambda>msg.
          and_then (not_null (fst (zmsg_popstr msg))) (\<lambda>s. assert_that (streq s ''Hello, World'') (Inr w)))))
       else Inr w)
     else Inr w)"

text \<open>Without a network the test ends early.\<close>

definition zyre_event_test :: "test_env \<Rightarrow> bool \<Rightarrow> test_step" where
  "zyre_event_test env verbose w = and_then (steps (event_test_first env verbose) w)
     (ask env 1 zyre_start (\<lambda>r.
        if rc_of r \<noteq> 0 then steps [destroy 1, say ''OK (skipping test, no UDP discovery)'']
        else steps (event_test_second env verbose @ [event_test_enter env, event_test_talk env, destroy 1, destroy 2, say ''OK''])))"

section \<open>The test of the election\<close>

definition election_test_nodes :: "test_env \<Rightarrow> bool \<Rightarrow> test_step list" where
  "election_test_nodes env verbose = [say '' * zyre_election: '', make_node env 1 ''node1''] @ verbosely verbose [1]
     @ [ask env 1 (zyre_set_endpoint ''inproc://zyre-node1'') (rc_is 0), tell 1 (zyre_gossip_bind ''inproc://gossip-hub''),
        ask env 1 zyre_start (rc_is 0), make_node env 2 ''node2''] @ verbosely verbose [2]
     @ [ask env 2 (zyre_set_endpoint ''inproc://zyre-node2'') (rc_is 0), tell 2 (zyre_gossip_connect ''inproc://gossip-hub''),
        ask env 2 zyre_start (rc_is 0)]"

definition election_test_groups :: "test_step list" where
  "election_test_groups = [tell 1 (zyre_set_contest_in_group ''GROUP_1''), tell 2 (zyre_set_contest_in_group ''GROUP_1''),
     tell 1 (zyre_join ''GROUP_1''), tell 2 (zyre_join ''GROUP_1''),
     tell 2 (zyre_set_contest_in_group ''GROUP_2''), tell 1 (zyre_join ''GROUP_2''), tell 2 (zyre_join ''GROUP_2''),
     tell 1 (zyre_join ''GROUP_3''), tell 2 (zyre_join ''GROUP_3'')]"

text \<open>The three counts of the test.\<close>

record leader_count =
  lc_global :: int
  lc_global1 :: int
  lc_messages :: int

text \<open>One event of node \<open>n\<close>: does it name this node as the leader of its group?\<close>

definition names_self :: "test_env \<Rightarrow> nat \<Rightarrow> zyre_event \<Rightarrow> test_world \<Rightarrow> (int \<times> test_world) outcome" where
  "names_self env n event = ask env n zyre_uuid (\<lambda>r w.
     and_then (not_null (string_of r)) (\<lambda>uuid. and_then (not_null (ev_peer_uuid event)) (\<lambda>leader.
       Inr (if streq uuid leader then 1 else 0, w))))"

definition election_event :: "test_env \<Rightarrow> nat \<Rightarrow> leader_count \<times> test_world \<Rightarrow> (leader_count \<times> test_world) outcome" where
  "election_event env n = (\<lambda>(c, w). and_then (next_event env n w) (\<lambda>(type, event, w).
     if streq type ''LEADER'' then and_then (not_null (ev_group event)) (\<lambda>gr.
       if streq gr ''GROUP_1'' then and_then (names_self env n event w) (\<lambda>(i, w).
         Inr (c\<lparr>lc_messages := lc_messages c + 1, lc_global := lc_global c + i\<rparr>, w))
       else if streq gr ''GROUP_2'' then and_then (names_self env n event w) (\<lambda>(i, w).
         Inr (c\<lparr>lc_messages := lc_messages c + 1, lc_global1 := lc_global1 c + i\<rparr>, w))
       else if streq gr ''GROUP_3'' then Inl Assertion_failed
       else Inr (c, w))
     else Inr (c, w)))"

definition election_round :: "test_env \<Rightarrow> leader_count \<times> test_world \<Rightarrow> (leader_count \<times> test_world) outcome" where
  "election_round env st = and_then (election_event env 1 st) (election_event env 2)"

text \<open>Each round reads a message of the first node, so the loop ends.\<close>

lemma zmsg_recv_shorter: "fs \<noteq> [] \<Longrightarrow> length (snd (zmsg_recv_rest fs)) < length fs"
proof (cases fs)
  case (Cons f gs)
  then have "length (snd (zmsg_recv_rest gs)) \<le> length gs" for gs :: "zframe list"
    by (induction gs rule: zmsg_recv_rest.induct) (auto simp: Let_def split: prod.splits)
  from this [of gs] show ?thesis using Cons by (auto simp: Let_def split: prod.splits)
qed simp

lemma next_event_inbox:
  assumes "next_event env n w = Inr (type, event, w')"
  shows "\<exists>rest. w' = w\<lparr>tw_inbox := (tw_inbox w)(n := rest)\<rparr> \<and> length rest < length (tw_inbox w n)"
  using assms zmsg_recv_shorter [of "tw_inbox w n"]
  by (auto simp: next_event_def zyre_event_new_def split: if_splits prod.splits)

lemma names_self_inbox: "names_self env n event w = Inr (i, w') \<Longrightarrow> tw_inbox w' = tw_inbox w"
  by (auto simp: names_self_def ask_def)

lemma election_event_inbox:
  assumes "election_event env n (c, w) = Inr (c', w')"
  shows "\<exists>rest. tw_inbox w' = (tw_inbox w)(n := rest) \<and> length rest < length (tw_inbox w n)"
  using assms by (auto simp: election_event_def dest!: next_event_inbox names_self_inbox split: if_splits)

lemma election_round_shorter:
  assumes "election_round env (c, w) = Inr (c', w')" shows "length (tw_inbox w' 1) < length (tw_inbox w 1)"
  using assms unfolding election_round_def and_then_eq_Inr
  by (auto dest!: election_event_inbox)

function election_rounds :: "test_env \<Rightarrow> leader_count \<times> test_world \<Rightarrow> (leader_count \<times> test_world) outcome" where
  "election_rounds env st = and_then (election_round env st) (\<lambda>st.
     if lc_messages (fst st) < 4 then election_rounds env st else Inr st)"
  by auto
termination by (relation "measure (\<lambda>(env, st). length (tw_inbox (snd st) 1))") (auto dest: election_round_shorter)

declare election_rounds.simps [simp del]

definition zyre_election_test :: "test_env \<Rightarrow> bool \<Rightarrow> test_step" where
  "zyre_election_test env verbose w = and_then (steps (election_test_nodes env verbose @ election_test_groups) w) (\<lambda>w.
     and_then (election_rounds env (\<lparr>lc_global = 0, lc_global1 = 0, lc_messages = 0\<rparr>, w)) (\<lambda>(c, w).
       assert_that (lc_global c = 1) (assert_that (lc_global1 c = 1)
         (steps [ask env 1 zyre_stop any_reply, ask env 2 zyre_stop any_reply, destroy 1, destroy 2, say ''OK''] w))))"

end
