(* ===== verification/Zyre_Main_Test.thy ===== *)
theory Zyre_Main_Test
  imports Zyre_Class_Tests
begin

text \<open>
  The self test of the public class (\<open>zyre_test\<close> in \<open>src/zyre.c\<close>): two nodes that meet by gossip, and, where
  CURVE is there, two that meet by beacons and two that meet by gossip with certificates.
\<close>

section \<open>The version\<close>

definition zyre_version :: "nat \<times> nat \<times> nat \<Rightarrow> nat" where
  "zyre_version v = (case v of (major, minor, patch) \<Rightarrow> major * 10000 + minor * 100 + patch)"

definition version_test :: "nat \<times> nat \<times> nat \<Rightarrow> test_step" where
  "version_test v w = (case v of (major, minor, patch) \<Rightarrow>
     assert_that (zyre_version v div 10000 mod 100 = major)
     (assert_that (zyre_version v div 100 mod 100 = minor) (assert_that (zyre_version v mod 100 = patch) (Inr w))))"

section \<open>The nodes and their queries\<close>

definition zyre_test_first :: "test_env \<Rightarrow> bool \<Rightarrow> test_step list" where
  "zyre_test_first env verbose = [make_node env 1 ''node1'', ask env 1 zyre_name (string_is ''node1''),
     tell 1 (zyre_set_header ''X-HELLO'' ''World'')] @ verbosely verbose [1]
     @ [ask env 1 (zyre_set_endpoint ''inproc://zyre-node1'') (rc_is 0), tell 1 (zyre_gossip_bind ''inproc://gossip-hub''),
        ask env 1 zyre_start (rc_is 0)]"

text \<open>The second node first asks for the endpoint of the first.\<close>

definition zyre_test_second :: "test_env \<Rightarrow> bool \<Rightarrow> test_step list" where
  "zyre_test_second env verbose = [make_node env 2 ''node2'', ask env 2 zyre_name (string_is ''node2'')] @ verbosely verbose [2]
     @ [ask env 2 (zyre_set_endpoint ''inproc://zyre-node1'') (rc_is (-1)),
        ask env 2 (zyre_set_endpoint ''inproc://zyre-node2'') (rc_is 0),
        tell 2 (zyre_gossip_connect ''inproc://gossip-hub''), ask env 2 zyre_start (rc_is 0)]"

definition uuids_differ :: "test_env \<Rightarrow> test_step" where
  "uuids_differ env = ask env 1 zyre_uuid (\<lambda>r. ask env 2 zyre_uuid (\<lambda>r' w.
     and_then (not_null (string_of r)) (\<lambda>s. and_then (not_null (string_of r')) (\<lambda>t. assert_that (\<not> streq s t) (Inr w)))))"

definition header_read :: "test_env \<Rightarrow> test_step" where
  "header_read env = ask env 1 zyre_uuid (\<lambda>r w. and_then (not_null (string_of r)) (\<lambda>uuid.
     ask env 2 (zyre_peer_header_value uuid ''X-HELLO'') (string_is ''World'') w))"

text \<open>\<open>zyre_dump\<close> is another name of \<open>zyre_print\<close>.\<close>

definition zyre_test_queries :: "test_env \<Rightarrow> bool \<Rightarrow> test_step list" where
  "zyre_test_queries env verbose = [uuids_differ env, tell 1 (zyre_join ''GLOBAL''), tell 2 (zyre_join ''GLOBAL'')]
     @ (if verbose then [tell 1 zyre_print] else [])
     @ [ask env 1 zyre_peers (list_has 1), tell 1 (zyre_join ''node1 group of one''), tell 2 (zyre_join ''node2 group of one''),
        ask env 1 zyre_own_groups (list_has 2), ask env 1 zyre_peer_groups (list_has 2), header_read env,
        tell 1 (zyre_shouts ''GLOBAL'' ''Hello, World'')]"

section \<open>The events\<close>

text \<open>ENTER with its name, its endpoint and its headers: all frames must be there.\<close>

definition enter_shown :: "test_env \<Rightarrow> byte list list \<Rightarrow> test_step" where
  "enter_shown env msg w = assert_that (length msg = 4)
     (case zmsg_popstr msg of (peerid, msg) \<Rightarrow> case zmsg_popstr msg of (name, msg) \<Rightarrow>
      and_then (not_null name) (\<lambda>name. assert_that (streq name ''node1'')
      (case msg of [] \<Rightarrow> Inl Assertion_failed | headers_packed # msg \<Rightarrow>
       and_then (not_null (fst (zmsg_popstr msg))) (\<lambda>address.
       and_then (not_null peerid) (\<lambda>peerid. ask env 2 (zyre_peer_address peerid) (\<lambda>r w.
         and_then (not_null (string_of r)) (\<lambda>endpoint. assert_that (streq address endpoint)
         (case te_unpack env headers_packed of None \<Rightarrow> Inl Assertion_failed | Some headers \<Rightarrow>
          and_then (not_null (zhash_lookup headers ''X-HELLO'')) (\<lambda>value.
            assert_that (streq value ''World'') (Inr w))))) w)))))"

definition enter_named :: "string \<Rightarrow> byte list list \<Rightarrow> test_step" where
  "enter_named nm msg w = (case zmsg_popstr msg of (peerid, msg) \<Rightarrow>
     and_then (not_null (fst (zmsg_popstr msg))) (\<lambda>name. assert_that (streq name nm) (Inr w)))"

definition zyre_test_events :: "test_env \<Rightarrow> test_step list" where
  "zyre_test_events env =
     [expect 2 ''ENTER'' (enter_shown env), expect 2 ''JOIN'' (sized 3), expect 2 ''JOIN'' (sized 3),
      expect 2 ''SHOUT'' any_message,
      expect 1 ''ENTER'' (\<lambda>msg w. assert_that (length msg = 4) (enter_named ''node2'' msg w)),
      expect 1 ''JOIN'' (sized 3), expect 1 ''JOIN'' (sized 3)]"

text \<open>A message of each side makes the new evasive time count; then node 1 must report the other in time.\<close>

definition evasive_test :: "test_env \<Rightarrow> test_step list" where
  "evasive_test env = [tell 1 (zyre_set_evasive_timeout 100), tell 1 (zyre_shouts ''GLOBAL'' ''Hello again''),
     tell 2 (zyre_shouts ''GLOBAL'' ''Hello again''), expect 1 ''SHOUT'' any_message, expect 2 ''SHOUT'' any_message,
     (\<lambda>w. assert_that (te_elapsed env < 100 + 100) (expect 1 ''EVASIVE'' any_message w))]"

definition stop_test :: "test_env \<Rightarrow> test_step list" where
  "stop_test env = [ask env 2 zyre_stop any_reply, expect 2 ''STOP'' any_message, ask env 1 zyre_stop any_reply,
     destroy 1, destroy 2, say ''OK'']"

section \<open>With CURVE\<close>

text \<open>The key of a node's certificate is its header as well.\<close>

definition certified :: "test_env \<Rightarrow> nat \<Rightarrow> nat \<Rightarrow> test_step list" where
  "certified env n m = [tell n (case te_cert env n of (public, secret) \<Rightarrow> zyre_set_zcert public secret),
     tell m (case te_cert env m of (public, secret) \<Rightarrow> zyre_set_zcert public secret),
     tell n (zyre_set_header ''X-PUBLICKEY'' (fst (te_cert env n))),
     tell m (zyre_set_header ''X-PUBLICKEY'' (fst (te_cert env m)))]"

definition both_join :: "test_env \<Rightarrow> bool \<Rightarrow> nat \<Rightarrow> nat \<Rightarrow> test_step list" where
  "both_join env verbose n m = [ask env n zyre_start (rc_is 0), ask env m zyre_start (rc_is 0),
     tell n (zyre_join ''GLOBAL''), tell m (zyre_join ''GLOBAL'')]
     @ (if verbose then [tell n zyre_print, tell m zyre_print] else [])
     @ [tell n (zyre_shouts ''GLOBAL'' ''Hello, World'')]"

definition both_stop :: "test_env \<Rightarrow> nat \<Rightarrow> nat \<Rightarrow> test_step list" where
  "both_stop env n m = [tell n (zyre_leave ''GLOBAL''), tell m (zyre_leave ''GLOBAL''),
     ask env n zyre_stop any_reply, ask env m zyre_stop any_reply, destroy n, destroy m]"

text \<open>The identity in ENTER must be there before the name is read.\<close>

definition enter_of :: "string \<Rightarrow> byte list list \<Rightarrow> test_step" where
  "enter_of nm msg w = assert_that (fst (zmsg_popstr msg) \<noteq> None) (enter_named nm msg w)"

definition curve_beacon_test :: "test_env \<Rightarrow> bool \<Rightarrow> test_step list" where
  "curve_beacon_test env verbose = [make_node env 3 ''node3'', make_node env 4 ''node4''] @ verbosely verbose [3, 4]
     @ [tell 3 (zyre_set_zap_domain ''TEST''), tell 4 (zyre_set_zap_domain ''TEST'')] @ certified env 3 4
     @ both_join env verbose 3 4
     @ [expect 4 ''ENTER'' (enter_of ''node3''), expect 4 ''JOIN'' any_message, expect 4 ''SHOUT'' any_message]
     @ both_stop env 3 4"

definition curve_gossip_test :: "test_env \<Rightarrow> bool \<Rightarrow> test_step list" where
  "curve_gossip_test env verbose = [make_node env 5 ''node5'', make_node env 6 ''node6''] @ verbosely verbose [5, 6]
     @ certified env 5 6
     @ [tell 5 (zyre_gossip_bind ''tcp://127.0.0.1:9001''),
        tell 6 (zyre_gossip_connect_curve (fst (te_cert env 5)) ''tcp://127.0.0.1:9001'')]
     @ both_join env verbose 5 6 @ [expect 6 ''ENTER'' (enter_of ''node5'')] @ both_stop env 5 6 @ [say ''OK'']"

section \<open>The whole test\<close>

definition zyre_plain_test :: "nat \<times> nat \<times> nat \<Rightarrow> test_env \<Rightarrow> bool \<Rightarrow> test_step list" where
  "zyre_plain_test v env verbose = say '' * zyre: '' # (if verbose then [say [CHR 0x0A]] else []) @ [version_test v]
     @ zyre_test_first env verbose @ zyre_test_second env verbose @ zyre_test_queries env verbose
     @ zyre_test_events env @ evasive_test env @ stop_test env"

text \<open>Without a broadcast address the second part is left out.\<close>

definition zyre_curve_test :: "test_env \<Rightarrow> bool \<Rightarrow> test_step list" where
  "zyre_curve_test env verbose = say '' * zyre-curve: '' # (if verbose then [say [CHR 0x0A]] else [])
     @ (if te_hostname env = [] then [say ''OK (skipping test, no UDP broadcasting)'']
        else curve_beacon_test env verbose @ curve_gossip_test env verbose)"

definition zyre_test :: "nat \<times> nat \<times> nat \<Rightarrow> test_env \<Rightarrow> bool \<Rightarrow> test_step" where
  "zyre_test v env verbose = steps (zyre_plain_test v env verbose
     @ (if te_has_curve env then zyre_curve_test env verbose else []))"

end
