(* ===== verification/Zyre_Class_Tests_Props.thy ===== *)
theory Zyre_Class_Tests_Props
  imports Zyre_Main_Test Zyre_Wave_Pair
begin

text \<open>
  On which answers the tests of whole nodes pass: those that the model's nodes give.
\<close>

section \<open>Reading\<close>

lemma next_event_read:
  "zyre_event_new (te_unpack env) (tw_inbox w n) = Inr (e, rest) \<Longrightarrow> ev_type e = Some type
     \<Longrightarrow> next_event env n w = Inr (type, e, w\<lparr>tw_inbox := (tw_inbox w)(n := rest)\<rparr>)"
  by (cases "tw_inbox w n") (simp_all add: next_event_def zyre_event_new_def zyre_event_parse_def)

lemma expect_multipart:
  assumes "tw_inbox w n = multipart (str_bytes command # msg) @ rest" and "c_string command"
  shows "expect n command check w = check msg (w\<lparr>tw_inbox := (tw_inbox w)(n := rest)\<rparr>)"
  using assms by (cases msg) (simp_all add: expect_def)

lemma steps_then: "steps ss w = Inr w' \<Longrightarrow> steps (ss @ ts) w = steps ts w'"
  by simp

lemma steps_verbosely [simp]:
  "steps (verbosely verbose ns) w = Inr (w\<lparr>tw_calls := tw_calls w
     @ (if verbose then map (\<lambda>n. (n, zyre_set_verbose)) ns else [])\<rparr>)"
  by (induction ns arbitrary: w) (auto simp: verbosely_def tell_def)

section \<open>The event class\<close>

definition setup_works :: "test_env \<Rightarrow> bool" where
  "setup_works env \<longleftrightarrow> te_made env = (\<lambda>_. True) \<and> (\<forall>t n. te_reply env t n zyre_start = Some (Ret_int 0))
     \<and> (\<forall>t. te_reply env t 1 (zyre_set_endpoint ''inproc://zyre-node1'') = Some (Ret_int 0))
     \<and> (\<forall>t. te_reply env t 2 (zyre_set_endpoint ''inproc://zyre-node2'') = Some (Ret_int 0))"

lemma setup_worksD:
  assumes "setup_works env"
  shows "te_made env n" "te_reply env t n zyre_start = Some (Ret_int 0)"
    "te_reply env t 1 (zyre_set_endpoint ''inproc://zyre-node1'') = Some (Ret_int 0)"
    "te_reply env t (Suc 0) (zyre_set_endpoint ''inproc://zyre-node1'') = Some (Ret_int 0)"
    "te_reply env t 2 (zyre_set_endpoint ''inproc://zyre-node2'') = Some (Ret_int 0)"
  using assms by (simp_all add: setup_works_def)

lemmas step_simps = say_def tell_def make_node_def ask_def destroy_def rc_is_def string_is_def list_has_def any_reply_def

lemma event_new_some: "zyre_event_new unpack fs = Inr r \<Longrightarrow> fs \<noteq> []"
  by (cases fs) (auto simp: zyre_event_new_def zyre_event_parse_def)

text \<open>What the first node calls before the second reads.\<close>

definition event_test_calls :: "call list" where
  "event_test_calls = [Own (Join_call ''GLOBAL''), Shout_call ''GLOBAL'' [str_bytes ''Hello, World'']]"

lemma event_test_passes:
  assumes "setup_works env" and "zhash_lookup headers ''X-HELLO'' \<noteq> None" and "G ''GLOBAL''"
    and e: "e = (event_of ''ENTER'' u ''node1'')\<lparr>ev_headers := Some headers, ev_peer_addr := Some endpoint\<rparr>"
    and "shown (te_unpack env) fs (e # heard_events k G u ''node1'' event_test_calls ([], status))"
    and "tw_inbox w 2 = fs @ later"
  shows "\<exists>w'. zyre_event_test env verbose w = Inr w' \<and> tw_inbox w' 2 = later
    \<and> tw_printed w' = tw_printed w @ ['' * zyre_event: '', ''OK'']"
proof -
  let ?join = "(event_of ''JOIN'' u ''node1'')\<lparr>ev_group := Some ''GLOBAL''\<rparr>"
  let ?shout = "(event_of ''SHOUT'' u ''node1'')\<lparr>ev_group := Some ''GLOBAL'', ev_msg := Some [str_bytes ''Hello, World'']\<rparr>"
  note ok = setup_worksD [OF assms(1)]
  have "heard_events k G u ''node1'' event_test_calls ([], status) = [?join, ?shout]"
    using assms(3) by (simp add: event_test_calls_def)
  then obtain r1 r2 where reads: "zyre_event_new (te_unpack env) (fs @ later) = Inr (e, r1)"
    "zyre_event_new (te_unpack env) r1 = Inr (?join, r2)" "zyre_event_new (te_unpack env) r2 = Inr (?shout, later)"
    using assms(5) by (auto simp: shown_def dest!: spec [of _ later])
  note r = reads reads [THEN event_new_some]
  show ?thesis using assms(2,6) ok r
    by (simp add: zyre_event_test_def event_test_first_def event_test_second_def step_simps event_test_enter_def
      event_test_talk_def next_event_def e event_of_def zyre_event_header_def c_string_def)
qed

section \<open>The election\<close>

text \<open>The leaders that the events of a node name for a group, and how often they name \<open>u\<close>.\<close>

definition leaders :: "string \<Rightarrow> zyre_event list \<Rightarrow> string list" where
  "leaders gr es = map (\<lambda>e. the (ev_peer_uuid e))
     (filter (\<lambda>e. ev_type e = Some ''LEADER'' \<and> ev_group e = Some gr) es)"

definition named :: "string \<Rightarrow> string \<Rightarrow> zyre_event list \<Rightarrow> int" where
  "named u gr es = int (count_list (leaders gr es) u)"

definition announced :: "zyre_event list \<Rightarrow> int" where
  "announced es = int (length (leaders ''GROUP_1'' es) + length (leaders ''GROUP_2'' es))"

lemma leaders_simps [simp]:
  "leaders gr [] = []"
  "leaders gr (e # es) = (if ev_type e = Some ''LEADER'' \<and> ev_group e = Some gr then [the (ev_peer_uuid e)] else []) @ leaders gr es"
  by (simp_all add: leaders_def)

text \<open>Events whose strings the test may compare, with no leader of the group that nobody contests.\<close>

definition fair_event :: "zyre_event \<Rightarrow> bool" where
  "fair_event e \<longleftrightarrow> pred_option c_string (ev_type e) \<and> ev_type e \<noteq> None \<and> (ev_type e = Some ''LEADER'' \<longrightarrow>
     (\<exists>gr u. ev_group e = Some gr \<and> c_string gr \<and> gr \<noteq> ''GROUP_3'' \<and> ev_peer_uuid e = Some u \<and> c_string u))"

definition uuid_known :: "test_env \<Rightarrow> nat \<Rightarrow> string \<Rightarrow> bool" where
  "uuid_known env n u \<longleftrightarrow> c_string u \<and> (\<forall>t. te_reply env t n zyre_uuid = Some (Ret_string u))"

definition tally :: "string \<Rightarrow> zyre_event \<Rightarrow> leader_count \<Rightarrow> leader_count" where
  "tally u e c = c\<lparr>lc_global := lc_global c + named u ''GROUP_1'' [e], lc_global1 := lc_global1 c + named u ''GROUP_2'' [e],
     lc_messages := lc_messages c + announced [e]\<rparr>"

lemma c_string_leader [simp]: "c_string ''LEADER''" "c_string ''GROUP_1''" "c_string ''GROUP_2''" "c_string ''GROUP_3''"
  by (simp_all add: c_string_def)

lemma election_event_tallies:
  assumes "zyre_event_new (te_unpack env) (tw_inbox w n) = Inr (e, rest)" and "fair_event e" and "uuid_known env n u"
  shows "\<exists>w'. election_event env n (c, w) = Inr (tally u e c, w') \<and> tw_inbox w' = (tw_inbox w)(n := rest)"
proof -
  obtain type where t: "ev_type e = Some type" "c_string type" using assms(2) by (auto simp: fair_event_def)
  note next_ev = next_event_read [OF assms(1) t(1)]
  show ?thesis
  proof (cases "type = ''LEADER''")
    case True
    then obtain gr v where v: "ev_group e = Some gr" "c_string gr" "gr \<noteq> ''GROUP_3''" "ev_peer_uuid e = Some v" "c_string v"
      using assms(2) t by (auto simp: fair_event_def)
    then show ?thesis using True t assms(3)
      by (auto simp: election_event_def next_ev names_self_def ask_def tally_def named_def announced_def uuid_known_def streq_iff)
  next
    case False
    then show ?thesis using t
      by (simp add: election_event_def next_ev tally_def named_def announced_def streq_iff)
  qed
qed

text \<open>If the nodes announce four leaders altogether, the loop ends when it has read all of them, and its counts are right.\<close>

lemma election_rounds_count:
  assumes "read_events (te_unpack env) n (tw_inbox w 1) = Inr (es, later)" and "read_events (te_unpack env) n (tw_inbox w 2) = Inr (fs, later')"
    and "list_all fair_event es" and "list_all fair_event fs" and "uuid_known env 1 u" and "uuid_known env 2 v"
    and "lc_messages c + announced es + announced fs = 4" and "lc_messages c < 4"
  shows "\<exists>c' w'. election_rounds env (c, w) = Inr (c', w') \<and> lc_messages c' = 4
    \<and> lc_global c' = lc_global c + named u ''GROUP_1'' es + named v ''GROUP_1'' fs
    \<and> lc_global1 c' = lc_global1 c + named u ''GROUP_2'' es + named v ''GROUP_2'' fs"
  using assms
proof (induction n arbitrary: w c es fs)
  case 0
  then show ?case by (simp add: announced_def)
next
  case (Suc n)
  obtain e es' r where e: "zyre_event_new (te_unpack env) (tw_inbox w 1) = Inr (e, r)" "es = e # es'"
    "read_events (te_unpack env) n r = Inr (es', later)" using Suc.prems(1) by auto
  obtain f fs' r' where f: "zyre_event_new (te_unpack env) (tw_inbox w 2) = Inr (f, r')" "fs = f # fs'"
    "read_events (te_unpack env) n r' = Inr (fs', later')" using Suc.prems(2) by auto
  obtain w1 where w1: "election_event env 1 (c, w) = Inr (tally u e c, w1)" "tw_inbox w1 = (tw_inbox w)(1 := r)"
    using election_event_tallies [OF e(1) _ Suc.prems(5)] Suc.prems(3) e(2) by auto
  have f1: "zyre_event_new (te_unpack env) (tw_inbox w1 2) = Inr (f, r')" using f(1) w1(2) by simp
  obtain w2 where w2: "election_event env 2 (tally u e c, w1) = Inr (tally v f (tally u e c), w2)"
    "tw_inbox w2 = (tw_inbox w1)(2 := r')"
    using election_event_tallies [OF f1 _ Suc.prems(6)] Suc.prems(4) f(2) by auto
  let ?c = "tally v f (tally u e c)"
  have left: "lc_messages ?c + announced es' + announced fs' = 4" "0 \<le> announced es'" "0 \<le> announced fs'"
    using Suc.prems(7) unfolding e(2) f(2) by (auto simp: tally_def announced_def)
  have split: "named x gr (g # gs) = named x gr [g] + named x gr gs" for x gr g gs by (simp add: named_def)
  have round: "election_round env (c, w) = Inr (?c, w2)" using w1(1) w2(1) by (simp add: election_round_def)
  show ?case
  proof (cases "lc_messages ?c < 4")
    case True
    have reads: "read_events (te_unpack env) n (tw_inbox w2 1) = Inr (es', later)"
      "read_events (te_unpack env) n (tw_inbox w2 2) = Inr (fs', later')"
      using e(3) f(3) w1(2) w2(2) by simp_all
    have fair: "list_all fair_event es'" "list_all fair_event fs'" using Suc.prems(3,4) e(2) f(2) by simp_all
    obtain c' w' where "election_rounds env (?c, w2) = Inr (c', w')" "lc_messages c' = 4"
      "lc_global c' = lc_global ?c + named u ''GROUP_1'' es' + named v ''GROUP_1'' fs'"
      "lc_global1 c' = lc_global1 ?c + named u ''GROUP_2'' es' + named v ''GROUP_2'' fs'"
      using Suc.IH [OF reads fair Suc.prems(5,6) left(1) True] by blast
    then show ?thesis using True round
      by (subst election_rounds.simps)
        (simp add: e(2) f(2) split [of _ _ e es'] split [of _ _ f fs'] tally_def del: leaders_simps)
  next
    case False
    have "announced es' = 0" "announced fs' = 0" "lc_messages ?c = 4" using left False by linarith+
    then have "named x gr es' = 0" "named x gr fs' = 0" if "gr \<in> {''GROUP_1'', ''GROUP_2''}" for x gr
      using that by (auto simp: announced_def named_def add_nonneg_eq_0_iff)
    then show ?thesis using False round \<open>lc_messages ?c = 4\<close>
      by (subst election_rounds.simps)
        (simp add: e(2) f(2) split [of _ _ e es'] split [of _ _ f fs'] tally_def del: leaders_simps)
  qed
qed

text \<open>
  What the whole test comes to: each node announces one leader for each of the two contested groups; the test
  passes exactly if, in each group, the two leaders are named by one of the nodes itself and by the other not.
\<close>

lemma steps_asked: "steps [ask env 1 zyre_stop any_reply, ask env 2 zyre_stop any_reply, destroy 1, destroy 2, say ''OK''] w
  = Inr (w\<lparr>tw_calls := tw_calls w @ [(1, zyre_stop), (2, zyre_stop), (1, pipe_str ''$TERM''), (2, pipe_str ''$TERM'')],
      tw_printed := tw_printed w @ [''OK'']\<rparr>)"
  by (simp add: step_simps)

lemma election_test_setup:
  assumes "setup_works env"
  shows "\<exists>w'. steps (election_test_nodes env verbose @ election_test_groups) w = Inr w' \<and> tw_inbox w' = tw_inbox w
    \<and> tw_printed w' = tw_printed w @ ['' * zyre_election: '']"
  using setup_worksD [OF assms] by (simp add: election_test_nodes_def election_test_groups_def step_simps)

lemma election_test_result:
  assumes "setup_works env" and "uuid_known env 1 u" and "uuid_known env 2 v"
    and "read_events (te_unpack env) n (tw_inbox w 1) = Inr (es, later)" and "read_events (te_unpack env) n (tw_inbox w 2) = Inr (fs, later')"
    and "list_all fair_event es" and "list_all fair_event fs"
    and "leaders ''GROUP_1'' es = [a]" and "leaders ''GROUP_1'' fs = [b]"
    and "leaders ''GROUP_2'' es = [c]" and "leaders ''GROUP_2'' fs = [d]"
  shows "if (a = u) = (b \<noteq> v) \<and> (c = u) = (d \<noteq> v)
    then \<exists>w'. zyre_election_test env verbose w = Inr w' \<and> last (tw_printed w') = ''OK''
    else zyre_election_test env verbose w = Inl Assertion_failed"
proof -
  let ?zero = "\<lparr>lc_global = 0, lc_global1 = 0, lc_messages = 0\<rparr>"
  obtain w1 where w1: "steps (election_test_nodes env verbose @ election_test_groups) w = Inr w1" "tw_inbox w1 = tw_inbox w"
    "tw_printed w1 = tw_printed w @ ['' * zyre_election: '']" using election_test_setup [OF assms(1)] by blast
  have reads: "read_events (te_unpack env) n (tw_inbox w1 1) = Inr (es, later)"
    "read_events (te_unpack env) n (tw_inbox w1 2) = Inr (fs, later')" using assms(4,5) w1(2) by simp_all
  have four: "lc_messages ?zero + announced es + announced fs = 4" "lc_messages ?zero < 4"
    using assms(8-11) by (simp_all add: announced_def)
  obtain k w2 where w2: "election_rounds env (?zero, w1) = Inr (k, w2)"
    "lc_global k = (if a = u then 1 else 0) + (if b = v then 1 else 0)"
    "lc_global1 k = (if c = u then 1 else 0) + (if d = v then 1 else 0)"
    using election_rounds_count [OF reads assms(6,7,2,3) four] assms(8-11) by (auto simp: named_def)
  have "zyre_election_test env verbose w = assert_that (lc_global k = 1) (assert_that (lc_global1 k = 1)
      (Inr (w2\<lparr>tw_calls := tw_calls w2 @ [(1, zyre_stop), (2, zyre_stop), (1, pipe_str ''$TERM''), (2, pipe_str ''$TERM'')],
        tw_printed := tw_printed w2 @ [''OK'']\<rparr>)))"
    unfolding zyre_election_test_def w1(1) and_then_simps w2(1) prod.case steps_asked by (rule refl)
  then show ?thesis using w2(2,3) by auto
qed

text \<open>
  A split election, in which each node is told that the other leads or each that it leads itself, does not pass.
\<close>

lemma split_election_fails:
  assumes "setup_works env" and "uuid_known env 1 u" and "uuid_known env 2 v" and "u \<noteq> v"
    and "read_events (te_unpack env) n (tw_inbox w 1) = Inr (es, later)" and "read_events (te_unpack env) n (tw_inbox w 2) = Inr (fs, later')"
    and "list_all fair_event es" and "list_all fair_event fs"
    and "leaders ''GROUP_1'' es = [a]" and "leaders ''GROUP_1'' fs = [b]" and "{a, b} = {u, v}"
    and "leaders ''GROUP_2'' es = [c]" and "leaders ''GROUP_2'' fs = [d]"
  shows "zyre_election_test env verbose w = Inl Assertion_failed"
proof -
  have "(a = u) \<noteq> (b \<noteq> v)" using assms(4,11) by (auto simp: doubleton_eq_iff)
  then show ?thesis using election_test_result [OF assms(1-3,5-10,12,13), of verbose] by simp
qed

text \<open>
  The two nodes have met when they join the groups. In the first group, which both contest, they announce the same
  leader, whatever the order of joining and of their messages, so the first count of the test is right; the second
  group only one of them contests. The test waits for ever when nobody challenges there (\<open>lone_contester_silent\<close>).
\<close>

lemma election_test_passes:
  assumes "setup_works env" and "uuid_known env 1 u" and "uuid_known env 2 v" and "u \<noteq> v"
    and "(form_step {u, v})\<^sup>*\<^sup>* (meeting {u, v} {} {u, v}) t" and "\<nexists>t'. form_step {u, v} t t'"
    and "read_events (te_unpack env) n (tw_inbox w 1) = Inr (es, later)" and "read_events (te_unpack env) n (tw_inbox w 2) = Inr (fs, later')"
    and "list_all fair_event es" and "list_all fair_event fs"
    and "leaders ''GROUP_1'' es = v_said (s_voter (h_seat t u))" and "leaders ''GROUP_1'' fs = v_said (s_voter (h_seat t v))"
    and "leaders ''GROUP_2'' es = [c]" and "leaders ''GROUP_2'' fs = [c]" and "c = u \<or> c = v"
  shows "\<exists>w'. zyre_election_test env verbose w = Inr w' \<and> last (tw_printed w') = ''OK''"
proof -
  obtain a where a: "a = u \<or> a = v" "leaders ''GROUP_1'' es = [a]" "leaders ''GROUP_1'' fs = [a]"
    using pair_settled [OF assms(4) _ assms(5,6)] assms(11,12) by auto
  have "(a = u) = (a \<noteq> v) \<and> (c = u) = (c \<noteq> v)" using a(1) assms(4,15) by auto
  then show ?thesis using election_test_result [OF assms(1-3,7-10) a(2,3) assms(13,14), of verbose] by simp
qed

section \<open>The public class\<close>

definition plain_answers :: "test_env \<Rightarrow> string \<Rightarrow> string \<Rightarrow> string \<Rightarrow> bool" where
  "plain_answers env u v endpoint \<longleftrightarrow> setup_works env \<and> uuid_known env 1 u \<and> uuid_known env 2 v \<and> u \<noteq> v
     \<and> (\<forall>t. te_reply env t 1 zyre_name = Some (Ret_string ''node1''))
     \<and> (\<forall>t. te_reply env t 2 zyre_name = Some (Ret_string ''node2''))
     \<and> (\<forall>t. te_reply env t 2 (zyre_set_endpoint ''inproc://zyre-node1'') = Some (Ret_int (-1)))
     \<and> (\<forall>t. te_reply env t 1 zyre_peers = Some (Ret_list (Some [v])))
     \<and> (\<forall>t. te_reply env t 1 zyre_own_groups = Some (Ret_list (Some [''GLOBAL'', ''node1 group of one''])))
     \<and> (\<forall>t. te_reply env t 1 zyre_peer_groups = Some (Ret_list (Some [''GLOBAL'', ''node2 group of one''])))
     \<and> (\<forall>t. te_reply env t 2 (zyre_peer_header_value u ''X-HELLO'') = Some (Ret_string ''World''))
     \<and> (\<forall>t. te_reply env t 2 (zyre_peer_address u) = Some (Ret_string endpoint))"

lemma plain_setup:
  assumes "plain_answers env u v endpoint"
  shows "\<exists>w'. steps (zyre_test_first env verbose @ zyre_test_second env verbose @ zyre_test_queries env verbose) w = Inr w'
    \<and> tw_inbox w' = tw_inbox w \<and> tw_printed w' = tw_printed w"
proof -
  have ok: "setup_works env" "uuid_known env 1 u" "uuid_known env 2 v" "u \<noteq> v" using assms by (simp_all add: plain_answers_def)
  have "\<not> streq u v" using ok by (simp add: uuid_known_def streq_iff)
  moreover have "te_reply env t (Suc 0) zyre_uuid = Some (Ret_string u)" "te_reply env t 2 zyre_uuid = Some (Ret_string v)" for t
    using ok by (simp_all add: uuid_known_def)
  ultimately show ?thesis using setup_worksD [OF ok(1)] assms
    by (simp add: plain_answers_def zyre_test_first_def zyre_test_second_def zyre_test_queries_def step_simps
      uuids_differ_def header_read_def)
qed

lemma version_passes:
  assumes "major < 100" and "minor < 100" and "patch < 100"
  shows "version_test (major, minor, patch) w = Inr w"
proof -
  have v: "zyre_version (major, minor, patch) = 100 * (major * 100 + minor) + patch" by (simp add: zyre_version_def)
  have "zyre_version (major, minor, patch) div 100 = major * 100 + minor" unfolding v using assms(3) by simp
  moreover have "zyre_version (major, minor, patch) div 10000 = zyre_version (major, minor, patch) div 100 div 100"
    by (simp add: div_mult2_eq [symmetric])
  moreover have "zyre_version (major, minor, patch) mod 100 = patch" unfolding v mod_mult_self4 using assms(3) by (rule mod_less)
  ultimately show ?thesis using assms(1,2) by (simp add: version_test_def)
qed

text \<open>The events, of the form in which the model's nodes write them.\<close>

lemma plain_events:
  assumes "plain_answers env u v endpoint" and "c_string endpoint"
    and "te_unpack env packed = Some headers" and "zhash_lookup headers ''X-HELLO'' = Some ''World''"
    and "tw_inbox w 2 = multipart [str_bytes ''ENTER'', str_bytes u, str_bytes ''node1'', packed, str_bytes endpoint]
        @ group_event_frames ''JOIN'' p ''GLOBAL'' @ group_event_frames ''JOIN'' p ''node1 group of one''
        @ shout_frames u ''node1'' ''GLOBAL'' [content] @ later"
    and "tw_inbox w 1 = multipart [str_bytes ''ENTER'', str_bytes v, str_bytes ''node2'', packed', str_bytes endpoint']
        @ group_event_frames ''JOIN'' q ''GLOBAL'' @ group_event_frames ''JOIN'' q ''node2 group of one'' @ later'"
  shows "\<exists>w'. steps (zyre_test_events env) w = Inr w' \<and> tw_inbox w' 1 = later' \<and> tw_inbox w' 2 = later"
proof -
  have c: "c_string u" "c_string v" using assms(1) by (simp_all add: plain_answers_def uuid_known_def)
  have address: "te_reply env t 2 (zyre_peer_address u) = Some (Ret_string endpoint)" for t
    using assms(1) by (simp add: plain_answers_def)
  show ?thesis using assms(2-6) c address
    by (simp add: zyre_test_events_def expect_multipart enter_shown_def enter_named_def group_event_frames_def shout_frames_def
      sized_def any_message_def ask_def c_string_def del: multipart.simps)
qed

lemma plain_end:
  assumes "te_elapsed env < 200"
    and "tw_inbox w 2 = shout_frames u ''node1'' ''GLOBAL'' [content] @ multipart [str_bytes ''STOP'', str_bytes v, str_bytes ''node2''] @ later"
    and "tw_inbox w 1 = shout_frames v ''node2'' ''GLOBAL'' [content'] @ multipart [str_bytes ''EVASIVE'', str_bytes v, str_bytes ''node2''] @ later'"
  shows "\<exists>w'. steps (evasive_test env @ stop_test env) w = Inr w' \<and> tw_inbox w' 1 = later' \<and> tw_inbox w' 2 = later
    \<and> tw_printed w' = tw_printed w @ [''OK'']"
  using assms by (simp add: evasive_test_def stop_test_def step_simps expect_multipart shout_frames_def any_message_def
    c_string_def del: multipart.simps)

text \<open>
  Without CURVE the test passes on nodes that answer as documented and whose events are those of the model: each
  sees the other enter with a frame of headers, join two groups and shout, and node 1 finds the other evasive.
\<close>

lemma zyre_test_passes:
  assumes "plain_answers env u v endpoint" and "c_string endpoint" and "te_elapsed env < 200" and "\<not> te_has_curve env"
    and "major < 100" and "minor < 100" and "patch < 100"
    and "te_unpack env packed = Some headers" and "zhash_lookup headers ''X-HELLO'' = Some ''World''"
    and "tw_inbox w 2 = multipart [str_bytes ''ENTER'', str_bytes u, str_bytes ''node1'', packed, str_bytes endpoint]
        @ group_event_frames ''JOIN'' p ''GLOBAL'' @ group_event_frames ''JOIN'' p ''node1 group of one''
        @ shout_frames u ''node1'' ''GLOBAL'' [content] @ shout_frames u ''node1'' ''GLOBAL'' [content2]
        @ multipart [str_bytes ''STOP'', str_bytes v, str_bytes ''node2''] @ later"
    and "tw_inbox w 1 = multipart [str_bytes ''ENTER'', str_bytes v, str_bytes ''node2'', packed', str_bytes endpoint']
        @ group_event_frames ''JOIN'' q ''GLOBAL'' @ group_event_frames ''JOIN'' q ''node2 group of one''
        @ shout_frames v ''node2'' ''GLOBAL'' [content']
        @ multipart [str_bytes ''EVASIVE'', str_bytes v, str_bytes ''node2''] @ later'"
  shows "\<exists>w'. zyre_test (major, minor, patch) env verbose w = Inr w' \<and> last (tw_printed w') = ''OK''"
proof -
  obtain w1 where w1: "steps (say '' * zyre: '' # (if verbose then [say [CHR 0x0A]] else []) @ [version_test (major, minor, patch)]) w = Inr w1"
    "tw_inbox w1 = tw_inbox w" using version_passes [OF assms(5-7)] by (cases verbose) (auto simp: say_def)
  obtain w2 where w2: "steps (zyre_test_first env verbose @ zyre_test_second env verbose @ zyre_test_queries env verbose) w1 = Inr w2"
    "tw_inbox w2 = tw_inbox w" using plain_setup [OF assms(1)] w1(2) by metis
  obtain w3 where w3: "steps (zyre_test_events env) w2 = Inr w3"
    "tw_inbox w3 1 = shout_frames v ''node2'' ''GLOBAL'' [content'] @ multipart [str_bytes ''EVASIVE'', str_bytes v, str_bytes ''node2''] @ later'"
    "tw_inbox w3 2 = shout_frames u ''node1'' ''GLOBAL'' [content2] @ multipart [str_bytes ''STOP'', str_bytes v, str_bytes ''node2''] @ later"
    using plain_events [OF assms(1,2,8,9) assms(10,11) [folded w2(2)]] by blast
  obtain w4 where w4: "steps (evasive_test env @ stop_test env) w3 = Inr w4" "tw_printed w4 = tw_printed w3 @ [''OK'']"
    using plain_end [OF assms(3) w3(3,2)] by blast
  have "zyre_test (major, minor, patch) env verbose w = steps ((say '' * zyre: '' # (if verbose then [say [CHR 0x0A]] else [])
      @ [version_test (major, minor, patch)]) @ (zyre_test_first env verbose @ zyre_test_second env verbose @ zyre_test_queries env verbose)
      @ zyre_test_events env @ evasive_test env @ stop_test env) w"
    using assms(4) by (simp only: zyre_test_def zyre_plain_test_def if_False append_Nil2 append_assoc append_Cons)
  also have "\<dots> = Inr w4"
    unfolding steps_then [OF w1(1)] steps_then [OF w2(1)] steps_then [OF w3(1)] by (rule w4(1))
  finally show ?thesis using w4(2) by simp
qed

end
