(* ===== verification/Zyre_Node_Destroy.thy ===== *)
theory Zyre_Node_Destroy
  imports Zyre_Runs
begin

text \<open>
  The end of a node (\<open>zyre_node_destroy\<close> in \<open>src/zyre_node.c\<close>, \<open>zyre_peer_destroy\<close> in \<open>src/zyre_peer.c\<close>). The
  table of peers destroys each peer object it holds; groups, elections, lists and strings belong to the node
  alone and go with it. What can go wrong is a peer freed twice, or one or its mailbox left over.
\<close>

text \<open>
  Destroying a peer follows its pointer, closes its mailbox if it is connected, and frees it. The second
  component collects the mailboxes that were not closed: sockets nobody can reach any more.
\<close>

definition zyre_peer_destroy :: "addr \<Rightarrow> peer_heap \<times> mailbox list \<Rightarrow> (peer_heap \<times> mailbox list) outcome" where
  "zyre_peer_destroy a = (\<lambda>(heap, open_left). and_then (deref a heap) (\<lambda>p.
     Inr (heap(a := None), open_left @ (case p_mailbox (zyre_peer_disconnect p) of None \<Rightarrow> [] | Some mb \<Rightarrow> [mb]))))"

text \<open>
  What is left of the node: the poller, the tables, the inbox with what waits there, the actors for beacons and
  gossip and the strings are gone. The outbox is closed, but what was written to it can still be read.
\<close>

definition zyre_node_destroy :: "zyre_node \<Rightarrow> (zyre_node \<times> mailbox list) outcome" where
  "zyre_node_destroy self =
     (let self = self\<lparr>n_poller := []\<rparr> in
      and_then (each (\<lambda>item. zyre_peer_destroy (snd item)) (n_peers self) (n_heap self, [])) (\<lambda>(heap, open_left).
      let self = self\<lparr>n_heap := heap, n_peers := [], n_peer_groups := [], n_own_groups := [], n_headers := [],
                      n_inbox := [], n_beacon := None, n_gossip := None\<rparr>;
          self = self\<lparr>n_endpoint := None, n_gossip_bind := None, n_gossip_connect := None, n_secret_key := None,
                      n_public_key := None, n_zap_domain := [], n_advertised_endpoint := None, n_ephemeral_port := None, n_name := []\<rparr>
      in Inr (self, open_left)))"

text \<open>The end we want: no peer object is left, and no mailbox is open.\<close>

definition ends_clean :: "zyre_node \<Rightarrow> bool" where
  "ends_clean self \<longleftrightarrow> (\<exists>s. zyre_node_destroy self = Inr (s, []) \<and> n_heap s = (\<lambda>_. None) \<and> n_outbox s = n_outbox self)"

lemma peer_destroy_ok:
  "heap a = Some p \<Longrightarrow> peer_ok p \<Longrightarrow> zyre_peer_destroy a (heap, open_left) = Inr (heap(a := None), open_left)"
  by (auto simp: zyre_peer_destroy_def zyre_peer_disconnect_def peer_ok_def)

lemma peers_destroy_ok:
  assumes "distinct (map snd items)" and "\<forall>item \<in> set items. \<exists>p. heap (snd item) = Some p \<and> peer_ok p"
  shows "each (\<lambda>item. zyre_peer_destroy (snd item)) items (heap, open_left)
    = Inr (\<lambda>a. if a \<in> snd ` set items then None else heap a, open_left)"
  using assms
proof (induction items arbitrary: heap)
  case (Cons item items)
  obtain p where "heap (snd item) = Some p" "peer_ok p" using Cons.prems(2) by auto
  then have e: "zyre_peer_destroy (snd item) (heap, open_left) = Inr (heap(snd item := None), open_left)"
    by (rule peer_destroy_ok)
  have "\<forall>i \<in> set items. \<exists>p. (heap(snd item := None)) (snd i) = Some p \<and> peer_ok p"
    using Cons.prems by (auto simp: image_iff)
  then have "each (\<lambda>item. zyre_peer_destroy (snd item)) items (heap(snd item := None), open_left)
      = Inr (\<lambda>a. if a \<in> snd ` set items then None else (heap(snd item := None)) a, open_left)"
    using Cons by simp
  then show ?case using e by (auto simp: fun_eq_iff)
qed simp

lemma node_destroy_ok:
  assumes "node_ok self" shows "ends_clean self"
proof -
  have "\<forall>item \<in> set (n_peers self). \<exists>p. n_heap self (snd item) = Some p \<and> peer_ok p"
    using filed_peer [OF assms] by (metis prod.collapse)
  note e = peers_destroy_ok [OF filed_distinct [OF node_okD(1) [OF assms]] this]
  have "(if a \<in> snd ` set (n_peers self) then None else n_heap self a) = None" for a
    using node_ok_live [OF assms, of a] by (cases "n_heap self a") auto
  then show ?thesis by (simp add: ends_clean_def zyre_node_destroy_def e fun_eq_iff)
qed

text \<open>A peer that is removed while the node runs is destroyed the same way.\<close>

lemma removal_destroys:
  assumes "node_ok self" and "zhash_lookup (n_peers self) key = Some a"
  shows "zyre_peer_destroy a (n_heap self, open_left) = Inr (n_heap (node_delete_peer key self), open_left)"
proof -
  have "(key, a) \<in> set (n_peers self)" using assms(2) by (simp add: zhash_lookup_def map_of_SomeD)
  then obtain p where "n_heap self a = Some p" "peer_ok p" using filed_peer [OF assms(1)] by metis
  then show ?thesis using assms(2) by (simp add: peer_destroy_ok node_delete_peer_def)
qed

text \<open>C2: the request that \<open>zyre_destroy\<close> sends ends the loop of the actor in every reachable state, and the node
  then frees everything it has: no peer object is freed twice or used after it was freed, none is left, and no
  mailbox is left open. The same holds when the loop is interrupted in any reachable state.\<close>

theorem node_ends_clean:
  assumes "actor_reachable self"
  shows "ends_clean self
    \<and> (\<exists>s. zyre_node_recv_api env (request_of (pipe_str ''$TERM'')) self = Inr s \<and> n_terminated s \<and> ends_clean s)"
proof -
  have ok: "node_ok self" by (rule reachable_ok [OF assms])
  have "zyre_node_recv_api env (request_of (pipe_str ''$TERM'')) self = Inr (self\<lparr>n_terminated := True\<rparr>)"
    by (simp add: zyre_node_recv_api_def request_of_def pipe_str_def pop_string_def api_settings_def api_network_def
      api_message_def api_query_def streq_iff c_string_def)
  moreover have "ends_clean (self\<lparr>n_terminated := True\<rparr>)" by (rule node_destroy_ok) (use ok in simp)
  ultimately show ?thesis using node_destroy_ok [OF ok] by simp
qed

theorem node_ends_clean_witness: "ends_clean sample_node \<and> n_heap sample_node 0 \<noteq> None"
proof -
  have "ends_clean sample_node" using node_ends_clean [OF sample_node_reachable] by (rule conjunct1)
  moreover have "case actor_run run_env sample_events sample_start of Inl e \<Rightarrow> False | Inr s \<Rightarrow> n_heap s 0 \<noteq> None" by code_simp
  then have "n_heap sample_node 0 \<noteq> None" by (auto simp: sample_node_def split: sum.splits)
  ultimately show ?thesis by simp
qed

end
