(* ===== verification/Spec2Isabelle.thy ===== *)
theory Spec2Isabelle
  imports Zre_Msg_Codec_Props Zyre_Peer_Props Zyre_Election Zyre_Group_Props Zyre_Node_Props Zyre_Event_Props
    Zyre_Discovery_Props Zyre_Node_Recv_Props Zyre_Membership_Props Zre_Msg_Zpl_Props
    Zyre_Query_Props Zyre_Quiet_Props Zyre_Inbox_Props Zyre_Client_Props Zyre_Meet_Props Zyre_Perf Zyre_Tools Zyre_Testers Zyre_Selftest
    Zyre_Wave_Joins Zyre_Wave_Pair Zyre_Wave_Props Zyre_Wave_Refine Zyre_Wave_Regroup Zyre_Leave_Refine Zyre_Talk_Props Zre_Msg_Test Zyre_Peer_Test
    Zyre_Class_Tests_Props Zyre_Node_Destroy
begin

text \<open>
  Zyre: a development for the C library under \<open>src/src\<close>.

  Zyre joins programs on a network into clusters of peers. An application holds a \<open>zyre_t\<close>; behind it a
  node runs as an actor with one inbox. It learns of other nodes from UDP beacons or from a gossip network,
  opens a mailbox to each, says HELLO, and then exchanges the messages of the ZRE protocol: whispers to one
  peer, shouts to a group, joins and leaves of groups, pings, and the messages of a leader election.

  \<^bold>\<open>The parts and where they are.\<close> Definitions keep the names of the C functions; a C function that is one long
  chain of cases is cut into one definition for each case, composed as the chain composes them.

  \<^item> \<open>Zyre_Prelude\<close>, \<open>C_Strings\<close>: outcomes of C functions (a value, or a fault: a failed assertion, a null
    pointer, a freed object, an overrun buffer, a division by zero), their rules (\<open>ensures\<close> for what holds if the function returns,
    \<open>yields\<close> for that it returns and what then holds), octets, C strings, \<open>atoi\<close>, \<open>%d\<close>.
  \<^item> \<open>Czmq\<close>: what the program uses of CZMQ and libzmq, which are not in the repository. Tables, lists and
    messages follow their documentation; whatever that leaves open is a field of the record \<open>env\<close>: the order
    of a table, the clock, what a socket accepts, what memory held before, keys and certificates. Every theorem
    holds for all environments, except where it names a law it needs.
  \<^item> \<open>Zre_Wire\<close>, \<open>Zre_Msg\<close>, \<open>Zre_Msg_Codec\<close>: \<open>zre_msg.c\<close>, the macros of the wire format, the message
    object, send, receive and encode. Lemmas in \<open>Zre_Msg_Codec_Facts\<close>, properties in \<open>Zre_Msg_Codec_Props\<close>:
    what is sent is what is received, measured sizes suffice, what is refused and what is wrongly accepted.
  \<^item> \<open>Zre_Msg_Zpl\<close>, \<open>Zre_Msg_Zpl_Props\<close>: \<open>zre_msg_zpl\<close> and \<open>zre_msg_new_zpl\<close> over a configuration tree
    whose operations are a parameter with documented laws; the round trip, and
    that it gives the same frames but for the order of the headers and stale octets of the size field.
  \<^item> \<open>Zyre_Peer\<close>, \<open>Zyre_Peer_Props\<close>: \<open>zyre_peer.c\<close>; connection, numbering, loss detection, timers; what a
    session delivers and when a loss is seen.
  \<^item> \<open>Zyre_Election\<close>: \<open>zyre_election.c\<close>. \<open>Zyre_Group\<close>, \<open>Zyre_Group_Props\<close>: \<open>zyre_group.c\<close>. \<open>Peer_Heap\<close>: peer
    objects are shared by the node's table, the groups, a group's leader and the father of an election, so they
    live in a heap. An address is never given out twice, so a pointer to a freed object is always told from a
    good one; following it is the fault \<open>Use_after_free\<close>.
  \<^item> \<open>Zyre_Node\<close>, \<open>Zyre_Node_Peers\<close>, \<open>Zyre_Node_Recv\<close>, \<open>Zyre_Node_Api\<close>, \<open>Zyre_Node_Actor\<close>: \<open>zyre_node.c\<close>; the
    record of the node, start and stop, peers and groups, the handlers of the messages, of the application's
    requests, of beacons, gossip and the timer, and the actor's loop. One turn of the loop is
    \<open>zyre_node_actor\<close>; what wakes it is the environment's choice, and \<open>actor_reachable\<close> holds of every state that
    any sequence of turns and arriving frames can lead to.
  \<^item> \<open>Zyre_Node_Inv\<close>, \<open>Zyre_Node_Recv_Inv\<close>, \<open>Zyre_Node_Actor_Inv\<close>: the invariant \<open>node_ok\<close> of the tables and its
    proof for each operation. \<open>Zyre_Kept\<close>, \<open>Zyre_Pipe\<close>: what only the application can change, and the contract
    of the replies. \<open>Zyre_Node_Total\<close>: when the operations on peers cannot fail, and what they leave behind.
  \<^item> \<open>Zyre_Removal\<close>: the whole effect of removing a peer in a node that contests no election.
  \<^item> \<open>Zyre_Wave\<close>: the election across the nodes of a group, as a specification: what the handlers of HELLO (for a
    group that it lists), ELECT and LEADER do to one group and what they send, and links between the members that
    keep the order. \<open>Zyre_Wave_Refine\<close> proves that the node's handlers do exactly this. \<open>Zyre_Wave_Inv\<close>,
    \<open>Zyre_Wave_Decided\<close>: the invariants of a group that does not change, before and after the decision.
    \<open>Zyre_Wave_Props\<close>: at most one leader, the lowest challenger; nobody waits for ever; the messages end.
    \<open>Zyre_Wave_Joins\<close>: runs of a group that is still forming, whose election gets stuck or ends with two leaders.
    \<open>Zyre_Wave_Runs\<close>: concrete runs.
  \<^item> \<open>Zyre_Wave_Leaves\<close>: the same with members that join, leave the group or stop: each member's seat also knows
    whether the node is in the group itself, beside whether it contests, and the handlers of JOIN and LEAVE and the
    removal of a peer ask for what the code asks for. \<open>Zyre_Leave_Refine\<close> proves that the node's handlers do this. Runs in
    which the group splits or stays without a leader. \<open>Zyre_Wave_Regroup\<close>: if all hear of the leave before
    anything of the new election, what follows is the election of a fixed group, started by those who contest.
    \<open>Zyre_Wave_Pair\<close>: two nodes that form a group by HELLO and JOIN; they agree on the lowest that challenged when
    neither or both were in it as they met, and there are runs without a leader when only one was, or when only
    one contests.
  \<^item> \<open>Zyre_Event\<close>, \<open>Zyre_Log\<close>, \<open>Zyre_Client\<close>: \<open>zyre.c\<close>, \<open>zyre_event.c\<close> and the printing functions. A request is the
    frames it writes to the pipe; \<open>Zyre_Client\<close> has the object with both ends of the pipe and the runs in which
    calls, replies, turns of the actor and arriving frames come in any order.
  \<^item> \<open>Zyre_Node_Destroy\<close>: the end of a node: every peer object is freed once, with its mailbox.
  \<^item> \<open>Zyre_Perf\<close>, \<open>Zyre_Tools\<close>, \<open>Zyre_Testers\<close>: the programs beside the library, \<open>perf_local.c\<close> and
    \<open>perf_remote.c\<close>, \<open>zpinger.c\<close>, \<open>ztester_beacon.c\<close> and \<open>ztester_gossip.c\<close>, as clients that read messages and
    write calls. The messages the performance test needs make it end; the testers count their nodes right.
  \<^item> \<open>Zre_Msg_Test\<close>, \<open>Zyre_Peer_Test\<close>: the self tests of messages, peers and groups, run on the model: they pass.
    \<open>Zyre_Class_Tests\<close>, \<open>Zyre_Main_Test\<close>: the tests of whole nodes (\<open>zyre_event_test\<close>, \<open>zyre_election_test\<close>,
    \<open>zyre_test\<close>) as programs of calls and checks over whatever the nodes answer; \<open>Zyre_Class_Tests_Props\<close>: they
    pass on the answers and events of the model's nodes, and the election test fails on a split election.
    \<open>Zyre_Selftest\<close>: the drivers, which run each test once.
  \<^item> \<open>Zyre_Runs\<close>: runs of the actor on concrete input, for the witnesses.

  \<^bold>\<open>Properties that span parts.\<close> \<open>Zyre_Node_Props\<close>: the tables are always sound; what whispers, shouts, joins and
  leaves do to the mailboxes. \<open>Zyre_Talk_Props\<close>: whatever one application calls, the application of another node
  reads exactly the events of these calls. \<open>Zyre_Node_Recv_Props\<close>: what messages of other peers do, whole handlers from the
  frames on the inbox to the events on the outbox. \<open>Zyre_Meet_Props\<close>: two nodes exchange their HELLOs and know each
  other. \<open>Zyre_Membership_Props\<close>: two nodes, the actor of one fed with
  what the actor of the other wrote, agree on the groups of the sender. \<open>Zyre_Own_Props\<close>, \<open>Zyre_Client_Props\<close>: the
  application reads back its own joins and leaves, and no call gets the reply of another.
  \<open>Zyre_Discovery_Props\<close>: both ends of beacons and gossip agree. \<open>Zyre_Event_Props\<close>: both ends of the pipe and
  of the outbox agree, given that unpacking a packed table gives its entries back. \<open>Zyre_Query_Props\<close>: queries and the dump show the tables. \<open>Zyre_Quiet_Props\<close>: the check of
  quiet peers, whatever entries its loop misses. \<open>Zyre_Inbox_Props\<close>: reading the inbox ends. \<open>Zyre_Father_Props\<close>: an election can use a freed peer.

  \<^bold>\<open>Interfaces.\<close> The locale \<open>dictionary\<close> (what a lookup returns after each operation on a table) is interpreted on
  the tables of \<open>Czmq\<close>, \<open>wire_field\<close> (a getter takes back what a putter wrote) on the six kinds of field,
  \<open>object_store\<close> (fetching after storing, loops over distinct objects) on the heap of peers, \<open>kept_by_node\<close>
  (relations that follow from equal settings hold across every turn the application did not ask for) on the link
  to the application and on the node's own groups, and \<open>invariant_of\<close> (an initial predicate and a step relation)
  on the actor with three invariants, on the election of a fixed group, once more for who contests it, and on the
  halls of a pair that forms a group.

  \<^bold>\<open>Bounds.\<close> Nothing runs on fuel. Loops over tables are recursions over the list of their entries; the loop that
  checks quiet peers may miss entries after a removal, as a traversal of a table under deletion may, and
  \<open>env_skips\<close> says which. The actor's loop has no end of its own and is a step relation. Numbers have the width
  of the C types where they wrap: 8 bits for the status, 16 for the sequence number, 32 for counts on the wire,
  64 for times; times are compared as signed numbers, as the code does.

  \<^bold>\<open>Restrictions.\<close> Theorems that say an operation on peers returns without a fault ask for \<open>uncontested\<close>, that the
  application contests no election: a contested group keeps its leader as a pointer that the removal of the peer
  does not clear. Theorems about the invariant have no such restriction; they say what holds whenever the code
  returns. A null string under \<open>%s\<close> is printed as \<open>(null)\<close>, as the C library of GNU does. A request is read whole, as the
  sockets deliver multipart messages whole.

  \<^bold>\<open>Not modelled.\<close> Creation and destruction of sockets and of the actor's thread; the freeing of strings, lists and
  messages, which belong to one owner (of shared objects there are only the peers); \<open>zyre_set_interface\<close>, which
  sets a global of CZMQ, \<open>zyre_socket\<close> and \<open>zyre_socket_zmq\<close>, which only hand something out; the one-line log
  messages of the verbose mode; the macros for octet blocks and 8-octet numbers in \<open>zre_msg.c\<close>, which no message
  uses; \<open>zyre_node_test\<close>, which makes a node and frees it; the actors of CZMQ that \<open>zyre_test\<close> starts; of the programs
  beside the library their threads, clocks and measured times; bindings, examples, generated headers and build
  files.
\<close>

end
